(* ===== verification/Sshm_Prelude.thy ===== *)
theory Sshm_Prelude
  imports Main "HOL-Library.Multiset" "HOL-Library.List_Lexorder" "HOL-Library.Char_ord"
begin

text \<open>
  Shared vocabulary of the development: the collections of facts the component
  proofs draw on, the names of the model's basic types, and the generic facts on
  lists and sums that several components use.

  Go strings and byte slices are byte lists (\<open>string\<close>); Go's string order is the
  lexicographic order on bytes, which is what the imported orders on characters
  and lists give. A fallible Go function that returns \<open>(T, error)\<close> is a function
  into \<open>'e + 'a\<close> (\<open>Inl\<close> the error).
\<close>

named_theorems guards \<open>what the early returns of an operation establish\<close>
named_theorems frames \<open>which part of a state an operation leaves alone\<close>
named_theorems scan_bounds \<open>cursor bounds of the byte scanners\<close>

type_synonym bytes = string
type_synonym gotime = int \<comment> \<open>nanoseconds since the zero value of time.Time\<close>

section \<open>Results\<close>

fun bind_result :: "'e + 'a \<Rightarrow> ('a \<Rightarrow> 'e + 'b) \<Rightarrow> 'e + 'b" where
  "bind_result (Inl e) f = Inl e"
| "bind_result (Inr a) f = f a"

definition is_ok :: "'e + 'a \<Rightarrow> bool" where
  "is_ok r \<longleftrightarrow> (case r of Inl _ \<Rightarrow> False | Inr _ \<Rightarrow> True)"

lemma is_ok_simps [simp]: "is_ok (Inl e) = False" "is_ok (Inr a) = True"
  by (simp_all add: is_ok_def)

lemma bind_result_eq_Inr:
  "bind_result r f = Inr b \<longleftrightarrow> (\<exists>a. r = Inr a \<and> f a = Inr b)"
  by (cases r) auto

lemma map_sum_eq_Inr: "map_sum f g r = Inr b \<longleftrightarrow> (\<exists>a. r = Inr a \<and> b = g a)"
  by (cases r) auto

section \<open>Loops over a collection in any order\<close>

text \<open>
  A Go \<open>range\<close> over a map visits its keys in an unspecified order. Where the body's
  effects for two different keys commute, every order gives the same final state.
\<close>

lemma fold_any_order:
  assumes "\<And>x y s. x \<in> set xs \<Longrightarrow> y \<in> set xs \<Longrightarrow> x \<noteq> y \<Longrightarrow> f x (f y s) = f y (f x s)"
    and "distinct xs" "distinct ys" "set xs = set ys"
  shows "fold f xs s = fold f ys s"
proof -
  have "mset xs = mset ys" using assms(2-4) by (simp add: set_eq_iff_mset_eq_distinct)
  moreover have "f x \<circ> f y = f y \<circ> f x" if "x \<in> set xs" "y \<in> set xs" for x y
    using assms(1)[OF that] by (cases "x = y") (auto simp: fun_eq_iff)
  ultimately have "fold f xs = fold f ys" by (intro fold_multiset_equiv) auto
  then show ?thesis by simp
qed

text \<open>Collecting into a slice and sorting afterwards forgets the order of collection.\<close>

lemma sort_any_order:
  fixes xs ys :: "'a::linorder list"
  assumes "distinct xs" "distinct ys" "set xs = set ys"
  shows "sort xs = sort ys"
  using assms by (metis set_eq_iff_mset_eq_distinct mset_sort properties_for_sort sorted_sort)

lemma sort_filter_any_order:
  fixes xs ys :: "'a::linorder list"
  assumes "distinct xs" "distinct ys" "set xs = set ys"
  shows "sort (filter P xs) = sort (filter P ys)"
  by (rule sort_any_order) (use assms in auto)

lemma fold_invariant_on:
  assumes "I s" and "\<And>x s. x \<in> set xs \<Longrightarrow> I s \<Longrightarrow> I (f x s)"
  shows "I (fold f xs s)"
  using assms by (induction xs arbitrary: s) auto

text \<open>What a loop does to the part of the state that only one element touches.\<close>

lemma fold_observe:
  assumes "\<And>k s. k \<noteq> i \<Longrightarrow> obs (f k s) = obs s"
    and "\<And>s s'. obs s = obs s' \<Longrightarrow> obs (f i s) = obs (f i s')"
    and "distinct ks"
  shows "obs (fold f ks s) = (if i \<in> set ks then obs (f i s) else obs s)"
  using assms(3)
proof (induction ks arbitrary: s)
  case (Cons k ks)
  then show ?case using assms(1)[of k s] assms(2)[of "f k s" s] by (cases "k = i") auto
qed simp

lemma takeWhile_keep: "set t \<inter> A = {} \<Longrightarrow> takeWhile (\<lambda>c. c \<notin> A) t = t"
  by (subst takeWhile_eq_all_conv) auto

section \<open>Systems of steps\<close>

text \<open>A component whose operations interleave is a relation on its states. An invariant that every step keeps holds in every reachable
  state, and what the steps keep under it stays.\<close>

locale step_system =
  fixes initial :: "'s \<Rightarrow> bool" and step :: "'s \<Rightarrow> 's \<Rightarrow> bool" and inv :: "'s \<Rightarrow> bool"
  assumes initial_inv: "initial s \<Longrightarrow> inv s"
    and step_inv: "inv s \<Longrightarrow> step s s' \<Longrightarrow> inv s'"
begin

lemma inv_later: "inv s \<Longrightarrow> step\<^sup>*\<^sup>* s s' \<Longrightarrow> inv s'"
  by (rotate_tac, induction rule: rtranclp_induct) (auto intro: step_inv)

lemma reachable_inv: "initial s \<Longrightarrow> step\<^sup>*\<^sup>* s s' \<Longrightarrow> inv s'"
  by (rule inv_later[OF initial_inv])

lemma stable_later:
  assumes stable: "\<And>s s'. inv s \<Longrightarrow> P s \<Longrightarrow> step s s' \<Longrightarrow> P s'"
    and "initial s0" "step\<^sup>*\<^sup>* s0 s" "P s" "step\<^sup>*\<^sup>* s s'"
  shows "P s'"
proof -
  have "inv s" by (rule reachable_inv[OF assms(2,3)])
  from assms(5) this assms(4) show ?thesis
    by (induction rule: converse_rtranclp_induct) (auto intro: step_inv stable)
qed

end

end
