(* ===== verification/Go_Strings.thy ===== *)
theory Go_Strings
  imports Sshm_Prelude "HOL-Library.Sublist"
begin

text \<open>
  The functions of Go's \<open>strings\<close>, \<open>strconv\<close> and \<open>unicode/utf8\<close> packages that the
  modelled code calls, on byte strings. White space and letter case are those of
  ASCII: a multi-byte rune is carried through unchanged byte by byte. Counting runes
  counts the bytes that are not UTF-8 continuation bytes, which is the number of
  runes of a well-formed string.
\<close>

section \<open>Bytes\<close>

definition is_space :: "char \<Rightarrow> bool" where
  "is_space c \<longleftrightarrow> c = CHR '' '' \<or> (CHR 0x09 \<le> c \<and> c \<le> CHR 0x0D)"

definition is_lower :: "char \<Rightarrow> bool" where
  "is_lower c \<longleftrightarrow> CHR ''a'' \<le> c \<and> c \<le> CHR ''z''"

definition is_upper :: "char \<Rightarrow> bool" where
  "is_upper c \<longleftrightarrow> CHR ''A'' \<le> c \<and> c \<le> CHR ''Z''"

definition is_digit :: "char \<Rightarrow> bool" where
  "is_digit c \<longleftrightarrow> CHR ''0'' \<le> c \<and> c \<le> CHR ''9''"

definition lower_byte :: "char \<Rightarrow> char" where
  "lower_byte c = (if is_upper c then char_of (of_char c + (32 :: nat)) else c)"

definition is_continuation :: "char \<Rightarrow> bool" where
  "is_continuation c \<longleftrightarrow> CHR 0x80 \<le> c \<and> c \<le> CHR 0xBF"

definition newline :: char where "newline = CHR 0x0A"
definition NUL_CR_LF :: string where "NUL_CR_LF = [CHR 0x00, CHR 0x0D, CHR 0x0A]"

section \<open>Package strings\<close>

definition HasPrefix :: "string \<Rightarrow> string \<Rightarrow> bool" where
  "HasPrefix s p \<longleftrightarrow> prefix p s"

definition HasSuffix :: "string \<Rightarrow> string \<Rightarrow> bool" where
  "HasSuffix s p \<longleftrightarrow> suffix p s"

definition TrimPrefix :: "string \<Rightarrow> string \<Rightarrow> string" where
  "TrimPrefix s p = (if HasPrefix s p then drop (length p) s else s)"

definition TrimSuffix :: "string \<Rightarrow> string \<Rightarrow> string" where
  "TrimSuffix s p = (if HasSuffix s p then take (length s - length p) s else s)"

definition Trim_if :: "(char \<Rightarrow> bool) \<Rightarrow> string \<Rightarrow> string" where
  "Trim_if p s = rev (dropWhile p (rev (dropWhile p s)))"

definition TrimSpace :: "string \<Rightarrow> string" where
  "TrimSpace s = Trim_if is_space s"

definition Trim :: "string \<Rightarrow> string \<Rightarrow> string" where
  "Trim s cutset = Trim_if (\<lambda>c. c \<in> set cutset) s"

definition ToLower :: "string \<Rightarrow> string" where
  "ToLower s = map lower_byte s"

definition EqualFold :: "string \<Rightarrow> string \<Rightarrow> bool" where
  "EqualFold s t \<longleftrightarrow> ToLower s = ToLower t"

definition ContainsAny :: "string \<Rightarrow> string \<Rightarrow> bool" where
  "ContainsAny s cs \<longleftrightarrow> list_ex (\<lambda>c. c \<in> set cs) s"

fun Contains :: "string \<Rightarrow> string \<Rightarrow> bool" where
  "Contains [] sub = (sub = [])"
| "Contains (c # s) sub = (prefix sub (c # s) \<or> Contains s sub)"

fun Index :: "string \<Rightarrow> string \<Rightarrow> nat option" where
  "Index [] sub = (if sub = [] then Some 0 else None)"
| "Index (c # s) sub = (if prefix sub (c # s) then Some 0 else map_option Suc (Index s sub))"

definition IndexByte :: "string \<Rightarrow> char \<Rightarrow> nat option" where
  "IndexByte s c = Index s [c]"

fun LastIndexAny :: "string \<Rightarrow> string \<Rightarrow> nat option" where
  "LastIndexAny [] cs = None"
| "LastIndexAny (c # s) cs =
    (case LastIndexAny s cs of
       Some i \<Rightarrow> Some (Suc i)
     | None \<Rightarrow> if c \<in> set cs then Some 0 else None)"

function FieldsFunc :: "(char \<Rightarrow> bool) \<Rightarrow> string \<Rightarrow> string list" where
  "FieldsFunc p s =
    (case dropWhile p s of
       [] \<Rightarrow> []
     | c # t \<Rightarrow> (c # takeWhile (\<lambda>x. \<not> p x) t) # FieldsFunc p (dropWhile (\<lambda>x. \<not> p x) t))"
  by pat_completeness auto
termination
proof (relation "measure (\<lambda>(p, s). length s)")
  fix p :: "char \<Rightarrow> bool" and s c t
  assume "dropWhile p s = c # t"
  then have "length t < length s" using length_dropWhile_le[of p s] by simp
  moreover have "length (dropWhile (\<lambda>x. \<not> p x) t) \<le> length t" by (rule length_dropWhile_le)
  ultimately show "((p, dropWhile (\<lambda>x. \<not> p x) t), p, s) \<in> measure (\<lambda>(p, s). length s)" by simp
qed simp

declare FieldsFunc.simps [simp del]

definition Fields :: "string \<Rightarrow> string list" where
  "Fields s = FieldsFunc is_space s"

fun Join :: "string list \<Rightarrow> string \<Rightarrow> string" where
  "Join [] sep = []"
| "Join [x] sep = x"
| "Join (x # y # ys) sep = x @ sep @ Join (y # ys) sep"

fun Split_byte :: "string \<Rightarrow> char \<Rightarrow> string list" where
  "Split_byte [] c = [[]]"
| "Split_byte (x # s) c =
    (if x = c then [] # Split_byte s c
     else (case Split_byte s c of
             [] \<Rightarrow> [[x]]
           | w # ws \<Rightarrow> (x # w) # ws))"

function ReplaceAll :: "string \<Rightarrow> string \<Rightarrow> string \<Rightarrow> string" where
  "ReplaceAll s old new =
    (if s = [] \<or> old = [] then s
     else if prefix old s then new @ ReplaceAll (drop (length old) s) old new
     else hd s # ReplaceAll (tl s) old new)"
  by pat_completeness auto
termination
  by (relation "measure (\<lambda>(s, old, new). length s)") (auto simp: neq_Nil_conv)

declare ReplaceAll.simps [simp del]

definition Cut :: "string \<Rightarrow> char \<Rightarrow> string \<times> string \<times> bool" where
  "Cut s c = (case IndexByte s c of
                None \<Rightarrow> (s, [], False)
              | Some i \<Rightarrow> (take i s, drop (Suc i) s, True))"

section \<open>Packages strconv and unicode/utf8\<close>

fun digits_of :: "nat \<Rightarrow> string" where
  "digits_of n =
    (if n < 10 then [char_of (48 + n)] else digits_of (n div 10) @ [char_of (48 + n mod 10)])"

declare digits_of.simps [simp del]

definition Itoa :: "int \<Rightarrow> string" where
  "Itoa i = (if i < 0 then ''-'' @ digits_of (nat (- i)) else digits_of (nat i))"

definition digit_value :: "char \<Rightarrow> nat" where
  "digit_value c = of_char c - 48"

definition decimal_value :: "string \<Rightarrow> nat" where
  "decimal_value s = foldl (\<lambda>n c. 10 * n + digit_value c) 0 s"

definition all_digits :: "string \<Rightarrow> bool" where
  "all_digits s \<longleftrightarrow> s \<noteq> [] \<and> list_all is_digit s"

text \<open>\<open>ParseUint(s, 10, 64)\<close>: the value and whether there was no error. A number that
  does not fit saturates, with an error.\<close>

definition ParseUint64 :: "string \<Rightarrow> nat \<times> bool" where
  "ParseUint64 s =
    (if \<not> all_digits s then (0, False)
     else if decimal_value s < 2 ^ 64 then (decimal_value s, True)
     else (2 ^ 64 - 1, False))"

text \<open>\<open>Atoi\<close> on a 64-bit platform.\<close>

definition Atoi :: "string \<Rightarrow> int \<times> bool" where
  "Atoi s =
    (let neg = (s \<noteq> [] \<and> hd s = CHR ''-'');
         body = (if s \<noteq> [] \<and> (hd s = CHR ''-'' \<or> hd s = CHR ''+'') then tl s else s);
         n = int (decimal_value body)
     in if \<not> all_digits body then (0, False)
        else if neg then (if n \<le> 2 ^ 63 then (- n, True) else (- (2 ^ 63), False))
        else (if n < 2 ^ 63 then (n, True) else (2 ^ 63 - 1, False)))"

definition RuneCountInString :: "string \<Rightarrow> nat" where
  "RuneCountInString s = length (filter (\<lambda>c. \<not> is_continuation c) s)"

section \<open>Package path/filepath\<close>

text \<open>The lexical rules of \<open>Clean\<close> and \<open>Join\<close> with the separator of Unix: empty and dot
  elements go away, a double dot removes the element before it, and cannot climb above a
  root. The first argument of \<open>clean_parts\<close> says whether the path is rooted, the second
  holds the kept elements in reverse.\<close>

fun clean_parts :: "bool \<Rightarrow> string list \<Rightarrow> string list \<Rightarrow> string list" where
  "clean_parts rooted kept [] = rev kept"
| "clean_parts rooted kept (p # ps) =
    (if p = [] \<or> p = ''.'' then clean_parts rooted kept ps
     else if p = ''..'' then
       (case kept of
          [] \<Rightarrow> clean_parts rooted (if rooted then [] else [p]) ps
        | k # ks \<Rightarrow> clean_parts rooted (if k = ''..'' then p # kept else ks) ps)
     else clean_parts rooted (p # kept) ps)"

definition path_Clean :: "string \<Rightarrow> string" where
  "path_Clean path =
    (let rooted = HasPrefix path ''/''; body = Join (clean_parts rooted [] (Split_byte path (CHR ''/''))) ''/''
     in if rooted then ''/'' @ body else if body = [] then ''.'' else body)"

definition path_Join :: "string \<Rightarrow> string \<Rightarrow> string" where
  "path_Join a b =
    (let elems = filter (\<lambda>e. e \<noteq> []) [a, b] in if elems = [] then [] else path_Clean (Join elems ''/''))"

section \<open>Laws\<close>

lemma Contains_sublist: "Contains s sub \<longleftrightarrow> sublist sub s"
  by (induction s) (auto simp: sublist_Cons_right)

lemma Contains_refl [simp]: "Contains s s"
  by (simp add: Contains_sublist)

lemma Index_Some_bound: "Index s sub = Some i \<Longrightarrow> i + length sub \<le> length s"
  by (induction s arbitrary: i) (auto split: if_splits dest: prefix_length_le)

lemma Index_Some_prefix: "Index s sub = Some i \<Longrightarrow> prefix sub (drop i s)"
  by (induction s arbitrary: i) (auto split: if_splits)

lemma IndexByte_Some_bound [scan_bounds]: "IndexByte s c = Some i \<Longrightarrow> i < length s"
  unfolding IndexByte_def using Index_Some_bound[of s "[c]" i] by simp

lemma LastIndexAny_bound: "LastIndexAny s cs = Some i \<Longrightarrow> i < length s"
  by (induction s arbitrary: i) (auto split: option.splits if_splits)

lemma ContainsAny_iff: "ContainsAny s cs \<longleftrightarrow> (\<exists>c \<in> set s. c \<in> set cs)"
  by (auto simp: ContainsAny_def list_ex_iff)

lemma dropWhile_head: "dropWhile p s = c # t \<Longrightarrow> \<not> p c"
  by (metis dropWhile_eq_Cons_conv)

lemma FieldsFunc_blank: "dropWhile p s = [] \<Longrightarrow> FieldsFunc p s = []"
  by (subst FieldsFunc.simps) (simp del: dropWhile_eq_Nil_conv)

lemma FieldsFunc_step:
  "dropWhile p s = c # t \<Longrightarrow>
   FieldsFunc p s = (c # takeWhile (\<lambda>x. \<not> p x) t) # FieldsFunc p (dropWhile (\<lambda>x. \<not> p x) t)"
  by (subst FieldsFunc.simps) simp

lemma FieldsFunc_word:
  "w \<in> set (FieldsFunc p s) \<Longrightarrow> w \<noteq> [] \<and> (\<forall>c \<in> set w. \<not> p c \<and> c \<in> set s)"
proof (induction p s rule: FieldsFunc.induct)
  case (1 p s)
  show ?case
  proof (cases "dropWhile p s")
    case Nil
    with "1.prems" show ?thesis by (simp add: FieldsFunc_blank)
  next
    case (Cons c t)
    note nc = dropWhile_head[OF Cons]
    have sub: "set (c # t) \<subseteq> set s" using Cons by (metis set_dropWhileD subsetI)
    have rest: "set (dropWhile (\<lambda>x. \<not> p x) t) \<subseteq> set s"
      using sub by (auto dest: set_dropWhileD)
    from Cons "1.prems" consider (word) "w = c # takeWhile (\<lambda>x. \<not> p x) t"
      | (later) "w \<in> set (FieldsFunc p (dropWhile (\<lambda>x. \<not> p x) t))"
      by (auto simp: FieldsFunc_step)
    then show ?thesis
    proof cases
      case word
      then show ?thesis using nc sub by (auto dest: set_takeWhileD)
    next
      case later
      from "1.IH"[OF Cons later] rest show ?thesis by blast
    qed
  qed
qed

lemma FieldsFunc_skip: "\<forall>c \<in> set sep. p c \<Longrightarrow> FieldsFunc p (sep @ s) = FieldsFunc p s"
  by (subst (1 2) FieldsFunc.simps) (simp add: dropWhile_append2)

lemma FieldsFunc_one:
  assumes "x \<noteq> []" "\<forall>c \<in> set x. \<not> p c" "s = [] \<or> p (hd s)"
  shows "FieldsFunc p (x @ s) = x # FieldsFunc p s"
proof -
  obtain c t where x: "x = c # t" using assms(1) by (cases x) auto
  have "takeWhile (\<lambda>x. \<not> p x) (t @ s) = t" "dropWhile (\<lambda>x. \<not> p x) (t @ s) = s"
    using assms x by (cases s; auto simp: takeWhile_append dropWhile_append3 dropWhile_append)+
  then show ?thesis using assms x by (simp add: FieldsFunc_step[where c = c and t = "t @ s"])
qed

text \<open>Splitting what was joined gives the words back: the normal form is stable.\<close>

lemma FieldsFunc_Join:
  assumes "\<forall>c \<in> set sep. p c" and "sep \<noteq> []"
    and "\<forall>w \<in> set ws. w \<noteq> [] \<and> (\<forall>c \<in> set w. \<not> p c)"
  shows "FieldsFunc p (Join ws sep) = ws"
  using assms
proof (induction ws sep rule: Join.induct)
  case (1 sep)
  then show ?case by (simp add: FieldsFunc_blank)
next
  case (2 x sep)
  then show ?case using FieldsFunc_one[of x p "[]"] by (simp add: FieldsFunc_blank)
next
  case (3 x y ys sep)
  then have "p (hd sep)" by simp
  with 3 show ?case by (simp add: FieldsFunc_one FieldsFunc_skip)
qed

lemma Fields_word: "w \<in> set (Fields s) \<Longrightarrow> w \<noteq> [] \<and> (\<forall>c \<in> set w. \<not> is_space c)"
  unfolding Fields_def using FieldsFunc_word by blast

lemma Fields_normal: "Fields (Join (Fields s) '' '') = Fields s"
  unfolding Fields_def
proof (rule FieldsFunc_Join)
  show "\<forall>c \<in> set '' ''. is_space c" by (simp add: is_space_def)
  show "\<forall>w \<in> set (FieldsFunc is_space s). w \<noteq> [] \<and> (\<forall>c \<in> set w. \<not> is_space c)"
    using FieldsFunc_word by blast
qed simp

lemma dropWhile_fixed_suffix:
  assumes "t = [] \<or> \<not> p (hd t)"
  shows "dropWhile p (rev (dropWhile p (rev t))) = rev (dropWhile p (rev t))"
  using assms by (cases t) (auto simp: dropWhile_append)

lemma Trim_if_idem: "Trim_if p (Trim_if p s) = Trim_if p s"
proof -
  have "dropWhile p s = [] \<or> \<not> p (hd (dropWhile p s))" using hd_dropWhile[of p s] by blast
  then show ?thesis by (simp add: Trim_if_def dropWhile_fixed_suffix)
qed

lemma TrimSpace_idem [simp]: "TrimSpace (TrimSpace s) = TrimSpace s"
  by (simp add: TrimSpace_def Trim_if_idem)

lemma TrimSpace_Nil [simp]: "TrimSpace [] = []"
  by (simp add: TrimSpace_def Trim_if_def)

lemma lower_byte_idem [simp]: "lower_byte (lower_byte c) = lower_byte c"
proof (cases "is_upper c")
  case True
  then have "of_char c \<in> {65..90 :: nat}"
    by (auto simp: is_upper_def less_eq_char_def)
  then have "\<not> is_upper (char_of (of_char c + (32::nat)))"
    by (auto simp: is_upper_def less_eq_char_def)
  then show ?thesis by (simp add: lower_byte_def)
qed (simp add: lower_byte_def)

lemma ToLower_idem [simp]: "ToLower (ToLower s) = ToLower s"
  by (simp add: ToLower_def)

lemma is_space_code: "is_space c \<longleftrightarrow> of_char c = (32 :: nat) \<or> 9 \<le> (of_char c :: nat) \<and> of_char c \<le> (13 :: nat)"
proof -
  have "c = CHR '' '' \<longleftrightarrow> of_char c = (of_char (CHR '' '') :: nat)" by (simp only: of_char_eq_iff)
  then show ?thesis by (simp add: is_space_def less_eq_char_def)
qed

lemma is_space_lower [simp]: "is_space (lower_byte c) = is_space c"
proof (cases "is_upper c")
  case True
  then have "65 \<le> (of_char c :: nat) \<and> of_char c \<le> (90 :: nat)" by (simp add: is_upper_def less_eq_char_def)
  then show ?thesis using True by (simp add: is_space_code lower_byte_def)
qed (simp add: lower_byte_def)

lemma TrimSpace_ToLower: "TrimSpace (ToLower s) = ToLower (TrimSpace s)"
  by (simp add: TrimSpace_def Trim_if_def ToLower_def dropWhile_map comp_def rev_map)

lemma length_ToLower [simp]: "length (ToLower s) = length s"
  by (simp add: ToLower_def)

lemma Split_byte_nonempty [simp]: "Split_byte s c \<noteq> []"
  by (induction s) (auto split: list.splits)

lemma Split_byte_Join: "Join (Split_byte s c) [c] = s"
proof (induction s)
  case (Cons x s)
  obtain w ws where sp: "Split_byte s c = w # ws" by (cases "Split_byte s c") auto
  with Cons show ?case by (cases ws) auto
qed simp

lemma Split_byte_part: "w \<in> set (Split_byte s c) \<Longrightarrow> c \<notin> set w"
  by (induction s arbitrary: w) (auto split: if_splits list.splits)

lemma ParseUint64_bound: "fst (ParseUint64 s) < 2 ^ 64"
  by (simp add: ParseUint64_def)

lemma Fields_single:
  assumes "w \<noteq> []" "\<forall>c \<in> set w. \<not> is_space c"
  shows "Fields ('' '' @ w) = [w]"
proof -
  have "\<forall>c \<in> set '' ''. is_space c" by (simp add: is_space_def)
  then have "Fields ('' '' @ w) = FieldsFunc is_space w" unfolding Fields_def by (rule FieldsFunc_skip)
  then show ?thesis using FieldsFunc_one[of w is_space "[]"] assms by (simp add: FieldsFunc_blank)
qed

lemma IndexByte_first:
  assumes "\<forall>k < n. s ! k \<noteq> c" "n < length s" "s ! n = c"
  shows "IndexByte s c = Some n"
  using assms unfolding IndexByte_def
proof (induction s arbitrary: n)
  case (Cons x s)
  show ?case
  proof (cases n)
    case (Suc m)
    have "Index s [c] = Some m"
    proof (rule Cons.IH)
      show "\<forall>k < m. s ! k \<noteq> c" using Cons.prems(1) Suc by (metis Suc_less_eq nth_Cons_Suc)
    qed (use Cons.prems Suc in auto)
    moreover have "x \<noteq> c" using Cons.prems(1) Suc by force
    ultimately show ?thesis using Suc by simp
  qed (use Cons.prems in simp)
qed simp

section \<open>Numbers and their decimal text\<close>

lemma digit_value_char: "is_digit c \<Longrightarrow> digit_value c < 10 \<and> char_of (48 + digit_value c) = c"
proof -
  assume "is_digit c"
  then have "48 \<le> (of_char c :: nat)" "of_char c \<le> (57 :: nat)" by (auto simp: is_digit_def less_eq_char_def)
  moreover from this have "char_of (48 + digit_value c) = (char_of (of_char c :: nat) :: char)"
    by (simp add: digit_value_def)
  ultimately show ?thesis by (simp add: digit_value_def)
qed

lemma char_of_48: "char_of (48 :: nat) = CHR ''0''"
  by code_simp

lemma decimal_value_snoc: "decimal_value (s @ [c]) = 10 * decimal_value s + digit_value c"
  by (simp add: decimal_value_def)

lemma decimal_value_pos:
  assumes "s \<noteq> []" "list_all is_digit s" "hd s \<noteq> CHR ''0''"
  shows "0 < decimal_value s"
  using assms
proof (induction s rule: rev_induct)
  case (snoc c s)
  show ?case
  proof (cases "s = []")
    case True
    then have "is_digit c" "c \<noteq> CHR ''0''" using snoc.prems by auto
    then have "digit_value c \<noteq> 0" using digit_value_char[of c] char_of_48 by (intro notI) auto
    then show ?thesis using True by (simp add: decimal_value_def)
  qed (use snoc in \<open>auto simp: decimal_value_snoc\<close>)
qed simp

lemma digits_of_decimal:
  assumes "all_digits s" "length s = 1 \<or> hd s \<noteq> CHR ''0''"
  shows "digits_of (decimal_value s) = s"
  using assms
proof (induction s rule: rev_induct)
  case (snoc c s)
  have c: "digit_value c < 10" "char_of (48 + digit_value c) = c" using snoc.prems digit_value_char[of c] by (auto simp: all_digits_def)
  show ?case
  proof (cases "s = []")
    case True
    then show ?thesis using c by (subst digits_of.simps) (simp add: decimal_value_def)
  next
    case False
    then have s: "all_digits s" "hd s \<noteq> CHR ''0''" using snoc.prems by (auto simp: all_digits_def)
    then have "0 < decimal_value s" by (intro decimal_value_pos) (auto simp: all_digits_def)
    then show ?thesis using snoc.IH s c by (subst digits_of.simps) (simp add: decimal_value_snoc)
  qed
qed (simp add: all_digits_def)

lemma char_of_digit: "n < 10 \<Longrightarrow> is_digit (char_of (48 + n)) \<and> digit_value (char_of (48 + n)) = n"
  by (simp add: is_digit_def digit_value_def less_eq_char_def)

lemma decimal_digits_of: "decimal_value (digits_of n) = n \<and> all_digits (digits_of n)"
proof (induction n rule: digits_of.induct)
  case (1 n)
  have d: "is_digit (char_of (48 + n mod 10))" "digit_value (char_of (48 + n mod 10)) = n mod 10"
    using char_of_digit[of "n mod 10"] by simp_all
  show ?case
  proof (cases "n < 10")
    case True
    then show ?thesis using d by (subst (1 2) digits_of.simps) (simp add: decimal_value_def all_digits_def)
  next
    case False
    then have ih: "decimal_value (digits_of (n div 10)) = n div 10" "all_digits (digits_of (n div 10))" using 1 by auto
    have "digits_of n = digits_of (n div 10) @ [char_of (48 + n mod 10)]" using False by (subst digits_of.simps) simp
    then show ?thesis using ih d by (simp add: decimal_value_snoc all_digits_def)
  qed
qed

lemma all_digits_no_sign: "all_digits s \<Longrightarrow> hd s \<noteq> CHR ''-'' \<and> hd s \<noteq> CHR ''+'' \<and> s \<noteq> []"
  by (cases s) (auto simp: all_digits_def is_digit_def less_eq_char_def)

lemma Atoi_Itoa: "0 \<le> i \<Longrightarrow> i < 2 ^ 63 \<Longrightarrow> Atoi (Itoa i) = (i, True)"
  using decimal_digits_of[of "nat i"] all_digits_no_sign[of "digits_of (nat i)"]
  by (simp add: Atoi_def Itoa_def Let_def)

section \<open>Separators\<close>

lemma LastIndexAny_none: "LastIndexAny s cs = None \<longleftrightarrow> set s \<inter> set cs = {}"
  by (induction s) (auto split: option.splits)

lemma LastIndexAny_split:
  "c \<in> set cs \<Longrightarrow> set b \<inter> set cs = {} \<Longrightarrow> LastIndexAny (a @ c # b) cs = Some (length a)"
  by (induction a) (auto simp: LastIndexAny_none[THEN iffD2] split: option.splits)

lemma IndexByte_split: "c \<notin> set a \<Longrightarrow> IndexByte (a @ c # b) c = Some (length a)"
  unfolding IndexByte_def by (induction a) auto

lemma Itoa_digits: "0 \<le> i \<Longrightarrow> c \<in> set (Itoa i) \<Longrightarrow> is_digit c"
  using decimal_digits_of[of "nat i"] by (simp add: Itoa_def all_digits_def list_all_iff)

lemma digit_chars: "is_digit c \<Longrightarrow> c \<notin> {CHR '':'', CHR ''['', CHR '']'', CHR ''@''} \<and> \<not> is_space c"
  by (auto simp: is_digit_def is_space_def less_eq_char_def)

lemma dropWhile_none: "\<forall>c \<in> set s. \<not> p c \<Longrightarrow> dropWhile p s = s"
  by (cases s) auto

lemma TrimSpace_none: "\<forall>c \<in> set s. \<not> is_space c \<Longrightarrow> TrimSpace s = s"
  by (simp add: TrimSpace_def Trim_if_def dropWhile_none)

end
