(* ===== verification/Go_Regexp.thy ===== *)
theory Go_Regexp
  imports Go_Strings
begin

text \<open>
  Go's \<open>regexp\<close> package, as far as the modelled code uses it: leftmost-first matching
  with greedy and lazy repetition, capture groups, and the anchors \<open>^\<close>, \<open>$\<close> (of text
  and of line) and \<open>\b\<close>. \<open>run\<close> lists the ways an expression can match at a position,
  the preferred one first; \<open>matches\<close> is the meaning of an expression as a relation
  between start and end, and \<open>run_iff\<close> says that \<open>run\<close> computes it.
  Expressions read bytes: a class or \<open>.\<close> consumes one byte.
\<close>

section \<open>Expressions\<close>

datatype re =
    Eps
  | Cls "char \<Rightarrow> bool"
  | Seq re re
  | Alt re re
  | Star bool re \<comment> \<open>the flag is true for greedy repetition\<close>
  | Grp nat re
  | TextStart
  | TextEnd
  | LineStart
  | LineEnd
  | WordB

definition is_word :: "char \<Rightarrow> bool" where
  "is_word c \<longleftrightarrow> is_lower c \<or> is_upper c \<or> is_digit c \<or> c = CHR ''_''"

definition word_at :: "string \<Rightarrow> nat \<Rightarrow> bool" where
  "word_at s i \<longleftrightarrow> i < length s \<and> is_word (s ! i)"

definition word_boundary :: "string \<Rightarrow> nat \<Rightarrow> bool" where
  "word_boundary s i \<longleftrightarrow> (0 < i \<and> word_at s (i - 1)) \<noteq> word_at s i"

definition line_start :: "string \<Rightarrow> nat \<Rightarrow> bool" where
  "line_start s i \<longleftrightarrow> i = 0 \<or> (i \<le> length s \<and> s ! (i - 1) = newline)"

definition line_end :: "string \<Rightarrow> nat \<Rightarrow> bool" where
  "line_end s i \<longleftrightarrow> i = length s \<or> (i < length s \<and> s ! i = newline)"

section \<open>What an expression matches\<close>

inductive matches :: "re \<Rightarrow> string \<Rightarrow> nat \<Rightarrow> nat \<Rightarrow> bool" where
  eps: "matches Eps s i i"
| cls: "i < length s \<Longrightarrow> p (s ! i) \<Longrightarrow> matches (Cls p) s i (Suc i)"
| seq: "matches r1 s i j \<Longrightarrow> matches r2 s j k \<Longrightarrow> matches (Seq r1 r2) s i k"
| altl: "matches r1 s i j \<Longrightarrow> matches (Alt r1 r2) s i j"
| altr: "matches r2 s i j \<Longrightarrow> matches (Alt r1 r2) s i j"
| star_nil: "matches (Star g r) s i i"
| star_more: "matches r s i j \<Longrightarrow> matches (Star g r) s j k \<Longrightarrow> matches (Star g r) s i k"
| grp: "matches r s i j \<Longrightarrow> matches (Grp n r) s i j"
| text_start: "matches TextStart s 0 0"
| text_end: "matches TextEnd s (length s) (length s)"
| line_start: "line_start s i \<Longrightarrow> matches LineStart s i i"
| line_end: "line_end s i \<Longrightarrow> matches LineEnd s i i"
| word_b: "word_boundary s i \<Longrightarrow> matches WordB s i i"

inductive_simps matches_simps [simp]:
  "matches Eps s i j" "matches (Cls p) s i j" "matches (Seq r1 r2) s i j"
  "matches (Alt r1 r2) s i j" "matches (Grp n r) s i j" "matches TextStart s i j"
  "matches TextEnd s i j" "matches LineStart s i j" "matches LineEnd s i j" "matches WordB s i j"

inductive_cases matches_starE: "matches (Star g r) s i k"

section \<open>The matcher\<close>

text \<open>A matcher state: the cursor and the captures so far, latest first.\<close>

type_synonym mstate = "nat \<times> (nat \<times> nat \<times> nat) list"

function star_run :: "(mstate \<Rightarrow> mstate list) \<Rightarrow> bool \<Rightarrow> nat \<Rightarrow> mstate \<Rightarrow> mstate list" where
  "star_run f g n st =
    (let more = concat (map (star_run f g n) (filter (\<lambda>t. fst st < fst t \<and> fst t \<le> n) (f st)))
     in if g then more @ [st] else st # more)"
  by pat_completeness auto
termination
  by (relation "measure (\<lambda>(f, g, n, st). n - fst st)") auto

declare star_run.simps [simp del]

fun run :: "re \<Rightarrow> string \<Rightarrow> mstate \<Rightarrow> mstate list" where
  "run Eps s st = [st]"
| "run (Cls p) s st = (if fst st < length s \<and> p (s ! fst st) then [(Suc (fst st), snd st)] else [])"
| "run (Seq r1 r2) s st = concat (map (run r2 s) (run r1 s st))"
| "run (Alt r1 r2) s st = run r1 s st @ run r2 s st"
| "run (Star g r) s st = star_run (run r s) g (length s) st"
| "run (Grp n r) s st = map (\<lambda>t. (fst t, (n, fst st, fst t) # snd t)) (run r s st)"
| "run TextStart s st = (if fst st = 0 then [st] else [])"
| "run TextEnd s st = (if fst st = length s then [st] else [])"
| "run LineStart s st = (if line_start s (fst st) then [st] else [])"
| "run LineEnd s st = (if line_end s (fst st) then [st] else [])"
| "run WordB s st = (if word_boundary s (fst st) then [st] else [])"

section \<open>The matcher computes the meaning\<close>

lemma matches_bounds [scan_bounds]: "matches r s i j \<Longrightarrow> i \<le> length s \<Longrightarrow> i \<le> j \<and> j \<le> length s"
  by (induction rule: matches.induct) auto

lemma star_run_sound:
  assumes "t \<in> set (star_run f g n st)"
    and "\<And>u v. v \<in> set (f u) \<Longrightarrow> P (fst u) (fst v)"
  shows "P\<^sup>*\<^sup>* (fst st) (fst t)"
  using assms
proof (induction f g n st rule: star_run.induct)
  case (1 f g n st)
  from "1.prems"(1) consider "t = st"
    | u where "u \<in> set (f st)" "fst st < fst u" "fst u \<le> n" "t \<in> set (star_run f g n u)"
    by (subst (asm) star_run.simps) (auto simp: Let_def split: if_splits)
  then show ?case
  proof cases
    case (2 u)
    then have "P\<^sup>*\<^sup>* (fst u) (fst t)" using "1.IH"[of u] "1.prems"(2) by auto
    moreover have "P (fst st) (fst u)" using 2 "1.prems"(2) by blast
    ultimately show ?thesis by (metis converse_rtranclp_into_rtranclp)
  qed simp
qed

lemma star_matches_rtranclp: "(matches r s)\<^sup>*\<^sup>* i j \<longleftrightarrow> matches (Star g r) s i j"
proof
  show "(matches r s)\<^sup>*\<^sup>* i j \<Longrightarrow> matches (Star g r) s i j"
    by (induction rule: converse_rtranclp_induct) (auto intro: matches.intros)
  have "matches q s i j \<Longrightarrow> q = Star g r \<Longrightarrow> (matches r s)\<^sup>*\<^sup>* i j" for q
    by (induction rule: matches.induct) (auto intro: converse_rtranclp_into_rtranclp)
  then show "matches (Star g r) s i j \<Longrightarrow> (matches r s)\<^sup>*\<^sup>* i j" by blast
qed

lemma run_sound: "t \<in> set (run r s st) \<Longrightarrow> matches r s (fst st) (fst t)"
proof (induction r arbitrary: st t)
  case (Star g r)
  then have "(matches r s)\<^sup>*\<^sup>* (fst st) (fst t)"
    by (auto intro: star_run_sound[where P = "matches r s"])
  then show ?case by (rule star_matches_rtranclp [THEN iffD1])
qed (auto split: if_splits simp: matches.intros, blast+)

lemma star_run_complete:
  assumes "P\<^sup>*\<^sup>* i j" "fst st = i" "i \<le> n"
    and sound: "\<And>a b. P a b \<Longrightarrow> a \<le> n \<Longrightarrow> a \<le> b \<and> b \<le> n"
    and step: "\<And>u b. P (fst u) b \<Longrightarrow> fst u \<le> n \<Longrightarrow> \<exists>v \<in> set (f u). fst v = b"
  shows "\<exists>t \<in> set (star_run f g n st). fst t = j"
  using assms(1-3)
proof (induction arbitrary: st rule: converse_rtranclp_induct)
  case base
  have "st \<in> set (star_run f g n st)" by (subst star_run.simps) (simp add: Let_def)
  with base show ?case by blast
next
  case (step a b)
  have ab: "a \<le> b" "b \<le> n" using step.hyps(1) step.prems sound by blast+
  obtain v where v: "v \<in> set (f st)" "fst v = b"
    using assms(5)[of st b] step.hyps(1) step.prems by auto
  obtain t where t: "t \<in> set (star_run f g n v)" "fst t = j"
    using step.IH[of v] v ab by auto
  show ?case
  proof (cases "a = b")
    case True
    then show ?thesis using step.IH[of st] step.prems by auto
  next
    case False
    then have "v \<in> set (filter (\<lambda>t. fst st < fst t \<and> fst t \<le> n) (f st))"
      using v ab step.prems by simp
    then have "t \<in> set (concat (map (star_run f g n) (filter (\<lambda>t. fst st < fst t \<and> fst t \<le> n) (f st))))"
      using t(1) by (simp del: set_filter) blast
    then have "t \<in> set (star_run f g n st)"
      by (cases g; subst star_run.simps) (simp_all add: Let_def del: set_filter set_concat)
    then show ?thesis using t by blast
  qed
qed

lemma run_complete:
  "matches r s (fst st) j \<Longrightarrow> fst st \<le> length s \<Longrightarrow> \<exists>t \<in> set (run r s st). fst t = j"
proof (induction r arbitrary: st j)
  case (Seq r1 r2)
  then obtain k where k: "matches r1 s (fst st) k" "matches r2 s k j" by auto
  then obtain t where "t \<in> set (run r1 s st)" "fst t = k" using Seq by blast
  moreover then obtain u where "u \<in> set (run r2 s t)" "fst u = j"
    using Seq.IH(2)[of t j] k matches_bounds Seq.prems(2) by auto
  ultimately show ?case by auto
next
  case (Star g r)
  then show ?case
    using star_run_complete[where P = "matches r s" and f = "run r s" and n = "length s"
        and i = "fst st" and j = j and st = st and g = g]
      star_matches_rtranclp[of r s "fst st" j g] matches_bounds
    by simp
next
  case (Alt r1 r2)
  then consider "matches r1 s (fst st) j" | "matches r2 s (fst st) j" by auto
  then show ?case using Alt.IH(1)[OF _ Alt.prems(2)] Alt.IH(2)[OF _ Alt.prems(2)]
    by cases (metis UnCI run.simps(4) set_append)+
next
  case (Grp n r)
  then have "matches r s (fst st) j" by simp
  from Grp.IH[OF this Grp.prems(2)] obtain t where "t \<in> set (run r s st)" "fst t = j" by blast
  then show ?case by force
qed auto

theorem run_iff:
  "i \<le> length s \<Longrightarrow> (\<exists>cs'. (j, cs') \<in> set (run r s (i, cs))) \<longleftrightarrow> matches r s i j"
  using run_sound[of _ r s "(i, cs)"] run_complete[of r s "(i, cs)" j] by force

section \<open>Searching\<close>

text \<open>The leftmost match at or after a position, and the preferred one there.\<close>

function search_from :: "re \<Rightarrow> string \<Rightarrow> nat \<Rightarrow> (nat \<times> mstate) option" where
  "search_from r s i =
    (if length s < i then None
     else case run r s (i, []) of
            st # _ \<Rightarrow> Some (i, st)
          | [] \<Rightarrow> search_from r s (Suc i))"
  by pat_completeness auto
termination
  by (relation "measure (\<lambda>(r, s, i). Suc (length s) - i)") auto

declare search_from.simps [simp del]

definition MatchString :: "re \<Rightarrow> string \<Rightarrow> bool" where
  "MatchString r s \<longleftrightarrow> search_from r s 0 \<noteq> None"

fun capture :: "(nat \<times> nat \<times> nat) list \<Rightarrow> nat \<Rightarrow> (nat \<times> nat) option" where
  "capture [] n = None"
| "capture ((m, a, b) # cs) n = (if m = n then Some (a, b) else capture cs n)"

definition slice :: "string \<Rightarrow> nat \<Rightarrow> nat \<Rightarrow> string" where
  "slice s a b = take (b - a) (drop a s)"

text \<open>A submatch that did not take part is the empty string, as in Go.\<close>

definition submatch :: "string \<Rightarrow> (nat \<times> nat \<times> nat) list \<Rightarrow> nat \<Rightarrow> string" where
  "submatch s cs n = (case capture cs n of None \<Rightarrow> [] | Some (a, b) \<Rightarrow> slice s a b)"

lemma search_from_Some:
  "search_from r s i = Some (a, j, cs) \<Longrightarrow>
   i \<le> a \<and> a \<le> j \<and> j \<le> length s \<and> (j, cs) \<in> set (run r s (a, []))"
proof (induction r s i rule: search_from.induct)
  case (1 r s i)
  show ?case
  proof (cases "run r s (i, [])")
    case Nil
    then show ?thesis using 1 by (subst (asm) (2) search_from.simps) (auto split: if_splits)
  next
    case (Cons st sts)
    then have *: "\<not> length s < i" "a = i" "st = (j, cs)"
      using "1.prems" by (subst (asm) search_from.simps; auto split: if_splits)+
    then have "matches r s i j" using run_sound[of st r s "(i, [])"] Cons by simp
    then show ?thesis using * Cons matches_bounds by auto
  qed
qed

lemma search_from_None:
  "search_from r s i = None \<longleftrightarrow> (\<forall>a \<ge> i. a \<le> length s \<longrightarrow> (\<forall>j. \<not> matches r s a j))"
proof (induction r s i rule: search_from.induct)
  case (1 r s i)
  show ?case
  proof (cases "length s < i")
    case True
    then show ?thesis by (subst search_from.simps) auto
  next
    case False
    then have here: "run r s (i, []) = [] \<longleftrightarrow> (\<forall>j. \<not> matches r s i j)"
      using run_iff[of i s _ r "[]"] by (metis list.set_intros(1) neq_Nil_conv list.distinct(1)
        surj_pair empty_iff list.set(1) not_less)
    show ?thesis
    proof (cases "run r s (i, [])")
      case Nil
      then have "search_from r s i = search_from r s (Suc i)"
        using False by (subst search_from.simps) simp
      also have "\<dots> = None \<longleftrightarrow> (\<forall>a \<ge> Suc i. a \<le> length s \<longrightarrow> (\<forall>j. \<not> matches r s a j))"
        using 1 False Nil by simp
      finally show ?thesis using here Nil by (metis Suc_leI le_neq_implies_less Suc_leD)
    next
      case (Cons st sts)
      then have "search_from r s i \<noteq> None" using False by (subst search_from.simps) simp
      moreover have "\<exists>j. matches r s i j" using here Cons by simp
      ultimately show ?thesis using False by (metis leI order_refl)
    qed
  qed
qed

lemma MatchString_iff: "MatchString r s \<longleftrightarrow> (\<exists>a j. a \<le> length s \<and> matches r s a j)"
  by (auto simp: MatchString_def search_from_None)

section \<open>All matches and replacement\<close>

text \<open>
  \<open>FindAll...\<close>: successive non-overlapping matches. After an empty match the search
  resumes one byte further, and an empty match right at the end of the previous match
  is not reported.
\<close>

function find_all_from :: "re \<Rightarrow> string \<Rightarrow> nat \<Rightarrow> nat option \<Rightarrow> (nat \<times> mstate) list" where
  "find_all_from r s i prev =
    (case search_from r s i of
       None \<Rightarrow> []
     | Some (a, j, cs) \<Rightarrow>
         (let rest = find_all_from r s (if a = j then Suc j else max j (Suc i)) (Some j)
          in if a = j \<and> prev = Some a then rest else (a, j, cs) # rest))"
  by pat_completeness auto
termination
  by (relation "measure (\<lambda>(r, s, i, prev). Suc (length s) - i)")
     (auto dest: search_from_Some)

declare find_all_from.simps [simp del]

definition FindAll :: "re \<Rightarrow> string \<Rightarrow> (nat \<times> mstate) list" where
  "FindAll r s = find_all_from r s 0 None"

fun splice :: "string \<Rightarrow> nat \<Rightarrow> (nat \<times> nat \<times> string) list \<Rightarrow> string" where
  "splice s i [] = drop i s"
| "splice s i ((a, b, w) # es) = slice s i a @ w @ splice s b es"

definition ReplaceAllString :: "re \<Rightarrow> string \<Rightarrow> ((nat \<times> nat \<times> nat) list \<Rightarrow> string) \<Rightarrow> string" where
  "ReplaceAllString r s expand =
    splice s 0 (map (\<lambda>(a, j, cs). (a, j, expand cs)) (FindAll r s))"

text \<open>Spans are in order, disjoint and inside the string.\<close>

fun spans_from :: "nat \<Rightarrow> nat \<Rightarrow> (nat \<times> nat) list \<Rightarrow> bool" where
  "spans_from n i [] = (i \<le> n)"
| "spans_from n i ((a, b) # ps) = (i \<le> a \<and> a \<le> b \<and> b \<le> n \<and> spans_from n b ps)"

lemma spans_from_mono: "spans_from n i ps \<Longrightarrow> i' \<le> i \<Longrightarrow> spans_from n i' ps"
  by (cases ps) auto

lemma find_all_from_spans:
  "i \<le> length s \<Longrightarrow> spans_from (length s) i (map (\<lambda>(a, j, cs). (a, j)) (find_all_from r s i prev))"
proof (induction r s i prev rule: find_all_from.induct)
  case (1 r s i prev)
  show ?case
  proof (cases "search_from r s i")
    case None
    then show ?thesis using 1 by (subst find_all_from.simps) simp
  next
    case (Some m)
    obtain a j cs where m: "m = (a, j, cs)" by (cases m)
    with Some have b: "i \<le> a" "a \<le> j" "j \<le> length s" by (auto dest: search_from_Some)
    define i' where "i' = (if a = j then Suc j else max j (Suc i))"
    let ?rest = "find_all_from r s i' (Some j)"
    have ji: "j \<le> i'" by (simp add: i'_def)
    have rest: "spans_from (length s) j (map (\<lambda>(a, j, cs). (a, j)) ?rest)"
    proof (cases "i' \<le> length s")
      case True
      then have "spans_from (length s) i' (map (\<lambda>(a, j, cs). (a, j)) ?rest)"
        using "1.IH" Some m i'_def by (auto split: if_splits)
      then show ?thesis using ji spans_from_mono by blast
    next
      case False
      then have "search_from r s i' = None" by (subst search_from.simps) simp
      then have "?rest = []" by (subst find_all_from.simps) simp
      then show ?thesis using b by simp
    qed
    have "find_all_from r s i prev = (if a = j \<and> prev = Some a then ?rest else (a, j, cs) # ?rest)"
      by (subst find_all_from.simps) (simp add: Some m i'_def Let_def)
    then show ?thesis using b rest by (auto intro: spans_from_mono)
  qed
qed

lemma FindAll_spans: "spans_from (length s) 0 (map (\<lambda>(a, j, cs). (a, j)) (FindAll r s))"
  unfolding FindAll_def by (rule find_all_from_spans) simp

text \<open>A capture lies inside the match it belongs to.\<close>

definition captures_in :: "mstate \<Rightarrow> mstate \<Rightarrow> bool" where
  "captures_in st t \<longleftrightarrow> fst st \<le> fst t \<and>
    (\<forall>(n, a, b) \<in> set (snd t). (n, a, b) \<in> set (snd st) \<or> fst st \<le> a \<and> a \<le> b \<and> b \<le> fst t)"

lemma captures_in_refl [simp]: "captures_in st st"
  by (auto simp: captures_in_def)

lemma captures_in_trans: "captures_in a b \<Longrightarrow> captures_in b c \<Longrightarrow> captures_in a c"
  unfolding captures_in_def by (fastforce simp: case_prod_beta)

lemma star_run_captures:
  assumes "t \<in> set (star_run f g n st)" and "\<And>u v. v \<in> set (f u) \<Longrightarrow> captures_in u v"
  shows "captures_in st t"
  using assms
proof (induction f g n st rule: star_run.induct)
  case (1 f g n st)
  from "1.prems"(1) consider "t = st"
    | u where "u \<in> set (f st)" "fst st < fst u" "fst u \<le> n" "t \<in> set (star_run f g n u)"
    by (subst (asm) star_run.simps) (auto simp: Let_def split: if_splits)
  then show ?case
  proof cases
    case (2 u)
    then have "captures_in u t" using "1.IH"[of u] "1.prems"(2) by auto
    with 2 "1.prems"(2) captures_in_trans show ?thesis by blast
  qed simp
qed

lemma run_captures: "t \<in> set (run r s st) \<Longrightarrow> captures_in st t"
proof (induction r arbitrary: st t)
  case (Seq r1 r2)
  then obtain u where "u \<in> set (run r1 s st)" "t \<in> set (run r2 s u)" by auto
  then show ?case using Seq.IH captures_in_trans by blast
next
  case (Star g r)
  then have "t \<in> set (star_run (run r s) g (length s) st)" by simp
  then show ?case using Star.IH by (rule star_run_captures)
next
  case (Grp n r)
  then obtain u where "u \<in> set (run r s st)" "t = (fst u, (n, fst st, fst u) # snd u)" by auto
  then show ?case using Grp.IH[of u st] by (auto simp: captures_in_def)
next
  case (Alt r1 r2)
  then consider "t \<in> set (run r1 s st)" | "t \<in> set (run r2 s st)" by auto
  then show ?case by cases (rule Alt.IH, assumption)+
qed (auto simp: captures_in_def split: if_splits)

lemma capture_in_set: "capture cs n = Some (a, b) \<Longrightarrow> (n, a, b) \<in> set cs"
  by (induction cs n rule: capture.induct) (auto split: if_splits)

lemma find_all_from_runs:
  "(a, j, cs) \<in> set (find_all_from r s i prev) \<Longrightarrow> (j, cs) \<in> set (run r s (a, []))"
proof (induction r s i prev rule: find_all_from.induct)
  case (1 r s i prev)
  show ?case
  proof (cases "search_from r s i")
    case None
    with "1.prems" show ?thesis by (subst (asm) find_all_from.simps) simp
  next
    case (Some m)
    obtain a' j' cs' where m: "m = (a', j', cs')" by (cases m)
    let ?rest = "find_all_from r s (if a' = j' then Suc j' else max j' (Suc i)) (Some j')"
    have "(a, j, cs) = m \<or> (a, j, cs) \<in> set ?rest"
      using "1.prems" Some m by (subst (asm) find_all_from.simps) (auto simp: Let_def split: if_splits)
    then show ?thesis using "1.IH" Some m by (auto dest: search_from_Some)
  qed
qed

lemma FindAll_capture:
  assumes "(a, j, cs) \<in> set (FindAll r s)" "capture cs n = Some (b, e)"
  shows "a \<le> b \<and> b \<le> e \<and> e \<le> j"
  using assms run_captures[of "(j, cs)" r s "(a, [])"] capture_in_set[OF assms(2)]
  unfolding FindAll_def captures_in_def by (auto dest!: find_all_from_runs)

definition capture_spans :: "re \<Rightarrow> string \<Rightarrow> nat \<Rightarrow> (nat \<times> nat) list" where
  "capture_spans r s n = List.map_filter (\<lambda>(a, j, cs). capture cs n) (FindAll r s)"

lemma capture_spans_spans: "spans_from (length s) 0 (capture_spans r s n)"
proof -
  have "spans_from (length s) i (map (\<lambda>(a, j, cs). (a, j)) ms) \<Longrightarrow>
      (\<And>a j cs b e. (a, j, cs) \<in> set ms \<Longrightarrow> capture cs n = Some (b, e) \<Longrightarrow> a \<le> b \<and> b \<le> e \<and> e \<le> j) \<Longrightarrow>
      spans_from (length s) i (List.map_filter (\<lambda>(a, j, cs). capture cs n) ms)" for ms i
  proof (induction ms arbitrary: i)
    case Nil
    then show ?case by (simp add: List.map_filter_simps)
  next
    case (Cons m ms)
    obtain a j cs where m: "m = (a, j, cs)" by (cases m)
    have rest: "spans_from (length s) j (List.map_filter (\<lambda>(a, j, cs). capture cs n) ms)"
    proof (rule Cons.IH)
      show "spans_from (length s) j (map (\<lambda>(a, j, cs). (a, j)) ms)" using Cons.prems(1) m by simp
    qed (use Cons.prems(2) in \<open>meson list.set_intros(2)\<close>)
    show ?case
    proof (cases "capture cs n")
      case None
      then show ?thesis using rest Cons.prems(1) m by (auto simp: List.map_filter_simps intro: spans_from_mono)
    next
      case (Some be)
      obtain b e where be: "be = (b, e)" by (cases be)
      then have "a \<le> b \<and> b \<le> e \<and> e \<le> j"
        using Cons.prems(2)[of a j cs b e] m Some by simp
      then show ?thesis using rest Cons.prems(1) m Some be
        by (auto simp: List.map_filter_simps intro: spans_from_mono)
    qed
  qed
  then show ?thesis using FindAll_spans[of s r] FindAll_capture unfolding capture_spans_def by blast
qed

section \<open>Rewriting spans in place\<close>

text \<open>
  The masking functions walk their spans from the last to the first and replace each in
  the text rewritten so far, so that the offsets of the spans still to come stay valid.
  The outcome is that of splicing all the replacements into the original text at once.
\<close>

definition rewrite_backwards :: "(string \<Rightarrow> string option) \<Rightarrow> (nat \<times> nat) list \<Rightarrow> string \<Rightarrow> string" where
  "rewrite_backwards f spans s =
    foldr (\<lambda>(a, b) t. case f (slice t a b) of
              None \<Rightarrow> t | Some w \<Rightarrow> take a t @ w @ drop b t) spans s"

definition replaced :: "(string \<Rightarrow> string option) \<Rightarrow> string \<Rightarrow> string" where
  "replaced f m = (case f m of None \<Rightarrow> m | Some w \<Rightarrow> w)"

lemma slice_append_drop: "i \<le> a \<Longrightarrow> slice s i a @ drop a s = drop i s"
  unfolding slice_def by (metis append_take_drop_id drop_drop le_add_diff_inverse2)

lemma slice_of_take: 
  assumes "b \<le> n" "take n s = take n t"
  shows "slice s a b = slice t a b"
proof -
  have "take b s = take b t" using assms by (metis min.absorb1 take_take)
  then show ?thesis by (simp add: slice_def flip: drop_take)
qed

lemma rewrite_backwards_from:
  assumes "spans_from (length s) i spans"
  shows "take i (rewrite_backwards f spans s) = take i s \<and>
    drop i (rewrite_backwards f spans s) =
      splice s i (map (\<lambda>(a, b). (a, b, replaced f (slice s a b))) spans)"
  using assms
proof (induction spans arbitrary: i)
  case Nil
  then show ?case by (simp add: rewrite_backwards_def)
next
  case (Cons p ps)
  obtain a b where p: "p = (a, b)" by (cases p)
  let ?r = "rewrite_backwards f ps s"
  have ord: "i \<le> a" "a \<le> b" "b \<le> length s" using Cons.prems p by auto
  have ih: "take b ?r = take b s" "drop b ?r = splice s b (map (\<lambda>(a, b). (a, b, replaced f (slice s a b))) ps)"
    using Cons p by auto
  have sl: "slice ?r a b = slice s a b" "slice ?r i a = slice s i a"
    using slice_of_take[OF _ ih(1)] ord by auto
  have take_a: "take a ?r = take a s" using ih(1) ord by (metis min.absorb1 take_take)
  then have take_i: "take i ?r = take i s" using ord by (metis min.absorb1 take_take)
  have step: "rewrite_backwards f (p # ps) s =
      (case f (slice ?r a b) of None \<Rightarrow> ?r | Some w \<Rightarrow> take a ?r @ w @ drop b ?r)"
    unfolding rewrite_backwards_def p by simp
  show ?case
  proof (cases "f (slice s a b)")
    case None
    then have "rewrite_backwards f (p # ps) s = ?r" using step sl by simp
    moreover have "drop i ?r = slice ?r i a @ slice ?r a b @ drop b ?r"
      using ord slice_append_drop[of i a ?r] slice_append_drop[of a b ?r] by simp
    ultimately show ?thesis using take_i sl ih p None by (simp add: replaced_def)
  next
    case (Some w)
    then have eq: "rewrite_backwards f (p # ps) s = take a s @ w @ drop b ?r" using step sl take_a by simp
    have "drop i (take a s) = slice s i a" using ord by (simp add: slice_def drop_take)
    then show ?thesis using eq ord ih p Some by (simp add: replaced_def min_def)
  qed
qed

lemma rewrite_backwards_splice:
  assumes "spans_from (length s) 0 spans"
  shows "rewrite_backwards f spans s = splice s 0 (map (\<lambda>(a, b). (a, b, replaced f (slice s a b))) spans)"
  using rewrite_backwards_from[OF assms] by simp

lemma rewrite_backwards_none:
  "(\<And>a b. (a, b) \<in> set spans \<Longrightarrow> f (slice s a b) = None) \<Longrightarrow> rewrite_backwards f spans s = s"
  unfolding rewrite_backwards_def by (induction spans) auto

section \<open>Building expressions\<close>

fun seqs :: "re list \<Rightarrow> re" where
  "seqs [] = Eps"
| "seqs [r] = r"
| "seqs (r # q # rs) = Seq r (seqs (q # rs))"

fun alts :: "re list \<Rightarrow> re" where
  "alts [] = Cls (\<lambda>_. False)"
| "alts [r] = r"
| "alts (r # q # rs) = Alt r (alts (q # rs))"

fun upto_times :: "nat \<Rightarrow> re \<Rightarrow> re" where
  "upto_times 0 r = Eps"
| "upto_times (Suc n) r = Alt (Seq r (upto_times n r)) Eps"

definition opt :: "re \<Rightarrow> re" where "opt r = Alt r Eps"
definition many :: "re \<Rightarrow> re" where "many r = Star True r"
definition lazy_many :: "re \<Rightarrow> re" where "lazy_many r = Star False r"
definition some :: "re \<Rightarrow> re" where "some r = Seq r (Star True r)"
definition times :: "nat \<Rightarrow> re \<Rightarrow> re" where "times n r = seqs (replicate n r)"
definition at_least :: "nat \<Rightarrow> re \<Rightarrow> re" where "at_least n r = Seq (times n r) (Star True r)"
definition between :: "nat \<Rightarrow> nat \<Rightarrow> re \<Rightarrow> re" where
  "between m n r = Seq (times m r) (upto_times (n - m) r)"

definition lit :: "string \<Rightarrow> re" where
  "lit s = seqs (map (\<lambda>c. Cls (\<lambda>x. x = c)) s)"

text \<open>Under \<open>(?i)\<close> a letter matches either case.\<close>

definition cilit :: "string \<Rightarrow> re" where
  "cilit s = seqs (map (\<lambda>c. Cls (\<lambda>x. lower_byte x = lower_byte c)) s)"

definition one_of :: "string \<Rightarrow> re" where "one_of cs = Cls (\<lambda>x. x \<in> set cs)"
definition none_of :: "string \<Rightarrow> re" where "none_of cs = Cls (\<lambda>x. x \<notin> set cs)"

text \<open>\<open>\s\<close> is the set of tab, newline, form feed, carriage return and space.\<close>

definition re_space :: string where
  "re_space = [CHR 0x09, CHR 0x0A, CHR 0x0C, CHR 0x0D, CHR '' '']"

abbreviation wspace :: re where "wspace \<equiv> one_of re_space"
abbreviation nonspace :: re where "nonspace \<equiv> none_of re_space"
abbreviation digit :: re where "digit \<equiv> Cls is_digit"
abbreviation wordc :: re where "wordc \<equiv> Cls is_word"
abbreviation lower :: re where "lower \<equiv> Cls is_lower"
abbreviation upper :: re where "upper \<equiv> Cls is_upper"
abbreviation letter :: re where "letter \<equiv> Cls (\<lambda>x. is_lower x \<or> is_upper x)"
abbreviation anyc :: re where "anyc \<equiv> Cls (\<lambda>x. x \<noteq> newline)"

lemma matches_seqs_Cons [simp]:
  "matches (seqs (r # rs)) s i k \<longleftrightarrow> (\<exists>j. matches r s i j \<and> matches (seqs rs) s j k)"
  by (cases rs) auto

lemma matches_alts [simp]: "matches (alts rs) s i j \<longleftrightarrow> (\<exists>r \<in> set rs. matches r s i j)"
  by (induction rs rule: alts.induct) auto

lemma matches_opt [simp]: "matches (opt r) s i j \<longleftrightarrow> matches r s i j \<or> i = j"
  by (auto simp: opt_def)

lemma matches_lit:
  "i \<le> length s \<Longrightarrow> matches (lit w) s i j \<longleftrightarrow> prefix w (drop i s) \<and> j = i + length w"
proof (induction w arbitrary: i)
  case (Cons c w)
  have "matches (lit (c # w)) s i j \<longleftrightarrow> i < length s \<and> s ! i = c \<and> matches (lit w) s (Suc i) j"
    by (auto simp: lit_def)
  also have "\<dots> \<longleftrightarrow> i < length s \<and> s ! i = c \<and> prefix w (drop (Suc i) s) \<and> j = Suc i + length w"
    using Cons.IH[of "Suc i"] by auto
  also have "\<dots> \<longleftrightarrow> prefix (c # w) (drop i s) \<and> j = i + length (c # w)"
    by (cases "i < length s") (auto simp flip: Cons_nth_drop_Suc)
  finally show ?case .
qed (auto simp: lit_def)

text \<open>A repeated class covers a run of bytes, all in the class.\<close>

lemma matches_star_cls:
  assumes "i \<le> j" "j \<le> length s" "\<And>k. i \<le> k \<Longrightarrow> k < j \<Longrightarrow> p (s ! k)"
  shows "matches (Star g (Cls p)) s i j"
  using assms
proof (induction "j - i" arbitrary: i)
  case 0
  then show ?case by (simp add: matches.star_nil)
next
  case (Suc n)
  then have "matches (Star g (Cls p)) s (Suc i) j" by (intro Suc.hyps(1)) auto
  moreover have "matches (Cls p) s i (Suc i)" using Suc by auto
  ultimately show ?case by (rule matches.star_more[rotated])
qed

lemma matches_star_clsD:
  "matches q s i j \<Longrightarrow> q = Star g (Cls p) \<Longrightarrow> i \<le> j \<and> (\<forall>k. i \<le> k \<longrightarrow> k < j \<longrightarrow> p (s ! k))"
proof (induction rule: matches.induct)
  case (star_more r s i j g' k)
  then have "j = Suc i" "p (s ! i)" by auto
  with star_more show ?case by (metis Suc_leD Suc_leI le_neq_implies_less)
qed auto

text \<open>Running a repeated class: it first takes as much as it can.\<close>

lemma run_star_stop:
  "\<not> (fst st < length s \<and> p (s ! fst st)) \<Longrightarrow> run (Star g (Cls p)) s st = [st]"
  by (simp, subst star_run.simps) (auto simp add: Let_def)

lemma run_star_go:
  "fst st < length s \<Longrightarrow> p (s ! fst st) \<Longrightarrow>
   run (Star True (Cls p)) s st = run (Star True (Cls p)) s (Suc (fst st), snd st) @ [st]"
  by (simp, subst star_run.simps) (simp add: Let_def)

lemma run_star_greedy:
  "i \<le> length s \<Longrightarrow> \<exists>rest. run (Star True (Cls p)) s (i, cs) =
     (i + length (takeWhile p (drop i s)), cs) # rest"
proof (induction "length s - i" arbitrary: i)
  case 0
  then show ?case by (simp add: run_star_stop del: run.simps(5))
next
  case (Suc n)
  then have i: "i < length s" by simp
  then have d: "drop i s = s ! i # drop (Suc i) s" by (simp add: Cons_nth_drop_Suc)
  show ?case
  proof (cases "p (s ! i)")
    case True
    have "n = length s - Suc i" "Suc i \<le> length s" using Suc.hyps(2) i by auto
    from Suc.hyps(1)[OF this] obtain rest where "run (Star True (Cls p)) s (Suc i, cs) =
        (Suc i + length (takeWhile p (drop (Suc i) s)), cs) # rest" by blast
    then show ?thesis using True i d by (simp add: run_star_go del: run.simps(5))
  next
    case False
    then show ?thesis using i d by (simp add: run_star_stop del: run.simps(5))
  qed
qed

lemmas re_eval = many_def some_def lazy_many_def opt_def lit_def one_of_def none_of_def re_space_def

lemma re_space_is_space: "c \<in> set re_space \<Longrightarrow> is_space c"
  by (auto simp: re_space_def is_space_def)

lemma no_matches_keep: "FindAll r s = [] \<Longrightarrow> ReplaceAllString r s f = s"
  by (simp add: ReplaceAllString_def)

text \<open>An expression that never consumes a given byte.\<close>

primrec avoids :: "char \<Rightarrow> re \<Rightarrow> bool" where
  "avoids c Eps = True"
| "avoids c (Cls p) = (\<not> p c)"
| "avoids c (Seq r1 r2) = (avoids c r1 \<and> avoids c r2)"
| "avoids c (Alt r1 r2) = (avoids c r1 \<and> avoids c r2)"
| "avoids c (Star g r) = avoids c r"
| "avoids c (Grp n r) = avoids c r"
| "avoids c TextStart = True"
| "avoids c TextEnd = True"
| "avoids c LineStart = True"
| "avoids c LineEnd = True"
| "avoids c WordB = True"

lemma matches_avoids:
  "matches r s i j \<Longrightarrow> avoids c r \<Longrightarrow> i \<le> k \<Longrightarrow> k < j \<Longrightarrow> s ! k \<noteq> c"
proof (induction rule: matches.induct)
  case (cls i s p)
  then show ?case by (cases "k = i") auto
next
  case (seq r1 s i j r2 k')
  then show ?case by (cases "k < j") auto
next
  case (star_more r s i j g k')
  then show ?case by (cases "k < j") auto
qed auto

lemma matches_whole_avoids: "matches r w 0 (length w) \<Longrightarrow> avoids c r \<Longrightarrow> c \<notin> set w"
  using matches_avoids[of r w 0 "length w" c] by (metis in_set_conv_nth le0)

end
