(* ===== verification/Go_Map.thy ===== *)
theory Go_Map
  imports Sshm_Prelude
begin

text \<open>
  Go's \<open>map[K]V\<close> as a finite map with an executable, extensional representation: a
  list of pairs with strictly increasing keys. Two such maps are equal exactly when
  they agree on every key, which is what \<open>reflect.DeepEqual\<close> tests on non-nil maps.
  The order in which a \<open>range\<close> loop visits the keys is not part of the map: a loop
  whose outcome could depend on it takes the order as an argument, and
  \<open>range_order\<close> says which orders the runtime may choose.
\<close>

section \<open>The dictionary interface\<close>

locale dictionary =
  fixes empty :: "'m"
    and lookup :: "'m \<Rightarrow> 'k \<Rightarrow> 'v option"
    and update :: "'k \<Rightarrow> 'v \<Rightarrow> 'm \<Rightarrow> 'm"
    and delete :: "'k \<Rightarrow> 'm \<Rightarrow> 'm"
    and keys :: "'m \<Rightarrow> 'k list"
  assumes lookup_empty: "lookup empty k = None"
    and lookup_update: "lookup (update k v m) k' = (if k' = k then Some v else lookup m k')"
    and lookup_delete: "lookup (delete k m) k' = (if k' = k then None else lookup m k')"
    and distinct_keys: "distinct (keys m)"
    and set_keys: "set (keys m) = {k. lookup m k \<noteq> None}"
    and extensional: "(\<And>k. lookup m k = lookup m' k) \<Longrightarrow> m = m'"
begin

definition legal_order :: "'m \<Rightarrow> 'k list \<Rightarrow> bool" where
  "legal_order m ks \<longleftrightarrow> distinct ks \<and> set ks = set (keys m)"

lemma legal_order_keys: "legal_order m (keys m)"
  by (simp add: legal_order_def distinct_keys)

lemma legal_order_in: "legal_order m ks \<Longrightarrow> k \<in> set ks \<longleftrightarrow> lookup m k \<noteq> None"
  by (simp add: legal_order_def set_keys)

lemma update_commute: "k \<noteq> k' \<Longrightarrow> update k v (update k' v' m) = update k' v' (update k v m)"
  by (rule extensional) (simp add: lookup_update)

lemma delete_commute: "delete k (delete k' m) = delete k' (delete k m)"
  by (rule extensional) (simp add: lookup_delete)

lemma delete_update: "k \<noteq> k' \<Longrightarrow> delete k (update k' v m) = update k' v (delete k m)"
  by (rule extensional) (auto simp: lookup_update lookup_delete)

text \<open>A loop that rewrites each key's own binding from the initial map.\<close>

lemma lookup_fold_pointwise:
  assumes "\<And>k m k'. k' \<noteq> k \<Longrightarrow> lookup (f k m) k' = lookup m k'"
    and "\<And>k m. lookup (f k m) k = g k (lookup m k)"
    and "distinct ks"
  shows "lookup (fold f ks m) k = (if k \<in> set ks then g k (lookup m k) else lookup m k)"
  using assms(3)
proof (induction ks arbitrary: m)
  case Nil
  then show ?case by simp
next
  case (Cons a ks)
  then show ?case using assms(1)[of k a m] assms(2)[of a m] by (cases "k = a") auto
qed

end

section \<open>The representation\<close>

typedef (overloaded) ('k::linorder, 'v) gomap =
  "{ps :: ('k \<times> 'v) list. sorted_wrt (<) (map fst ps)}"
  morphisms pairs Gomap
  by (rule exI[of _ "[]"]) simp

setup_lifting type_definition_gomap

fun put_pair :: "'k::linorder \<Rightarrow> 'v \<Rightarrow> ('k \<times> 'v) list \<Rightarrow> ('k \<times> 'v) list" where
  "put_pair k v [] = [(k, v)]"
| "put_pair k v (p # ps) =
    (if fst p < k then p # put_pair k v ps
     else (k, v) # (if fst p = k then ps else p # ps))"

lemma fst_put_pair: "set (map fst (put_pair k v ps)) = insert k (set (map fst ps))"
  by (induction ps) auto

lemma sorted_put_pair:
  "sorted_wrt (<) (map fst ps) \<Longrightarrow> sorted_wrt (<) (map fst (put_pair k v ps))"
proof (induction ps)
  case (Cons p ps)
  then show ?case using fst_put_pair[of k v ps] by auto
qed simp

lemma map_of_above: "\<forall>x \<in> set ps. (k :: 'k::linorder) < fst x \<Longrightarrow> map_of ps k = None"
  by (induction ps) auto

lemma map_of_put_pair:
  "sorted_wrt (<) (map fst ps) \<Longrightarrow>
   map_of (put_pair k v ps) k' = (if k' = k then Some v else map_of ps k')"
  by (induction ps) auto

lemma sorted_filter_pairs:
  "sorted_wrt (<) (map fst ps) \<Longrightarrow> sorted_wrt (<) (map fst (filter P ps))"
  by (induction ps) auto

lemma sorted_pairs_distinct: "sorted_wrt (<) (xs :: 'k::linorder list) \<Longrightarrow> distinct xs"
  by (simp add: strict_sorted_iff)

lift_definition gm_empty :: "('k::linorder, 'v) gomap" is "[]" by simp

lift_definition gm_lookup :: "('k::linorder, 'v) gomap \<Rightarrow> 'k \<Rightarrow> 'v option" is map_of .

lift_definition gm_update :: "'k::linorder \<Rightarrow> 'v \<Rightarrow> ('k, 'v) gomap \<Rightarrow> ('k, 'v) gomap"
  is put_pair by (rule sorted_put_pair)

lift_definition gm_delete :: "'k::linorder \<Rightarrow> ('k, 'v) gomap \<Rightarrow> ('k, 'v) gomap"
  is "\<lambda>k. filter (\<lambda>p. fst p \<noteq> k)" by (rule sorted_filter_pairs)

lift_definition gm_filter :: "('k::linorder \<Rightarrow> 'v \<Rightarrow> bool) \<Rightarrow> ('k, 'v) gomap \<Rightarrow> ('k, 'v) gomap"
  is "\<lambda>P. filter (\<lambda>p. P (fst p) (snd p))" by (rule sorted_filter_pairs)

lift_definition gm_map :: "('k::linorder \<Rightarrow> 'v \<Rightarrow> 'w) \<Rightarrow> ('k, 'v) gomap \<Rightarrow> ('k, 'w) gomap"
  is "\<lambda>f. map (\<lambda>p. (fst p, f (fst p) (snd p)))" by (simp add: comp_def)

lift_definition gm_keys :: "('k::linorder, 'v) gomap \<Rightarrow> 'k list" is "map fst" .

definition gm_len :: "('k::linorder, 'v) gomap \<Rightarrow> nat" where
  "gm_len m = length (gm_keys m)"

definition gm_of_list :: "('k::linorder \<times> 'v) list \<Rightarrow> ('k, 'v) gomap" where
  "gm_of_list ps = fold (\<lambda>(k, v). gm_update k v) ps gm_empty"

instantiation gomap :: (linorder, equal) equal
begin

definition equal_gomap :: "('a, 'b) gomap \<Rightarrow> ('a, 'b) gomap \<Rightarrow> bool" where
  "equal_gomap m m' \<longleftrightarrow> pairs m = pairs m'"

instance
  by standard (simp add: equal_gomap_def pairs_inject)

end

section \<open>Laws\<close>

lemma sorted_pairs: "sorted_wrt (<) (map fst (pairs m))"
  using pairs[of m] by simp

lemma map_of_filter_key:
  "map_of (filter (\<lambda>p. fst p \<noteq> k) ps) k' = (if k' = k then None else map_of ps k')"
  by (induction ps) auto

lemma map_of_filter_pred:
  "distinct (map fst ps) \<Longrightarrow> map_of (filter (\<lambda>p. P (fst p) (snd p)) ps) k =
     (case map_of ps k of None \<Rightarrow> None | Some v \<Rightarrow> if P k v then Some v else None)"
proof (induction ps)
  case (Cons p ps)
  have "map_of ps (fst p) = None"
    using Cons.prems by (simp add: map_of_eq_None_iff)
  with Cons show ?case by (cases "k = fst p") (auto split: option.splits)
qed simp

lemma map_of_map_pairs:
  "map_of (map (\<lambda>p. (fst p, f (fst p) (snd p))) ps) k = map_option (f k) (map_of ps k)"
  by (induction ps) auto

lemma pairs_determined:
  fixes ps qs :: "('k::linorder \<times> 'v) list"
  assumes "sorted_wrt (<) (map fst ps)" "sorted_wrt (<) (map fst qs)" "map_of ps = map_of qs"
  shows "ps = qs"
proof -
  have d: "distinct (map fst ps)" "distinct (map fst qs)"
    by (rule sorted_pairs_distinct, rule assms)+
  then have "set ps = set qs" using assms(3) by (simp add: map_of_inject_set)
  then have "map fst ps = map fst qs"
    using assms(1,2) by (intro sorted_distinct_set_unique) (auto simp: strict_sorted_iff)
  with \<open>set ps = set qs\<close> d show ?thesis
    by (metis inj_on_map_eq_map distinct_map sup.idem)
qed

interpretation gm: dictionary gm_empty gm_lookup gm_update gm_delete gm_keys
proof
  fix k k' :: 'a and v :: 'b and m m' :: "('a, 'b) gomap"
  show "gm_lookup gm_empty k = (None :: 'b option)" by transfer simp
  show "gm_lookup (gm_update k v m) k' = (if k' = k then Some v else gm_lookup m k')"
    by transfer (rule map_of_put_pair)
  show "gm_lookup (gm_delete k m) k' = (if k' = k then None else gm_lookup m k')"
    by transfer (rule map_of_filter_key)
  show "distinct (gm_keys m)" by transfer (simp add: sorted_pairs_distinct)
  show "set (gm_keys m) = {k. gm_lookup m k \<noteq> None}"
    by transfer (auto simp: map_of_eq_None_iff)
  show "m = m'" if "\<And>k. gm_lookup m k = gm_lookup m' k"
    using that by transfer (auto intro!: pairs_determined)
qed

declare gm.lookup_empty [simp] gm.lookup_update [simp] gm.lookup_delete [simp]
  gm.distinct_keys [simp]

abbreviation range_order :: "('k::linorder, 'v) gomap \<Rightarrow> 'k list \<Rightarrow> bool" where
  "range_order \<equiv> gm.legal_order"

lemma gm_eqI: "(\<And>k. gm_lookup m k = gm_lookup m' k) \<Longrightarrow> m = m'"
  by (rule gm.extensional)

lemma gm_eq_iff: "m = m' \<longleftrightarrow> (\<forall>k. gm_lookup m k = gm_lookup m' k)"
  using gm_eqI by auto

lemma in_gm_keys: "k \<in> set (gm_keys m) \<longleftrightarrow> gm_lookup m k \<noteq> None"
  by (simp add: gm.set_keys)

lemma sorted_gm_keys [simp]: "sorted (gm_keys m)"
  by transfer (simp add: strict_sorted_iff)

lemma gm_lookup_filter [simp]:
  "gm_lookup (gm_filter P m) k =
     (case gm_lookup m k of None \<Rightarrow> None | Some v \<Rightarrow> if P k v then Some v else None)"
  by transfer (simp add: map_of_filter_pred sorted_pairs_distinct)

lemma gm_lookup_map [simp]: "gm_lookup (gm_map f m) k = map_option (f k) (gm_lookup m k)"
  by transfer (rule map_of_map_pairs)

lemma gm_keys_empty [simp]: "gm_keys gm_empty = []"
  by transfer simp

lemma gm_keys_update:
  "gm_keys (gm_update k v m) = (if k \<in> set (gm_keys m) then gm_keys m else insort k (gm_keys m))"
proof (rule sorted_distinct_set_unique)
  show "set (gm_keys (gm_update k v m)) =
      set (if k \<in> set (gm_keys m) then gm_keys m else insort k (gm_keys m))"
    by (auto simp: in_gm_keys set_insort_key split: if_splits)
qed (auto simp: sorted_insort distinct_insort)

lemma gm_keys_delete: "gm_keys (gm_delete k m) = remove1 k (gm_keys m)"
  by (rule sorted_distinct_set_unique) (auto simp: in_gm_keys sorted_remove1 split: if_splits)

lemma sort_range_order: "range_order m ks \<Longrightarrow> sort ks = gm_keys m"
  by (metis gm.legal_order_def sort_any_order gm.distinct_keys sorted_sort_id sorted_gm_keys)

lemma gm_len_empty [simp]: "gm_len gm_empty = 0"
  by (simp add: gm_len_def)

lemma gm_len_update: "gm_len (gm_update k v m) = (if gm_lookup m k = None then Suc (gm_len m) else gm_len m)"
  by (auto simp: gm_len_def gm_keys_update in_gm_keys)

lemma gm_of_list_Nil [simp]: "gm_of_list [] = gm_empty"
  by (simp add: gm_of_list_def)

lemma gm_lookup_of_list: "gm_lookup (gm_of_list ps) k = map_of (rev ps) k"
  unfolding gm_of_list_def by (induction ps rule: rev_induct) (auto simp: split: if_splits)

lemma gm_lookup_of_list_distinct:
  assumes "distinct (map fst ps)"
  shows "gm_lookup (gm_of_list ps) k = map_of ps k"
proof -
  have "map_of (rev ps) = map_of ps"
    using assms by (intro map_of_inject_set [THEN iffD2]) (simp_all flip: rev_map)
  then show ?thesis by (simp add: gm_lookup_of_list)
qed

lemma gm_keys_of_list: "set (gm_keys (gm_of_list ps)) = fst ` set ps"
  by (force simp: in_gm_keys gm_lookup_of_list map_of_eq_None_iff)

end
