(* ===== verification/Safety_Credential.thy ===== *)
theory Safety_Credential
  imports Go_Regexp Go_Map
begin

text \<open>
  \<open>internal/safety/credential.go\<close>: recognising plaintext credentials in text. A byte
  scanner locates the values of credential-looking keys (\<open>findCredentialValues\<close>), and a
  set of expressions locates credentials on command lines and in URIs. The scanner's
  cursors are byte offsets, as in the source; \<open>ContainsCredentialMaterial\<close> is the
  verdict the rest of the program relies on.
\<close>

section \<open>Bytes with a special meaning\<close>

definition DQ :: char where "DQ = CHR 0x22" \<comment> \<open>double quote\<close>
definition SQ :: char where "SQ = CHR 0x27" \<comment> \<open>single quote\<close>
definition BQ :: char where "BQ = CHR 0x60" \<comment> \<open>backtick\<close>
definition BS :: char where "BS = CHR 0x5C" \<comment> \<open>backslash\<close>
definition CR :: char where "CR = CHR 0x0D"

lemmas byte_defs = DQ_def SQ_def BQ_def BS_def CR_def newline_def

section \<open>Patterns\<close>

definition dq_char :: re where
  "dq_char = alts [Seq (lit [BS]) anyc, Seq (lit [BQ]) anyc, none_of [DQ, BS, BQ]]"
definition sq_char :: re where "sq_char = alts [lit [SQ, SQ], none_of [SQ]]"

text \<open>A double-quoted, a single-quoted or a bare word; the bare word ends at white space
  or one of the given bytes.\<close>

definition shell_word :: "string \<Rightarrow> re" where
  "shell_word stop = alts
    [seqs [lit [DQ], many dq_char, lit [DQ]],
     seqs [lit [SQ], many sq_char, lit [SQ]],
     some (none_of (re_space @ stop))]"

text \<open>A command position holding the program \<open>name\<close>, optionally under sudo, with a
  directory, quotes or an .exe suffix. The expressions that use it have the flags (?im).\<close>

definition path_sep :: re where "path_sep = one_of [CHR ''/'', BS]"

definition command_head :: "re \<Rightarrow> re" where
  "command_head name = (let prog = Seq name (opt (cilit ''.exe'')) in seqs
    [Alt LineStart (one_of (re_space @ '';&|({'' @ [BQ, DQ, SQ])),
     many wspace,
     opt (Seq (lit ''&'') (many wspace)),
     opt (seqs [cilit ''sudo'', opt (cilit ''.exe''), some wspace]),
     alts
      [Seq (many (Seq (some (none_of (re_space @ [CHR ''/'', BS]))) path_sep)) prog,
       seqs [lit [DQ], opt (Seq (many dq_char) path_sep), prog, lit [DQ]],
       seqs [lit [SQ], opt (Seq (many sq_char) path_sep), prog, lit [SQ]]]])"

definition same_command :: re where \<comment> \<open>\<open>[^\r\n;&|]*?\<close>\<close>
  "same_command = lazy_many (none_of ([CR, newline] @ '';&|''))"

definition credentialLongFlagPattern :: re where
  "credentialLongFlagPattern = seqs
    [lit ''--'',
     Grp 1 (Seq letter (many (Cls (\<lambda>c. is_lower c \<or> is_upper c \<or> is_digit c \<or> c \<in> set ''_-'')))),
     Alt (lit ''='') (some wspace),
     Grp 2 (shell_word '';'')]"

definition credentialShortPassPattern :: re where
  "credentialShortPassPattern = seqs
    [command_head (alts (map cilit
      [''mariadb-dump'', ''mariadb'', ''mysqldump'', ''mysqladmin'', ''mysql'', ''sshpass''])),
     same_command, some wspace, lit ''-p'', Grp 1 (shell_word '';&|'')]"

definition credentialSSHPassPattern :: re where
  "credentialSSHPassPattern = seqs
    [command_head (cilit ''sshpass''), same_command, some wspace, lit ''-p'',
     Alt (lit ''='') (many wspace), Grp 1 (shell_word '';&|'')]"

definition credentialSSHPassPromptPattern :: re where
  "credentialSSHPassPromptPattern = seqs
    [command_head (cilit ''sshpass''), same_command, some wspace, lit ''-P'',
     Alt (lit ''='') (some wspace), Grp 1 (shell_word '';&|'')]"

definition credentialDockerPassPattern :: re where
  "credentialDockerPassPattern = seqs
    [command_head (cilit ''docker''),
     many (seqs
      [some wspace, lit ''-'', opt (lit ''-''), letter,
       many (Cls (\<lambda>c. is_lower c \<or> is_upper c \<or> is_digit c \<or> c = CHR ''-'')),
       opt (alts [Seq (lit ''='') (shell_word '';&|''), Seq (some wspace) (shell_word '';&|'')])]),
     some wspace, cilit ''login'', WordB, same_command, some wspace, lit ''-p'',
     Alt (lit ''='') (many wspace), Grp 1 (shell_word '';&|'')]"

definition credentialCurlUserPattern :: re where
  "credentialCurlUserPattern = seqs
    [Alt LineStart (one_of (re_space @ '';&|({'' @ [BQ])),
     alts
      [Seq (alts [lit ''-u'', lit ''-U'']) (Alt (lit ''='') (some wspace)),
       Seq (alts [lit ''--user'', lit ''--proxy-user'']) (Alt (lit ''='') (some wspace))],
     Grp 1 (shell_word '';&|'')]"

definition credentialCurlAttachedPattern :: re where
  "credentialCurlAttachedPattern = seqs
    [command_head (cilit ''curl''), same_command, some wspace, alts [lit ''-u'', lit ''-U''],
     Grp 1 (shell_word '';&|'')]"

definition credentialBearerPattern :: re where
  "credentialBearerPattern = seqs [WordB, cilit ''bearer'', some wspace, Grp 1 (shell_word '';'')]"

definition credentialURIPattern :: re where
  "credentialURIPattern = seqs
    [WordB,
     Grp 1 (Seq letter (many (Cls (\<lambda>c. is_lower c \<or> is_upper c \<or> is_digit c \<or> c \<in> set ''+.-'')))),
     lit ''://'',
     Grp 2 (some (none_of ([CHR ''/'', CHR ''@'', SQ, DQ] @ re_space))),
     lit ''@'',
     some (none_of ([CHR ''/'', SQ, DQ] @ re_space))]"

definition env_name :: re where
  "env_name = Seq (Cls (\<lambda>c. is_lower c \<or> is_upper c \<or> c = CHR ''_''))
    (many (Cls (\<lambda>c. is_lower c \<or> is_upper c \<or> is_digit c \<or> c = CHR ''_'')))"

definition environmentReferencePattern :: re where
  "environmentReferencePattern = seqs
    [TextStart,
     alts
      [Seq (lit ''$'') env_name,
       Seq (cilit ''$env:'') env_name,
       seqs [lit ''%'', env_name, lit ''%''],
       seqs [lit ''${'', opt (cilit ''env:''), env_name,
             opt (Seq (lit '':?'') (many (none_of ''}''))), lit ''}'']],
     TextEnd]"

text \<open>Token shapes and private-key blocks, from \<open>mask.go\<close>.\<close>

definition key_label :: re where "key_label = many (Cls (\<lambda>c. is_upper c \<or> c = CHR '' ''))"

definition rePrivKey :: re where
  "rePrivKey = seqs
    [lit ''-----BEGIN '', key_label, lit ''PRIVATE KEY-----'',
     lazy_many (Cls (\<lambda>_. True)),
     lit ''-----END '', key_label, lit ''PRIVATE KEY-----'']"

definition alnum :: "char \<Rightarrow> bool" where
  "alnum c \<longleftrightarrow> is_lower c \<or> is_upper c \<or> is_digit c"

definition reGitHubToken :: re where
  "reGitHubToken = seqs
    [WordB, lit ''gh'', one_of ''pousr'', lit ''_'', at_least 20 (Cls alnum), WordB]"

definition reAWSKey :: re where
  "reAWSKey = seqs
    [WordB, lit ''AKIA'', times 16 (Cls (\<lambda>c. is_digit c \<or> is_upper c)), WordB]"

definition reSlackToken :: re where
  "reSlackToken = seqs
    [WordB, lit ''xox'', one_of ''baprs'', lit ''-'', at_least 10 (Cls (\<lambda>c. alnum c \<or> c = CHR ''-''))]"

definition reJWT :: re where
  "reJWT = (let part = some (Cls (\<lambda>c. alnum c \<or> c \<in> set ''_-''))
    in seqs [WordB, lit ''eyJ'', part, lit ''.'', part, lit ''.'', part])"

section \<open>Byte classes and small helpers\<close>

definition isCredentialNameStart :: "char \<Rightarrow> bool" where
  "isCredentialNameStart c \<longleftrightarrow> is_lower c \<or> is_upper c"

definition isCredentialNameByte :: "char \<Rightarrow> bool" where
  "isCredentialNameByte c \<longleftrightarrow>
    isCredentialNameStart c \<or> is_digit c \<or> c = CHR ''_'' \<or> c = CHR ''-''"

definition isCredentialValueTerminator :: "char \<Rightarrow> bool" where
  "isCredentialValueTerminator c \<longleftrightarrow>
    c = CHR '' '' \<or> c = CHR 0x09 \<or> c = CR \<or> c = newline \<or>
    c = CHR '';'' \<or> c = CHR '','' \<or> c = CHR ''}''"

definition isEnvironmentNameByte :: "char \<Rightarrow> bool" where
  "isEnvironmentNameByte c \<longleftrightarrow> c = CHR ''_'' \<or> is_lower c \<or> is_upper c \<or> is_digit c"

definition hasFoldPrefix :: "string \<Rightarrow> string \<Rightarrow> bool" where
  "hasFoldPrefix value p \<longleftrightarrow> length p \<le> length value \<and> EqualFold (take (length p) value) p"

definition trimOuterQuotes :: "string \<Rightarrow> string" where
  "trimOuterQuotes value0 =
    (let value = TrimSpace value0 in
     if 2 \<le> length value \<and> hd value = last value \<and> (hd value = SQ \<or> hd value = DQ)
     then slice value 1 (length value - 1) else value)"

definition isEnvironmentReference :: "string \<Rightarrow> bool" where
  "isEnvironmentReference value = MatchString environmentReferencePattern (trimOuterQuotes value)"

definition isEnvironmentName :: "string \<Rightarrow> bool" where
  "isEnvironmentName value \<longleftrightarrow>
    value \<noteq> [] \<and>
    list_all (\<lambda>c. isEnvironmentNameByte c) value \<and> \<not> is_digit (hd value)"

section \<open>Keys\<close>

definition isCredentialKey :: "string \<Rightarrow> bool" where
  "isCredentialKey key =
    (let normalized = ToLower (ReplaceAll key ''-'' ''_'') in
     if HasSuffix normalized ''_file'' \<or> HasSuffix normalized ''_path'' \<or> HasSuffix normalized ''_stdin''
     then False
     else if list_ex (\<lambda>part. part \<in> set [''pass'', ''password'', ''passwd'', ''pwd'', ''secret'', ''token''])
               (Split_byte normalized (CHR ''_''))
     then True
     else let compact = ReplaceAll normalized ''_'' [] in
       if compact = ''dbpass'' then True
       else if list_ex (Contains compact)
         [''password'', ''passwd'', ''token'', ''secret'', ''apikey'', ''accesskey'', ''privatekey'', ''clientsecret'']
       then True
       else HasSuffix normalized ''_key'' \<and> normalized \<noteq> ''public_key'' \<and>
            \<not> HasSuffix normalized ''_public_key'')"

text \<open>The options of a build secret: comma-separated key=value pairs, each key known and
  given once.\<close>

fun secret_fields :: "string list \<Rightarrow> (string, string) gomap \<Rightarrow> (string, string) gomap option" where
  "secret_fields [] fields = Some fields"
| "secret_fields (part # parts) fields =
    (let (k0, v0, ok) = Cut part (CHR ''=''); key = ToLower (TrimSpace k0); value = TrimSpace v0 in
     if \<not> ok \<or> key = [] \<or> value = [] then None
     else if key \<notin> set [''id'', ''src'', ''source'', ''env'', ''type''] then None
     else if gm_lookup fields key \<noteq> None then None
     else secret_fields parts (gm_update key value fields))"

definition field_or_empty :: "(string, string) gomap \<Rightarrow> string \<Rightarrow> string" where
  "field_or_empty m k = (case gm_lookup m k of None \<Rightarrow> [] | Some v \<Rightarrow> v)"

definition isCredentialReference :: "string \<Rightarrow> string \<Rightarrow> bool" where
  "isCredentialReference key material0 =
    (let normalizedKey = ToLower (ReplaceAll key ''-'' ''_'') in
     if HasSuffix normalizedKey ''_file'' \<or> HasSuffix normalizedKey ''_path'' \<or> HasSuffix normalizedKey ''_stdin''
     then True
     else let material = trimOuterQuotes material0 in
     if normalizedKey \<noteq> ''secret'' then False
     else case secret_fields (Split_byte material (CHR '','')) gm_empty of
       None \<Rightarrow> False
     | Some fields \<Rightarrow>
       (let get = field_or_empty fields in
        if get ''id'' = [] \<or> get ''src'' \<noteq> [] \<and> get ''source'' \<noteq> [] then False
        else let source = (if get ''src'' = [] then get ''source'' else get ''src'') in
        if source \<noteq> [] \<and> get ''env'' \<noteq> [] then False
        else if get ''env'' \<noteq> [] \<and> \<not> isEnvironmentName (get ''env'') then False
        else if get ''type'' \<noteq> [] \<and> get ''type'' \<noteq> ''file'' \<and> get ''type'' \<noteq> ''env'' then False
        else True))"

section \<open>Scanners\<close>

function scanCredentialName :: "string \<Rightarrow> nat \<Rightarrow> nat" where
  "scanCredentialName value offset =
    (if offset < length value \<and> isCredentialNameByte (value ! offset)
     then scanCredentialName value (Suc offset) else offset)"
  by pat_completeness auto
termination by (relation "measure (\<lambda>(v, i). length v - i)") auto

function skipCredentialSpace :: "string \<Rightarrow> nat \<Rightarrow> nat" where
  "skipCredentialSpace value offset =
    (if offset < length value \<and> (value ! offset = CHR '' '' \<or> value ! offset = CHR 0x09)
     then skipCredentialSpace value (Suc offset) else offset)"
  by pat_completeness auto
termination by (relation "measure (\<lambda>(v, i). length v - i)") auto

declare scanCredentialName.simps [simp del] skipCredentialSpace.simps [simp del]

text \<open>The key at an offset: its text, where it starts and where the scan goes on. The
  four forms are tried in the source's order; the caller's offset is inside the string.\<close>

definition key_braced :: "string \<Rightarrow> nat \<Rightarrow> (string \<times> nat \<times> nat) option" where
  "key_braced value offset =
    (let start = offset + 6; fin = scanCredentialName value start in
     if hasFoldPrefix (drop offset value) ''${env:'' \<and>
        start < fin \<and> fin < length value \<and> value ! fin = CHR ''}''
     then Some (slice value start fin, start, Suc fin) else None)"

definition key_psenv :: "string \<Rightarrow> nat \<Rightarrow> (string \<times> nat \<times> nat) option" where
  "key_psenv value offset =
    (let start = offset + 5; fin = scanCredentialName value start in
     if hasFoldPrefix (drop offset value) ''$env:'' \<and> start < fin
     then Some (slice value start fin, start, fin) else None)"

definition key_quoted :: "string \<Rightarrow> nat \<Rightarrow> (string \<times> nat \<times> nat) option" where
  "key_quoted value offset =
    (let start = Suc offset; fin = scanCredentialName value start in
     if start < fin \<and> fin < length value \<and> value ! fin = value ! offset
     then Some (slice value start fin, start, Suc fin) else None)"

definition key_bare :: "string \<Rightarrow> nat \<Rightarrow> (string \<times> nat \<times> nat) option" where
  "key_bare value offset =
    (if \<not> isCredentialNameStart (value ! offset) \<or>
        0 < offset \<and> isCredentialNameByte (value ! (offset - 1)) then None
     else let fin = scanCredentialName value offset
          in Some (slice value offset fin, offset, fin))"

definition scanCredentialKey :: "string \<Rightarrow> nat \<Rightarrow> (string \<times> nat \<times> nat) option" where
  "scanCredentialKey value offset =
    (case key_braced value offset of
       Some r \<Rightarrow> Some r
     | None \<Rightarrow>
       (case key_psenv value offset of
          Some r \<Rightarrow> Some r
        | None \<Rightarrow>
          if value ! offset = SQ \<or> value ! offset = DQ then key_quoted value offset
          else key_bare value offset))"

text \<open>One iteration of the loop of \<open>scanCredentialValueEnd\<close>: the open quote and the
  cursor of the next iteration, or \<open>None\<close> where the loop returns the cursor.\<close>

definition value_step :: "string \<Rightarrow> char option \<Rightarrow> nat \<Rightarrow> (char option \<times> nat) option" where
  "value_step value quote cursor =
    (let current = value ! cursor; more = Suc cursor < length value in
     case quote of
       Some q \<Rightarrow>
         if (current = BS \<or> current = BQ) \<and> more then Some (quote, cursor + 2)
         else if q = SQ \<and> current = SQ \<and> more \<and> value ! Suc cursor = SQ
         then Some (quote, cursor + 2)
         else Some (if current = q then None else quote, Suc cursor)
     | None \<Rightarrow>
         (case (if current = CHR ''$'' \<and> more \<and> value ! Suc cursor = CHR ''{''
                then IndexByte (drop (cursor + 2) value) (CHR ''}'') else None) of
            Some closeOffset \<Rightarrow> Some (None, cursor + closeOffset + 3)
          | None \<Rightarrow>
              if current = CHR ''$'' \<and> more \<and> value ! Suc cursor = SQ then Some (Some SQ, cursor + 2)
              else if current = SQ \<or> current = DQ then Some (Some current, Suc cursor)
              else if isCredentialValueTerminator current then None
              else Some (None, Suc cursor)))"

lemma value_step_bounds [scan_bounds]:
  "value_step v q i = Some (q', k) \<Longrightarrow> i < length v \<Longrightarrow> i < k \<and> k \<le> length v"
  unfolding value_step_def Let_def
  by (cases q) (auto split: if_splits option.splits dest: IndexByte_Some_bound)

function value_loop :: "string \<Rightarrow> char option \<Rightarrow> nat \<Rightarrow> nat" where
  "value_loop value quote cursor =
    (if cursor < length value
     then (case value_step value quote cursor of
             None \<Rightarrow> cursor
           | Some (quote', cursor') \<Rightarrow> value_loop value quote' cursor')
     else length value)"
  by pat_completeness auto
termination
  by (relation "measure (\<lambda>(v, q, i). length v - i)") (auto dest: value_step_bounds)

declare value_loop.simps [simp del]

definition scanCredentialValueEnd :: "string \<Rightarrow> nat \<Rightarrow> nat" where
  "scanCredentialValueEnd value offset =
    (if length value \<le> offset then offset
     else if Suc offset < length value \<and> value ! offset = CHR ''@'' \<and>
             (value ! Suc offset = SQ \<or> value ! Suc offset = DQ)
     then (case Index (drop (offset + 2) value) [value ! Suc offset, CHR ''@''] of
             Some e \<Rightarrow> offset + 2 + e + 2
           | None \<Rightarrow> length value)
     else value_loop value None offset)"

definition isSSHPasswordPromptAt :: "string \<Rightarrow> nat \<Rightarrow> bool" where
  "isSSHPasswordPromptAt value keyOffset =
    list_ex (\<lambda>(a, j, cs). case capture cs 1 of
        None \<Rightarrow> False | Some (b, e) \<Rightarrow> b \<le> keyOffset \<and> keyOffset < e)
      (FindAll credentialSSHPassPromptPattern value)"

subsection \<open>Cursor bounds\<close>

lemma scanCredentialName_ge [scan_bounds]: "i \<le> scanCredentialName v i"
  by (induction v i rule: scanCredentialName.induct) (subst scanCredentialName.simps, auto)

lemma scanCredentialName_le [scan_bounds]: "i \<le> length v \<Longrightarrow> scanCredentialName v i \<le> length v"
  by (induction v i rule: scanCredentialName.induct) (subst scanCredentialName.simps, auto)

lemma scanCredentialName_Suc:
  "i < length v \<Longrightarrow> isCredentialNameByte (v ! i) \<Longrightarrow> Suc i \<le> scanCredentialName v i"
  using scanCredentialName_ge[of "Suc i" v] by (subst scanCredentialName.simps) simp

lemma skipCredentialSpace_ge [scan_bounds]: "i \<le> skipCredentialSpace v i"
  by (induction v i rule: skipCredentialSpace.induct) (subst skipCredentialSpace.simps, auto)

lemma skipCredentialSpace_le [scan_bounds]: "i \<le> length v \<Longrightarrow> skipCredentialSpace v i \<le> length v"
  by (induction v i rule: skipCredentialSpace.induct) (subst skipCredentialSpace.simps, auto)

lemma name_start_is_byte: "isCredentialNameStart c \<Longrightarrow> isCredentialNameByte c"
  by (simp add: isCredentialNameByte_def)

lemma scanCredentialName_end [scan_bounds]:
  "i < scanCredentialName v i \<Longrightarrow> scanCredentialName v i \<le> length v"
proof (cases "i \<le> length v")
  case False
  then have "scanCredentialName v i = i" by (subst scanCredentialName.simps) simp
  then show "i < scanCredentialName v i \<Longrightarrow> ?thesis" by simp
qed (simp add: scanCredentialName_le)

lemma key_forms_bounds:
  assumes "i < length v"
  shows "key_braced v i = Some (k, a, n) \<Longrightarrow> i < n \<and> n \<le> length v \<and> i \<le> a \<and> a \<le> n"
    and "key_psenv v i = Some (k, a, n) \<Longrightarrow> i < n \<and> n \<le> length v \<and> i \<le> a \<and> a \<le> n"
    and "key_quoted v i = Some (k, a, n) \<Longrightarrow> i < n \<and> n \<le> length v \<and> i \<le> a \<and> a \<le> n"
    and "key_bare v i = Some (k, a, n) \<Longrightarrow> i < n \<and> n \<le> length v \<and> i \<le> a \<and> a \<le> n"
  using assms scanCredentialName_Suc[OF assms] name_start_is_byte scanCredentialName_le[of i v]
    scanCredentialName_end[of "i + 5" v]
  by (auto simp: key_braced_def key_psenv_def key_quoted_def key_bare_def Let_def split: if_splits)

lemma scanCredentialKey_bounds [scan_bounds]:
  assumes "scanCredentialKey v i = Some (key, start, nxt)" "i < length v"
  shows "i < nxt \<and> nxt \<le> length v \<and> i \<le> start \<and> start \<le> nxt"
  using assms(1) key_forms_bounds[OF assms(2), of key start nxt]
  by (auto simp: scanCredentialKey_def split: option.splits if_splits)

lemma value_loop_bounds [scan_bounds]:
  "i \<le> length v \<Longrightarrow> i \<le> value_loop v q i \<and> value_loop v q i \<le> length v"
proof (induction v q i rule: value_loop.induct)
  case (1 v q i)
  show ?case
  proof (cases "i < length v \<and> value_step v q i \<noteq> None")
    case True
    then obtain q' k where st: "value_step v q i = Some (q', k)" by auto
    then have eq: "value_loop v q i = value_loop v q' k"
      using True by (subst value_loop.simps) simp
    have "k \<le> value_loop v q' k \<and> value_loop v q' k \<le> length v"
      using "1.IH"[OF _ st] True value_step_bounds[OF st] by simp
    with eq True value_step_bounds[OF st] show ?thesis by simp
  next
    case False
    then have "value_loop v q i \<in> {i, length v}"
      by (subst value_loop.simps) (auto split: option.split)
    with "1.prems" show ?thesis by auto
  qed
qed

lemma scanCredentialValueEnd_bounds [scan_bounds]:
  "i \<le> length v \<Longrightarrow> i \<le> scanCredentialValueEnd v i \<and> scanCredentialValueEnd v i \<le> length v"
  unfolding scanCredentialValueEnd_def
  by (auto split: option.splits dest: Index_Some_bound value_loop_bounds)

section \<open>Finding credential values\<close>

text \<open>One iteration of the loop of \<open>findCredentialValues\<close>: the next offset and the span
  appended, if any.\<close>

definition find_step :: "string \<Rightarrow> nat \<Rightarrow> nat \<times> (nat \<times> nat) option" where
  "find_step value offset =
    (case scanCredentialKey value offset of
       None \<Rightarrow> (Suc offset, None)
     | Some (key, keyStart, nxt) \<Rightarrow>
       (let cursor = skipCredentialSpace value nxt in
        if length value \<le> cursor \<or> value ! cursor \<noteq> CHR ''='' \<and> value ! cursor \<noteq> CHR '':''
        then (nxt, None)
        else if \<not> isCredentialKey key \<or>
                value ! cursor = CHR '':'' \<and> isSSHPasswordPromptAt value keyStart
        then (nxt, None)
        else let start = skipCredentialSpace value (Suc cursor);
                 fin = scanCredentialValueEnd value start in
          if fin \<le> start then (nxt, None) else (fin, Some (start, fin))))"

lemma find_step_bounds [scan_bounds]:
  assumes "find_step v i = (n, sp)" "i < length v"
  shows "i < n \<and> n \<le> length v \<and> (\<forall>a b. sp = Some (a, b) \<longrightarrow> i \<le> a \<and> a < b \<and> b = n)"
proof (cases "scanCredentialKey v i")
  case None
  with assms show ?thesis by (auto simp: find_step_def)
next
  case (Some r)
  then obtain key ks nxt where r: "scanCredentialKey v i = Some (key, ks, nxt)" by (cases r) auto
  note nb = scanCredentialKey_bounds[OF r assms(2)]
  let ?c = "skipCredentialSpace v nxt"
  let ?a = "skipCredentialSpace v (Suc ?c)"
  let ?b = "scanCredentialValueEnd v ?a"
  have "nxt \<le> ?c" "Suc ?c \<le> ?a" by (rule skipCredentialSpace_ge)+
  moreover have "?b \<le> length v" if "?c < length v"
    using that skipCredentialSpace_le[of "Suc ?c" v] scanCredentialValueEnd_bounds by simp
  ultimately show ?thesis
    using assms(1) r nb by (auto simp: find_step_def Let_def split: if_splits)
qed

function find_values_from :: "string \<Rightarrow> nat \<Rightarrow> (nat \<times> nat) list" where
  "find_values_from value offset =
    (if offset < length value then
       (case find_step value offset of
          (nxt, None) \<Rightarrow> find_values_from value nxt
        | (nxt, Some span) \<Rightarrow> span # find_values_from value nxt)
     else [])"
  by pat_completeness auto
termination
  by (relation "measure (\<lambda>(v, i). length v - i)") (auto dest!: find_step_bounds[OF sym])

declare find_values_from.simps [simp del]

definition findCredentialValues :: "string \<Rightarrow> (nat \<times> nat) list" where
  "findCredentialValues value = find_values_from value 0"

text \<open>The spans found are in order, disjoint, non-empty and inside the text.\<close>

lemma find_values_from_spans:
  "i \<le> length v \<Longrightarrow>
   spans_from (length v) i (find_values_from v i) \<and> (\<forall>(a, b) \<in> set (find_values_from v i). a < b)"
proof (induction v i rule: find_values_from.induct)
  case (1 v i)
  obtain n sp where st: "find_step v i = (n, sp)" by (cases "find_step v i")
  show ?case
  proof (cases "i < length v")
    case False
    then have "find_values_from v i = []" by (subst find_values_from.simps) simp
    then show ?thesis using 1 by simp
  next
    case True
    note b = find_step_bounds[OF st True]
    have ih: "spans_from (length v) n (find_values_from v n) \<and>
        (\<forall>(a, b) \<in> set (find_values_from v n). a < b)"
      using "1.IH" True st b by (cases sp) auto
    have "find_values_from v i =
        (case sp of None \<Rightarrow> find_values_from v n | Some s \<Rightarrow> s # find_values_from v n)"
      using True st by (subst find_values_from.simps) (simp split: option.split)
    then show ?thesis using b ih by (cases sp) (auto intro: spans_from_mono)
  qed
qed

lemma findCredentialValues_spans:
  "spans_from (length v) 0 (findCredentialValues v)"
  "(a, b) \<in> set (findCredentialValues v) \<Longrightarrow> a < b"
  unfolding findCredentialValues_def using find_values_from_spans[of 0 v] by auto

section \<open>User and password\<close>

function split_loop :: "string \<Rightarrow> nat \<Rightarrow> string \<times> string \<times> bool" where
  "split_loop value i =
    (if i < length value then
       (case (if value ! i = CHR ''$'' \<and> HasPrefix (drop i value) ''${''
              then IndexByte (drop (i + 2) value) (CHR ''}'') else None) of
          Some fin \<Rightarrow> split_loop value (i + fin + 3)
        | None \<Rightarrow>
            if value ! i = CHR ''$'' \<and> 5 \<le> length value - i \<and> EqualFold (slice value i (i + 5)) ''$env:''
            then split_loop value (i + 5 + length (takeWhile isEnvironmentNameByte (drop (i + 5) value)))
            else if value ! i = CHR '':'' then (take i value, drop (Suc i) value, True)
            else split_loop value (Suc i))
     else (value, [], False))"
  by pat_completeness auto
termination by (relation "measure (\<lambda>(v, i). length v - i)") auto

declare split_loop.simps [simp del]

definition splitUserPassword :: "string \<Rightarrow> string \<times> string \<times> bool" where
  "splitUserPassword value = split_loop (trimOuterQuotes value) 0"

section \<open>The verdict\<close>

definition has_password_literal :: "string \<Rightarrow> bool" where
  "has_password_literal value =
    (case splitUserPassword value of (_, password, hasPassword) \<Rightarrow>
       hasPassword \<and> password \<noteq> [] \<and> \<not> isEnvironmentReference password)"

definition ContainsCredentialMaterial :: "string \<Rightarrow> bool" where
  "ContainsCredentialMaterial value =
    (if MatchString rePrivKey value \<or> MatchString reGitHubToken value \<or>
        MatchString reAWSKey value \<or> MatchString reSlackToken value \<or> MatchString reJWT value
     then True
     else if list_ex (\<lambda>(a, b). \<not> isEnvironmentReference (slice value a b)) (findCredentialValues value)
     then True
     else if list_ex (\<lambda>(a, j, cs).
            isCredentialKey (submatch value cs 1) \<and>
            \<not> isCredentialReference (submatch value cs 1) (submatch value cs 2) \<and>
            \<not> isEnvironmentReference (submatch value cs 2))
          (FindAll credentialLongFlagPattern value)
     then True
     else if list_ex (\<lambda>pattern. list_ex (\<lambda>(a, j, cs). \<not> isEnvironmentReference (submatch value cs 1))
              (FindAll pattern value))
          [credentialShortPassPattern, credentialSSHPassPattern, credentialDockerPassPattern,
           credentialBearerPattern]
     then True
     else if list_ex (\<lambda>pattern. list_ex (\<lambda>(a, j, cs). has_password_literal (submatch value cs 1))
              (FindAll pattern value))
          [credentialCurlUserPattern, credentialCurlAttachedPattern]
     then True
     else list_ex (\<lambda>(a, j, cs). \<not> isEnvironmentReference (submatch value cs 2) \<and>
              has_password_literal (submatch value cs 2))
          (FindAll credentialURIPattern value))"

text \<open>The parts of a value that the loop of \<open>splitUserPassword\<close> returns put it together.\<close>

lemma split_loop_parts:
  "split_loop v i = (u, p, b) \<Longrightarrow> (if b then v = u @ '':'' @ p else u = v \<and> p = [])"
proof (induction v i rule: split_loop.induct)
  case (1 v i)
  show ?case
  proof (cases "i < length v")
    case False
    with "1.prems" show ?thesis by (subst (asm) split_loop.simps) auto
  next
    case True
    then have colon: "v = take i v @ v ! i # drop (Suc i) v" by (simp add: id_take_nth_drop)
    from True "1.prems" show ?thesis
      by (subst (asm) split_loop.simps)
         (use "1.IH" colon in \<open>auto split: option.splits if_splits\<close>)
  qed
qed

lemma splitUserPassword_parts:
  "splitUserPassword value = (u, p, True) \<Longrightarrow> trimOuterQuotes value = u @ '':'' @ p"
  unfolding splitUserPassword_def using split_loop_parts by fastforce

text \<open>An environment reference holds no password of its own.\<close>

lemma env_name_avoids: "\<not> isEnvironmentNameByte c \<Longrightarrow> avoids c env_name"
  by (simp add: env_name_def many_def isEnvironmentNameByte_def)

lemma env_bytes [simp]: "\<not> isEnvironmentNameByte (CHR '':'')" "\<not> isEnvironmentNameByte (CHR ''}'')"
  by (simp_all add: isEnvironmentNameByte_def is_lower_def is_upper_def is_digit_def)

lemma split_loop_end: "length v \<le> i \<Longrightarrow> split_loop v i = (v, [], False)"
  by (subst split_loop.simps) simp

lemma split_loop_no_colon: "CHR '':'' \<notin> set v \<Longrightarrow> \<not> snd (snd (split_loop v i))"
  using split_loop_parts[of v i] by (cases "split_loop v i") fastforce

lemma lower_byte_dollar: "lower_byte c = CHR ''$'' \<Longrightarrow> c = CHR ''$''"
proof (rule ccontr)
  assume l: "lower_byte c = CHR ''$''" and n: "c \<noteq> CHR ''$''"
  then have u: "is_upper c" by (auto simp: lower_byte_def split: if_splits)
  then have b: "65 \<le> (of_char c :: nat)" "(of_char c :: nat) \<le> 90" by (auto simp: is_upper_def less_eq_char_def)
  have "of_char (lower_byte c) = (of_char c + 32 :: nat)" using b u by (simp add: lower_byte_def)
  then show False using l b by simp
qed

lemma lower_lits:
  "lower_byte (CHR ''$'') = CHR ''$''" "lower_byte (CHR ''e'') = CHR ''e''" "lower_byte (CHR ''n'') = CHR ''n''"
  "lower_byte (CHR ''v'') = CHR ''v''" "lower_byte (CHR '':'') = CHR '':''"
  by (simp_all add: lower_byte_def is_upper_def)

lemma split_psenv:
  assumes "matches (Seq (cilit ''$env:'') env_name) w 0 (length w)"
  shows "split_loop w 0 = (w, [], False)"
proof -
  have f: "5 \<le> length w" "lower_byte (w ! 0) = CHR ''$''" "lower_byte (w ! 1) = CHR ''e''"
    "lower_byte (w ! 2) = CHR ''n''" "lower_byte (w ! 3) = CHR ''v''" "lower_byte (w ! 4) = CHR '':''"
    and name: "matches env_name w 5 (length w)"
    using assms by (auto simp: cilit_def numeral_eq_Suc lower_lits)
  obtain a b c d e rest where w: "w = a # b # c # d # e # rest"
    using f(1) by (auto simp: numeral_eq_Suc Suc_le_length_iff)
  have a: "a = CHR ''$''" using f(2) lower_byte_dollar w by simp
  have b: "b \<noteq> CHR ''{''" using f(3) w by (auto simp: lower_byte_def is_upper_def)
  have fold: "EqualFold (slice w 0 5) ''$env:''"
    using f w by (simp add: EqualFold_def ToLower_def slice_def lower_lits)
  have "\<forall>k < length rest. isEnvironmentNameByte (rest ! k)"
  proof (intro allI impI)
    fix k assume "k < length rest"
    then show "isEnvironmentNameByte (rest ! k)"
      using matches_avoids[OF name env_name_avoids, of "rest ! k" "5 + k"] w by auto
  qed
  then have "length (takeWhile isEnvironmentNameByte rest) = length rest"
    by (metis in_set_conv_nth takeWhile_eq_all_conv)
  then have "split_loop w 0 = split_loop w (length w)"
    using fold a b w by (subst split_loop.simps) (simp add: HasPrefix_def numeral_eq_Suc)
  then show ?thesis by (simp add: split_loop_end)
qed

lemma split_braced:
  assumes "matches (seqs [lit ''${'', opt (cilit ''env:''), env_name,
             opt (Seq (lit '':?'') (many (none_of ''}''))), lit ''}'']) w 0 (length w)"
  shows "split_loop w 0 = (w, [], False)"
proof -
  let ?body = "Seq (opt (cilit ''env:'')) (Seq env_name (opt (Seq (lit '':?'') (many (none_of ''}'')))))"
  obtain z p q j where head: "matches (lit ''${'') w 0 z"
    and pq: "matches (opt (cilit ''env:'')) w z p" "matches env_name w p q"
      "matches (opt (Seq (lit '':?'') (many (none_of ''}'')))) w q j"
    and tail: "matches (lit ''}'') w j (length w)"
    using assms unfolding matches_seqs_Cons seqs.simps(1) matches_simps(1) by blast
  have j: "w ! 0 = CHR ''$''" "w ! 1 = CHR ''{''" "z = 2" "2 \<le> length w"
    using head by (auto simp: lit_def)
  have av: "avoids (CHR ''}'') ?body"
    by (auto simp: env_name_avoids opt_def many_def none_of_def cilit_def lit_def lower_byte_def is_upper_def)
  have "matches ?body w 2 j" using pq j(3) unfolding matches_simps(3) by blast
  from matches_avoids[OF this av] have free: "\<forall>k \<ge> 2. k < j \<longrightarrow> w ! k \<noteq> CHR ''}''" by blast
  have j2: "2 \<le> j" using \<open>matches ?body w 2 j\<close> matches_bounds j(4) by blast
  have len: "length w = Suc j" "w ! j = CHR ''}''" using tail by (auto simp: lit_def)
  obtain i where i: "j = i + 2" using j2 by (metis add.commute le_Suc_ex)
  have "IndexByte (drop 2 w) (CHR ''}'') = Some (j - 2)"
    by (rule IndexByte_first) (use free i len in auto)
  moreover obtain rest where "w = ''${'' @ rest"
    using j(1,2,4) by (cases w; cases "tl w") auto
  ultimately have "split_loop w 0 = split_loop w (Suc j)"
    using j2 by (subst split_loop.simps) (simp add: HasPrefix_def)
  then show ?thesis by (simp add: split_loop_end len)
qed

lemma environment_reference_no_password:
  assumes "isEnvironmentReference m" shows "\<not> has_password_literal m"
proof -
  let ?w = "trimOuterQuotes m"
  let ?alts = "[Seq (lit ''$'') env_name, Seq (cilit ''$env:'') env_name,
      seqs [lit ''%'', env_name, lit ''%''], seqs [lit ''${'', opt (cilit ''env:''), env_name,
             opt (Seq (lit '':?'') (many (none_of ''}''))), lit ''}'']]"
  have "matches (alts ?alts) ?w 0 (length ?w)"
    using assms unfolding isEnvironmentReference_def MatchString_iff environmentReferencePattern_def
    by (auto simp del: matches_alts)
  then obtain r where r: "r \<in> set ?alts" and whole: "matches r ?w 0 (length ?w)" unfolding matches_alts by blast
  then consider "avoids (CHR '':'') r" | "split_loop ?w 0 = (?w, [], False)"
    using whole split_psenv split_braced by (auto simp: env_name_avoids lit_def simp del: matches_simps matches_seqs_Cons)
  then show ?thesis
  proof cases
    case 1
    then have "CHR '':'' \<notin> set ?w" using matches_whole_avoids whole by blast
    then show ?thesis using split_loop_no_colon[of ?w 0]
      by (auto simp: has_password_literal_def splitUserPassword_def split: prod.splits)
  qed (simp add: has_password_literal_def splitUserPassword_def)
qed

end
