(* ===== verification/Safety_Filter.thy ===== *)
theory Safety_Filter
  imports Safety_Credential
begin

text \<open>
  \<open>internal/safety/filter.go\<close>: the guard against destructive remote commands. The
  command is normalised to single spaces, harmless redirections to /dev/null are
  blanked out, a recursive forced \<open>rm\<close> is judged by its operands, and a table of
  expressions catches the rest. \<open>IsDangerous\<close> returns the reason, or \<open>None\<close> where the
  source returns \<open>(false, "")\<close>.
\<close>

section \<open>The deny list\<close>

definition end_or_space :: re where "end_or_space = Alt wspace TextEnd" \<comment> \<open>\<open>(\s|$)\<close>\<close>

definition system_dir :: re where
  "system_dir = alts (map lit
    [''etc'', ''boot'', ''dev'', ''sys'', ''proc'', ''bin'', ''sbin'', ''usr'', ''lib'', ''lib64''])"

definition ssh_file :: re where "ssh_file = alts [lit ''authorized_keys'', lit ''known_hosts'']"

definition re_rm_root :: re where
  "re_rm_root = seqs
    [WordB, cilit ''rm'', some wspace, lit ''-'', many letter, cilit ''r'', many letter, opt (cilit ''f''),
     many letter, some wspace, alts [lit ''/'', lit ''/*'', Seq (lit ''~'') (opt (lit ''/''))],
     end_or_space]"

definition re_mkfs :: re where
  "re_mkfs = seqs [WordB, lit ''mkfs'', opt (Seq (lit ''.'') (some wordc)), wspace]"

definition re_dd :: re where
  "re_dd = seqs [WordB, lit ''dd'', some wspace, many anyc, lit ''of=/dev/'']"

definition re_fork_bomb :: re where
  "re_fork_bomb = seqs
    [lit '':()'', many wspace, lit ''{'', many wspace, lit '':'', many wspace, lit ''|'', many wspace,
     lit '':'', many wspace, lit ''&'', many wspace, lit ''}'', many wspace, lit '';'', many wspace,
     lit '':'']"

definition re_chmod_zero :: re where
  "re_chmod_zero = seqs
    [WordB, lit ''chmod'', some wspace, lit ''-'', many lower, lit ''R'', many lower, some wspace,
     between 3 4 (lit ''0''), some wspace, lit ''/'', end_or_space]"

definition re_block_device :: re where
  "re_block_device = seqs
    [lit ''>'', many wspace, lit ''/dev/'', alts (map lit [''sd'', ''nvme'', ''hd'', ''vd'']), many wordc]"

definition re_pipe_shell :: re where
  "re_pipe_shell = seqs
    [lit ''|'', many wspace, opt (Seq (lit ''sudo'') (some wspace)),
     alts (map lit [''sh'', ''bash'', ''zsh'', ''ksh'', ''dash'']), WordB]"

definition re_find_delete :: re where
  "re_find_delete = seqs
    [WordB, lit ''find'', some wspace, some nonspace, some wspace, many anyc, lit ''-delete'', WordB]"

definition re_dd_any :: re where
  "re_dd_any = seqs [WordB, lit ''dd'', some wspace, many anyc, WordB, lit ''of=/dev/'']"

definition re_shred :: re where
  "re_shred = seqs
    [Alt TextStart wspace, lit ''shred'', some wspace, many (Seq (some nonspace) (some wspace)),
     lit ''/dev/'', some wordc]"

definition re_chmod_root :: re where
  "re_chmod_root = seqs
    [WordB, lit ''chmod'', some wspace, lit ''-'', many letter, lit ''R'', many letter, some wspace,
     some nonspace, some wspace, lit ''/'', end_or_space]"

definition re_chown_root :: re where
  "re_chown_root = seqs
    [WordB, lit ''chown'', some wspace, lit ''-'', many letter, lit ''R'', many letter, some wspace,
     some nonspace, some wspace, lit ''/'', end_or_space]"

definition re_overwrite :: re where
  "re_overwrite = seqs [none_of ''>'', lit ''>'', many wspace, lit ''/'', system_dir, WordB]"

definition re_overwrite_start :: re where
  "re_overwrite_start = seqs [TextStart, lit ''>'', many wspace, lit ''/'', system_dir, WordB]"

definition re_ssh_overwrite :: re where
  "re_ssh_overwrite = seqs
    [lit ''>'', many wspace, opt (lit ''~''), opt (lit ''/''), lit ''.ssh/'', ssh_file, WordB]"

definition re_ssh_overwrite_home :: re where
  "re_ssh_overwrite_home = seqs
    [lit ''>'', many wspace, lit ''$HOME/.ssh/'', ssh_file, WordB]"

definition dangerousPatterns :: "(re \<times> string) list" where
  "dangerousPatterns =
    [(re_rm_root, ''recursive delete of a root-level or home path''),
     (re_mkfs, ''filesystem creation (mkfs)''),
     (re_dd, ''raw write to a device with dd''),
     (re_fork_bomb, ''fork bomb''),
     (re_chmod_zero, ''recursive chmod 000 on root''),
     (re_block_device, ''redirect to a block device''),
     (re_pipe_shell, ''pipe to a shell interpreter''),
     (re_find_delete, ''find with -delete''),
     (re_dd_any, ''raw write to a device with dd''),
     (re_shred, ''shred of a device''),
     (re_chmod_root, ''recursive chmod on root''),
     (re_chown_root, ''recursive chown on root''),
     (re_overwrite, ''redirect-overwrite of a system file''),
     (re_overwrite_start, ''redirect-overwrite of a system file''),
     (re_ssh_overwrite, ''redirect-overwrite of an SSH key/host file''),
     (re_ssh_overwrite_home, ''redirect-overwrite of an SSH key/host file'')]"

text \<open>A recursive and forced \<open>rm\<close>; group 1 is what follows, up to the end of the command.\<close>

definition rm_flags :: re where
  "rm_flags = alts
    [seqs [lit ''-'', many letter,
           alts [seqs [lit ''r'', many letter, lit ''f''], seqs [lit ''f'', many letter, lit ''r'']],
           many letter],
     seqs [lit ''--recursive'', some wspace, lit ''--force''],
     seqs [lit ''--force'', some wspace, lit ''--recursive'']]"

definition rm_head :: re where
  "rm_head = seqs [WordB, lit ''rm'', some wspace, rm_flags, WordB]"

definition reRMForce :: re where
  "reRMForce = Seq rm_head (Grp 1 (many (none_of ''|;&'')))"

definition reBenignDevNullRedirect :: re where
  "reBenignDevNullRedirect = alts
    [seqs [Alt TextStart wspace,
           alts [Seq (opt (one_of ''012'')) (lit ''>''), seqs [one_of ''12'', lit ''>&'', one_of ''12'']],
           many wspace, cilit ''/dev/null'', WordB],
     seqs [Alt TextStart wspace, one_of ''12'', lit ''>&'', one_of ''12'', WordB]]"

section \<open>The decision\<close>

definition dangerous_token :: "string \<Rightarrow> bool" where
  "dangerous_token tok =
    (if HasPrefix tok ''-'' then False
     else if tok = ''/'' \<or> tok = ''/*'' then True
     else if tok = ''~'' \<or> HasPrefix tok ''~/'' then True
     else if tok = ''$HOME'' \<or> HasPrefix tok ''$HOME/'' then True
     else if HasPrefix tok ''/'' then
       \<not> (tok = ''/tmp'' \<or> HasPrefix tok ''/tmp/'' \<or> tok = ''/var/tmp'' \<or> HasPrefix tok ''/var/tmp/'')
     else False)"

definition isDangerousRMTarget :: "string \<Rightarrow> bool" where
  "isDangerousRMTarget operands = list_ex dangerous_token (Fields operands)"

fun first_pattern :: "(re \<times> string) list \<Rightarrow> string \<Rightarrow> string option" where
  "first_pattern [] cmd = None"
| "first_pattern ((r, reason) # ps) cmd = (if MatchString r cmd then Some reason else first_pattern ps cmd)"

definition normalized_command :: "string \<Rightarrow> string" where
  "normalized_command cmd =
    ReplaceAllString reBenignDevNullRedirect (Join (Fields cmd) '' '') (\<lambda>_. '' '')"

definition IsDangerous :: "string \<Rightarrow> string option" where
  "IsDangerous cmd =
    (let forFilter = normalized_command cmd in
     case search_from reRMForce forFilter 0 of
       Some (_, _, cs) \<Rightarrow>
         if isDangerousRMTarget (submatch forFilter cs 1)
         then Some ''recursive force delete of an absolute or home path''
         else first_pattern dangerousPatterns forFilter
     | None \<Rightarrow> first_pattern dangerousPatterns forFilter)"

section \<open>Laws\<close>

lemma first_pattern_None: "first_pattern ps cmd = None \<longleftrightarrow> (\<forall>(r, reason) \<in> set ps. \<not> MatchString r cmd)"
  by (induction ps cmd rule: first_pattern.induct) auto

lemma IsDangerous_normal: "Fields c = Fields c' \<Longrightarrow> IsDangerous c = IsDangerous c'"
  by (simp add: IsDangerous_def normalized_command_def)

lemma IsDangerous_None:
  "IsDangerous cmd = None \<longleftrightarrow>
     (\<forall>a j cs. search_from reRMForce (normalized_command cmd) 0 = Some (a, j, cs) \<longrightarrow>
        \<not> isDangerousRMTarget (submatch (normalized_command cmd) cs 1)) \<and>
     (\<forall>(r, reason) \<in> set dangerousPatterns. \<not> MatchString r (normalized_command cmd))"
  by (auto simp: IsDangerous_def Let_def first_pattern_None split: option.splits)

section \<open>A forced recursive delete of one operand\<close>

lemma rm_head_run: "run rm_head (''rm -rf '' @ t) (0, []) = [(6, [])]"
  by (simp add: rm_head_def rm_flags_def re_eval run_star_stop run_star_go word_boundary_def word_at_def
    is_word_def is_lower_def is_upper_def is_digit_def del: run.simps(5))

lemma rm_force_search:
  "\<exists>cs. search_from reRMForce (''rm -rf '' @ t) 0 = Some (0, 7 + length (takeWhile (\<lambda>c. c \<notin> set ''|;&'') t), cs) \<and>
     capture cs 1 = Some (6, 7 + length (takeWhile (\<lambda>c. c \<notin> set ''|;&'') t))"
proof -
  let ?s = "''rm -rf '' @ t"
  have len: "6 \<le> length ?s" by simp
  obtain rest where "run (Star True (Cls (\<lambda>c. c \<notin> set ''|;&''))) ?s (6, []) =
      (6 + length (takeWhile (\<lambda>c. c \<notin> set ''|;&'') (drop 6 ?s)), []) # rest"
    using run_star_greedy[OF len] by blast
  then have "run reRMForce ?s (0, []) =
     (7 + length (takeWhile (\<lambda>c. c \<notin> set ''|;&'') t), [(1, 6, 7 + length (takeWhile (\<lambda>c. c \<notin> set ''|;&'') t))])
      # map (\<lambda>u. (fst u, (1, 6, fst u) # snd u)) rest"
    unfolding reRMForce_def run.simps(3) rm_head_run by (simp add: many_def none_of_def del: run.simps(5))
  then show ?thesis by (subst search_from.simps) simp
qed


lemma matches_benign:
  assumes "matches reBenignDevNullRedirect s a j"
  shows "\<exists>b. (a = 0 \<and> b = 0 \<or> a < length s \<and> s ! a \<in> set re_space \<and> b = Suc a) \<and>
    b < length s \<and> s ! b \<in> set ''012>''"
proof -
  let ?op = "alts [Seq (opt (one_of ''012'')) (lit ''>''), seqs [one_of ''12'', lit ''>&'', one_of ''12'']]"
  obtain b k where start: "matches (Alt TextStart wspace) s a b"
    and op: "matches ?op s b k \<or> matches (one_of ''12'') s b k"
    using assms unfolding reBenignDevNullRedirect_def matches_alts matches_seqs_Cons list.set bex_simps
    by blast
  have "a = 0 \<and> b = 0 \<or> a < length s \<and> s ! a \<in> set re_space \<and> b = Suc a"
    using start by (auto simp: one_of_def)
  moreover have "b < length s \<and> s ! b \<in> set ''012>''"
    using op by (auto simp: one_of_def lit_def)
  ultimately show ?thesis by blast
qed

lemma rm_spaces:
  assumes "\<forall>c \<in> set t. \<not> is_space c" "k < length (''rm -rf '' @ t)" "(''rm -rf '' @ t) ! k \<in> set re_space"
  shows "k = 2 \<or> k = 6"
proof (cases "k < 7")
  case True
  then consider "k = 0" | "k = 1" | "k = 2" | "k = 3" | "k = 4" | "k = 5" | "k = 6" by linarith
  then show ?thesis using assms(3) by cases (simp_all add: re_space_def)
next
  case False
  then have "(''rm -rf '' @ t) ! k = t ! (k - 7)" by (subst nth_append) (simp add: numeral_eq_Suc)
  moreover have "k - 7 < length t" using False assms(2) by simp
  ultimately have "(''rm -rf '' @ t) ! k \<in> set t" by simp
  then have "\<not> is_space ((''rm -rf '' @ t) ! k)" using assms(1) by blast
  then show ?thesis using assms(3) re_space_is_space by blast
qed

lemma no_benign:
  assumes "t \<noteq> []" "hd t \<notin> set ''012>''" "\<forall>c \<in> set t. \<not> is_space c"
  shows "FindAll reBenignDevNullRedirect (''rm -rf '' @ t) = []"
proof -
  define s where "s = ''rm -rf '' @ t"
  have "\<not> matches reBenignDevNullRedirect s a j" for a j
  proof
    assume "matches reBenignDevNullRedirect s a j"
    from matches_benign[OF this] obtain b where
      b: "a = 0 \<and> b = 0 \<or> a < length s \<and> s ! a \<in> set re_space \<and> b = Suc a" "s ! b \<in> set ''012>''" by blast
    then have "b = 0 \<or> b = 3 \<or> b = 7" using rm_spaces[OF assms(3), of a, folded s_def] by linarith
    moreover have "s ! 0 = CHR ''r''" "s ! 3 = CHR ''-''" "s ! 7 = hd t"
      using assms(1) by (simp_all add: s_def hd_conv_nth)
    ultimately show False using b(2) assms(2) by (elim disjE) simp_all
  qed
  then have "search_from reBenignDevNullRedirect s 0 = None" by (simp add: search_from_None)
  then show ?thesis unfolding FindAll_def s_def by (subst find_all_from.simps) simp
qed

lemma dangerous_token_hd:
  assumes "dangerous_token t" shows "t \<noteq> []" "hd t \<notin> set ''012>''"
proof -
  have "t \<noteq> [] \<and> hd t \<in> set ''/~$''"
    using assms unfolding dangerous_token_def HasPrefix_def
    by (cases t) (simp_all split: if_splits, auto)
  then show "t \<noteq> []" "hd t \<notin> set ''012>''" by auto
qed

lemma rm_words: "t \<noteq> [] \<Longrightarrow> \<forall>c \<in> set t. \<not> is_space c \<Longrightarrow> Fields (''rm -rf '' @ t) = [''rm'', ''-rf'', t]"
  using FieldsFunc_Join[of "'' ''" is_space "[''rm'', ''-rf'', t]"] by (auto simp: Fields_def is_space_def)

lemma rm_force_blocked:
  assumes "dangerous_token target" "\<forall>c \<in> set target. \<not> is_space c" "set target \<inter> set ''|;&'' = {}"
  shows "IsDangerous (''rm -rf '' @ target) = Some ''recursive force delete of an absolute or home path''"
proof -
  note hd = dangerous_token_hd[OF assms(1)]
  define s where "s = ''rm -rf '' @ target"
  have "Join (Fields s) '' '' = s" by (simp add: s_def rm_words[OF hd(1) assms(2), simplified])
  then have n: "normalized_command s = s"
    unfolding normalized_command_def using no_benign[OF hd assms(2), folded s_def] by (simp add: no_matches_keep)
  obtain cs where
    cs: "search_from reRMForce s 0 = Some (0, 7 + length target, cs)" "capture cs 1 = Some (6, 7 + length target)"
    using rm_force_search[of target] unfolding takeWhile_keep[OF assms(3)] s_def by blast
  have "submatch s cs 1 = '' '' @ target" using cs(2) by (simp add: submatch_def slice_def s_def)
  then have "isDangerousRMTarget (submatch s cs 1)"
    using Fields_single[OF hd(1) assms(2)] assms(1) by (simp add: isDangerousRMTarget_def)
  then show ?thesis unfolding IsDangerous_def s_def[symmetric] n using cs(1) by simp
qed

lemma forced_paths_dangerous:
  assumes "prefix ''/'' t \<and> t \<notin> {''/tmp'', ''/var/tmp''} \<and> \<not> prefix ''/tmp/'' t \<and> \<not> prefix ''/var/tmp/'' t \<or>
      t \<in> {''~'', ''$HOME''} \<or> prefix ''~/'' t \<or> prefix ''$HOME/'' t"
  shows "dangerous_token t"
proof -
  have "\<not> prefix ''-'' t" using assms by (elim disjE conjE insertE) (auto simp: prefix_def)
  then show ?thesis
    using assms unfolding dangerous_token_def HasPrefix_def if_bool_eq_disj insert_iff empty_iff by blast
qed

section \<open>Properties\<close>



text \<open>White space cannot hide a command: the verdict is that of the command with its
  words joined by single spaces.\<close>

theorem verdict_ignores_spacing: "IsDangerous (Join (Fields cmd) '' '') = IsDangerous cmd"
  by (rule IsDangerous_normal) (rule Fields_normal)



text \<open>Only the first forced recursive delete of a command line is examined, so a second
  one after a harmless first one passes; and the upper-case recursive flag is not recognised.\<close>

theorem later_rm_and_upper_case_flag_pass:
  "IsDangerous ''rm -rf ./a; rm -rf /etc'' = None \<and>
   IsDangerous ''rm -rf /etc'' \<noteq> None \<and>
   IsDangerous ''rm -Rf /etc'' = None"
proof (intro conjI)
  show "IsDangerous ''rm -rf ./a; rm -rf /etc'' = None" by code_simp
  show "IsDangerous ''rm -rf /etc'' \<noteq> None" by code_simp
  show "IsDangerous ''rm -Rf /etc'' = None" by code_simp
qed

end
