(* ===== verification/Safety_Mask.thy ===== *)
theory Safety_Mask
  imports Safety_Credential
begin

text \<open>
  \<open>internal/safety/mask.go\<close> and \<open>internal/safety/audit.go\<close>: redaction of secrets in text
  that is shown to an assistant or logged, and the audit log that stores redacted
  records, one JSON object per line. \<open>net.ParseIP\<close> and \<open>json.Marshal\<close> are modelled as far
  as these files use them.
\<close>

definition redaction :: string where "redaction = ''***''"

section \<open>Addresses\<close>

definition re_octet :: re where "re_octet = between 1 3 digit" \<comment> \<open>\<open>\d{1,3}\<close>\<close>

definition reIPv4 :: re where
  "reIPv4 = seqs [WordB, Grp 1 (seqs [re_octet, lit ''.'', re_octet]),
     lit ''.'', re_octet, lit ''.'', re_octet, WordB]"

definition is_hex :: "char \<Rightarrow> bool" where
  "is_hex c \<longleftrightarrow> is_digit c \<or> c \<in> set ''abcdefABCDEF''"

definition address_byte :: "char \<Rightarrow> bool" where
  "address_byte c \<longleftrightarrow> is_hex c \<or> c = CHR '':'' \<or> c = CHR ''.''"

definition reIPv6Candidate :: re where
  "reIPv6Candidate = seqs [many (Cls address_byte), lit '':'', some (Cls address_byte)]"

text \<open>Go's \<open>netip.ParseAddr\<close>, as a test: \<open>net.ParseIP\<close> returns nil exactly when it fails
  (a candidate has no zone).\<close>

definition ipv4_field :: "string \<Rightarrow> bool" where
  "ipv4_field f \<longleftrightarrow> f \<noteq> [] \<and> all_digits f \<and> (length f = 1 \<or> hd f \<noteq> CHR ''0'') \<and> decimal_value f \<le> 255"

definition parseIPv4 :: "string \<Rightarrow> bool" where
  "parseIPv4 s = (let fs = Split_byte s (CHR ''.'') in length fs = 4 \<and> list_all ipv4_field fs)"

text \<open>The loop of \<open>parseIPv6\<close>: \<open>i\<close> counts the bytes of the address filled so far; the
  ellipsis, once seen, is remembered.\<close>

function parseIPv6_loop :: "string \<Rightarrow> nat \<Rightarrow> bool \<Rightarrow> bool" where
  "parseIPv6_loop s i ellipsis =
    (if 16 \<le> i then s = [] \<and> \<not> ellipsis
     else let g = takeWhile is_hex s; s' = dropWhile is_hex s in
       if g = [] \<or> 4 < length g then False
       else case s' of
         [] \<Rightarrow> i + 2 < 16 \<and> ellipsis \<or> i + 2 = 16 \<and> \<not> ellipsis
       | c # rest \<Rightarrow>
           if c = CHR ''.'' then
             (if \<not> ellipsis \<and> i \<noteq> 12 \<or> 16 < i + 4 then False
              else parseIPv4 s \<and> (if i + 4 < 16 then ellipsis else \<not> ellipsis))
           else if c \<noteq> CHR '':'' \<or> rest = [] then False
           else if hd rest = CHR '':'' then
             (if ellipsis then False
              else if tl rest = [] then i + 2 < 16
              else parseIPv6_loop (tl rest) (i + 2) True)
           else parseIPv6_loop rest (i + 2) ellipsis)"
  by pat_completeness auto
termination by (relation "measure (\<lambda>(s, i, e). 16 - i)") auto

definition parseIPv6 :: "string \<Rightarrow> bool" where
  "parseIPv6 s =
    (if HasPrefix s ''::'' then drop 2 s = [] \<or> parseIPv6_loop (drop 2 s) 0 True
     else parseIPv6_loop s 0 False)"

definition ParseIP :: "string \<Rightarrow> bool" where
  "ParseIP s =
    (case filter (\<lambda>c. c = CHR ''.'' \<or> c = CHR '':'' \<or> c = CHR ''%'') s of
       [] \<Rightarrow> False
     | c # _ \<Rightarrow> if c = CHR ''.'' then parseIPv4 s else if c = CHR '':'' then parseIPv6 s else False)"

definition isIdentifierByte :: "char \<Rightarrow> bool" where
  "isIdentifierByte c \<longleftrightarrow> is_lower c \<or> is_upper c \<or> is_digit c \<or> c = CHR ''_''"

text \<open>The two inner loops of \<open>maskIPv6Addresses\<close> move the ends of a candidate past dots.\<close>

definition trim_dots :: "string \<Rightarrow> nat \<Rightarrow> nat \<Rightarrow> nat \<times> nat" where
  "trim_dots s start0 end0 =
    (let m = slice s start0 end0;
         start = start0 + length (takeWhile (\<lambda>c. c = CHR ''.'') m);
         fin = end0 - length (takeWhile (\<lambda>c. c = CHR ''.'') (rev (slice s start end0))) in
     (start, fin))"

definition mask_one_address :: "nat \<times> nat \<Rightarrow> string \<Rightarrow> string" where
  "mask_one_address m s =
    (case trim_dots s (fst m) (snd m) of (start, fin) \<Rightarrow>
      let candidate = slice s start fin in
      if candidate = ''::'' \<or> \<not> ParseIP candidate \<or>
         0 < start \<and> (isIdentifierByte (s ! (start - 1)) \<or>
                      s ! (start - 1) = CHR '']'' \<and> HasPrefix candidate ''::'') \<or>
         fin < length s \<and> isIdentifierByte (s ! fin)
      then s
      else take start s @ redaction @ drop fin s)"

definition maskIPv6Addresses :: "string \<Rightarrow> string" where
  "maskIPv6Addresses s =
    foldr mask_one_address (map (\<lambda>(a, j, cs). (a, j)) (FindAll reIPv6Candidate s)) s"

section \<open>Credentials\<close>

definition credential_replacement :: "string \<Rightarrow> string option" where
  "credential_replacement material =
    (if isEnvironmentReference material then None
     else if 2 \<le> length material \<and> (hd material = SQ \<or> hd material = DQ) \<and> last material = hd material
     then Some ([hd material] @ redaction @ [last material])
     else Some redaction)"

definition maskCredentialValues :: "string \<Rightarrow> string" where
  "maskCredentialValues s = rewrite_backwards credential_replacement (findCredentialValues s) s"

definition submatch_replacement :: "string \<Rightarrow> string option" where
  "submatch_replacement material = (if isEnvironmentReference material then None else Some redaction)"

definition maskCredentialSubmatch :: "string \<Rightarrow> re \<Rightarrow> string" where
  "maskCredentialSubmatch s pattern =
    rewrite_backwards submatch_replacement (capture_spans pattern s 1) s"

definition curl_replacement :: "string \<Rightarrow> string option" where
  "curl_replacement argument =
    (case splitUserPassword (trimOuterQuotes argument) of (username, password, hasPassword) \<Rightarrow>
      if \<not> hasPassword \<or> password = [] \<or> isEnvironmentReference password then None
      else let quote = (if 2 \<le> length argument \<and> (hd argument = SQ \<or> hd argument = DQ)
                        then [hd argument] else [])
        in Some (quote @ username @ '':'' @ redaction @ quote))"

definition maskCurlCredentials :: "string \<Rightarrow> string" where
  "maskCurlCredentials s =
    fold (\<lambda>pattern t. rewrite_backwards curl_replacement (capture_spans pattern t 1) t)
      [credentialCurlUserPattern, credentialCurlAttachedPattern] s"

definition uri_replacement :: "string \<Rightarrow> string option" where
  "uri_replacement userinfo =
    (case splitUserPassword userinfo of (username, password, hasPassword) \<Rightarrow>
      if \<not> hasPassword \<or> password = [] \<or> isEnvironmentReference password then None
      else Some (username @ '':'' @ redaction))"

definition maskURIPasswords :: "string \<Rightarrow> string" where
  "maskURIPasswords s = rewrite_backwards uri_replacement (capture_spans credentialURIPattern s 2) s"

definition rePasswordLongFlag :: re where
  "rePasswordLongFlag = seqs
    [Grp 1 (lit ''--password''), Grp 2 (Alt (lit ''='') (some wspace)), Grp 3 (shell_word '';'')]"

definition rePasswordShortFlag :: re where
  "rePasswordShortFlag = seqs [Grp 1 (Alt TextStart wspace), Grp 2 (lit ''-p''), Grp 3 (shell_word '';'')]"

definition maskCredentialMaterial :: "string \<Rightarrow> string" where
  "maskCredentialMaterial s0 =
    (let s = ReplaceAllString rePrivKey s0 (\<lambda>_. ''[redacted private key]'');
         s = ReplaceAllString reGitHubToken s (\<lambda>_. redaction);
         s = ReplaceAllString reAWSKey s (\<lambda>_. redaction);
         s = ReplaceAllString reSlackToken s (\<lambda>_. redaction);
         s = ReplaceAllString reJWT s (\<lambda>_. redaction);
         s = maskCredentialSubmatch s credentialBearerPattern;
         s = maskCredentialValues s;
         s = maskCredentialSubmatch s credentialSSHPassPattern;
         s = maskCredentialSubmatch s credentialDockerPassPattern;
         s = maskCurlCredentials s;
         s = maskURIPasswords s;
         s = ReplaceAllString rePasswordLongFlag s (\<lambda>cs. submatch s cs 1 @ ''='' @ redaction)
     in ReplaceAllString rePasswordShortFlag s (\<lambda>cs. submatch s cs 1 @ submatch s cs 2 @ redaction))"

definition MaskSecrets :: "string \<Rightarrow> string" where
  "MaskSecrets s0 =
    (let s = maskCredentialMaterial s0;
         s = ReplaceAllString reIPv4 s (\<lambda>cs. submatch s cs 1 @ ''.*.*'')
     in maskIPv6Addresses s)"

section \<open>What the rewriters promise\<close>

text \<open>
  A span rewriter finds disjoint spans in order and walks them backwards, replacing each
  in the text as rewritten so far. Every rewriter of \<open>mask.go\<close> but the one for IPv6 (which
  also looks at the bytes around a span) has this shape.
\<close>

locale span_rewriter =
  fixes spans :: "string \<Rightarrow> (nat \<times> nat) list" and f :: "string \<Rightarrow> string option"
  assumes ordered: "spans_from (length s) 0 (spans s)"
begin

lemma splices:
  "rewrite_backwards f (spans s) s =
   splice s 0 (map (\<lambda>(a, b). (a, b, replaced f (slice s a b))) (spans s))"
  by (rule rewrite_backwards_splice) (rule ordered)

lemma keeps: "(\<And>a b. (a, b) \<in> set (spans s) \<Longrightarrow> f (slice s a b) = None) \<Longrightarrow> rewrite_backwards f (spans s) s = s"
  by (rule rewrite_backwards_none)

end

interpretation vals: span_rewriter findCredentialValues credential_replacement
  by unfold_locales (rule findCredentialValues_spans)

interpretation sub: span_rewriter "\<lambda>s. capture_spans pattern s 1" submatch_replacement for pattern
  by unfold_locales (rule capture_spans_spans)

interpretation uri: span_rewriter "\<lambda>s. capture_spans credentialURIPattern s 2" uri_replacement
  by unfold_locales (rule capture_spans_spans)

lemma capture_span_match:
  assumes "(a, b) \<in> set (capture_spans r s n)"
  obtains i j cs where "(i, j, cs) \<in> set (FindAll r s)" "submatch s cs n = slice s a b"
proof -
  from assms obtain m where m: "m \<in> set (FindAll r s)" "(\<lambda>(a, j, cs). capture cs n) m = Some (a, b)"
    by (auto simp: capture_spans_def List.map_filter_def)
  obtain i j cs where "m = (i, j, cs)" by (cases m)
  with m show ?thesis using that[of i j cs] by (simp add: submatch_def)
qed

lemma no_match_none:
  assumes "\<not> MatchString r s" shows "FindAll r s = []"
proof -
  have "search_from r s 0 = None" using assms unfolding MatchString_def by blast
  then show ?thesis unfolding FindAll_def by (subst find_all_from.simps) simp
qed

lemma no_match_keeps: "\<not> MatchString r s \<Longrightarrow> ReplaceAllString r s expand = s"
  by (simp add: no_match_none no_matches_keep)

lemma maskCredentialSubmatch_clean:
  assumes "list_all (\<lambda>(a, j, cs). isEnvironmentReference (submatch s cs 1)) (FindAll r s)"
  shows "maskCredentialSubmatch s r = s"
  unfolding maskCredentialSubmatch_def
proof (rule sub.keeps)
  fix a b assume "(a, b) \<in> set (capture_spans r s 1)"
  then obtain i j cs where "(i, j, cs) \<in> set (FindAll r s)" "submatch s cs 1 = slice s a b"
    by (rule capture_span_match)
  then show "submatch_replacement (slice s a b) = None"
    using assms by (auto simp: submatch_replacement_def list_all_iff)
qed

lemma maskCredentialValues_clean:
  assumes "list_all (\<lambda>(a, b). isEnvironmentReference (slice s a b)) (findCredentialValues s)"
  shows "maskCredentialValues s = s"
  unfolding maskCredentialValues_def
  by (rule vals.keeps) (use assms in \<open>auto simp: credential_replacement_def list_all_iff\<close>)

lemma maskURIPasswords_clean:
  assumes "list_all (\<lambda>(a, j, cs). \<not> has_password_literal (submatch s cs 2)) (FindAll credentialURIPattern s)"
  shows "maskURIPasswords s = s"
  unfolding maskURIPasswords_def
proof (rule uri.keeps)
  fix a b assume "(a, b) \<in> set (capture_spans credentialURIPattern s 2)"
  then obtain i j cs where "(i, j, cs) \<in> set (FindAll credentialURIPattern s)" "submatch s cs 2 = slice s a b"
    by (rule capture_span_match)
  then have "\<not> has_password_literal (slice s a b)" using assms by (auto simp: list_all_iff)
  then show "uri_replacement (slice s a b) = None"
    by (auto simp: uri_replacement_def has_password_literal_def split: prod.splits)
qed

lemma maskCurlCredentials_clean:
  assumes "\<not> MatchString credentialCurlUserPattern s" "\<not> MatchString credentialCurlAttachedPattern s"
  shows "maskCurlCredentials s = s"
  using assms by (simp add: maskCurlCredentials_def capture_spans_def no_match_none
    List.map_filter_simps rewrite_backwards_def)

section \<open>The audit log\<close>

record Entry =
  en_Time :: string
  en_Tool :: string
  en_Alias :: string
  en_Reason :: string
  en_Result :: string

text \<open>\<open>json.Marshal\<close> of a string: quotes, backslashes and control bytes are escaped, and so
  are the three bytes that matter in HTML.\<close>

definition hex_digit :: "nat \<Rightarrow> char" where "hex_digit n = ''0123456789abcdef'' ! n"

definition json_escape :: "char \<Rightarrow> string" where
  "json_escape c =
    (if c = DQ \<or> c = BS then [BS, c]
     else if c = CHR 0x08 then [BS, CHR ''b'']
     else if c = CHR 0x0C then [BS, CHR ''f'']
     else if c = newline then [BS, CHR ''n'']
     else if c = CR then [BS, CHR ''r'']
     else if c = CHR 0x09 then [BS, CHR ''t'']
     else if of_char c < (32 :: nat) \<or> c \<in> set ''<>&''
     then [BS, CHR ''u'', CHR ''0'', CHR ''0'', hex_digit (of_char c div 16), hex_digit (of_char c mod 16)]
     else [c])"

definition json_quote :: "string \<Rightarrow> string" where
  "json_quote s = [DQ] @ concat (map json_escape s) @ [DQ]"

definition json_member :: "string \<Rightarrow> string \<Rightarrow> string" where
  "json_member k v = json_quote k @ '':'' @ json_quote v"

definition json_omitempty :: "string \<Rightarrow> string \<Rightarrow> string" where
  "json_omitempty k v = (if v = [] then [] else '','' @ json_member k v)"

definition marshal_entry :: "Entry \<Rightarrow> string" where
  "marshal_entry e =
    ''{'' @ json_member ''time'' (en_Time e) @ '','' @ json_member ''tool'' (en_Tool e) @
    json_omitempty ''alias'' (en_Alias e) @ json_omitempty ''reason'' (en_Reason e) @
    json_omitempty ''result'' (en_Result e) @ ''}''"

definition masked_entry :: "string \<Rightarrow> Entry \<Rightarrow> Entry" where
  "masked_entry now e = e\<lparr>
     en_Time := now,
     en_Alias := maskCredentialMaterial (en_Alias e),
     en_Reason := MaskSecrets (en_Reason e),
     en_Result := MaskSecrets (en_Result e)\<rparr>"

datatype audit_error = MkdirAuditDir | OpenAuditLog | WriteAuditEntry

text \<open>What the file system does with one call: whether the directory and the file can be
  made, and, if the write fails, how many bytes reached the file. \<open>now\<close> is the formatted
  clock. Marshalling a struct of strings cannot fail.\<close>

record audit_io =
  io_mkdir :: bool
  io_open :: bool
  io_write :: "nat option" \<comment> \<open>\<open>None\<close>: everything was written\<close>

definition AuditLog_Append :: "string \<Rightarrow> audit_io \<Rightarrow> Entry \<Rightarrow> string \<Rightarrow> audit_error option \<times> string" where
  "AuditLog_Append now io e log =
    (if \<not> io_mkdir io then (Some MkdirAuditDir, log)
     else let line = marshal_entry (masked_entry now e) in
       if \<not> io_open io then (Some OpenAuditLog, log)
       else case io_write io of
         Some k \<Rightarrow> (Some WriteAuditEntry, log @ take k (line @ [newline]))
       | None \<Rightarrow> (None, log @ line @ [newline]))"

fun append_all :: "(string \<times> audit_io \<times> Entry) list \<Rightarrow> string \<Rightarrow> string" where
  "append_all [] log = log"
| "append_all ((now, io, e) # es) log = append_all es (snd (AuditLog_Append now io e log))"

lemma hex_digit_lines: "n < 16 \<Longrightarrow> hex_digit n \<noteq> newline"
  by (auto simp: hex_digit_def newline_def less_Suc_eq numeral_eq_Suc)

lemma json_escape_lines: "newline \<notin> set (json_escape c)"
proof -
  have "hex_digit (of_char c div 16) \<noteq> newline" "hex_digit (of_char c mod 16) \<noteq> newline"
    using nat_of_char_less_256[of c]
    by (auto intro!: hex_digit_lines simp: less_mult_imp_div_less)
  then show ?thesis by (auto simp: json_escape_def byte_defs)
qed

lemma json_quote_lines [simp]: "newline \<notin> set (json_quote s)"
  using json_escape_lines by (auto simp: json_quote_def byte_defs)

lemma marshal_entry_lines [simp]: "newline \<notin> set (marshal_entry e)"
  using json_quote_lines
  by (auto simp: marshal_entry_def json_member_def json_omitempty_def newline_def)

lemma Split_byte_append_line:
  "c \<notin> set w \<Longrightarrow> Split_byte (w @ [c] @ s) c = w # Split_byte s c"
  by (induction w) auto

lemma append_all_log:
  "\<forall>(now, io, e) \<in> set es. io_mkdir io \<and> io_open io \<and> io_write io = None \<Longrightarrow>
   append_all es log = log @ concat (map (\<lambda>(now, io, e). marshal_entry (masked_entry now e) @ [newline]) es)"
  by (induction es log rule: append_all.induct) (auto simp: AuditLog_Append_def Let_def)

lemma lines_of_log:
  "\<forall>w \<in> set ws. c \<notin> set w \<Longrightarrow> Split_byte (concat (map (\<lambda>w. w @ [c]) ws)) c = ws @ [[]]"
  by (induction ws) (auto simp: Split_byte_append_line[simplified])

section \<open>Properties\<close>

text \<open>C28: masking credential values leaves every byte outside the values found in place and,
  in the original text at once, replaces each value that is not an environment reference by
  the marker (inside its own quotes, when it is quoted): the backward walk never
  works with a stale offset. The values found are non-empty, in order and disjoint.\<close>

theorem mask_values_splices:
  "spans_from (length s) 0 (findCredentialValues s) \<and>
   (\<forall>(a, b) \<in> set (findCredentialValues s). a < b) \<and>
   maskCredentialValues s =
     splice s 0 (map (\<lambda>(a, b). (a, b, let m = slice s a b in
        if isEnvironmentReference m then m
        else if 2 \<le> length m \<and> (hd m = SQ \<or> hd m = DQ) \<and> last m = hd m
        then [hd m] @ redaction @ [last m] else redaction)) (findCredentialValues s))"
proof -
  have "replaced credential_replacement (slice s a b) = (let m = slice s a b in
        if isEnvironmentReference m then m
        else if 2 \<le> length m \<and> (hd m = SQ \<or> hd m = DQ) \<and> last m = hd m
        then [hd m] @ redaction @ [last m] else redaction)" for a b
    by (auto simp: replaced_def credential_replacement_def Let_def)
  then show ?thesis
    using vals.splices[of s] findCredentialValues_spans unfolding maskCredentialValues_def by auto
qed

theorem mask_values_splices_witness:
  "findCredentialValues ''token=abc'' = [(6, 9)] \<and> maskCredentialValues ''token=abc'' = ''token=***''"
proof -
  have "findCredentialValues ''token=abc'' = [(6, 9)]" by code_simp
  moreover have "\<not> isEnvironmentReference ''abc''" by code_simp
  ultimately show ?thesis using mask_values_splices[of "''token=abc''"]
    by (simp add: slice_def redaction_def SQ_def DQ_def)
qed

text \<open>The detector and the redactor agree on clean text. Where
  \<open>ContainsCredentialMaterial\<close> finds nothing and no curl credential option occurs, the
  credential stage changes nothing but the values of password flags.\<close>

theorem mask_keeps_clean_text:
  assumes "\<not> ContainsCredentialMaterial s"
    and "\<not> MatchString credentialCurlUserPattern s" "\<not> MatchString credentialCurlAttachedPattern s"
    and "\<not> MatchString rePasswordLongFlag s" "\<not> MatchString rePasswordShortFlag s"
  shows "maskCredentialMaterial s = s"
proof -
  have c: "\<not> MatchString rePrivKey s" "\<not> MatchString reGitHubToken s" "\<not> MatchString reAWSKey s"
      "\<not> MatchString reSlackToken s" "\<not> MatchString reJWT s"
      "list_all (\<lambda>(a, b). isEnvironmentReference (slice s a b)) (findCredentialValues s)"
      "list_all (\<lambda>(a, j, cs). isEnvironmentReference (submatch s cs 1)) (FindAll credentialBearerPattern s)"
      "list_all (\<lambda>(a, j, cs). isEnvironmentReference (submatch s cs 1)) (FindAll credentialSSHPassPattern s)"
      "list_all (\<lambda>(a, j, cs). isEnvironmentReference (submatch s cs 1)) (FindAll credentialDockerPassPattern s)"
    using assms(1) unfolding ContainsCredentialMaterial_def
    by (auto simp: list_all_iff list_ex_iff split: if_splits)
  have u: "list_all (\<lambda>(a, j, cs). \<not> has_password_literal (submatch s cs 2) \<or>
      isEnvironmentReference (submatch s cs 2)) (FindAll credentialURIPattern s)"
    using assms(1) unfolding ContainsCredentialMaterial_def
    by (auto simp: list_all_iff list_ex_iff split: if_splits)
  then have u: "maskURIPasswords s = s"
    using environment_reference_no_password by (intro maskURIPasswords_clean) (auto simp: list_all_iff)
  note stages = no_match_keeps maskCredentialSubmatch_clean maskCredentialValues_clean
  show ?thesis
    unfolding maskCredentialMaterial_def Let_def no_match_keeps[OF c(1)] no_match_keeps[OF c(2)]
      no_match_keeps[OF c(3)] no_match_keeps[OF c(4)] no_match_keeps[OF c(5)]
      maskCredentialSubmatch_clean[OF c(7)] maskCredentialValues_clean[OF c(6)]
      maskCredentialSubmatch_clean[OF c(8)] maskCredentialSubmatch_clean[OF c(9)]
      maskCurlCredentials_clean[OF assms(2,3)] u no_match_keeps[OF assms(4)]
    by (rule no_match_keeps[OF assms(5)])
qed

theorem mask_keeps_clean_text_witness:
  "maskCredentialMaterial ''TOKEN=$X'' = ''TOKEN=$X''"
  by (rule mask_keeps_clean_text) code_simp+

text \<open>The audit log holds one line per record. After a series of successful appends to
  an empty log, splitting the log at newlines gives back exactly the marshalled records,
  in order, each with its alias, reason and result masked; a newline in a field never breaks a line.\<close>

theorem audit_one_line_per_record:
  assumes "\<forall>(now, io, e) \<in> set es. io_mkdir io \<and> io_open io \<and> io_write io = None"
  shows "Split_byte (append_all es []) newline =
    map (\<lambda>(now, io, e). marshal_entry (masked_entry now e)) es @ [[]]"
proof -
  let ?ws = "map (\<lambda>(now, io, e). marshal_entry (masked_entry now e)) es"
  have "append_all es [] = concat (map (\<lambda>w. w @ [newline]) ?ws)"
    using append_all_log[OF assms, of "[]"] by (simp add: o_def case_prod_unfold)
  then show ?thesis using lines_of_log[of ?ws newline] by (auto simp: case_prod_unfold)
qed

theorem audit_one_line_per_record_witness:
  "Split_byte (append_all
     [(''t'', \<lparr>io_mkdir = True, io_open = True, io_write = None\<rparr>,
       \<lparr>en_Time = [], en_Tool = ''exec'', en_Alias = ''web'', en_Reason = [], en_Result = ''ok''\<rparr>)] []) newline
   = [marshal_entry (masked_entry ''t''
       \<lparr>en_Time = [], en_Tool = ''exec'', en_Alias = ''web'', en_Reason = [], en_Result = ''ok''\<rparr>), []]"
  using audit_one_line_per_record[of "[(''t'', \<lparr>io_mkdir = True, io_open = True, io_write = None\<rparr>,
       \<lparr>en_Time = [], en_Tool = ''exec'', en_Alias = ''web'', en_Reason = [], en_Result = ''ok''\<rparr>)]"]
  by simp

end
