(* ===== verification/Inventory.thy ===== *)
theory Inventory
  imports Go_Map Go_Regexp "HOL-Library.Word"
begin

text \<open>
  \<open>internal/inventory\<close>: hardware observations of a machine. The output of a read-only
  script is bounded, cut into sections and parsed into a snapshot; a snapshot is
  validated, compared with an older one, and reduced to what other devices may see.
  Sizes are 64-bit words, so that a multiplication by the block or page size wraps as it
  does in Go. \<open>encoding/json\<close> enters as decoding functions passed to the parsers.
\<close>

section \<open>Data\<close>

type_synonym uint64 = "64 word"

record Disk =
  dk_ID :: string
  dk_Parent :: string
  dk_Model :: string
  dk_Kind :: string
  dk_Filesystem :: string
  dk_Mounts :: "string list"
  dk_Total :: uint64
  dk_Free :: "uint64 option"

definition empty_disk :: Disk where
  "empty_disk = \<lparr>dk_ID = [], dk_Parent = [], dk_Model = [], dk_Kind = [], dk_Filesystem = [],
     dk_Mounts = [], dk_Total = 0, dk_Free = None\<rparr>"

record Snapshot =
  sn_AttemptedAt :: int
  sn_RefreshFailed :: bool
  sn_CheckedAt :: int
  sn_Status :: string
  sn_Platform :: string
  sn_OS :: string
  sn_Arch :: string
  sn_CPU :: string
  sn_Cores :: int
  sn_Threads :: int
  sn_MemoryTotal :: uint64
  sn_MemoryAvailable :: "uint64 option"
  sn_Disks :: "Disk list"
  sn_Notes :: "string list"

text \<open>\<open>&Snapshot{CheckedAt: now, Platform: platform, Status: "unavailable"}\<close>\<close>

definition unavailable :: "int \<Rightarrow> string \<Rightarrow> Snapshot" where
  "unavailable now platform =
    \<lparr>sn_AttemptedAt = 0, sn_RefreshFailed = False, sn_CheckedAt = now, sn_Status = ''unavailable'',
     sn_Platform = platform, sn_OS = [], sn_Arch = [], sn_CPU = [], sn_Cores = 0, sn_Threads = 0,
     sn_MemoryTotal = 0, sn_MemoryAvailable = None, sn_Disks = [], sn_Notes = []\<rparr>"

definition MaxOutput :: nat where "MaxOutput = 512 * 1024"

section \<open>Running the script\<close>

text \<open>\<open>Output.Write\<close>: the buffer after the call and whether the write was accepted.\<close>

definition Output_Write :: "string \<Rightarrow> string \<Rightarrow> string \<times> bool" where
  "Output_Write b p = (if MaxOutput < length b + length p then (b, False) else (b @ p, True))"

text \<open>The scripts are embedded files and the PowerShell encoding is that of the standard
  library: \<open>script\<close> and \<open>encoded\<close> stand for them.\<close>

definition shell_quote :: "string \<Rightarrow> string" where
  "shell_quote s = [CHR 0x27] @ ReplaceAll s [CHR 0x27] [CHR 0x27, CHR 0x22, CHR 0x27, CHR 0x22, CHR 0x27] @ [CHR 0x27]"

definition Command :: "(string \<Rightarrow> string) \<Rightarrow> (string \<Rightarrow> string) \<Rightarrow> string \<Rightarrow> string" where
  "Command script encoded platform =
    (let s = script platform in
     if s = [] then []
     else if platform = ''windows''
     then ''powershell.exe -NoProfile -NonInteractive -EncodedCommand '' @ encoded s
     else ''sh -c '' @ shell_quote s)"

section \<open>Parsing\<close>

definition number :: "string \<Rightarrow> uint64" where
  "number v = of_nat (fst (ParseUint64 (Trim v [CHR 0x22, CHR '' '', CHR ''.'', CHR 0x0D, CHR 0x0A, CHR 0x09])))"

datatype block = Block
  (bk_Name: string) (bk_Type: string) (bk_Size: string) (bk_Model: string) (bk_FSType: string)
  (bk_Mountpoint: string) (bk_Mountpoints: "string list") (bk_Children: "block list")

definition block_mounts :: "block \<Rightarrow> string list" where
  "block_mounts b =
    (let mounts = filter (\<lambda>m. m \<noteq> []) (bk_Mountpoints b) in
     if mounts = [] \<and> bk_Mountpoint b \<noteq> [] then [bk_Mountpoint b] else mounts)"

definition block_disk :: "block \<Rightarrow> string \<Rightarrow> Disk" where
  "block_disk b parent = empty_disk\<lparr>
     dk_ID := ''/dev/'' @ bk_Name b, dk_Parent := parent,
     dk_Kind := (if bk_Type b = ''part'' then ''partition'' else bk_Type b),
     dk_Model := TrimSpace (bk_Model b), dk_Total := number (bk_Size b),
     dk_Filesystem := bk_FSType b, dk_Mounts := block_mounts b\<rparr>"

text \<open>The closure \<open>visit\<close> of \<open>parseLinux\<close>, on the state it captures: the identifiers seen and
  the disks appended.\<close>

fun visit :: "block \<Rightarrow> string \<Rightarrow> string set \<times> Disk list \<Rightarrow> string set \<times> Disk list"
  and visit_all :: "block list \<Rightarrow> string \<Rightarrow> string set \<times> Disk list \<Rightarrow> string set \<times> Disk list" where
  "visit (Block name typ sz model fs mp mps children) parent st =
    (if typ = ''loop'' \<or> typ = ''rom'' then st
     else let did = ''/dev/'' @ name;
              d = block_disk (Block name typ sz model fs mp mps children) parent;
              st' = (if did \<in> fst st then st else (insert did (fst st), snd st @ [d]))
       in visit_all children did st')"
| "visit_all [] parent st = st"
| "visit_all (b # bs) parent st = visit_all bs parent (visit b parent st)"

definition section_text :: "(string, string) gomap \<Rightarrow> string \<Rightarrow> string" where
  "section_text parts key = (case gm_lookup parts key of None \<Rightarrow> [] | Some v \<Rightarrow> v)"

fun meminfo :: "string list \<Rightarrow> (string, uint64) gomap \<Rightarrow> (string, uint64) gomap" where
  "meminfo [] mem = mem"
| "meminfo (l # ls) mem =
    meminfo ls (case Fields l of
        k # v # _ \<Rightarrow> gm_update (TrimSuffix k '':'') (number v * 1024) mem
      | _ \<Rightarrow> mem)"

definition parseLinux :: "(string \<Rightarrow> block list option) \<Rightarrow> (string, string) gomap \<Rightarrow> Snapshot \<Rightarrow> Snapshot" where
  "parseLinux decode parts s0 =
    (let mem = meminfo (Split_byte (section_text parts ''MEM'') newline) gm_empty;
         s = s0\<lparr>sn_MemoryTotal := (case gm_lookup mem ''MemTotal'' of None \<Rightarrow> 0 | Some n \<Rightarrow> n)\<rparr>;
         s = (case gm_lookup mem ''MemAvailable'' of None \<Rightarrow> s | Some n \<Rightarrow> s\<lparr>sn_MemoryAvailable := Some n\<rparr>)
     in case decode (section_text parts ''DISKS'') of
          None \<Rightarrow> s\<lparr>sn_Notes := sn_Notes s @ [''disks_unavailable'']\<rparr>
        | Some blocks \<Rightarrow> s\<lparr>sn_Disks := snd (visit_all blocks [] ({}, sn_Disks s))\<rparr>)"

record macPartition =
  mp_DeviceIdentifier :: string
  mp_Content :: string
  mp_Size :: uint64
  mp_MountPoint :: string

record macDisk =
  md_DeviceIdentifier :: string
  md_Size :: uint64
  md_Partitions :: "macPartition list"

record apfsVolume =
  av_DeviceIdentifier :: string
  av_MountPoint :: string

record apfsContainer =
  ac_ContainerReference :: string
  ac_CapacityCeiling :: uint64
  ac_CapacityFree :: uint64
  ac_Volumes :: "apfsVolume list"

definition one_mount :: "string \<Rightarrow> string list" where
  "one_mount mp = (if mp \<noteq> [] then [mp] else [])"

definition mac_disks :: "macDisk \<Rightarrow> Disk list" where
  "mac_disks d =
    empty_disk\<lparr>dk_ID := ''/dev/'' @ md_DeviceIdentifier d, dk_Kind := ''disk'', dk_Total := md_Size d\<rparr> #
    map (\<lambda>p. empty_disk\<lparr>dk_ID := ''/dev/'' @ mp_DeviceIdentifier p, dk_Parent := ''/dev/'' @ md_DeviceIdentifier d,
         dk_Kind := ''partition'', dk_Total := mp_Size p, dk_Filesystem := mp_Content p,
         dk_Mounts := one_mount (mp_MountPoint p)\<rparr>) (md_Partitions d)"

definition apfs_disks :: "apfsContainer \<Rightarrow> Disk list" where
  "apfs_disks c =
    empty_disk\<lparr>dk_ID := ''/dev/'' @ ac_ContainerReference c, dk_Kind := ''container'', dk_Filesystem := ''APFS'',
       dk_Total := ac_CapacityCeiling c, dk_Free := Some (ac_CapacityFree c)\<rparr> #
    map (\<lambda>v. empty_disk\<lparr>dk_ID := ''/dev/'' @ av_DeviceIdentifier v, dk_Parent := ''/dev/'' @ ac_ContainerReference c,
         dk_Kind := ''volume'', dk_Filesystem := ''APFS'', dk_Mounts := one_mount (av_MountPoint v)\<rparr>)
      (ac_Volumes c)"

definition re_page_size :: re where
  "re_page_size = seqs [lit ''page size of '', Grp 1 (some digit), lit '' bytes'']"

fun reclaimable :: "string list \<Rightarrow> uint64 \<Rightarrow> uint64" where
  "reclaimable [] n = n"
| "reclaimable (l # ls) n =
    (case Cut l (CHR '':'') of (k, v, ok) \<Rightarrow>
      reclaimable ls (if ok \<and> (k = ''Pages free'' \<or> k = ''Pages inactive'' \<or> k = ''Pages speculative'')
                      then n + number v else n))"

text \<open>A list that fails to decode may still be filled in part, and is used: the decoder
  returns what it filled and whether it succeeded.\<close>

definition parseMac ::
  "(string \<Rightarrow> macDisk list \<times> bool) \<Rightarrow> (string \<Rightarrow> apfsContainer list option) \<Rightarrow>
   (string, string) gomap \<Rightarrow> Snapshot \<Rightarrow> Snapshot" where
  "parseMac decode_list decode_apfs parts s0 =
    (let s = s0\<lparr>sn_MemoryTotal := number (TrimSpace (section_text parts ''MEM''))\<rparr>;
         vm = section_text parts ''VM'';
         page = (case search_from re_page_size vm 0 of None \<Rightarrow> 0 | Some (_, _, cs) \<Rightarrow> number (submatch vm cs 1));
         available = reclaimable (Split_byte vm newline) 0;
         s = (if 0 < page then s\<lparr>sn_MemoryAvailable := Some (available * page)\<rparr> else s);
         (disks, ok) = decode_list (section_text parts ''DISKS'');
         s = (if ok then s else s\<lparr>sn_Notes := sn_Notes s @ [''disks_unavailable'']\<rparr>);
         s = s\<lparr>sn_Disks := sn_Disks s @ concat (map mac_disks disks)\<rparr>
     in case decode_apfs (section_text parts ''APFS'') of
          None \<Rightarrow> s\<lparr>sn_Notes := sn_Notes s @ [''apfs_unavailable'']\<rparr>
        | Some containers \<Rightarrow> s\<lparr>sn_Disks := sn_Disks s @ concat (map apfs_disks containers)\<rparr>)"

definition df_match :: "string \<Rightarrow> string \<Rightarrow> Disk \<Rightarrow> bool" where
  "df_match did mount d \<longleftrightarrow> dk_ID d = did \<or> mount \<in> set (dk_Mounts d)"

fun find_index :: "('a \<Rightarrow> bool) \<Rightarrow> 'a list \<Rightarrow> nat option" where
  "find_index p [] = None"
| "find_index p (x # xs) = (if p x then Some 0 else map_option Suc (find_index p xs))"

definition df_update :: "string list \<Rightarrow> string \<Rightarrow> Disk \<Rightarrow> Disk" where
  "df_update f mount d =
    (let d = (if dk_Mounts d = [] then d\<lparr>dk_Mounts := [mount]\<rparr> else d);
         d = (if dk_Kind d \<noteq> ''disk'' then d\<lparr>dk_Total := number (f ! 1) * 1024\<rparr> else d)
     in d\<lparr>dk_Free := Some (number (f ! 3) * 1024)\<rparr>)"

definition df_line :: "string \<Rightarrow> Disk list \<Rightarrow> Disk list" where
  "df_line line disks =
    (let f = Fields line in
     if length f < 6 \<or> number (f ! 1) = 0 then disks
     else let did = f ! 0; mount = Join (drop 5 f) '' '' in
       case find_index (df_match did mount) disks of
         Some i \<Rightarrow> disks[i := df_update f mount (disks ! i)]
       | None \<Rightarrow>
           if \<not> HasPrefix did ''/dev/'' \<and> did \<noteq> ''overlay'' then disks
           else disks @ [df_update f mount (empty_disk\<lparr>dk_ID := did, dk_Kind := ''volume''\<rparr>)])"

definition parseDF :: "string \<Rightarrow> Disk list \<Rightarrow> Disk list" where
  "parseDF raw disks = fold df_line (Split_byte raw newline) disks"

fun split_sections :: "string list \<Rightarrow> string \<Rightarrow> (string, string) gomap \<Rightarrow> (string, string) gomap" where
  "split_sections [] key m = m"
| "split_sections (line # ls) key m =
    (if HasPrefix line ''SSHM_HW_'' then split_sections ls (TrimPrefix line ''SSHM_HW_'') m
     else if key \<noteq> [] then split_sections ls key (gm_update key (section_text m key @ line @ [newline]) m)
     else split_sections ls key m)"

record decoders =
  dec_linux :: "string \<Rightarrow> block list option"
  dec_mac :: "string \<Rightarrow> macDisk list \<times> bool"
  dec_apfs :: "string \<Rightarrow> apfsContainer list option"
  dec_windows :: "string \<Rightarrow> Snapshot \<Rightarrow> Snapshot option"

definition parse_body :: "decoders \<Rightarrow> string \<Rightarrow> string \<Rightarrow> Snapshot \<Rightarrow> Snapshot" where
  "parse_body dec platform raw s0 =
    (let sections = split_sections (Split_byte raw newline) [] gm_empty;
         s = s0\<lparr>sn_OS := TrimSpace (section_text sections ''OS''),
                sn_Arch := TrimSpace (section_text sections ''ARCH''),
                sn_CPU := TrimSpace (section_text sections ''CPU''),
                sn_Threads := sint (number (TrimSpace (section_text sections ''THREADS''))),
                sn_Cores := sint (number (TrimSpace (section_text sections ''CORES'')))\<rparr>;
         s = (if platform = ''linux'' then parseLinux (dec_linux dec) sections s
              else if platform = ''macos'' then parseMac (dec_mac dec) (dec_apfs dec) sections s
              else s)
     in s\<lparr>sn_Disks := parseDF (section_text sections ''DF'') (sn_Disks s)\<rparr>)"

definition finish_status :: "Snapshot \<Rightarrow> Snapshot" where
  "finish_status s =
    (if sn_OS s \<noteq> [] \<or> sn_CPU s \<noteq> [] \<or> 0 < sn_MemoryTotal s \<or> sn_Disks s \<noteq> []
     then s\<lparr>sn_Status :=
       (if sn_OS s = [] \<or> sn_CPU s = [] \<or> sn_MemoryTotal s = 0 \<or> sn_Disks s = [] \<or> sn_Notes s \<noteq> []
        then ''partial'' else ''ok'')\<rparr>
     else s)"

definition finish_memory :: "Snapshot \<Rightarrow> Snapshot" where
  "finish_memory s =
    (case sn_MemoryAvailable s of
       Some n \<Rightarrow> if sn_MemoryTotal s < n then s\<lparr>sn_MemoryAvailable := None\<rparr> else s
     | None \<Rightarrow> s)"

definition finish_disks :: "Snapshot \<Rightarrow> Snapshot" where
  "finish_disks s =
    (if 256 < length (sn_Disks s)
     then s\<lparr>sn_Disks := take 256 (sn_Disks s), sn_Notes := sn_Notes s @ [''disk_limit''], sn_Status := ''partial''\<rparr>
     else s)"

definition byte_order_mark :: string where "byte_order_mark = [CHR 0xEF, CHR 0xBB, CHR 0xBF]"

definition Parse :: "decoders \<Rightarrow> int \<Rightarrow> string \<Rightarrow> string \<Rightarrow> bool \<Rightarrow> Snapshot" where
  "Parse dec now platform0 raw0 runErr =
    (let platform = (if platform0 = ''darwin'' then ''macos'' else platform0);
         s = unavailable now platform in
     if runErr \<or> MaxOutput < length raw0 then s
     else let raw = TrimPrefix (TrimSpace raw0) byte_order_mark in
       if platform = ''windows'' then
         (case dec_windows dec raw s of
            None \<Rightarrow> s
          | Some w \<Rightarrow> finish_disks (finish_memory (finish_status (w\<lparr>sn_CheckedAt := now, sn_Platform := platform\<rparr>))))
       else finish_disks (finish_memory (finish_status (parse_body dec platform raw s))))"

section \<open>Using a snapshot\<close>

definition disk_valid :: "Disk \<Rightarrow> bool" where
  "disk_valid d \<longleftrightarrow>
    length (dk_ID d) \<le> 1024 \<and> length (dk_Model d) \<le> 512 \<and> length (dk_Parent d) \<le> 1024 \<and>
    length (dk_Mounts d) \<le> 128 \<and> length (dk_Kind d) \<le> 32 \<and> length (dk_Filesystem d) \<le> 64 \<and>
    list_all (\<lambda>m. length m \<le> 4096) (dk_Mounts d)"

text \<open>\<open>now\<close> in milliseconds; a nil snapshot is valid.\<close>

definition Valid :: "int \<Rightarrow> Snapshot option \<Rightarrow> bool" where
  "Valid now so =
    (case so of None \<Rightarrow> True | Some s \<Rightarrow>
      let limit = now + 24 * 60 * 60 * 1000 in
      0 \<le> sn_AttemptedAt s \<and> sn_AttemptedAt s \<le> limit \<and> 0 \<le> sn_CheckedAt s \<and> sn_CheckedAt s \<le> limit \<and>
      length (sn_Disks s) \<le> 256 \<and> length (sn_Notes s) \<le> 16 \<and> length (sn_OS s) \<le> 512 \<and>
      length (sn_CPU s) \<le> 512 \<and> length (sn_Arch s) \<le> 64 \<and> 0 \<le> sn_Cores s \<and> 0 \<le> sn_Threads s \<and>
      (sn_Status s = ''ok'' \<or> sn_Status s = ''partial'' \<or> sn_Status s = ''unavailable'') \<and>
      list_all disk_valid (sn_Disks s))"

definition last_seen :: "Snapshot \<Rightarrow> int" where
  "last_seen s = max (sn_CheckedAt s) (sn_AttemptedAt s)"

definition Newer :: "Snapshot option \<Rightarrow> Snapshot option \<Rightarrow> Snapshot option" where
  "Newer ao bo =
    (case (ao, bo) of
       (None, _) \<Rightarrow> bo
     | (_, None) \<Rightarrow> ao
     | (Some a, Some b) \<Rightarrow>
         if last_seen b \<le> last_seen a then ao
         else if sn_Status b = ''unavailable'' \<and> sn_Status a \<noteq> ''unavailable''
         then Some (a\<lparr>sn_AttemptedAt := last_seen b, sn_RefreshFailed := True\<rparr>)
         else bo)"

definition public_disk :: "nat \<Rightarrow> Disk \<Rightarrow> Disk" where
  "public_disk i d =
    (let d' = d\<lparr>dk_Mounts := []\<rparr> in
     if Contains (dk_ID d) ''Volume{'' then d'\<lparr>dk_ID := ''volume-'' @ Itoa (int i)\<rparr> else d')"

definition PublicResources :: "Snapshot option \<Rightarrow> Snapshot option" where
  "PublicResources so =
    map_option (\<lambda>s. s\<lparr>sn_Disks := map (\<lambda>(i, d). public_disk i d) (List.enumerate 0 (sn_Disks s))\<rparr>) so"

section \<open>Laws\<close>

text \<open>The disks form a forest: identifiers are distinct, and the parent of a disk is empty
  or the identifier of a disk before it.\<close>

definition disk_ids :: "Disk list \<Rightarrow> string list" where "disk_ids ds = map dk_ID ds"

definition forest :: "Disk list \<Rightarrow> bool" where
  "forest ds \<longleftrightarrow> distinct (disk_ids ds) \<and>
    (\<forall>i < length ds. dk_Parent (ds ! i) = [] \<or> dk_Parent (ds ! i) \<in> set (disk_ids (take i ds)))"

definition visit_inv :: "string set \<times> Disk list \<Rightarrow> bool" where
  "visit_inv st \<longleftrightarrow> fst st = set (disk_ids (snd st)) \<and> forest (snd st)"

lemma forest_append:
  "forest ds \<Longrightarrow> dk_ID d \<notin> set (disk_ids ds) \<Longrightarrow>
   dk_Parent d = [] \<or> dk_Parent d \<in> set (disk_ids ds) \<Longrightarrow> forest (ds @ [d])"
  unfolding forest_def disk_ids_def by (auto simp: nth_append less_Suc_eq)

lemma visit_keeps:
  "visit_inv st \<Longrightarrow> parent = [] \<or> parent \<in> fst st \<Longrightarrow>
   visit_inv (visit b parent st) \<and> fst st \<subseteq> fst (visit b parent st)"
  "visit_inv st \<Longrightarrow> parent = [] \<or> parent \<in> fst st \<Longrightarrow>
   visit_inv (visit_all bs parent st) \<and> fst st \<subseteq> fst (visit_all bs parent st)"
proof (induction b parent st and bs parent st rule: visit_visit_all.induct)
  case (1 name ty sz model fs mp mps children parent st)
  let ?id = "''/dev/'' @ name"
  let ?d = "block_disk (Block name ty sz model fs mp mps children) parent"
  let ?st = "if ?id \<in> fst st then st else (insert ?id (fst st), snd st @ [?d])"
  have id: "dk_ID ?d = ?id" "dk_Parent ?d = parent" by (simp_all add: block_disk_def)
  have inv: "visit_inv ?st" "?id \<in> fst ?st" "fst st \<subseteq> fst ?st"
    using "1.prems" id forest_append[of "snd st" ?d] by (auto simp: visit_inv_def disk_ids_def)
  show ?case
  proof (cases "ty = ''loop'' \<or> ty = ''rom''")
    case False
    then have "visit_inv (visit_all children ?id ?st) \<and> fst ?st \<subseteq> fst (visit_all children ?id ?st)"
      using "1.IH"[OF False refl refl refl] inv by blast
    then show ?thesis using False inv(3) by (auto simp: Let_def)
  qed (use "1.prems" in auto)
next
  case (3 b bs parent st)
  then have "visit_inv (visit b parent st)" "fst st \<subseteq> fst (visit b parent st)" by auto
  then show ?case using 3 by auto
qed auto

lemma find_index_Some: "find_index p xs = Some i \<Longrightarrow> i < length xs \<and> p (xs ! i)"
  by (induction xs arbitrary: i) (auto split: if_splits)

lemma find_index_None: "find_index p xs = None \<longleftrightarrow> (\<forall>x \<in> set xs. \<not> p x)"
  by (induction xs) auto

lemma df_update_id [simp]: "dk_ID (df_update f m d) = dk_ID d" "dk_Parent (df_update f m d) = dk_Parent d"
  by (simp_all add: df_update_def Let_def)

lemma forest_update:
  "forest ds \<Longrightarrow> i < length ds \<Longrightarrow> dk_ID d = dk_ID (ds ! i) \<Longrightarrow> dk_Parent d = dk_Parent (ds ! i) \<Longrightarrow>
   forest (ds[i := d])"
proof -
  assume a: "forest ds" "i < length ds" "dk_ID d = dk_ID (ds ! i)" "dk_Parent d = dk_Parent (ds ! i)"
  have ids: "map dk_ID (ds[i := d]) = map dk_ID ds"
    using a by (intro nth_equalityI) (auto simp: nth_list_update)
  then have "map dk_ID (take j (ds[i := d])) = map dk_ID (take j ds)" for j by (metis take_map)
  then show ?thesis using a ids by (auto simp: forest_def disk_ids_def nth_list_update)
qed

lemma df_line_forest:
  assumes "forest ds" shows "forest (df_line line ds)"
proof -
  let ?f = "Fields line" and ?m = "Join (drop 5 (Fields line)) '' ''"
  show ?thesis
  proof (cases "find_index (df_match (?f ! 0) ?m) ds")
    case None
    then have "?f ! 0 \<notin> set (disk_ids ds)"
      unfolding find_index_None by (auto simp: df_match_def disk_ids_def)
    then have "forest (ds @ [df_update ?f ?m (empty_disk\<lparr>dk_ID := ?f ! 0, dk_Kind := ''volume''\<rparr>)])"
      using assms by (intro forest_append) (simp_all add: empty_disk_def)
    then show ?thesis using assms None by (simp add: df_line_def Let_def)
  next
    case (Some i)
    then have "forest (ds[i := df_update ?f ?m (ds ! i)])"
      using assms find_index_Some by (intro forest_update) auto
    then show ?thesis using assms Some by (simp add: df_line_def Let_def)
  qed
qed

lemma parseDF_forest: "forest ds \<Longrightarrow> forest (parseDF raw ds)"
  unfolding parseDF_def by (rule fold_invariant_on) (auto intro: df_line_forest)

lemma forest_take: "forest ds \<Longrightarrow> forest (take n ds)"
  unfolding forest_def disk_ids_def using distinct_take[of "map dk_ID ds" n]
  by (auto simp: take_map min_def)

lemma parseLinux_forest: "sn_Disks s = [] \<Longrightarrow> forest (sn_Disks (parseLinux decode parts s))"
  using visit_keeps(2)[of "({}, [])" "[]"]
  by (auto simp: parseLinux_def Let_def forest_def visit_inv_def disk_ids_def split: option.splits)

lemma forest_Nil [simp]: "forest []"
  by (simp add: forest_def disk_ids_def)

lemma parse_body_forest:
  assumes "platform \<noteq> ''macos''" "sn_Disks s = []"
  shows "forest (sn_Disks (parse_body dec platform raw s))"
proof -
  have "forest (sn_Disks (if platform = ''linux'' then parseLinux d parts t else t))"
    if "sn_Disks t = []" for d parts t using that parseLinux_forest by simp
  then show ?thesis using assms(2) unfolding parse_body_def Let_def if_not_P[OF assms(1)]
    by (simp add: parseDF_forest)
qed

lemma finish_status_frame [simp, frames]:
  "sn_Disks (finish_status s) = sn_Disks s" "sn_Notes (finish_status s) = sn_Notes s"
  "sn_OS (finish_status s) = sn_OS s" "sn_CPU (finish_status s) = sn_CPU s"
  "sn_MemoryTotal (finish_status s) = sn_MemoryTotal s"
  by (simp_all add: finish_status_def)

lemma finish_memory_frame [simp, frames]:
  "sn_Disks (finish_memory s) = sn_Disks s" "sn_Notes (finish_memory s) = sn_Notes s"
  "sn_OS (finish_memory s) = sn_OS s" "sn_CPU (finish_memory s) = sn_CPU s"
  "sn_MemoryTotal (finish_memory s) = sn_MemoryTotal s" "sn_Status (finish_memory s) = sn_Status s"
  by (simp_all add: finish_memory_def split: option.split)

lemma finish_disks_frame [simp, frames]:
  "sn_OS (finish_disks s) = sn_OS s" "sn_CPU (finish_disks s) = sn_CPU s"
  "sn_MemoryTotal (finish_disks s) = sn_MemoryTotal s"
  "sn_MemoryAvailable (finish_disks s) = sn_MemoryAvailable s"
  by (simp_all add: finish_disks_def)

lemma finish_memory_bound: "sn_MemoryAvailable (finish_memory s) = Some n \<Longrightarrow> n \<le> sn_MemoryTotal s"
  by (auto simp: finish_memory_def simp del: word_not_simps split: option.splits if_splits)

lemma parse_status [simp, frames]:
  "sn_Status (parseLinux d parts s) = sn_Status s"
  "sn_Status (parseMac dl da parts s) = sn_Status s"
  by (simp_all add: parseLinux_def parseMac_def Let_def split: option.split prod.split)

lemma Parse_cases:
  obtains p where "Parse dec now platform raw err = unavailable now p"
  | s where "Parse dec now platform raw err = finish_disks (finish_memory (finish_status s))"
      "platform \<noteq> ''windows'' \<longrightarrow> sn_Status s = ''unavailable''"
proof -
  let ?p = "if platform = ''darwin'' then ''macos'' else platform"
  let ?r = "TrimPrefix (TrimSpace raw) byte_order_mark"
  have start: "sn_Status (parse_body dec q r (unavailable now q)) = ''unavailable''" for q r
    by (simp add: parse_body_def Let_def unavailable_def)
  consider "err \<or> MaxOutput < length raw" | "\<not> (err \<or> MaxOutput < length raw)" "?p = ''windows''"
    | "\<not> (err \<or> MaxOutput < length raw)" "?p \<noteq> ''windows''" by blast
  then show ?thesis
  proof cases
    case 1
    then show ?thesis by (intro that(1)) (auto simp: Parse_def Let_def)
  next
    case 2
    then have p: "platform = ''windows''" by (auto split: if_splits)
    show ?thesis
    proof (cases "dec_windows dec ?r (unavailable now ?p)")
      case None
      then show ?thesis using 2 p by (intro that(1)) (simp add: Parse_def Let_def)
    next
      case (Some w)
      then show ?thesis using 2 p by (intro that(2)) (simp_all add: Parse_def Let_def)
    qed
  next
    case 3
    then have "Parse dec now platform raw err =
        finish_disks (finish_memory (finish_status (parse_body dec ?p ?r (unavailable now ?p))))"
      unfolding Parse_def Let_def by (simp only: if_False)
    then show ?thesis using that(2) start by blast
  qed
qed

lemma digits_of_bytes: "c \<in> set (digits_of n) \<Longrightarrow> is_digit c"
proof (induction n rule: digits_of.induct)
  case (1 n)
  have d: "is_digit (char_of (48 + k))" if "k < 10" for k :: nat
    using that by (auto simp: is_digit_def less_eq_char_def)
  show ?case using 1 d[of "n mod 10"] d[of n] by (subst (asm) (2) digits_of.simps) (auto split: if_splits)
qed

lemma volume_name_plain: "\<not> Contains (''volume-'' @ Itoa (int i)) ''Volume{''"
proof
  assume "Contains (''volume-'' @ Itoa (int i)) ''Volume{''"
  then have "set ''Volume{'' \<subseteq> set (''volume-'' @ Itoa (int i))"
    unfolding Contains_sublist by (rule set_mono_sublist)
  then have "CHR ''{'' \<in> set (digits_of i)" by (auto simp: Itoa_def)
  then show False using digits_of_bytes by (fastforce simp: is_digit_def)
qed

section \<open>A shell reads the quoted script back\<close>

text \<open>How a POSIX shell reads one word made of single- and double-quoted pieces that hold
  no expansions: the word, and what follows it.\<close>

fun sh_word :: "char option \<Rightarrow> string \<Rightarrow> string \<times> string" where
  "sh_word q [] = ([], [])"
| "sh_word (Some q) (c # s) = (if c = q then sh_word None s else (case sh_word (Some q) s of (w, r) \<Rightarrow> (c # w, r)))"
| "sh_word None (c # s) =
    (if c = CHR 0x27 \<or> c = CHR 0x22 then sh_word (Some c) s
     else if is_space c then ([], c # s)
     else (case sh_word None s of (w, r) \<Rightarrow> (c # w, r)))"

lemma ReplaceAll_byte:
  "ReplaceAll (c # s) [x] new = (if c = x then new @ ReplaceAll s [x] new else c # ReplaceAll s [x] new)"
  "ReplaceAll [] [x] new = []"
  by (subst ReplaceAll.simps, simp)+

lemma sh_word_quoted:
  "sh_word (Some (CHR 0x27)) (ReplaceAll s [CHR 0x27] [CHR 0x27, CHR 0x22, CHR 0x27, CHR 0x22, CHR 0x27] @ [CHR 0x27]) = (s, [])"
  by (induction s) (simp_all add: ReplaceAll_byte)

section \<open>A series of writes\<close>

text \<open>The final buffer and the pieces that were accepted.\<close>

fun write_all :: "string list \<Rightarrow> string \<Rightarrow> string \<times> string list" where
  "write_all [] b = (b, [])"
| "write_all (p # ps) b =
    (case Output_Write b p of (b', ok) \<Rightarrow>
      case write_all ps b' of (final, accepted) \<Rightarrow> (final, if ok then p # accepted else accepted))"

lemma write_all_bound:
  "length b \<le> MaxOutput \<Longrightarrow>
   fst (write_all ps b) = b @ concat (snd (write_all ps b)) \<and> length (fst (write_all ps b)) \<le> MaxOutput"
proof (induction ps b rule: write_all.induct)
  case (2 p ps b)
  obtain b' ok where o: "Output_Write b p = (b', ok)" by (cases "Output_Write b p")
  then have "b' = (if ok then b @ p else b)" "length b' \<le> MaxOutput"
    using "2.prems" by (auto simp: Output_Write_def split: if_splits)
  then show ?case using "2.IH"[OF o[symmetric]] o by (cases ok) (auto simp: case_prod_unfold)
qed simp

section \<open>Properties\<close>

text \<open>The disks of a snapshot parsed on Linux (or an unknown system) form a forest:
  identifiers are distinct and every parent is listed before its children, whatever block
  tree the decoder returns, repeated devices included, and whatever the df section says.\<close>

theorem parsed_disks_form_forest:
  assumes "platform \<notin> {''windows'', ''macos'', ''darwin''}"
  shows "forest (sn_Disks (Parse dec now platform raw err))"
proof -
  have "forest (sn_Disks (finish_disks (finish_memory (finish_status s))))" if "forest (sn_Disks s)" for s
    using that forest_take[of "sn_Disks s" 256] by (simp add: finish_disks_def)
  moreover have "forest (sn_Disks (parse_body dec platform r (unavailable now platform)))" for r
    using assms by (intro parse_body_forest) (auto simp: unavailable_def)
  ultimately show ?thesis using assms by (simp add: Parse_def Let_def unavailable_def)
qed

theorem parsed_disks_form_forest_witness:
  "forest (sn_Disks (Parse \<lparr>dec_linux = \<lambda>_. Some [Block ''sda'' ''disk'' ''100'' [] [] [] []
       [Block ''sda1'' ''part'' ''90'' [] ''ext4'' [] [''/''] []]],
     dec_mac = \<lambda>_. ([], True), dec_apfs = \<lambda>_. Some [], dec_windows = \<lambda>_ _. None\<rparr> 5 ''linux'' ''SSHM_HW_OS'' False))"
  by (rule parsed_disks_form_forest) simp

text \<open>Whatever the script printed, a snapshot lists at most 256 disks and never reports
  more available than total memory; and off Windows its status is ok only when the system, the
  processor, the memory and the disks are all known and no note was left.\<close>

theorem parsed_snapshot_bounds:
  assumes "s = Parse dec now platform raw err"
  shows "length (sn_Disks s) \<le> 256 \<and>
    (\<forall>n. sn_MemoryAvailable s = Some n \<longrightarrow> n \<le> sn_MemoryTotal s) \<and>
    (platform \<noteq> ''windows'' \<longrightarrow> sn_Status s = ''ok'' \<longrightarrow>
      sn_OS s \<noteq> [] \<and> sn_CPU s \<noteq> [] \<and> sn_MemoryTotal s \<noteq> 0 \<and> sn_Disks s \<noteq> [] \<and> sn_Notes s = [])"
proof (cases rule: Parse_cases[of dec now platform raw err])
  case (1 p)
  then show ?thesis by (simp add: assms unavailable_def)
next
  case (2 t)
  then have s: "s = finish_disks (finish_memory (finish_status t))" by (simp add: assms)
  have "length (sn_Disks s) \<le> 256" by (simp add: s finish_disks_def)
  moreover have "n \<le> sn_MemoryTotal s" if "sn_MemoryAvailable s = Some n" for n
    using that finish_memory_bound[of "finish_status t" n] by (simp add: s)
  moreover have "sn_OS s \<noteq> [] \<and> sn_CPU s \<noteq> [] \<and> sn_MemoryTotal s \<noteq> 0 \<and> sn_Disks s \<noteq> [] \<and> sn_Notes s = []"
    if "sn_Status t = ''unavailable''" "sn_Status s = ''ok''"
    using that unfolding s by (auto simp: finish_disks_def finish_status_def split: if_splits)
  ultimately show ?thesis using 2(2) by blast
qed

theorem parsed_snapshot_bounds_witness:
  "length (sn_Disks (Parse \<lparr>dec_linux = \<lambda>_. None, dec_mac = \<lambda>_. ([], True), dec_apfs = \<lambda>_. Some [],
     dec_windows = \<lambda>_ _. None\<rparr> 5 ''linux'' ''SSHM_HW_OS'' False)) \<le> 256"
  using parsed_snapshot_bounds[OF refl] by blast

text \<open>Combining a sample with a later one never moves the time of the last attempt
  backwards, and a failed refresh never replaces a successful sample: it is kept, with the
  failure recorded and its own sample time unchanged.\<close>

theorem newer_keeps_success:
  assumes "Newer (Some a) (Some b) = Some c" "sn_Status a \<noteq> ''unavailable''"
  shows "sn_Status c \<noteq> ''unavailable'' \<and> last_seen c = max (last_seen a) (last_seen b) \<and>
    (sn_Status b = ''unavailable'' \<longrightarrow> sn_CheckedAt c = sn_CheckedAt a \<and> sn_Disks c = sn_Disks a)"
  using assms by (auto simp: Newer_def last_seen_def split: if_splits)

theorem newer_keeps_success_witness:
  "sn_Status (the (Newer (Some ((unavailable 100 ''linux'')\<lparr>sn_Status := ''ok''\<rparr>)) (Some (unavailable 200 ''linux'')))) \<noteq> ''unavailable''"
proof -
  let ?a = "(unavailable 100 ''linux'')\<lparr>sn_Status := ''ok''\<rparr>" and ?b = "unavailable 200 ''linux''"
  have "Newer (Some ?a) (Some ?b) = Some (?a\<lparr>sn_AttemptedAt := 200, sn_RefreshFailed := True\<rparr>)"
    by (simp add: Newer_def last_seen_def unavailable_def)
  then show ?thesis using newer_keeps_success[of ?a ?b] by (simp add: unavailable_def)
qed

text \<open>The order of the arguments matters: the same successful sample and the same later
  failure, given the other way round, leave only the failure.\<close>

theorem newer_drops_success_when_swapped:
  "Newer (Some (unavailable 200 p)) (Some ((unavailable 100 p)\<lparr>sn_Status := ''ok''\<rparr>)) = Some (unavailable 200 p) \<and>
   sn_Status (the (Newer (Some ((unavailable 100 p)\<lparr>sn_Status := ''ok''\<rparr>)) (Some (unavailable 200 p)))) = ''ok''"
  by (simp add: Newer_def last_seen_def unavailable_def)

text \<open>What other devices of the account see holds no mount path and no volume
  identifier, for every disk, and is otherwise the snapshot: as many disks, with the same sizes.\<close>

theorem public_resources_hide_paths:
  "PublicResources (Some s) = Some p \<Longrightarrow>
   length (sn_Disks p) = length (sn_Disks s) \<and>
   map dk_Total (sn_Disks p) = map dk_Total (sn_Disks s) \<and>
   (\<forall>d \<in> set (sn_Disks p). dk_Mounts d = [] \<and> \<not> Contains (dk_ID d) ''Volume{'')"
proof -
  have one: "dk_Mounts (public_disk i d) = [] \<and> \<not> Contains (dk_ID (public_disk i d)) ''Volume{'' \<and>
      dk_Total (public_disk i d) = dk_Total d" for i d
    using volume_name_plain[of i] by (simp add: public_disk_def Let_def del: Contains.simps)
  assume "PublicResources (Some s) = Some p"
  then have "sn_Disks p = map (\<lambda>(i, d). public_disk i d) (List.enumerate 0 (sn_Disks s))"
    by (auto simp: PublicResources_def)
  moreover have "map dk_Total (sn_Disks s) = map (\<lambda>(i, d). dk_Total d) (List.enumerate 0 (sn_Disks s))"
    by (metis (no_types, lifting) map_eq_conv map_map map_snd_enumerate comp_apply case_prod_beta)
  ultimately show ?thesis using one by (auto simp: case_prod_beta)
qed

theorem public_resources_hide_paths_witness:
  "\<not> Contains (dk_ID (hd (sn_Disks (the (PublicResources
     (Some ((unavailable 1 ''windows'')\<lparr>sn_Disks := [empty_disk\<lparr>dk_ID := ''Volume{9}''\<rparr>]\<rparr>))))))) ''Volume{''"
proof -
  obtain p where p: "PublicResources (Some ((unavailable 1 ''windows'')\<lparr>sn_Disks := [empty_disk\<lparr>dk_ID := ''Volume{9}''\<rparr>]\<rparr>)) = Some p"
    by (simp add: PublicResources_def)
  note hide = public_resources_hide_paths[OF p]
  then have "hd (sn_Disks p) \<in> set (sn_Disks p)" by (intro hd_in_set) auto
  then show ?thesis using hide p by simp
qed

text \<open>The command that carries a script to a remote shell quotes it exactly: a POSIX
  shell reading the word after \<open>sh -c\<close> gets the script back, whatever quotes it contains.\<close>

theorem shell_command_roundtrip:
  "script platform \<noteq> [] \<Longrightarrow> platform \<noteq> ''windows'' \<Longrightarrow>
   Command script encoded platform = ''sh -c '' @ w \<Longrightarrow> sh_word None w = (script platform, [])"
  using sh_word_quoted by (auto simp: Command_def Let_def shell_quote_def)

theorem shell_command_roundtrip_witness:
  "sh_word None (shell_quote ''uname; echo done'') = (''uname; echo done'', [])"
  by (rule shell_command_roundtrip[of "\<lambda>_. ''uname; echo done''" "''linux''" "\<lambda>x. x"])
    (simp_all add: Command_def)

text \<open>The output buffer never exceeds its bound, whatever is written to it in whatever
  pieces, and holds exactly the pieces that were accepted, in order.\<close>

theorem output_buffer_bounded:
  "fst (write_all ps []) = concat (snd (write_all ps [])) \<and> length (fst (write_all ps [])) \<le> MaxOutput"
  using write_all_bound[of "[]" ps] by (metis append_Nil le0 list.size(3))

end
