(* ===== verification/Config_Model.thy ===== *)
theory Config_Model
  imports Inventory "HOL-Library.Product_Lexorder"
begin

text \<open>
  \<open>internal/config\<close>: the configuration document (\<open>config.go\<close>), the search over it
  (\<open>search.go\<close>), removal of a server (\<open>remove.go\<close>) and the recognition of device
  connections (\<open>device.go\<close>). A Go map is a finite map; where the code ranges over one, the
  order of the visit is an argument, any \<open>range_order\<close> of the map. A nil pointer in a map is
  \<open>None\<close>. Times are nanoseconds, the zero time is 0.
\<close>

section \<open>The document\<close>

definition CurrentVersion :: int where "CurrentVersion = 5"
definition MaxDescriptionRunes :: nat where "MaxDescriptionRunes = 500"
definition MaxLabelRunes :: nat where "MaxLabelRunes = 100"
definition MaxGroupRunes :: nat where "MaxGroupRunes = 100"
definition MaxTags :: nat where "MaxTags = 32"
definition MaxTagRunes :: nat where "MaxTagRunes = 64"
definition MaxNotesRunes :: nat where "MaxNotesRunes = 4000"

lemmas bounds_defs = MaxDescriptionRunes_def MaxLabelRunes_def MaxGroupRunes_def MaxTags_def
  MaxTagRunes_def MaxNotesRunes_def

definition AuthCloud :: string where "AuthCloud = ''cloud''"
definition AuthKey :: string where "AuthKey = ''key''"
definition AuthPassword :: string where "AuthPassword = ''password''"
definition AuthAgent :: string where "AuthAgent = ''agent''"
definition StatusOnline :: string where "StatusOnline = ''online''"
definition StatusOffline :: string where "StatusOffline = ''offline''"

record Server =
  sv_CloudEntry :: string
  sv_CloudVault :: string
  sv_Hardware :: "Snapshot option"
  sv_Label :: string
  sv_Description :: string
  sv_Platform :: string
  sv_Host :: string
  sv_Port :: int
  sv_User :: string
  sv_Auth :: string
  sv_KeyPath :: string
  sv_Tags :: "string list"
  sv_Group :: string
  sv_Notes :: string
  sv_InitState :: string
  sv_CreatedAt :: gotime
  sv_IdentityChangedAt :: gotime
  sv_LastUsed :: gotime
  sv_LastChecked :: gotime
  sv_LastSeen :: gotime
  sv_SSHMStatus :: string
  sv_SSHMVersion :: string
  sv_SSHMCheckedAt :: gotime
  sv_LastSSHChecked :: gotime
  sv_LastSSHError :: string
  sv_LastStatus :: string
  sv_CleanupProtected :: bool
  sv_ProxyJump :: string
  sv_ProxyCommand :: string
  sv_Proxy :: string
  sv_Forwards :: "string list"

definition zero_server :: Server where
  "zero_server = \<lparr>sv_CloudEntry = [], sv_CloudVault = [], sv_Hardware = None, sv_Label = [],
     sv_Description = [], sv_Platform = [], sv_Host = [], sv_Port = 0, sv_User = [], sv_Auth = [],
     sv_KeyPath = [], sv_Tags = [], sv_Group = [], sv_Notes = [], sv_InitState = [], sv_CreatedAt = 0,
     sv_IdentityChangedAt = 0, sv_LastUsed = 0, sv_LastChecked = 0, sv_LastSeen = 0, sv_SSHMStatus = [],
     sv_SSHMVersion = [], sv_SSHMCheckedAt = 0, sv_LastSSHChecked = 0, sv_LastSSHError = [],
     sv_LastStatus = [], sv_CleanupProtected = False, sv_ProxyJump = [], sv_ProxyCommand = [],
     sv_Proxy = [], sv_Forwards = []\<rparr>"

record Project =
  pj_Server :: string
  pj_LocalRoot :: string
  pj_RemoteWorkspace :: string
  pj_RemoteRuns :: string
  pj_ArtifactPath :: string
  pj_LocalArtifactDir :: string
  pj_Shell :: string
  pj_BuildCommand :: string
  pj_VerifyCommand :: string

definition zero_project :: Project where
  "zero_project = \<lparr>pj_Server = [], pj_LocalRoot = [], pj_RemoteWorkspace = [], pj_RemoteRuns = [],
     pj_ArtifactPath = [], pj_LocalArtifactDir = [], pj_Shell = [], pj_BuildCommand = [], pj_VerifyCommand = []\<rparr>"

record UIConfig =
  ui_Language :: string
  ui_Icons :: string
  ui_Color :: string

type_synonym server_map = "(string, Server option) gomap"
type_synonym project_map = "(string, Project option) gomap"

record Config =
  cf_Version :: int
  cf_Default :: string
  cf_UI :: UIConfig
  cf_Servers :: server_map
  cf_Projects :: project_map

definition New :: Config where
  "New = \<lparr>cf_Version = CurrentVersion, cf_Default = [], cf_UI = \<lparr>ui_Language = [], ui_Icons = [], ui_Color = []\<rparr>,
     cf_Servers = gm_empty, cf_Projects = gm_empty\<rparr>"

text \<open>\<open>cfg.Servers[alias]\<close> as a pointer: nil when the key is absent or holds nil.\<close>

definition server_at :: "server_map \<Rightarrow> string \<Rightarrow> Server option" where
  "server_at m alias = (case gm_lookup m alias of None \<Rightarrow> None | Some p \<Rightarrow> p)"

definition project_at :: "project_map \<Rightarrow> string \<Rightarrow> Project option" where
  "project_at m name = (case gm_lookup m name of None \<Rightarrow> None | Some p \<Rightarrow> p)"

section \<open>Metadata\<close>

definition NormalizePlatform :: "string \<Rightarrow> string option" where
  "NormalizePlatform value =
    (let v = ToLower (TrimSpace value) in
     if v = [] \<or> v = ''unknown'' \<or> v = ''auto'' then Some []
     else if v = ''windows'' \<or> v = ''win'' then Some ''windows''
     else if v = ''linux'' then Some ''linux''
     else if v = ''macos'' \<or> v = ''darwin'' \<or> v = ''mac'' then Some ''macos''
     else None)"

definition EffectiveDescription :: "Server option \<Rightarrow> string" where
  "EffectiveDescription so =
    (case so of None \<Rightarrow> []
     | Some s \<Rightarrow> let d = TrimSpace (sv_Description s) in if d \<noteq> [] then d else TrimSpace (sv_Notes s))"

datatype metadata_error =
    DescriptionLines | DescriptionLength
  | FieldNUL string | FieldLines string | FieldLength string
  | TooManyTags | BadTag | TagLength

definition ValidateDescription :: "string \<Rightarrow> metadata_error option" where
  "ValidateDescription d =
    (if ContainsAny d NUL_CR_LF then Some DescriptionLines
     else if MaxDescriptionRunes < RuneCountInString d then Some DescriptionLength
     else None)"

definition check_field :: "string \<Rightarrow> string \<Rightarrow> nat \<Rightarrow> metadata_error option" where
  "check_field name value limit =
    (if ContainsAny value [CHR 0x00] then Some (FieldNUL name)
     else if name \<noteq> ''notes'' \<and> ContainsAny value [CHR 0x0D, CHR 0x0A] then Some (FieldLines name)
     else if limit < RuneCountInString value then Some (FieldLength name)
     else None)"

fun first_error :: "('a \<Rightarrow> 'e option) \<Rightarrow> 'a list \<Rightarrow> 'e option" where
  "first_error f [] = None"
| "first_error f (x # xs) = (case f x of Some e \<Rightarrow> Some e | None \<Rightarrow> first_error f xs)"

definition check_tag :: "string \<Rightarrow> metadata_error option" where
  "check_tag tag =
    (if TrimSpace tag = [] \<or> ContainsAny tag NUL_CR_LF then Some BadTag
     else if MaxTagRunes < RuneCountInString tag then Some TagLength
     else None)"

text \<open>The three bounded fields stand in a map, so the order in which they are checked is
  not determined: \<open>ord\<close> lists the names in the order of the visit.\<close>

definition bounded_fields :: "string \<Rightarrow> string \<Rightarrow> string \<Rightarrow> (string, string \<times> nat) gomap" where
  "bounded_fields label grp notes = gm_of_list
    [(''label'', label, MaxLabelRunes), (''group'', grp, MaxGroupRunes), (''notes'', notes, MaxNotesRunes)]"

definition ValidateServerMetadataBounds ::
  "string list \<Rightarrow> string \<Rightarrow> string \<Rightarrow> string list \<Rightarrow> string \<Rightarrow> string \<Rightarrow> metadata_error option" where
  "ValidateServerMetadataBounds ord label description tags grp notes =
    (case ValidateDescription description of Some e \<Rightarrow> Some e | None \<Rightarrow>
     case first_error (\<lambda>name. case gm_lookup (bounded_fields label grp notes) name of
              None \<Rightarrow> None | Some (value, limit) \<Rightarrow> check_field name value limit) ord of
       Some e \<Rightarrow> Some e
     | None \<Rightarrow> if MaxTags < length tags then Some TooManyTags else first_error check_tag tags)"

section \<open>References between servers and projects\<close>

definition ProjectsUsingServer :: "string list \<Rightarrow> Config \<Rightarrow> string \<Rightarrow> string list" where
  "ProjectsUsingServer ord cfg alias =
    sort (filter (\<lambda>name. case project_at (cf_Projects cfg) name of
                     None \<Rightarrow> False | Some p \<Rightarrow> pj_Server p = alias) ord)"

definition ServersUsingProxyJump :: "string list \<Rightarrow> Config \<Rightarrow> string \<Rightarrow> string list" where
  "ServersUsingProxyJump ord cfg alias =
    sort (filter (\<lambda>name. name \<noteq> alias \<and> (case server_at (cf_Servers cfg) name of
                     None \<Rightarrow> False | Some s \<Rightarrow> TrimSpace (sv_ProxyJump s) = alias)) ord)"

text \<open>The sorted result is the same for every order of the visit, so callers use the
  order of the keys.\<close>

abbreviation projects_using :: "Config \<Rightarrow> string \<Rightarrow> string list" where
  "projects_using cfg \<equiv> ProjectsUsingServer (gm_keys (cf_Projects cfg)) cfg"
abbreviation jump_users :: "Config \<Rightarrow> string \<Rightarrow> string list" where
  "jump_users cfg \<equiv> ServersUsingProxyJump (gm_keys (cf_Servers cfg)) cfg"

definition CleanupProtectionReasons :: "Config \<Rightarrow> string \<Rightarrow> string list" where
  "CleanupProtectionReasons cfg alias =
    (case server_at (cf_Servers cfg) alias of None \<Rightarrow> []
     | Some server \<Rightarrow>
         (if sv_CleanupProtected server then [''manually protected''] else []) @
         (if cf_Default cfg = alias then [''default server''] else []) @
         (let ps = projects_using cfg alias in
          if ps \<noteq> [] then [''used by projects: '' @ Join ps '', ''] else []) @
         (let us = jump_users cfg alias in
          if us \<noteq> [] then [''proxy jump for: '' @ Join us '', ''] else []))"

section \<open>Removing a server\<close>

datatype ServerRemovalError = RemovalNotFound string | RemovalProxyJump string "string list"

definition CheckServerRemoval :: "Config \<Rightarrow> string \<Rightarrow> ServerRemovalError option" where
  "CheckServerRemoval cfg alias =
    (if gm_lookup (cf_Servers cfg) alias = None then Some (RemovalNotFound alias)
     else let users = jump_users cfg alias in
       if users = [] then None else Some (RemovalProxyJump alias users))"

definition clear_project :: "string \<Rightarrow> Project option \<Rightarrow> Project option" where
  "clear_project alias p =
    map_option (\<lambda>pr. if pj_Server pr = alias then pr\<lparr>pj_Server := []\<rparr> else pr) p"

definition RemoveServer :: "Config \<Rightarrow> string \<Rightarrow> ServerRemovalError + Config" where
  "RemoveServer cfg alias =
    (case CheckServerRemoval cfg alias of
       Some e \<Rightarrow> Inl e
     | None \<Rightarrow> Inr (cfg\<lparr>
         cf_Servers := gm_delete alias (cf_Servers cfg),
         cf_Projects := gm_map (\<lambda>_. clear_project alias) (cf_Projects cfg),
         cf_Default := (if cf_Default cfg = alias then [] else cf_Default cfg)\<rparr>))"

section \<open>Search\<close>

definition search_separator :: "char \<Rightarrow> bool" where
  "search_separator c \<longleftrightarrow> is_space c \<or> c \<in> set '',;|/:_()[]{}'' \<or> c = CHR 0x5C"

definition normalizeSearchText :: "string \<Rightarrow> string" where
  "normalizeSearchText value = Join (FieldsFunc search_separator (ToLower (TrimSpace value))) '' ''"

definition searchTerms :: "string \<Rightarrow> string list" where
  "searchTerms query = Fields (normalizeSearchText query)"

record ServerMatch =
  mt_Alias :: string
  mt_Server :: Server
  mt_Score :: int
  mt_MatchedOn :: "string list"

definition search_fields :: "string \<Rightarrow> Server \<Rightarrow> (string \<times> string \<times> int) list" where
  "search_fields alias s =
    [(''alias'', alias, 100), (''label'', sv_Label s, 80), (''description'', sv_Description s, 60),
     (''platform'', sv_Platform s, 55), (''tags'', Join (sv_Tags s) '' '', 50), (''group'', sv_Group s, 40),
     (''user'', sv_User s, 20), (''host'', sv_Host s, 10)]"

definition field_matches :: "string \<Rightarrow> string \<times> string \<times> int \<Rightarrow> bool" where
  "field_matches term f = (case f of (name, value, weight) \<Rightarrow>
     let n = normalizeSearchText value in n \<noteq> [] \<and> Contains n term)"

text \<open>The loop over the terms: the score and the set of matched field names, or \<open>None\<close> when a
  term matches nowhere.\<close>

fun match_terms :: "(string \<times> string \<times> int) list \<Rightarrow> string list \<Rightarrow> int \<Rightarrow> string set \<Rightarrow> (int \<times> string set) option" where
  "match_terms flds [] score matched = Some (score, matched)"
| "match_terms flds (t # ts) score matched =
    (let hits = filter (field_matches t) flds in
     if hits = [] then None
     else match_terms flds ts (score + sum_list (map (\<lambda>(_, _, w). w) hits)) (matched \<union> set (map fst hits)))"

definition match_server :: "string \<Rightarrow> string \<Rightarrow> Server \<Rightarrow> ServerMatch option" where
  "match_server query alias s =
    (let flds = search_fields alias s in
     case match_terms flds (searchTerms query) 0 {} of
       None \<Rightarrow> None
     | Some (score, matched) \<Rightarrow> Some \<lparr>
         mt_Alias = alias, mt_Server = s,
         mt_Score = (if normalizeSearchText alias = normalizeSearchText query then score + 200 else score),
         mt_MatchedOn = filter (\<lambda>n. n \<in> matched) (map fst flds)\<rparr>)"

definition search_one :: "server_map \<Rightarrow> string \<Rightarrow> string \<Rightarrow> ServerMatch option" where
  "search_one servers query alias =
    (case server_at servers alias of None \<Rightarrow> None | Some s \<Rightarrow> match_server query alias s)"

text \<open>\<open>sort.Slice\<close> with the comparison of the source: higher scores first, then the alias.\<close>

definition match_key :: "ServerMatch \<Rightarrow> int \<times> string" where
  "match_key m = (- mt_Score m, mt_Alias m)"

definition SearchServers :: "string list \<Rightarrow> server_map \<Rightarrow> string \<Rightarrow> ServerMatch list" where
  "SearchServers ord servers query =
    (if searchTerms query = [] then []
     else sort_key match_key (List.map_filter (search_one servers query) ord))"

section \<open>Device connections\<close>

definition hex_value :: "char \<Rightarrow> nat option" where
  "hex_value c =
    (if is_digit c then Some (of_char c - 48)
     else if CHR ''a'' \<le> c \<and> c \<le> CHR ''f'' then Some (of_char c - 87)
     else if CHR ''A'' \<le> c \<and> c \<le> CHR ''F'' then Some (of_char c - 55)
     else None)"

fun hex_decode :: "string \<Rightarrow> string option" where
  "hex_decode [] = Some []"
| "hex_decode [c] = None"
| "hex_decode (a # b # s) =
    (case (hex_value a, hex_value b, hex_decode s) of
       (Some h, Some l, Some r) \<Rightarrow> Some (char_of (16 * h + l) # r)
     | _ \<Rightarrow> None)"

definition hex_digit_of :: "nat \<Rightarrow> char" where
  "hex_digit_of n = (if n < 10 then char_of (48 + n) else char_of (87 + n))"

definition hex_encode :: "string \<Rightarrow> string" where
  "hex_encode s = concat (map (\<lambda>c. [hex_digit_of (of_char c div 16), hex_digit_of (of_char c mod 16)]) s)"

definition id_byte :: "char \<Rightarrow> bool" where
  "id_byte c \<longleftrightarrow> is_lower c \<or> is_upper c \<or> is_digit c \<or> c = CHR ''_'' \<or> c = CHR ''-''"

definition device_prefix :: string where "device_prefix = ''sshm-device-''"
definition device_suffix :: string where "device_suffix = ''.invalid''"

definition DeviceConnectionID :: "Server option \<Rightarrow> string" where
  "DeviceConnectionID so =
    (case so of None \<Rightarrow> [] | Some s \<Rightarrow>
      if sv_Auth s \<noteq> AuthAgent \<and> sv_Auth s \<noteq> AuthCloud \<or> sv_User s \<noteq> ''sshm-client'' \<or> sv_Port s \<noteq> 22 then []
      else if \<not> HasPrefix (sv_Host s) device_prefix \<or> \<not> HasSuffix (sv_Host s) device_suffix then []
      else case hex_decode (TrimSuffix (TrimPrefix (sv_Host s) device_prefix) device_suffix) of
        None \<Rightarrow> []
      | Some raw \<Rightarrow> if length raw < 8 \<or> 100 < length raw \<or> \<not> list_all id_byte raw then [] else raw)"

section \<open>Laws\<close>

lemma hex_digit_table: "list_all (\<lambda>n. hex_value (hex_digit_of n) = Some n) [0..<16]"
  by code_simp

lemma hex_digit_value: "n < 16 \<Longrightarrow> hex_value (hex_digit_of n) = Some n"
  using hex_digit_table by (simp add: list_all_iff)

lemma hex_roundtrip: "hex_decode (hex_encode s) = Some s"
proof (induction s)
  case (Cons c s)
  have "of_char c div 16 < (16 :: nat)" "of_char c mod 16 < (16 :: nat)"
    using nat_of_char_less_256[of c] by (simp_all add: div_less_iff_less_mult del: nat_of_char_less_256)
  then show ?case using Cons hex_digit_value by (simp add: hex_encode_def)
qed (simp add: hex_encode_def)

lemma ProjectsUsingServer_any_order:
  "range_order (cf_Projects cfg) ord \<Longrightarrow> ProjectsUsingServer ord cfg alias = projects_using cfg alias"
  unfolding ProjectsUsingServer_def
  by (rule sort_filter_any_order) (use gm.legal_order_keys in \<open>auto simp: gm.legal_order_def\<close>)

lemma ServersUsingProxyJump_any_order:
  "range_order (cf_Servers cfg) ord \<Longrightarrow> ServersUsingProxyJump ord cfg alias = jump_users cfg alias"
  unfolding ServersUsingProxyJump_def
  by (rule sort_filter_any_order) (use gm.legal_order_keys in \<open>auto simp: gm.legal_order_def\<close>)

lemma in_jump_users:
  "name \<in> set (jump_users cfg alias) \<longleftrightarrow>
   name \<noteq> alias \<and> (\<exists>s. server_at (cf_Servers cfg) name = Some s \<and> TrimSpace (sv_ProxyJump s) = alias)"
  by (auto simp: ServersUsingProxyJump_def in_gm_keys server_at_def split: option.splits)

lemma in_projects_using:
  "name \<in> set (projects_using cfg alias) \<longleftrightarrow>
   (\<exists>p. project_at (cf_Projects cfg) name = Some p \<and> pj_Server p = alias)"
  by (auto simp: ProjectsUsingServer_def in_gm_keys project_at_def split: option.splits)

lemma server_at_update: "server_at (gm_update k v m) k' = (if k' = k then v else server_at m k')"
  by (simp add: server_at_def gm.lookup_update)

lemma server_at_delete: "server_at (gm_delete k m) k' = (if k' = k then None else server_at m k')"
  by (simp add: server_at_def gm.lookup_delete)

lemma project_at_map: "project_at (gm_map (\<lambda>_. map_option f) m) k = map_option f (project_at m k)"
  by (simp add: project_at_def split: option.split)

lemma RemoveServer_Inr:
  "RemoveServer cfg alias = Inr cfg' \<longleftrightarrow>
   gm_lookup (cf_Servers cfg) alias \<noteq> None \<and> jump_users cfg alias = [] \<and>
   cfg' = cfg\<lparr>cf_Servers := gm_delete alias (cf_Servers cfg),
              cf_Projects := gm_map (\<lambda>_. clear_project alias) (cf_Projects cfg),
              cf_Default := (if cf_Default cfg = alias then [] else cf_Default cfg)\<rparr>"
  by (auto simp: RemoveServer_def CheckServerRemoval_def Let_def)

text \<open>A document is closed when its default server, the servers of its projects and the
  proxy jumps that name a server all name servers it holds.\<close>

definition jump_target_missing :: "Config \<Rightarrow> string \<Rightarrow> bool" where
  "jump_target_missing cfg target \<longleftrightarrow> target \<noteq> [] \<and> gm_lookup (cf_Servers cfg) target = None"

definition refs_closed :: "Config \<Rightarrow> bool" where
  "refs_closed cfg \<longleftrightarrow>
    (cf_Default cfg \<noteq> [] \<longrightarrow> gm_lookup (cf_Servers cfg) (cf_Default cfg) \<noteq> None) \<and>
    (\<forall>name p. project_at (cf_Projects cfg) name = Some p \<longrightarrow> pj_Server p \<noteq> [] \<longrightarrow>
       gm_lookup (cf_Servers cfg) (pj_Server p) \<noteq> None) \<and>
    (\<forall>name s. server_at (cf_Servers cfg) name = Some s \<longrightarrow> \<not> jump_target_missing cfg (TrimSpace (sv_ProxyJump s)))"

lemma first_error_None: "first_error f xs = None \<longleftrightarrow> (\<forall>x \<in> set xs. f x = None)"
  by (induction xs) (auto split: option.splits)

text \<open>A single line: none of the bytes NUL, CR and LF.\<close>

definition one_line :: "string \<Rightarrow> bool" where
  "one_line v \<longleftrightarrow> CHR 0x00 \<notin> set v \<and> CHR 0x0D \<notin> set v \<and> CHR 0x0A \<notin> set v"

lemma ContainsAny_NUL_CR_LF: "ContainsAny v NUL_CR_LF \<longleftrightarrow> \<not> one_line v"
  by (auto simp: ContainsAny_iff NUL_CR_LF_def one_line_def)

lemma check_field_None:
  "check_field name v limit = None \<longleftrightarrow>
   CHR 0x00 \<notin> set v \<and> (name \<noteq> ''notes'' \<longrightarrow> one_line v) \<and> RuneCountInString v \<le> limit"
  by (auto simp: check_field_def ContainsAny_iff one_line_def)

lemma check_tag_None:
  "check_tag t = None \<longleftrightarrow> TrimSpace t \<noteq> [] \<and> one_line t \<and> RuneCountInString t \<le> 64"
  by (auto simp: check_tag_def ContainsAny_NUL_CR_LF bounds_defs)

lemma ValidateDescription_None:
  "ValidateDescription d = None \<longleftrightarrow> one_line d \<and> RuneCountInString d \<le> 500"
  by (auto simp: ValidateDescription_def ContainsAny_NUL_CR_LF bounds_defs)

lemma match_terms_None:
  "match_terms flds ts score matched = None \<longleftrightarrow> (\<exists>t \<in> set ts. \<forall>f \<in> set flds. \<not> field_matches t f)"
  by (induction flds ts score matched rule: match_terms.induct) (auto simp: Let_def filter_empty_conv)

lemma map_filter_any_order:
  assumes "distinct xs" "distinct ys" "set xs = set ys"
  shows "mset (List.map_filter f xs) = mset (List.map_filter f ys)"
proof -
  have "mset xs = mset ys" using assms by (simp add: set_eq_iff_mset_eq_distinct)
  then show ?thesis by (simp add: List.map_filter_def)
qed

lemma sort_key_any_order:
  fixes f :: "'a \<Rightarrow> 'k::linorder"
  assumes "mset xs = mset ys" "inj_on f (set xs)"
  shows "sort_key f xs = sort_key f ys"
proof (rule sort_key_inj_key_eq)
  show "mset xs = mset (sort_key f ys)" using assms(1) by simp
  show "inj_on f (set xs)" by (rule assms)
  show "sorted (map f (sort_key f ys))" by simp
qed

lemma search_one_alias: "search_one servers q alias = Some m \<Longrightarrow> mt_Alias m = alias"
  by (auto simp: search_one_def match_server_def Let_def split: option.splits)

lemma map_filter_set: "set (List.map_filter f xs) = {y. \<exists>x \<in> set xs. f x = Some y}"
  by (induction xs) (auto simp: List.map_filter_simps split: option.splits)

lemma SearchServers_any_order:
  assumes "range_order servers ord"
  shows "SearchServers ord servers q = SearchServers (gm_keys servers) servers q"
proof -
  have "inj_on match_key (set (List.map_filter (search_one servers q) ord))"
  proof (rule inj_onI)
    fix x y assume xy: "x \<in> set (List.map_filter (search_one servers q) ord)"
      "y \<in> set (List.map_filter (search_one servers q) ord)" "match_key x = match_key y"
    then obtain a b where "search_one servers q a = Some x" "search_one servers q b = Some y"
      unfolding map_filter_set by blast
    then show "x = y" using xy(3) search_one_alias by (fastforce simp: match_key_def)
  qed
  moreover have "mset (List.map_filter (search_one servers q) ord) =
      mset (List.map_filter (search_one servers q) (gm_keys servers))"
    by (rule map_filter_any_order)
      (use assms gm.legal_order_keys[of servers] in \<open>auto simp: gm.legal_order_def\<close>)
  ultimately show ?thesis unfolding SearchServers_def by (simp add: sort_key_any_order)
qed

lemma match_server_Some:
  "(\<exists>m. match_server q alias s = Some m) \<longleftrightarrow>
   (\<forall>t \<in> set (searchTerms q). \<exists>f \<in> set (search_fields alias s). field_matches t f)"
proof -
  have "(\<exists>m. match_server q alias s = Some m) \<longleftrightarrow> match_terms (search_fields alias s) (searchTerms q) 0 {} \<noteq> None"
    by (auto simp: match_server_def Let_def split: option.splits)
  then show ?thesis unfolding match_terms_None by blast
qed

lemma match_server_notes:
  "match_server q alias (s\<lparr>sv_Notes := n\<rparr>) =
   map_option (\<lambda>m. m\<lparr>mt_Server := (mt_Server m)\<lparr>sv_Notes := n\<rparr>\<rparr>) (match_server q alias s)"
  by (simp add: match_server_def search_fields_def Let_def split: option.split)

section \<open>Properties\<close>

text \<open>C13: removing a server leaves no dangling reference. When the default server, the
  projects' servers and the proxy jumps of a document all name servers it holds, they do
  so after a successful removal, which takes away exactly that server and changes no other one.\<close>

theorem remove_keeps_references:
  assumes "RemoveServer cfg alias = Inr cfg'" "refs_closed cfg"
  shows "refs_closed cfg' \<and> gm_lookup (cf_Servers cfg') alias = None \<and>
    (\<forall>other. other \<noteq> alias \<longrightarrow> gm_lookup (cf_Servers cfg') other = gm_lookup (cf_Servers cfg) other)"
proof -
  from assms(1) have free: "jump_users cfg alias = []" and cfg': "cfg' = cfg\<lparr>
      cf_Servers := gm_delete alias (cf_Servers cfg),
      cf_Projects := gm_map (\<lambda>_. clear_project alias) (cf_Projects cfg),
      cf_Default := (if cf_Default cfg = alias then [] else cf_Default cfg)\<rparr>"
    unfolding RemoveServer_Inr by auto
  have jumps: "TrimSpace (sv_ProxyJump s) \<noteq> alias" if "server_at (cf_Servers cfg) n = Some s" "n \<noteq> alias" for n s
    using in_jump_users[of n cfg "alias"] free that by auto
  have projects: "\<exists>q. project_at (cf_Projects cfg) n = Some q \<and>
      p = (if pj_Server q = alias then q\<lparr>pj_Server := []\<rparr> else q)
      \<and> pj_Server p \<noteq> alias \<or> pj_Server p = []"
    if "project_at (cf_Projects cfg') n = Some p" for n p
    using that by (auto simp: cfg' clear_project_def[abs_def] project_at_map)
  have "refs_closed cfg'"
    unfolding refs_closed_def
  proof (intro conjI allI impI)
    show "gm_lookup (cf_Servers cfg') (cf_Default cfg') \<noteq> None" if "cf_Default cfg' \<noteq> []"
      using that assms(2) by (auto simp: cfg' refs_closed_def gm.lookup_delete)
    show "gm_lookup (cf_Servers cfg') (pj_Server p) \<noteq> None"
      if "project_at (cf_Projects cfg') n = Some p" "pj_Server p \<noteq> []" for n p
      using projects[OF that(1)] that(2) assms(2)
      by (auto simp: cfg' refs_closed_def gm.lookup_delete split: if_splits)
    show "\<not> jump_target_missing cfg' (TrimSpace (sv_ProxyJump s))"
      if "server_at (cf_Servers cfg') n = Some s" for n s
      using that assms(2) jumps[of n s]
      by (auto simp: cfg' refs_closed_def jump_target_missing_def server_at_delete gm.lookup_delete split: if_splits)
  qed
  then show ?thesis by (simp add: cfg' gm.lookup_delete)
qed

theorem remove_keeps_references_witness:
  "\<exists>cfg'. RemoveServer (New\<lparr>cf_Default := ''a'', cf_Servers := gm_of_list [(''a'', Some zero_server)],
       cf_Projects := gm_of_list [(''p'', Some (zero_project\<lparr>pj_Server := ''a''\<rparr>))]\<rparr>) ''a'' = Inr cfg' \<and> refs_closed cfg'"
proof -
  let ?cfg = "New\<lparr>cf_Default := ''a'', cf_Servers := gm_of_list [(''a'', Some zero_server)],
       cf_Projects := gm_of_list [(''p'', Some (zero_project\<lparr>pj_Server := ''a''\<rparr>))]\<rparr>"
  have "jump_users ?cfg ''a'' = []" by code_simp
  then obtain cfg' where r: "RemoveServer ?cfg ''a'' = Inr cfg'"
    by (simp add: RemoveServer_Inr gm_lookup_of_list)
  have "refs_closed ?cfg"
    by (auto simp: refs_closed_def jump_target_missing_def server_at_def project_at_def gm_lookup_of_list
        zero_project_def zero_server_def TrimSpace_def Trim_if_def split: option.splits if_splits)
  then show ?thesis using remove_keeps_references[OF r] r by blast
qed

text \<open>A removal is refused exactly when the alias is unknown or another server jumps
  through it, and the error names all of those servers, sorted.\<close>

theorem remove_refused_iff:
  "(RemoveServer cfg alias = Inl (RemovalNotFound alias) \<longleftrightarrow> gm_lookup (cf_Servers cfg) alias = None) \<and>
   (RemoveServer cfg alias = Inl (RemovalProxyJump alias users) \<longleftrightarrow>
     gm_lookup (cf_Servers cfg) alias \<noteq> None \<and> users \<noteq> [] \<and> sorted users \<and> distinct users \<and>
     (\<forall>name. name \<in> set users \<longleftrightarrow> name \<noteq> alias \<and>
        (\<exists>s. server_at (cf_Servers cfg) name = Some s \<and> TrimSpace (sv_ProxyJump s) = alias)))"
proof -
  have "sorted (jump_users cfg alias)" "distinct (jump_users cfg alias)"
    using gm.legal_order_keys[of "cf_Servers cfg"] by (auto simp: ServersUsingProxyJump_def gm.legal_order_def)
  then have "users = jump_users cfg alias \<longleftrightarrow> sorted users \<and> distinct users \<and> set users = set (jump_users cfg alias)"
    by (metis sorted_distinct_set_unique)
  then show ?thesis unfolding set_eq_iff in_jump_users
    by (auto simp: RemoveServer_def CheckServerRemoval_def Let_def)
qed

theorem remove_refused_iff_witness:
  "RemoveServer (New\<lparr>cf_Servers := gm_of_list [(''a'', Some zero_server)]\<rparr>) ''b'' = Inl (RemovalNotFound ''b'')"
  using remove_refused_iff[of "New\<lparr>cf_Servers := gm_of_list [(''a'', Some zero_server)]\<rparr>" "''b''"]
  by (simp add: gm_lookup_of_list)

text \<open>A search does not depend on the order in which the servers are visited, lists its
  hits by falling score and then by alias, and returns exactly the servers for which every
  search term occurs in one of the discovery fields.\<close>

theorem search_result:
  assumes "range_order servers ord" "searchTerms query \<noteq> []"
  shows "SearchServers ord servers query = SearchServers (gm_keys servers) servers query \<and>
    sorted (map match_key (SearchServers ord servers query)) \<and>
    (\<forall>alias. alias \<in> mt_Alias ` set (SearchServers ord servers query) \<longleftrightarrow>
      (\<exists>s. server_at servers alias = Some s \<and>
        (\<forall>t \<in> set (searchTerms query). \<exists>f \<in> set (search_fields alias s). field_matches t f)))"
proof (intro conjI allI)
  show "SearchServers ord servers query = SearchServers (gm_keys servers) servers query"
    by (rule SearchServers_any_order) (rule assms)
  show "sorted (map match_key (SearchServers ord servers query))" by (simp add: SearchServers_def)
  fix "alias"
  have "alias \<in> mt_Alias ` set (SearchServers ord servers query) \<longleftrightarrow>
      alias \<in> set ord \<and> (\<exists>m. search_one servers query alias = Some m)"
    using assms(2) by (auto simp: SearchServers_def map_filter_set image_iff dest: search_one_alias)
  also have "\<dots> \<longleftrightarrow> (\<exists>s. server_at servers alias = Some s \<and> (\<exists>m. match_server query alias s = Some m))"
    using gm.legal_order_in[OF assms(1), of "alias"]
    by (auto simp: search_one_def server_at_def split: option.splits)
  finally show "alias \<in> mt_Alias ` set (SearchServers ord servers query) \<longleftrightarrow>
      (\<exists>s. server_at servers alias = Some s \<and>
        (\<forall>t \<in> set (searchTerms query). \<exists>f \<in> set (search_fields alias s). field_matches t f))"
    unfolding match_server_Some .
qed

theorem search_result_witness:
  "map mt_Alias (SearchServers [''b'', ''a''] (gm_of_list [(''a'', Some zero_server), (''b'', Some zero_server)]) ''b'') = [''b'']"
proof -
  let ?m = "gm_of_list [(''a'', Some zero_server), (''b'', Some zero_server)]"
  have "range_order ?m [''b'', ''a'']" by (auto simp: gm.legal_order_def gm_keys_of_list)
  moreover have "searchTerms ''b'' \<noteq> []" by code_simp
  ultimately have "SearchServers [''b'', ''a''] ?m ''b'' = SearchServers (gm_keys ?m) ?m ''b''"
    using search_result by blast
  moreover have "map mt_Alias (SearchServers (gm_keys ?m) ?m ''b'') = [''b'']" by code_simp
  ultimately show ?thesis by simp
qed

text \<open>Notes stay private: rewriting the notes of every server changes neither which
  servers a search finds nor their order, scores and matched fields.\<close>

theorem search_ignores_notes:
  "SearchServers ord (gm_map (\<lambda>_. map_option (\<lambda>s. s\<lparr>sv_Notes := notes\<rparr>)) servers) query =
   map (\<lambda>m. m\<lparr>mt_Server := (mt_Server m)\<lparr>sv_Notes := notes\<rparr>\<rparr>) (SearchServers ord servers query)"
proof -
  let ?g = "\<lambda>m. m\<lparr>mt_Server := (mt_Server m)\<lparr>sv_Notes := notes\<rparr>\<rparr>"
  have one: "search_one (gm_map (\<lambda>_. map_option (\<lambda>s. s\<lparr>sv_Notes := notes\<rparr>)) servers) query =
      (\<lambda>a. map_option ?g (search_one servers query a))"
    by (rule ext) (simp add: search_one_def server_at_def match_server_notes split: option.split)
  have "List.map_filter (\<lambda>a. map_option ?g (search_one servers query a)) ord =
      map ?g (List.map_filter (search_one servers query) ord)"
    by (induction ord) (simp_all add: List.map_filter_simps split: option.split)
  moreover have "sort_key match_key (map ?g xs) = map ?g (sort_key match_key xs)" for xs
  proof -
    have key: "match_key \<circ> ?g = match_key" by (auto simp: match_key_def)
    have ins: "insort_key match_key (?g x) (map ?g xs) = map ?g (insort_key match_key x xs)" for x xs
      by (induction xs) (simp_all add: match_key_def)
    show ?thesis by (induction xs) (simp_all add: ins)
  qed
  ultimately show ?thesis unfolding SearchServers_def one by simp
qed

text \<open>Whether server metadata is accepted does not depend on the random order in which
  its fields are checked, and accepted metadata respects every bound: single-line label,
  description, group and tags, at most 32 tags, and the length limits.\<close>

theorem metadata_bounds_hold:
  assumes "range_order (bounded_fields label grp notes) ord"
    and "ValidateServerMetadataBounds ord label description tags grp notes = None"
  shows "(\<forall>ord'. range_order (bounded_fields label grp notes) ord' \<longrightarrow>
      ValidateServerMetadataBounds ord' label description tags grp notes = None) \<and>
    one_line label \<and> RuneCountInString label \<le> 100 \<and> one_line grp \<and> RuneCountInString grp \<le> 100 \<and>
    one_line description \<and> RuneCountInString description \<le> 500 \<and>
    CHR 0x00 \<notin> set notes \<and> RuneCountInString notes \<le> 4000 \<and>
    length tags \<le> 32 \<and> (\<forall>t \<in> set tags. TrimSpace t \<noteq> [] \<and> one_line t \<and> RuneCountInString t \<le> 64)"
proof -
  let ?f = "\<lambda>name. case gm_lookup (bounded_fields label grp notes) name of
              None \<Rightarrow> None | Some (value, limit) \<Rightarrow> check_field name value limit"
  have look: "gm_lookup (bounded_fields label grp notes) ''label'' = Some (label, 100)"
    "gm_lookup (bounded_fields label grp notes) ''group'' = Some (grp, 100)"
    "gm_lookup (bounded_fields label grp notes) ''notes'' = Some (notes, 4000)"
    by (simp_all add: bounded_fields_def gm_lookup_of_list bounds_defs)
  have parts: "ValidateDescription description = None" "first_error ?f ord = None"
      "length tags \<le> MaxTags" "first_error check_tag tags = None"
    using assms(2) unfolding ValidateServerMetadataBounds_def by (auto split: option.splits if_splits)
  have orders: "first_error ?f ord' = None" if "range_order (bounded_fields label grp notes) ord'" for ord'
    using parts(2) that assms(1) unfolding first_error_None by (simp add: gm.legal_order_def)
  have every: "ValidateServerMetadataBounds ord' label description tags grp notes = None"
    if "range_order (bounded_fields label grp notes) ord'" for ord'
    using orders[OF that] parts unfolding ValidateServerMetadataBounds_def by simp
  have "?f n = None" if "gm_lookup (bounded_fields label grp notes) n = Some x" for n x
    using parts(2) gm.legal_order_in[OF assms(1)] that unfolding first_error_None by blast
  from this[OF look(1)] this[OF look(2)] this[OF look(3)]
  have "check_field ''label'' label 100 = None" "check_field ''group'' grp 100 = None"
      "check_field ''notes'' notes 4000 = None" by (simp_all add: look)
  then show ?thesis using every parts(1,3,4)
    by (simp add: check_field_None first_error_None check_tag_None ValidateDescription_None bounds_defs)
qed

theorem metadata_bounds_hold_witness:
  "RuneCountInString ''web'' \<le> 100 \<and>
   ValidateServerMetadataBounds [''notes'', ''group'', ''label''] ''web'' ''front end'' [''prod''] ''g'' [] = None"
proof -
  let ?names = "[''notes'', ''group'', ''label'']"
  have o: "range_order (bounded_fields ''web'' ''g'' []) ?names"
    by (auto simp: gm.legal_order_def bounded_fields_def gm_keys_of_list)
  have v: "ValidateServerMetadataBounds ?names ''web'' ''front end'' [''prod''] ''g'' [] = None" by code_simp
  show ?thesis using metadata_bounds_hold[OF o v] v by blast
qed

end
