(* ===== verification/Config_Store.thy ===== *)
theory Config_Store
  imports Config_Model Safety_Credential
begin

text \<open>
  \<open>internal/config\<close>: reading and writing the configuration file (\<open>load.go\<close>, \<open>update.go\<close>,
  \<open>ui_preferences.go\<close>), the local index of cloud bindings (\<open>cloud_bindings.go\<close>) and the
  activity recorded on servers (\<open>activity.go\<close>).

  A file is its bytes, or \<open>None\<close> when it does not exist. The TOML and JSON codecs and the
  digest are fields of an environment record, together with which step of the file
  operations fails. The two locks make an update atomic for every process that takes
  them; a writer that does not (an editor) is the argument \<open>seen\<close>: what the file holds when it
  is read again before the rename.
\<close>

section \<open>Transactions\<close>

text \<open>What an update promises: load the document, apply the function, store the result; any
  failure on the way leaves the file as it was.\<close>

definition transact ::
  "('f \<Rightarrow> 'e + 'd) \<Rightarrow> ('d \<Rightarrow> 'f \<Rightarrow> 'e + 'f) \<Rightarrow> ('c \<Rightarrow> 'e) \<Rightarrow> ('d \<Rightarrow> 'c + 'd) \<Rightarrow> 'f \<Rightarrow> 'e option \<times> 'f" where
  "transact load store raised fn f =
    (case bind_result (bind_result (load f) (\<lambda>d. map_sum raised id (fn d))) (\<lambda>d. store d f) of
       Inl e \<Rightarrow> (Some e, f)
     | Inr f' \<Rightarrow> (None, f'))"

locale transaction =
  fixes load :: "'f \<Rightarrow> 'e + 'd" and store :: "'d \<Rightarrow> 'f \<Rightarrow> 'e + 'f" and raised :: "'c \<Rightarrow> 'e"
    and run :: "('d \<Rightarrow> 'c + 'd) \<Rightarrow> 'f \<Rightarrow> 'e option \<times> 'f"
  assumes run_transacts: "run fn f = transact load store raised fn f"
begin

lemma error_keeps: "run fn f = (Some e, f') \<Longrightarrow> f' = f"
  by (auto simp: run_transacts transact_def split: sum.splits)

lemma ok_iff: "run fn f = (None, f') \<longleftrightarrow> (\<exists>d d'. load f = Inr d \<and> fn d = Inr d' \<and> store d' f = Inr f')"
  by (auto simp: run_transacts transact_def bind_result_eq_Inr map_sum_eq_Inr split: sum.splits)

text \<open>Two updates in a row are one update with the composed function, when what is stored
  reads back.\<close>

lemma compose:
  assumes "run f x = (None, y)" "run g y = (None, z)"
    and results: "\<And>d d'. f d = Inr d' \<Longrightarrow> good d'" "\<And>d d'. g d = Inr d' \<Longrightarrow> good d'"
    and reads: "\<And>d x y. good d \<Longrightarrow> store d x = Inr y \<Longrightarrow> load y = Inr (kept d)"
  shows "\<exists>d d' d''. load x = Inr d \<and> f d = Inr d' \<and> g (kept d') = Inr d'' \<and> load z = Inr (kept d'')"
  using assms(1,2) reads results unfolding ok_iff by (metis sum.inject(2))

end

section \<open>Files\<close>

datatype io_step = StepLock | StepRead | StepMkdir | StepCreate | StepSync | StepClose | StepChmod
  | StepReread | StepRename

record cloudBinding =
  cb_Fingerprint :: string
  cb_Entry :: string
  cb_Vault :: string

type_synonym route = "(string \<times> string \<times> string \<times> string \<times> string \<times> string \<times> string) \<times> int \<times> string list"

record config_env =
  ce_unmarshal :: "bytes \<Rightarrow> Config \<Rightarrow> Config option"
  ce_encode :: "Config \<Rightarrow> bytes option"
  ce_fails :: "io_step \<Rightarrow> bool"
  ce_bindings :: "bytes option"
  ce_read_bindings :: "bytes \<Rightarrow> (string, cloudBinding) gomap option"
  ce_ui :: "bytes option"
  ce_read_ui :: "bytes \<Rightarrow> UIConfig option"
  ce_digest :: "route \<Rightarrow> string"

datatype project_error = ProjectName | ProjectNameCredential | ProjectControl string | ProjectShell string
  | ProjectCredential string string

datatype 'e store_error = IoFailed io_step | ParseFailed | UnsupportedVersion int | InvalidProjects project_error
  | EncodeFailed | ChangedOutside | Callback 'e

section \<open>Project profiles\<close>

definition projectNamePattern :: re where
  "projectNamePattern = seqs [TextStart, Cls (\<lambda>c. is_lower c \<or> is_digit c),
     many (Cls (\<lambda>c. is_lower c \<or> is_digit c \<or> c \<in> set ''._-'')), TextEnd]"

definition validProjectShell :: "string \<Rightarrow> bool" where
  "validProjectShell shell \<longleftrightarrow> shell \<in> set [[], ''auto'', ''posix'', ''powershell'', ''cmd'']"

definition project_fields :: "Project \<Rightarrow> (string \<times> string) list" where
  "project_fields p =
    [(''server'', pj_Server p), (''local_root'', pj_LocalRoot p), (''remote_workspace'', pj_RemoteWorkspace p),
     (''remote_runs'', pj_RemoteRuns p), (''artifact_path'', pj_ArtifactPath p),
     (''local_artifact_dir'', pj_LocalArtifactDir p), (''build_command'', pj_BuildCommand p),
     (''verify_command'', pj_VerifyCommand p)]"

definition validate_project :: "string \<Rightarrow> Project option \<Rightarrow> project_error option" where
  "validate_project name project =
    (if \<not> MatchString projectNamePattern name then Some ProjectName
     else if ContainsCredentialMaterial name then Some ProjectNameCredential
     else case project of None \<Rightarrow> None
     | Some p \<Rightarrow>
         if ContainsAny (pj_Server p) NUL_CR_LF then Some (ProjectControl name)
         else if \<not> validProjectShell (pj_Shell p) then Some (ProjectShell name)
         else first_error (\<lambda>(field, value).
                if ContainsCredentialMaterial value then Some (ProjectCredential name field) else None)
              (project_fields p))"

definition ValidateProjects :: "Config \<Rightarrow> project_error option" where
  "ValidateProjects cfg =
    first_error (\<lambda>name. validate_project name (project_at (cf_Projects cfg) name)) (gm_keys (cf_Projects cfg))"

section \<open>Decoding\<close>

definition migrate_server :: "Server \<Rightarrow> Server" where
  "migrate_server s = (if sv_LastUsed s = 0 \<and> sv_LastSeen s \<noteq> 0 then s\<lparr>sv_LastUsed := sv_LastSeen s\<rparr> else s)"

text \<open>A nil map and an empty map are the same finite map, so the two nil checks of
  \<open>decodeConfig\<close> have no counterpart.\<close>

definition decodeConfig :: "config_env \<Rightarrow> bytes \<Rightarrow> 'e store_error + Config" where
  "decodeConfig env data =
    (case ce_unmarshal env data New of
       None \<Rightarrow> Inl ParseFailed
     | Some cfg \<Rightarrow>
         if CurrentVersion < cf_Version cfg then Inl (UnsupportedVersion (cf_Version cfg))
         else if cf_Version cfg < 5
         then Inr (cfg\<lparr>cf_Servers := gm_map (\<lambda>_. map_option migrate_server) (cf_Servers cfg)\<rparr>)
         else Inr cfg)"

section \<open>Cloud bindings and preferences\<close>

definition bindingFingerprint :: "(route \<Rightarrow> string) \<Rightarrow> Server \<Rightarrow> string" where
  "bindingFingerprint digest s =
    digest ((sv_Host s, sv_User s, sv_Auth s, sv_KeyPath s, sv_ProxyJump s, sv_ProxyCommand s, sv_Proxy s),
            sv_Port s, sv_Forwards s)"

definition SaveCloudBindings :: "config_env \<Rightarrow> Config \<Rightarrow> (string, cloudBinding) gomap" where
  "SaveCloudBindings env cfg =
    fold (\<lambda>alias entries. case server_at (cf_Servers cfg) alias of
            None \<Rightarrow> entries
          | Some s \<Rightarrow> if sv_CloudVault s \<noteq> []
              then gm_update alias \<lparr>cb_Fingerprint = bindingFingerprint (ce_digest env) s,
                     cb_Entry = sv_CloudEntry s, cb_Vault = sv_CloudVault s\<rparr> entries
              else entries)
      (gm_keys (cf_Servers cfg)) gm_empty"

definition bind_server :: "(route \<Rightarrow> string) \<Rightarrow> cloudBinding \<Rightarrow> Server \<Rightarrow> Server" where
  "bind_server digest entry s =
    (if sv_CloudVault s \<noteq> [] \<or> sv_CloudEntry s \<noteq> [] \<or> cb_Vault entry = [] \<or>
        bindingFingerprint digest s \<noteq> cb_Fingerprint entry
     then s else s\<lparr>sv_CloudEntry := cb_Entry entry, sv_CloudVault := cb_Vault entry\<rparr>)"

definition apply_binding :: "(route \<Rightarrow> string) \<Rightarrow> (string, cloudBinding) gomap \<Rightarrow> string \<Rightarrow> server_map \<Rightarrow> server_map" where
  "apply_binding digest entries alias m =
    (case (gm_lookup entries alias, server_at m alias) of
       (Some entry, Some s) \<Rightarrow> gm_update alias (Some (bind_server digest entry s)) m
     | _ \<Rightarrow> m)"

definition apply_entries :: "(route \<Rightarrow> string) \<Rightarrow> (string, cloudBinding) gomap \<Rightarrow> string list \<Rightarrow> Config \<Rightarrow> Config" where
  "apply_entries digest entries ord cfg =
    cfg\<lparr>cf_Servers := fold (apply_binding digest entries) ord (cf_Servers cfg)\<rparr>"

definition applyCloudBindings :: "config_env \<Rightarrow> Config \<Rightarrow> Config" where
  "applyCloudBindings env cfg =
    (case ce_bindings env of None \<Rightarrow> cfg
     | Some b \<Rightarrow>
         if 4 * 2 ^ 20 < length b then cfg
         else case ce_read_bindings env b of
           None \<Rightarrow> cfg
         | Some entries \<Rightarrow> apply_entries (ce_digest env) entries (gm_keys entries) cfg)"

definition applyUIPreferences :: "config_env \<Rightarrow> Config \<Rightarrow> Config" where
  "applyUIPreferences env cfg =
    (case ce_ui env of None \<Rightarrow> cfg
     | Some data \<Rightarrow>
         if length data < 8192 then
           (case ce_read_ui env data of None \<Rightarrow> cfg | Some prefs \<Rightarrow> cfg\<lparr>cf_UI := prefs\<rparr>)
         else cfg)"

text \<open>\<open>saveLocalJSON\<close>: the file beside the configuration after the call.\<close>

definition saveLocalJSON :: "config_env \<Rightarrow> bytes \<Rightarrow> bytes option \<Rightarrow> io_step option \<times> bytes option" where
  "saveLocalJSON env data target =
    (case find (ce_fails env) [StepLock, StepMkdir, StepCreate, StepSync, StepClose, StepRename] of
       Some step \<Rightarrow> (Some step, target)
     | None \<Rightarrow> (None, Some data))"

section \<open>Load, save and update\<close>

definition Load :: "config_env \<Rightarrow> bytes option \<Rightarrow> 'e store_error + Config" where
  "Load env file =
    (if ce_fails env StepRead then Inl (IoFailed StepRead)
     else case file of
       None \<Rightarrow> Inr (applyUIPreferences env New)
     | Some data \<Rightarrow> bind_result (decodeConfig env data)
         (\<lambda>cfg. Inr (applyCloudBindings env (applyUIPreferences env cfg))))"

definition bump_version :: "Config \<Rightarrow> Config" where
  "bump_version cfg = (if cf_Version cfg < CurrentVersion then cfg\<lparr>cf_Version := CurrentVersion\<rparr> else cfg)"

definition saveUnlockedIfUnchanged ::
  "config_env \<Rightarrow> Config \<Rightarrow> bytes option option \<Rightarrow> bytes option \<Rightarrow> 'e store_error option \<times> bytes option" where
  "saveUnlockedIfUnchanged env cfg expected seen =
    (case ValidateProjects cfg of Some e \<Rightarrow> (Some (InvalidProjects e), seen) | None \<Rightarrow>
     case find (ce_fails env) [StepMkdir, StepCreate] of Some step \<Rightarrow> (Some (IoFailed step), seen) | None \<Rightarrow>
     case ce_encode env (bump_version cfg) of None \<Rightarrow> (Some EncodeFailed, seen) | Some data \<Rightarrow>
     case find (ce_fails env) [StepSync, StepClose, StepChmod] of Some step \<Rightarrow> (Some (IoFailed step), seen) | None \<Rightarrow>
     case (case expected of None \<Rightarrow> None
           | Some before \<Rightarrow>
               if ce_fails env StepReread then Some (IoFailed StepReread)
               else if seen \<noteq> before then Some ChangedOutside
               else None) of
       Some e \<Rightarrow> (Some e, seen)
     | None \<Rightarrow> if ce_fails env StepRename then (Some (IoFailed StepRename), seen) else (None, Some data))"

definition Save :: "config_env \<Rightarrow> Config \<Rightarrow> bytes option \<Rightarrow> 'e store_error option \<times> bytes option" where
  "Save env cfg file =
    (if ce_fails env StepLock then (Some (IoFailed StepLock), file)
     else saveUnlockedIfUnchanged env cfg None file)"

definition UpdateWithSource ::
  "config_env \<Rightarrow> bytes option \<Rightarrow> (Config \<Rightarrow> bytes option \<Rightarrow> 'e + Config) \<Rightarrow> bytes option \<Rightarrow>
   'e store_error option \<times> bytes option" where
  "UpdateWithSource env seen fn file =
    (if ce_fails env StepLock then (Some (IoFailed StepLock), seen)
     else if ce_fails env StepRead then (Some (IoFailed StepRead), seen)
     else case (case file of None \<Rightarrow> Inr New | Some source \<Rightarrow> decodeConfig env source) of
       Inl e \<Rightarrow> (Some e, seen)
     | Inr cfg \<Rightarrow>
         (case fn (applyCloudBindings env cfg) file of
            Inl e \<Rightarrow> (Some (Callback e), seen)
          | Inr cfg' \<Rightarrow> saveUnlockedIfUnchanged env cfg' (Some file) seen))"

definition Update ::
  "config_env \<Rightarrow> bytes option \<Rightarrow> (Config \<Rightarrow> 'e + Config) \<Rightarrow> bytes option \<Rightarrow> 'e store_error option \<times> bytes option" where
  "Update env seen fn file = UpdateWithSource env seen (\<lambda>cfg _. fn cfg) file"

section \<open>Activity\<close>

definition ClearServerActivity :: "gotime \<Rightarrow> gotime \<Rightarrow> Server \<Rightarrow> Server" where
  "ClearServerActivity now at s = s\<lparr>
     sv_IdentityChangedAt := (if at = 0 then now else at), sv_Hardware := None, sv_LastUsed := 0,
     sv_LastSeen := 0, sv_LastChecked := 0, sv_LastStatus := [], sv_LastSSHChecked := 0,
     sv_LastSSHError := [], sv_SSHMStatus := [], sv_SSHMVersion := [], sv_SSHMCheckedAt := 0\<rparr>"

record ProbeObservation =
  po_Host :: string
  po_Port :: int
  po_User :: string
  po_Reachable :: bool
  po_ObservedAt :: gotime

definition NewProbeObservation :: "Server option \<Rightarrow> bool \<Rightarrow> gotime \<Rightarrow> ProbeObservation" where
  "NewProbeObservation so reachable at =
    (case so of
       None \<Rightarrow> \<lparr>po_Host = [], po_Port = 0, po_User = [], po_Reachable = reachable, po_ObservedAt = at\<rparr>
     | Some s \<Rightarrow> \<lparr>po_Host = sv_Host s, po_Port = sv_Port s, po_User = sv_User s,
                  po_Reachable = reachable, po_ObservedAt = at\<rparr>)"

definition same_target :: "Server \<Rightarrow> string \<Rightarrow> int \<Rightarrow> string \<Rightarrow> bool" where
  "same_target s host port user \<longleftrightarrow> sv_Host s = host \<and> sv_Port s = port \<and> sv_User s = user"

definition ssh_use :: "gotime \<Rightarrow> Server \<Rightarrow> Server" where
  "ssh_use at s0 =
    (let s = (if sv_LastSSHChecked s0 = 0 \<or> sv_LastSSHChecked s0 \<le> at
              then s0\<lparr>sv_LastSSHChecked := at, sv_LastSSHError := []\<rparr> else s0);
         s = (if sv_LastUsed s = 0 \<or> sv_LastUsed s < at then s\<lparr>sv_LastUsed := at\<rparr> else s);
         s = (if sv_LastSeen s = 0 \<or> sv_LastSeen s < at then s\<lparr>sv_LastSeen := at\<rparr> else s)
     in if sv_LastChecked s = 0 \<or> sv_LastChecked s \<le> at
        then s\<lparr>sv_LastChecked := at, sv_LastStatus := StatusOnline\<rparr> else s)"

definition probe_result :: "bool \<Rightarrow> gotime \<Rightarrow> Server \<Rightarrow> Server" where
  "probe_result reachable at s0 =
    (let s = (if sv_LastChecked s0 = 0 \<or> sv_LastChecked s0 \<le> at
              then s0\<lparr>sv_LastChecked := at, sv_LastStatus := (if reachable then StatusOnline else StatusOffline)\<rparr>
              else s0)
     in if reachable \<and> (sv_LastSeen s = 0 \<or> sv_LastSeen s < at) then s\<lparr>sv_LastSeen := at\<rparr> else s)"

definition ssh_check :: "string \<Rightarrow> gotime \<Rightarrow> Server \<Rightarrow> Server" where
  "ssh_check category at s =
    (if sv_LastSSHChecked s = 0 \<or> sv_LastSSHChecked s \<le> at
     then s\<lparr>sv_LastSSHChecked := at, sv_LastSSHError := category\<rparr> else s)"

definition on_server :: "string \<Rightarrow> (Server \<Rightarrow> Server) \<Rightarrow> Config \<Rightarrow> Config" where
  "on_server alias f cfg =
    (case server_at (cf_Servers cfg) alias of None \<Rightarrow> cfg
     | Some s \<Rightarrow> cfg\<lparr>cf_Servers := gm_update alias (Some (f s)) (cf_Servers cfg)\<rparr>)"

definition RecordSSHUse ::
  "config_env \<Rightarrow> bytes option \<Rightarrow> string \<Rightarrow> Server option \<Rightarrow> gotime \<Rightarrow> bytes option \<Rightarrow>
   'e store_error option \<times> bytes option" where
  "RecordSSHUse env seen alias expected at file =
    (if alias = [] then (None, seen)
     else Update env seen (\<lambda>cfg. Inr (on_server alias (\<lambda>s.
        case expected of
          Some x \<Rightarrow> if same_target s (sv_Host x) (sv_Port x) (sv_User x) then ssh_use at s else s
        | None \<Rightarrow> ssh_use at s) cfg)) file)"

definition record_probe :: "(string \<Rightarrow> gotime) \<Rightarrow> (string, ProbeObservation) gomap \<Rightarrow> string \<Rightarrow> Config \<Rightarrow> Config" where
  "record_probe now results alias cfg =
    (case gm_lookup results alias of None \<Rightarrow> cfg
     | Some ob \<Rightarrow> on_server alias (\<lambda>s.
         if same_target s (po_Host ob) (po_Port ob) (po_User ob)
         then probe_result (po_Reachable ob) (if po_ObservedAt ob = 0 then now alias else po_ObservedAt ob) s
         else s) cfg)"

definition RecordProbes ::
  "config_env \<Rightarrow> (string \<Rightarrow> gotime) \<Rightarrow> string list \<Rightarrow> bytes option \<Rightarrow> (string, ProbeObservation) gomap \<Rightarrow> bytes option \<Rightarrow>
   'e store_error option \<times> bytes option" where
  "RecordProbes env now ord seen results file =
    (if gm_len results = 0 then (None, seen)
     else Update env seen (\<lambda>cfg. Inr (fold (record_probe now results) ord cfg)) file)"

definition RecordSSHCheck ::
  "config_env \<Rightarrow> bytes option \<Rightarrow> string \<Rightarrow> Server option \<Rightarrow> string \<Rightarrow> gotime \<Rightarrow> bytes option \<Rightarrow>
   'e store_error option \<times> bytes option" where
  "RecordSSHCheck env seen alias expected category at file =
    (if alias = [] then (None, seen)
     else Update env seen (\<lambda>cfg. Inr (case expected of None \<Rightarrow> cfg
        | Some x \<Rightarrow> on_server alias (\<lambda>s.
            if same_target s (sv_Host x) (sv_Port x) (sv_User x) then ssh_check category at s else s) cfg)) file)"

section \<open>Laws\<close>

text \<open>The transaction that an update without outside writers implements.\<close>

definition config_load :: "config_env \<Rightarrow> bytes option \<Rightarrow> 'e store_error + Config" where
  "config_load env file =
    (if ce_fails env StepLock then Inl (IoFailed StepLock)
     else if ce_fails env StepRead then Inl (IoFailed StepRead)
     else bind_result (case file of None \<Rightarrow> Inr New | Some source \<Rightarrow> decodeConfig env source)
       (\<lambda>cfg. Inr (applyCloudBindings env cfg)))"

definition config_store :: "config_env \<Rightarrow> Config \<Rightarrow> bytes option \<Rightarrow> 'e store_error + bytes option" where
  "config_store env cfg file =
    (case saveUnlockedIfUnchanged env cfg (Some file) file of (Some e, _) \<Rightarrow> Inl e | (None, f) \<Rightarrow> Inr f)"

lemma save_error_keeps: "saveUnlockedIfUnchanged env cfg expected seen = (Some e, g) \<Longrightarrow> g = seen"
  by (auto simp: saveUnlockedIfUnchanged_def split: option.splits if_splits)

lemma save_ok:
  "saveUnlockedIfUnchanged env cfg expected seen = (None, g) \<Longrightarrow>
   ValidateProjects cfg = None \<and> g = ce_encode env (bump_version cfg) \<and> g \<noteq> None \<and>
   (\<forall>before. expected = Some before \<longrightarrow> seen = before)"
  by (auto simp: saveUnlockedIfUnchanged_def split: option.splits if_splits)

lemma Update_transacts:
  "Update env file fn file = transact (config_load env) (config_store env) Callback fn file"
  unfolding Update_def UpdateWithSource_def transact_def config_load_def config_store_def
  by (auto split: sum.splits option.splits prod.splits dest: save_error_keeps)

interpretation cfg: transaction "config_load env" "config_store env" Callback "\<lambda>fn file. Update env file fn file" for env
  by unfold_locales (rule Update_transacts)

text \<open>What the TOML package promises: an encoded document decodes, over an empty document, to
  itself.\<close>

definition toml_roundtrip :: "config_env \<Rightarrow> bool" where
  "toml_roundtrip env \<longleftrightarrow> (\<forall>cfg data. ce_encode env cfg = Some data \<longrightarrow> ce_unmarshal env data New = Some cfg)"

lemma decode_encoded:
  assumes "toml_roundtrip env" "ce_encode env (bump_version cfg) = Some data" "cf_Version cfg \<le> CurrentVersion"
  shows "decodeConfig env data = Inr (bump_version cfg)"
  using assms by (auto simp: toml_roundtrip_def decodeConfig_def bump_version_def CurrentVersion_def)

lemma on_server_frame [frames]:
  "cf_Version (on_server a f cfg) = cf_Version cfg" "cf_Projects (on_server a f cfg) = cf_Projects cfg"
  "cf_Default (on_server a f cfg) = cf_Default cfg" "cf_UI (on_server a f cfg) = cf_UI cfg"
  by (auto simp: on_server_def split: option.splits)

lemma server_at_on_server:
  "server_at (cf_Servers (on_server a f cfg)) b =
   (if b = a then map_option f (server_at (cf_Servers cfg) a) else server_at (cf_Servers cfg) b)"
  by (auto simp: on_server_def server_at_update split: option.splits)

lemma on_server_commute: "a \<noteq> b \<Longrightarrow> on_server a f (on_server b g cfg) = on_server b g (on_server a f cfg)"
  by (simp add: on_server_def server_at_update gm.update_commute split: option.split)

lemma record_probe_commute:
  "a \<noteq> b \<Longrightarrow> record_probe now results a (record_probe now results b cfg) =
     record_probe now results b (record_probe now results a cfg)"
  by (simp add: record_probe_def on_server_commute split: option.split)

lemma apply_binding_commute:
  "a \<noteq> b \<Longrightarrow> apply_binding d e a (apply_binding d e b m) = apply_binding d e b (apply_binding d e a m)"
  by (simp add: apply_binding_def server_at_update gm.update_commute split: option.split)

lemma apply_entries_any_order:
  "range_order entries ord \<Longrightarrow> apply_entries d entries ord cfg = apply_entries d entries (gm_keys entries) cfg"
  unfolding apply_entries_def
  by (subst fold_any_order[where ys = "gm_keys entries"])
    (use gm.legal_order_keys[of entries] in \<open>auto simp: gm.legal_order_def apply_binding_commute\<close>)

lemma Update_result:
  fixes fn :: "Config \<Rightarrow> 'e + Config"
  assumes "Update env seen fn file = (err, file')"
  shows "(err \<noteq> None \<longrightarrow> file' = seen) \<and>
    (err = None \<longrightarrow> seen = file \<and>
      (\<exists>cfg cfg'. (case file of None \<Rightarrow> cfg = New | Some b \<Rightarrow> decodeConfig env b = (Inr cfg :: 'e store_error + Config)) \<and>
        fn (applyCloudBindings env cfg) = Inr cfg' \<and> ValidateProjects cfg' = None \<and>
        file' \<noteq> None \<and> file' = ce_encode env (bump_version cfg')))"
  using assms unfolding Update_def UpdateWithSource_def
  by (auto split: if_splits sum.splits option.splits dest: save_error_keeps save_ok)

lemma config_store_reads:
  fixes cfg :: Config
  assumes "toml_roundtrip env" "ce_bindings env = None" "cf_Version cfg \<le> CurrentVersion"
    and "\<not> ce_fails env StepLock" "\<not> ce_fails env StepRead"
    and "config_store env cfg x = (Inr y :: 'e store_error + bytes option)"
  shows "config_load env y = (Inr (bump_version cfg) :: 'e store_error + Config)"
proof -
  have "saveUnlockedIfUnchanged env cfg (Some x) x = ((None :: 'e store_error option), y)"
    using assms(6) by (auto simp: config_store_def split: option.splits prod.splits)
  from save_ok[OF this] obtain data where "y = Some data" "ce_encode env (bump_version cfg) = Some data" by auto
  moreover from this have "decodeConfig env data = (Inr (bump_version cfg) :: 'e store_error + Config)"
    using decode_encoded[OF assms(1) _ assms(3)] by blast
  ultimately show ?thesis using assms by (simp add: config_load_def applyCloudBindings_def)
qed

lemma fold_record_probe_at:
  assumes "distinct ord"
  shows "server_at (cf_Servers (fold (record_probe now results) ord cfg)) a =
    (if a \<in> set ord then server_at (cf_Servers (record_probe now results a cfg)) a else server_at (cf_Servers cfg) a)"
  using assms
proof (induction ord arbitrary: cfg)
  case (Cons b ord)
  have other: "server_at (cf_Servers (record_probe now results b cfg)) a = server_at (cf_Servers cfg) a" if "a \<noteq> b"
    using that by (simp add: record_probe_def server_at_on_server split: option.split)
  have same: "server_at (cf_Servers (record_probe now results a (record_probe now results b cfg))) a =
      server_at (cf_Servers (record_probe now results a cfg)) a" if "a \<noteq> b"
    using that by (simp add: record_probe_def server_at_on_server split: option.split)
  show ?case using Cons other same by (cases "a = b") auto
qed simp

lemma SaveCloudBindings_lookup:
  "gm_lookup (SaveCloudBindings env cfg) a =
   (case server_at (cf_Servers cfg) a of None \<Rightarrow> None
    | Some s \<Rightarrow> if sv_CloudVault s \<noteq> []
        then Some \<lparr>cb_Fingerprint = bindingFingerprint (ce_digest env) s, cb_Entry = sv_CloudEntry s,
                   cb_Vault = sv_CloudVault s\<rparr> else None)"
proof -
  let ?g = "\<lambda>a old. case server_at (cf_Servers cfg) a of None \<Rightarrow> old
    | Some s \<Rightarrow> if sv_CloudVault s \<noteq> []
        then Some \<lparr>cb_Fingerprint = bindingFingerprint (ce_digest env) s, cb_Entry = sv_CloudEntry s,
                   cb_Vault = sv_CloudVault s\<rparr> else old"
  have "gm_lookup (SaveCloudBindings env cfg) a =
      (if a \<in> set (gm_keys (cf_Servers cfg)) then ?g a (gm_lookup gm_empty a) else gm_lookup gm_empty a)"
    unfolding SaveCloudBindings_def
    by (rule gm.lookup_fold_pointwise[where g = ?g])
      (auto simp: gm.lookup_update gm.distinct_keys split: option.split)
  then show ?thesis by (auto simp: gm.lookup_empty in_gm_keys server_at_def split: option.splits)
qed

lemma apply_entries_at:
  "server_at (cf_Servers (apply_entries d entries (gm_keys entries) cfg)) a =
   (case gm_lookup entries a of None \<Rightarrow> server_at (cf_Servers cfg) a
    | Some e \<Rightarrow> map_option (bind_server d e) (server_at (cf_Servers cfg) a))"
proof -
  let ?g = "\<lambda>a old. case gm_lookup entries a of None \<Rightarrow> old
    | Some e \<Rightarrow> map_option (map_option (bind_server d e)) old"
  have "gm_lookup (fold (apply_binding d entries) (gm_keys entries) (cf_Servers cfg)) a =
      (if a \<in> set (gm_keys entries) then ?g a (gm_lookup (cf_Servers cfg) a) else gm_lookup (cf_Servers cfg) a)"
    by (rule gm.lookup_fold_pointwise[where g = ?g])
      (auto simp: apply_binding_def gm.lookup_update server_at_def gm.distinct_keys split: option.split)
  then show ?thesis
    by (auto simp: apply_entries_def server_at_def in_gm_keys split: option.splits)
qed

text \<open>Recording a use, in one step: every time becomes the later of the two.\<close>

lemma ssh_use_normal:
  assumes "0 < a" "0 \<le> sv_LastUsed s" "0 \<le> sv_LastSeen s" "0 \<le> sv_LastChecked s" "0 \<le> sv_LastSSHChecked s"
  shows "ssh_use a s = s\<lparr>
     sv_LastUsed := max a (sv_LastUsed s), sv_LastChecked := max a (sv_LastChecked s),
     sv_LastSeen := max a (sv_LastSeen s), sv_LastSSHChecked := max a (sv_LastSSHChecked s),
     sv_LastSSHError := (if sv_LastSSHChecked s \<le> a then [] else sv_LastSSHError s),
     sv_LastStatus := (if sv_LastChecked s \<le> a then StatusOnline else sv_LastStatus s)\<rparr>"
  using assms by (simp add: ssh_use_def Let_def max_def)

lemma probe_result_frame:
  "sv_LastUsed (probe_result r at s) = sv_LastUsed s"
  "probe_result r at s = s\<lparr>sv_LastChecked := sv_LastChecked (probe_result r at s),
     sv_LastStatus := sv_LastStatus (probe_result r at s), sv_LastSeen := sv_LastSeen (probe_result r at s)\<rparr>"
  by (simp_all add: probe_result_def Let_def)

text \<open>An environment without side files and with a trivial codec, for examples.\<close>

definition test_env :: "(io_step \<Rightarrow> bool) \<Rightarrow> config_env" where
  "test_env fails = \<lparr>ce_unmarshal = \<lambda>_ c. Some c, ce_encode = \<lambda>c. Some ''x'', ce_fails = fails,
     ce_bindings = None, ce_read_bindings = \<lambda>_. None, ce_ui = None, ce_read_ui = \<lambda>_. None, ce_digest = \<lambda>_. []\<rparr>"

definition one_doc_env :: config_env where
  "one_doc_env = (test_env (\<lambda>_. False))\<lparr>
     ce_unmarshal := \<lambda>data _. if data = ''doc'' then Some New else None,
     ce_encode := \<lambda>cfg. if cfg = New then Some ''doc'' else None\<rparr>"

section \<open>Properties\<close>

text \<open>C22: an update is a transaction. Every failure, of the callback, of validation or of
  any step of the file operations, leaves in the file what was there; a success means that
  the callback accepted the decoded document, the result passed project validation, and the
  file holds its encoding, replacing exactly the bytes that were read.\<close>

theorem update_is_atomic:
  fixes fn :: "Config \<Rightarrow> 'e + Config"
  assumes "Update env seen fn file = (err, file')"
  shows "(err \<noteq> None \<longrightarrow> file' = seen) \<and>
    (err = None \<longrightarrow> seen = file \<and>
      (\<exists>cfg cfg'. (case file of None \<Rightarrow> cfg = New | Some b \<Rightarrow> decodeConfig env b = (Inr cfg :: 'e store_error + Config)) \<and>
        fn (applyCloudBindings env cfg) = Inr cfg' \<and> ValidateProjects cfg' = None \<and>
        file' \<noteq> None \<and> file' = ce_encode env (bump_version cfg')))"
  using assms by (rule Update_result)

theorem update_is_atomic_witness:
  "snd (Update (test_env (\<lambda>s. s = StepRename)) None (\<lambda>c. (Inr c :: unit + Config)) None) = None"
proof -
  obtain err f' where u: "Update (test_env (\<lambda>s. s = StepRename)) None (\<lambda>c. (Inr c :: unit + Config)) None = (err, f')"
    by (rule prod.exhaust)
  have "err = Some (IoFailed StepRename)"
    using u by (simp add: Update_def UpdateWithSource_def saveUnlockedIfUnchanged_def test_env_def ValidateProjects_def
        applyCloudBindings_def New_def)
  then show ?thesis using update_is_atomic[OF u] u by simp
qed

text \<open>No update overwrites what a writer outside the locks has left: when the file
  changed after it was read, the update fails and keeps the other writer's bytes.\<close>

theorem update_keeps_outside_change:
  assumes "seen \<noteq> file"
  shows "fst (Update env seen fn file) \<noteq> None \<and> snd (Update env seen fn file) = seen"
proof -
  obtain err f' where u: "Update env seen fn file = (err, f')" by (rule prod.exhaust)
  then show ?thesis using Update_result[OF u] assms by auto
qed

theorem update_keeps_outside_change_witness:
  "snd (Update (test_env (\<lambda>_. False)) (Some ''edited'') (\<lambda>c. (Inr c :: unit + Config)) (Some ''old'')) = Some ''edited''"
  using update_keeps_outside_change[of "Some ''edited''" "Some ''old''" "test_env (\<lambda>_. False)"
    "\<lambda>c. (Inr c :: unit + Config)"] by simp



text \<open>Authenticated uses of a server can be recorded in any order: the outcome is the
  same, every time only moves forward to the latest observation, and a recorded use
  is also proof of having been seen.\<close>

theorem ssh_use_commutes:
  assumes "0 < a" "0 < b" "0 \<le> sv_LastUsed s" "0 \<le> sv_LastSeen s" "0 \<le> sv_LastChecked s" "0 \<le> sv_LastSSHChecked s"
  shows "ssh_use a (ssh_use b s) = ssh_use b (ssh_use a s) \<and>
    sv_LastUsed (ssh_use a s) = max a (sv_LastUsed s) \<and> sv_LastSeen (ssh_use a s) = max a (sv_LastSeen s) \<and>
    sv_LastChecked (ssh_use a s) = max a (sv_LastChecked s) \<and> sv_LastSSHChecked (ssh_use a s) = max a (sv_LastSSHChecked s)"
proof -
  have s': "0 \<le> sv_LastUsed (ssh_use c s)" "0 \<le> sv_LastSeen (ssh_use c s)" "0 \<le> sv_LastChecked (ssh_use c s)"
    "0 \<le> sv_LastSSHChecked (ssh_use c s)" if "0 < c" for c
    using that assms by (simp_all add: ssh_use_normal)
  have "ssh_use a (ssh_use b s) = ssh_use b (ssh_use a s)"
    unfolding ssh_use_normal[OF assms(1) s'[OF assms(2)]] ssh_use_normal[OF assms(2) s'[OF assms(1)]]
    using assms by (simp add: ssh_use_normal max.commute max.left_commute)
  then show ?thesis using assms by (simp add: ssh_use_normal)
qed

theorem ssh_use_commutes_witness:
  "ssh_use 5 (ssh_use 9 zero_server) = ssh_use 9 (ssh_use 5 zero_server)"
  using ssh_use_commutes[of 5 9 zero_server] by (simp add: zero_server_def)

text \<open>Recording probe results does not depend on the order of the visit, and a probe
  never counts as a use: the time of last use, and everything else that is not an observation,
  stays; a result for a target that has been replaced meanwhile changes nothing.\<close>

theorem probes_only_observe:
  assumes "range_order results ord"
  shows "RecordProbes env now ord seen results file =
      (RecordProbes env now (gm_keys results) seen results file :: 'e store_error option \<times> bytes option) \<and>
    (\<forall>a s'. server_at (cf_Servers (fold (record_probe now results) ord cfg)) a = Some s' \<longrightarrow>
      (\<exists>s. server_at (cf_Servers cfg) a = Some s \<and> sv_LastUsed s' = sv_LastUsed s \<and>
        s' = s\<lparr>sv_LastChecked := sv_LastChecked s', sv_LastStatus := sv_LastStatus s', sv_LastSeen := sv_LastSeen s'\<rparr> \<and>
        (\<forall>ob. gm_lookup results a = Some ob \<longrightarrow> \<not> same_target s (po_Host ob) (po_Port ob) (po_User ob) \<longrightarrow> s' = s)))"
proof (intro conjI allI impI)
  have "fold (record_probe now results) ord c = fold (record_probe now results) (gm_keys results) c" for c
    by (rule fold_any_order)
      (use assms gm.legal_order_keys[of results] in \<open>auto simp: gm.legal_order_def record_probe_commute\<close>)
  then show "RecordProbes env now ord seen results file =
      (RecordProbes env now (gm_keys results) seen results file :: 'e store_error option \<times> bytes option)"
    by (simp add: RecordProbes_def)
next
  fix a s'
  assume *: "server_at (cf_Servers (fold (record_probe now results) ord cfg)) a = Some s'"
  have d: "distinct ord" using assms by (simp add: gm.legal_order_def)
  let ?h = "\<lambda>s. case gm_lookup results a of None \<Rightarrow> s
      | Some ob \<Rightarrow> if same_target s (po_Host ob) (po_Port ob) (po_User ob)
          then probe_result (po_Reachable ob) (if po_ObservedAt ob = 0 then now a else po_ObservedAt ob) s else s"
  have "server_at (cf_Servers (fold (record_probe now results) ord cfg)) a = map_option ?h (server_at (cf_Servers cfg) a)"
    using gm.legal_order_in[OF assms, of a]
    by (cases "gm_lookup results a"; cases "server_at (cf_Servers cfg) a")
      (simp_all add: fold_record_probe_at[OF d] record_probe_def server_at_on_server)
  with * obtain s where "server_at (cf_Servers cfg) a = Some s" "s' = ?h s" by auto
  then show "\<exists>s. server_at (cf_Servers cfg) a = Some s \<and> sv_LastUsed s' = sv_LastUsed s \<and>
        s' = s\<lparr>sv_LastChecked := sv_LastChecked s', sv_LastStatus := sv_LastStatus s', sv_LastSeen := sv_LastSeen s'\<rparr> \<and>
        (\<forall>ob. gm_lookup results a = Some ob \<longrightarrow> \<not> same_target s (po_Host ob) (po_Port ob) (po_User ob) \<longrightarrow> s' = s)"
    using probe_result_frame by (intro exI[of _ s]) (auto split: option.split)
qed

theorem probes_only_observe_witness:
  "RecordProbes (test_env (\<lambda>_. False)) (\<lambda>_. 7) [''b'', ''a''] None
     (gm_of_list [(''a'', NewProbeObservation None True 3), (''b'', NewProbeObservation None False 4)]) None =
   (RecordProbes (test_env (\<lambda>_. False)) (\<lambda>_. 7)
     (gm_keys (gm_of_list [(''a'', NewProbeObservation None True 3), (''b'', NewProbeObservation None False 4)])) None
     (gm_of_list [(''a'', NewProbeObservation None True 3), (''b'', NewProbeObservation None False 4)]) None :: unit store_error option \<times> bytes option)"
proof -
  let ?m = "gm_of_list [(''a'', NewProbeObservation None True 3), (''b'', NewProbeObservation None False 4)]"
  have "range_order ?m [''b'', ''a'']" by (auto simp: gm.legal_order_def gm_keys_of_list)
  from probes_only_observe[OF this] show ?thesis by blast
qed

text \<open>Bindings to a cloud vault survive an older program that rewrites the configuration
  without knowing them: saved beside the configuration and applied to the stripped
  document, they come back for every server that had one; and a server whose route no longer has the
  recorded fingerprint is left alone.\<close>

theorem cloud_bindings_roundtrip:
  assumes "server_at (cf_Servers cfg) a = Some s" "sv_CloudVault s \<noteq> []"
    and "server_at (cf_Servers stripped) a = Some t" "sv_CloudVault t = []" "sv_CloudEntry t = []"
  shows "server_at (cf_Servers (apply_entries (ce_digest env) (SaveCloudBindings env cfg)
           (gm_keys (SaveCloudBindings env cfg)) stripped)) a =
    Some (if bindingFingerprint (ce_digest env) t = bindingFingerprint (ce_digest env) s
          then t\<lparr>sv_CloudEntry := sv_CloudEntry s, sv_CloudVault := sv_CloudVault s\<rparr> else t)"
  using assms by (simp add: apply_entries_at SaveCloudBindings_lookup bind_server_def)

theorem cloud_bindings_roundtrip_witness:
  "server_at (cf_Servers (apply_entries (\<lambda>_. []) (SaveCloudBindings (test_env (\<lambda>_. False))
       (New\<lparr>cf_Servers := gm_of_list [(''a'', Some (zero_server\<lparr>sv_CloudVault := ''v''\<rparr>))]\<rparr>))
     (gm_keys (SaveCloudBindings (test_env (\<lambda>_. False))
       (New\<lparr>cf_Servers := gm_of_list [(''a'', Some (zero_server\<lparr>sv_CloudVault := ''v''\<rparr>))]\<rparr>)))
     (New\<lparr>cf_Servers := gm_of_list [(''a'', Some zero_server)]\<rparr>))) ''a'' = Some (zero_server\<lparr>sv_CloudVault := ''v''\<rparr>)"
  using cloud_bindings_roundtrip[of "New\<lparr>cf_Servers := gm_of_list [(''a'', Some (zero_server\<lparr>sv_CloudVault := ''v''\<rparr>))]\<rparr>"
    "''a''" "zero_server\<lparr>sv_CloudVault := ''v''\<rparr>" "New\<lparr>cf_Servers := gm_of_list [(''a'', Some zero_server)]\<rparr>"
    zero_server "test_env (\<lambda>_. False)"]
  by (simp add: server_at_def gm_lookup_of_list zero_server_def bindingFingerprint_def test_env_def)

end
