(* ===== verification/Cleanup.thy ===== *)
theory Cleanup
  imports Config_Store
begin

text \<open>
  \<open>internal/cleanup/cleanup.go\<close>: which servers a human may be offered for removal, and
  \<open>removeCleanupServers\<close> of \<open>internal/commands/cleanup.go\<close>, which removes the chosen ones
  inside one configuration update after checking them again. Durations are 64-bit: the
  multiplication that makes the cut-off wraps as in Go, and the difference of two times
  saturates.
\<close>

section \<open>Durations\<close>

definition wrap64 :: "int \<Rightarrow> int" where
  "wrap64 z = (z + 2 ^ 63) mod 2 ^ 64 - 2 ^ 63"

definition day :: int where "day = 24 * 60 * 60 * 1000000000"

text \<open>\<open>time.Time.Sub\<close>\<close>

definition time_sub :: "gotime \<Rightarrow> gotime \<Rightarrow> int" where
  "time_sub t u = max (- (2 ^ 63)) (min (2 ^ 63 - 1) (t - u))"

definition wholeDays :: "int \<Rightarrow> int" where
  "wholeDays d = (if d \<le> 0 then 0 else d div day)"

definition optionalTime :: "gotime \<Rightarrow> gotime option" where
  "optionalTime t = (if t = 0 then None else Some t)"

section \<open>Classification\<close>

definition ReasonIdle :: string where "ReasonIdle = ''idle''"
definition ReasonNeverUsed :: string where "ReasonNeverUsed = ''never_used''"
definition ReasonIdentityChanged :: string where "ReasonIdentityChanged = ''identity_changed''"
definition ReasonHistoryUnknown :: string where "ReasonHistoryUnknown = ''history_unknown''"

lemmas reason_defs = ReasonIdle_def ReasonNeverUsed_def ReasonIdentityChanged_def ReasonHistoryUnknown_def

record cleanup_entry =
  ce_Alias :: string
  ce_Platform :: string
  ce_Description :: string
  ce_CreatedAt :: "gotime option"
  ce_IdentityChangedAt :: "gotime option"
  ce_LastUsed :: "gotime option"
  ce_LastSeen :: "gotime option"
  ce_LastChecked :: "gotime option"
  ce_LastStatus :: string
  ce_IdleDays :: int
  ce_Reason :: string
  ce_ProtectionReasons :: "string list"

record Report =
  rp_GeneratedAt :: gotime
  rp_OlderThanDays :: int
  rp_Candidates :: "cleanup_entry list"
  rp_Unknown :: "cleanup_entry list"
  rp_Protected :: "cleanup_entry list"

definition classify :: "string \<Rightarrow> Server \<Rightarrow> gotime \<Rightarrow> gotime \<Rightarrow> cleanup_entry option" where
  "classify alias server now cutoff =
    (let entry = \<lparr>ce_Alias = alias, ce_Platform = sv_Platform server, ce_Description = sv_Description server,
           ce_CreatedAt = optionalTime (sv_CreatedAt server),
           ce_IdentityChangedAt = optionalTime (sv_IdentityChangedAt server),
           ce_LastUsed = optionalTime (sv_LastUsed server), ce_LastSeen = optionalTime (sv_LastSeen server),
           ce_LastChecked = optionalTime (sv_LastChecked server), ce_LastStatus = sv_LastStatus server,
           ce_IdleDays = 0, ce_Reason = [], ce_ProtectionReasons = []\<rparr>;
         changed = sv_CreatedAt server < sv_IdentityChangedAt server;
         baseline = (if changed then sv_IdentityChangedAt server else sv_CreatedAt server);
         unusedReason = (if changed then ReasonIdentityChanged else ReasonNeverUsed) in
     if sv_LastUsed server = 0 \<and> baseline = 0 then Some (entry\<lparr>ce_Reason := ReasonHistoryUnknown\<rparr>)
     else if sv_LastUsed server = 0 then
       (if cutoff < baseline then None
        else Some (entry\<lparr>ce_Reason := unusedReason, ce_IdleDays := wholeDays (time_sub now baseline)\<rparr>))
     else if sv_LastUsed server \<le> cutoff
     then Some (entry\<lparr>ce_Reason := ReasonIdle, ce_IdleDays := wholeDays (time_sub now (sv_LastUsed server))\<rparr>)
     else None)"

definition cutoff_of :: "gotime \<Rightarrow> int \<Rightarrow> gotime" where
  "cutoff_of now olderThanDays = now + wrap64 (- olderThanDays * 24 * (60 * 60 * 1000000000))"

text \<open>One iteration of the loop of \<open>Review\<close>.\<close>

definition review_one :: "Config \<Rightarrow> gotime \<Rightarrow> gotime \<Rightarrow> bool \<Rightarrow> string \<Rightarrow> Report \<Rightarrow> Report" where
  "review_one cfg now cutoff includeUnknown alias report =
    (case server_at (cf_Servers cfg) alias of None \<Rightarrow> report | Some server \<Rightarrow>
     case classify alias server now cutoff of None \<Rightarrow> report | Some e0 \<Rightarrow>
     let entry = e0\<lparr>ce_ProtectionReasons := CleanupProtectionReasons cfg alias\<rparr> in
     if ce_ProtectionReasons entry \<noteq> [] then report\<lparr>rp_Protected := rp_Protected report @ [entry]\<rparr>
     else if ce_Reason entry = ReasonHistoryUnknown \<and> \<not> includeUnknown
     then report\<lparr>rp_Unknown := rp_Unknown report @ [entry]\<rparr>
     else report\<lparr>rp_Candidates := rp_Candidates report @ [entry]\<rparr>)"

definition Review :: "string list \<Rightarrow> Config \<Rightarrow> gotime \<Rightarrow> int \<Rightarrow> bool \<Rightarrow> Report" where
  "Review ord cfg now days includeUnknown =
    (let olderThanDays = (if days < 1 then 90 else days);
         cutoff = cutoff_of now olderThanDays;
         report = fold (review_one cfg now cutoff includeUnknown) ord
           \<lparr>rp_GeneratedAt = now, rp_OlderThanDays = olderThanDays, rp_Candidates = [], rp_Unknown = [], rp_Protected = []\<rparr>
     in report\<lparr>rp_Candidates := sort_key ce_Alias (rp_Candidates report),
               rp_Unknown := sort_key ce_Alias (rp_Unknown report),
               rp_Protected := sort_key ce_Alias (rp_Protected report)\<rparr>)"

section \<open>Removal\<close>

datatype cleanup_error = NoLongerExists string | BecameProtected string | NoLongerUnused string | BackupFailed

definition check_selected :: "Config \<Rightarrow> string set \<Rightarrow> string \<Rightarrow> cleanup_error option" where
  "check_selected cfg eligible alias =
    (if gm_lookup (cf_Servers cfg) alias = None then Some (NoLongerExists alias)
     else if CleanupProtectionReasons cfg alias \<noteq> [] then Some (BecameProtected alias)
     else if alias \<notin> eligible then Some (NoLongerUnused alias)
     else None)"

text \<open>The callback of \<open>removeCleanupServers\<close>. \<open>ord\<close> is the order in which the set of selected
  aliases is visited, \<open>backup_ok\<close> whether the backup could be written; the result carries the
  backup's contents.\<close>

definition cleanup_callback ::
  "bool \<Rightarrow> string list \<Rightarrow> string list \<Rightarrow> gotime \<Rightarrow> int \<Rightarrow> Config \<Rightarrow> bytes option \<Rightarrow> cleanup_error + Config" where
  "cleanup_callback backup_ok servers_ord ord now days cfg source =
    (let eligible = set (map ce_Alias (rp_Candidates (Review servers_ord cfg now days True))) in
     case first_error (check_selected cfg eligible) ord of
       Some e \<Rightarrow> Inl e
     | None \<Rightarrow> if \<not> backup_ok then Inl BackupFailed
         else Inr (cfg\<lparr>cf_Servers := fold gm_delete ord (cf_Servers cfg)\<rparr>))"

definition removeCleanupServers ::
  "config_env \<Rightarrow> bytes option \<Rightarrow> bool \<Rightarrow> (Config \<Rightarrow> string list) \<Rightarrow> string list \<Rightarrow> gotime \<Rightarrow> int \<Rightarrow> bytes option \<Rightarrow>
   cleanup_error store_error option \<times> bytes option" where
  "removeCleanupServers env seen backup_ok servers_ord ord now days file =
    UpdateWithSource env seen
      (\<lambda>cfg source. cleanup_callback backup_ok (servers_ord cfg) ord now days cfg source) file"

section \<open>Laws\<close>

definition review_entry :: "Config \<Rightarrow> gotime \<Rightarrow> gotime \<Rightarrow> string \<Rightarrow> cleanup_entry option" where
  "review_entry cfg now cutoff alias =
    (case server_at (cf_Servers cfg) alias of None \<Rightarrow> None
     | Some s \<Rightarrow> map_option (\<lambda>e. e\<lparr>ce_ProtectionReasons := CleanupProtectionReasons cfg alias\<rparr>) (classify alias s now cutoff))"

lemma classify_alias: "classify alias s now cutoff = Some e \<Longrightarrow> ce_Alias e = alias"
  by (auto simp: classify_def Let_def split: if_splits)

lemma review_entry_alias: "review_entry cfg now cutoff alias = Some e \<Longrightarrow> ce_Alias e = alias"
  by (auto simp: review_entry_def split: option.splits dest: classify_alias)

definition is_candidate :: "bool \<Rightarrow> cleanup_entry \<Rightarrow> bool" where
  "is_candidate includeUnknown e \<longleftrightarrow>
    ce_ProtectionReasons e = [] \<and> (ce_Reason e = ReasonHistoryUnknown \<longrightarrow> includeUnknown)"

lemma review_fold:
  "rp_Candidates (fold (review_one cfg now cutoff inc) ord r) =
     rp_Candidates r @ filter (is_candidate inc) (List.map_filter (review_entry cfg now cutoff) ord)"
  "rp_Protected (fold (review_one cfg now cutoff inc) ord r) =
     rp_Protected r @ filter (\<lambda>e. ce_ProtectionReasons e \<noteq> []) (List.map_filter (review_entry cfg now cutoff) ord)"
  "rp_Unknown (fold (review_one cfg now cutoff inc) ord r) =
     rp_Unknown r @ filter (\<lambda>e. ce_ProtectionReasons e = [] \<and> \<not> is_candidate inc e) (List.map_filter (review_entry cfg now cutoff) ord)"
  by (induction ord arbitrary: r)
     (simp_all add: review_one_def review_entry_def is_candidate_def List.map_filter_simps Let_def split: option.split)

lemma sort_filter_entries_any_order:
  assumes "distinct xs" "distinct ys" "set xs = set ys"
  shows "sort_key ce_Alias (filter P (List.map_filter (review_entry cfg now cutoff) xs)) =
    sort_key ce_Alias (filter P (List.map_filter (review_entry cfg now cutoff) ys))"
proof (rule sort_key_any_order)
  show "mset (filter P (List.map_filter (review_entry cfg now cutoff) xs)) =
      mset (filter P (List.map_filter (review_entry cfg now cutoff) ys))"
    using map_filter_any_order[OF assms, of "review_entry cfg now cutoff"] by simp
  show "inj_on ce_Alias (set (filter P (List.map_filter (review_entry cfg now cutoff) xs)))"
    by (rule inj_onI) (clarsimp simp: map_filter_set, metis review_entry_alias option.inject)
qed

lemma Review_candidates:
  "rp_Candidates (Review ord cfg now days inc) = sort_key ce_Alias (filter (is_candidate inc)
     (List.map_filter (review_entry cfg now (cutoff_of now (if days < 1 then 90 else days))) ord))"
  by (simp add: Review_def Let_def review_fold)

lemma wrap64_id: "- (2 ^ 63) \<le> z \<Longrightarrow> z < 2 ^ 63 \<Longrightarrow> wrap64 z = z"
  by (simp add: wrap64_def)

lemma cutoff_exact: "1 \<le> days \<Longrightarrow> days \<le> 3650 \<Longrightarrow> cutoff_of now days = now - days * day"
  by (simp add: cutoff_of_def day_def wrap64_id algebra_simps)

lemma unprotected_iff:
  assumes "server_at (cf_Servers cfg) alias = Some s"
  shows "CleanupProtectionReasons cfg alias = [] \<longleftrightarrow>
    \<not> sv_CleanupProtected s \<and> cf_Default cfg \<noteq> alias \<and> projects_using cfg alias = [] \<and> jump_users cfg alias = []"
  using assms by (simp add: CleanupProtectionReasons_def Let_def)

lemma gm_lookup_fold_delete:
  "gm_lookup (fold gm_delete ks m) k = (if k \<in> set ks then None else gm_lookup m k)"
  by (induction ks arbitrary: m) (auto simp: gm.lookup_delete)

lemma cleanup_callback_Inr:
  assumes "cleanup_callback backup_ok servers_ord ord now days cfg source = Inr cfg'"
  shows "backup_ok \<and> cfg' = cfg\<lparr>cf_Servers := fold gm_delete ord (cf_Servers cfg)\<rparr> \<and>
    (\<forall>a \<in> set ord. gm_lookup (cf_Servers cfg) a \<noteq> None \<and> CleanupProtectionReasons cfg a = [] \<and>
       a \<in> ce_Alias ` set (rp_Candidates (Review servers_ord cfg now days True)))"
  using assms by (auto simp: cleanup_callback_def Let_def first_error_None check_selected_def
      split: option.splits if_splits)

text \<open>An environment that holds a document of schema 4, for an example.\<close>

definition old_env :: config_env where
  "old_env = (test_env (\<lambda>_. False))\<lparr>ce_unmarshal := \<lambda>_ _. Some (New\<lparr>cf_Version := 4,
     cf_Servers := gm_of_list [(''a'', Some (zero_server\<lparr>sv_LastSeen := 9\<rparr>))]\<rparr>)\<rparr>"

lemma candidate_live:
  assumes "a \<in> ce_Alias ` set (rp_Candidates (Review ord cfg now days inc))"
  obtains s where "server_at (cf_Servers cfg) a = Some s"
proof -
  obtain e x where e: "review_entry cfg now (cutoff_of now (if days < 1 then 90 else days)) x = Some e" "a = ce_Alias e"
    using assms by (auto simp: Review_candidates map_filter_set)
  then have "x = a" using review_entry_alias[OF e(1)] by simp
  then show ?thesis using e(1) that by (cases "server_at (cf_Servers cfg) a") (simp_all add: review_entry_def)
qed

section \<open>Properties\<close>

text \<open>A review does not depend on the order in which the servers are visited, and with a
  period the command accepts (1 to 3650 days, no overflow) every candidate it offers is
  unprotected (not marked, not the default, used by no project and no proxy jump) and
  has not been used, or created or re-identified, within the period.\<close>

theorem review_candidates_are_safe:
  assumes "range_order (cf_Servers cfg) ord" "1 \<le> days" "days \<le> 3650"
  shows "Review ord cfg now days inc = Review (gm_keys (cf_Servers cfg)) cfg now days inc \<and>
    (\<forall>e \<in> set (rp_Candidates (Review ord cfg now days inc)).
      \<exists>s. server_at (cf_Servers cfg) (ce_Alias e) = Some s \<and>
        \<not> sv_CleanupProtected s \<and> cf_Default cfg \<noteq> ce_Alias e \<and>
        projects_using cfg (ce_Alias e) = [] \<and> jump_users cfg (ce_Alias e) = [] \<and>
        (if sv_LastUsed s \<noteq> 0 then sv_LastUsed s \<le> now - days * day
         else if max (sv_CreatedAt s) (sv_IdentityChangedAt s) \<noteq> 0
         then max (sv_CreatedAt s) (sv_IdentityChangedAt s) \<le> now - days * day
         else inc))"
proof (intro conjI ballI)
  have "distinct ord" "distinct (gm_keys (cf_Servers cfg))" "set ord = set (gm_keys (cf_Servers cfg))"
    using assms(1) by (auto simp: gm.legal_order_def gm.distinct_keys)
  note any = sort_filter_entries_any_order[OF this]
  have rest: "rp_GeneratedAt (fold (review_one cfg now c inc) o' r) = rp_GeneratedAt r \<and>
      rp_OlderThanDays (fold (review_one cfg now c inc) o' r) = rp_OlderThanDays r" for c o' r
    by (induction o' arbitrary: r) (auto simp: review_one_def Let_def split: option.split)
  show "Review ord cfg now days inc = Review (gm_keys (cf_Servers cfg)) cfg now days inc"
    by (simp add: Review_def Let_def review_fold rest any)
next
  fix e assume "e \<in> set (rp_Candidates (Review ord cfg now days inc))"
  then obtain a where "is_candidate inc e" "review_entry cfg now (now - days * day) a = Some e"
    using assms by (auto simp: Review_candidates map_filter_set cutoff_exact)
  then obtain s e' where s: "server_at (cf_Servers cfg) a = Some s" "classify a s now (now - days * day) = Some e'"
      "e = e'\<lparr>ce_ProtectionReasons := CleanupProtectionReasons cfg a\<rparr>" "is_candidate inc e"
    by (auto simp: review_entry_def split: option.splits)
  moreover have "CleanupProtectionReasons cfg a = []" using s by (simp add: is_candidate_def)
  moreover have "ce_Alias e = a" using s classify_alias by simp
  ultimately show "\<exists>s. server_at (cf_Servers cfg) (ce_Alias e) = Some s \<and>
        \<not> sv_CleanupProtected s \<and> cf_Default cfg \<noteq> ce_Alias e \<and>
        projects_using cfg (ce_Alias e) = [] \<and> jump_users cfg (ce_Alias e) = [] \<and>
        (if sv_LastUsed s \<noteq> 0 then sv_LastUsed s \<le> now - days * day
         else if max (sv_CreatedAt s) (sv_IdentityChangedAt s) \<noteq> 0
         then max (sv_CreatedAt s) (sv_IdentityChangedAt s) \<le> now - days * day
         else inc)"
    using unprotected_iff[OF s(1)]
    by (auto simp: classify_def Let_def is_candidate_def reason_defs max_def split: if_splits)
qed

theorem review_candidates_are_safe_witness:
  "Review [''b'', ''a''] (New\<lparr>cf_Servers := gm_of_list [(''a'', Some zero_server), (''b'', Some (zero_server\<lparr>sv_LastUsed := 1\<rparr>))]\<rparr>)
     (40 * day) 30 False =
   Review (gm_keys (gm_of_list [(''a'', Some zero_server), (''b'', Some (zero_server\<lparr>sv_LastUsed := 1\<rparr>))]))
     (New\<lparr>cf_Servers := gm_of_list [(''a'', Some zero_server), (''b'', Some (zero_server\<lparr>sv_LastUsed := 1\<rparr>))]\<rparr>) (40 * day) 30 False"
proof -
  let ?m = "gm_of_list [(''a'', Some zero_server), (''b'', Some (zero_server\<lparr>sv_LastUsed := 1\<rparr>))]"
  have "range_order (cf_Servers (New\<lparr>cf_Servers := ?m\<rparr>)) [''b'', ''a'']"
    by (auto simp: gm.legal_order_def gm_keys_of_list)
  note safe = review_candidates_are_safe[OF this, of 30 "40 * day" False]
  show ?thesis using conjunct1[OF safe] by simp
qed

text \<open>A confirmed cleanup is checked again inside the update. If it succeeds, every
  selected server was still a candidate and unprotected, exactly those are removed,
  and the default, the projects and the proxy jumps still name servers that exist.\<close>

theorem cleanup_removal_keeps_references:
  assumes "cleanup_callback backup_ok servers_ord ord now days cfg source = Inr cfg'" "refs_closed cfg"
  shows "refs_closed cfg' \<and>
    (\<forall>a. gm_lookup (cf_Servers cfg') a = (if a \<in> set ord then None else gm_lookup (cf_Servers cfg) a)) \<and>
    (\<forall>a \<in> set ord. a \<in> ce_Alias ` set (rp_Candidates (Review servers_ord cfg now days True)))"
proof -
  from cleanup_callback_Inr[OF assms(1)] have cfg': "cfg' = cfg\<lparr>cf_Servers := fold gm_delete ord (cf_Servers cfg)\<rparr>"
    and sel: "\<And>a. a \<in> set ord \<Longrightarrow> gm_lookup (cf_Servers cfg) a \<noteq> None \<and> CleanupProtectionReasons cfg a = [] \<and>
       a \<in> ce_Alias ` set (rp_Candidates (Review servers_ord cfg now days True))" by auto
  have free: "cf_Default cfg \<noteq> a \<and> projects_using cfg a = [] \<and> jump_users cfg a = []" if a: "a \<in> set ord" for a
  proof -
    have "a \<in> ce_Alias ` set (rp_Candidates (Review servers_ord cfg now days True))" using sel[OF a] by simp
    then obtain s where "server_at (cf_Servers cfg) a = Some s" using candidate_live by blast
    then show ?thesis using sel[OF a] unprotected_iff by simp
  qed
  have look: "gm_lookup (cf_Servers cfg') a = (if a \<in> set ord then None else gm_lookup (cf_Servers cfg) a)" for a
    by (simp add: cfg' gm_lookup_fold_delete)
  have "refs_closed cfg'"
    unfolding refs_closed_def
  proof (intro conjI allI impI)
    show "gm_lookup (cf_Servers cfg') (cf_Default cfg') \<noteq> None" if "cf_Default cfg' \<noteq> []"
    proof -
      have d: "cf_Default cfg' = cf_Default cfg" by (simp add: cfg')
      then have "cf_Default cfg \<notin> set ord" using free by blast
      then show ?thesis using that assms(2) unfolding look d refs_closed_def by simp
    qed
    show "gm_lookup (cf_Servers cfg') (pj_Server p) \<noteq> None"
      if "project_at (cf_Projects cfg') n = Some p" "pj_Server p \<noteq> []" for n p
    proof -
      have p: "project_at (cf_Projects cfg) n = Some p" using that(1) by (simp add: cfg')
      then have "n \<in> set (projects_using cfg (pj_Server p))" unfolding in_projects_using by blast
      then have "pj_Server p \<notin> set ord" using free by force
      then show ?thesis using that(2) p assms(2) unfolding look refs_closed_def by auto
    qed
    show "\<not> jump_target_missing cfg' (TrimSpace (sv_ProxyJump s))" if "server_at (cf_Servers cfg') n = Some s" for n s
    proof -
      have n: "n \<notin> set ord" "server_at (cf_Servers cfg) n = Some s"
        using that look[of n] by (auto simp: server_at_def split: if_splits)
      have "TrimSpace (sv_ProxyJump s) \<notin> set ord"
      proof
        assume t: "TrimSpace (sv_ProxyJump s) \<in> set ord"
        then have "n \<in> set (jump_users cfg (TrimSpace (sv_ProxyJump s)))" unfolding in_jump_users using n by auto
        then show False using free[OF t] by simp
      qed
      then show ?thesis using n assms(2) by (auto simp: refs_closed_def jump_target_missing_def look)
    qed
  qed
  then show ?thesis using look sel by blast
qed

theorem cleanup_removal_keeps_references_witness:
  "\<exists>cfg'. cleanup_callback True [''a''] [''a''] (400 * day) 30
     (New\<lparr>cf_Servers := gm_of_list [(''a'', Some (zero_server\<lparr>sv_LastUsed := 1\<rparr>))]\<rparr>) None = Inr cfg' \<and> refs_closed cfg'"
proof -
  let ?cfg = "New\<lparr>cf_Servers := gm_of_list [(''a'', Some (zero_server\<lparr>sv_LastUsed := 1\<rparr>))]\<rparr>"
  have "is_ok (cleanup_callback True [''a''] [''a''] (400 * day) 30 ?cfg None)" by code_simp
  then obtain cfg' where c: "cleanup_callback True [''a''] [''a''] (400 * day) 30 ?cfg None = Inr cfg'"
    by (cases "cleanup_callback True [''a''] [''a''] (400 * day) 30 ?cfg None") auto
  have "refs_closed ?cfg"
    by (auto simp: refs_closed_def jump_target_missing_def server_at_def project_at_def gm_lookup_of_list
        New_def zero_server_def TrimSpace_def Trim_if_def gm.lookup_empty split: option.splits if_splits)
  then show ?thesis using cleanup_removal_keeps_references[OF c] c by blast
qed

text \<open>Upgrading cannot make an active host look unknown: a server of an old document that
  was ever seen, decoded by this version, is never classified as having an unknown history.\<close>

theorem migrated_history_is_known:
  assumes "ce_unmarshal env data New = Some old" "cf_Version old < 5"
    and "decodeConfig env data = (Inr cfg :: 'e store_error + Config)"
    and "server_at (cf_Servers old) alias = Some s" "sv_LastSeen s \<noteq> 0"
  shows "\<exists>t. server_at (cf_Servers cfg) alias = Some t \<and>
    (\<forall>now cutoff e. classify alias t now cutoff = Some e \<longrightarrow> ce_Reason e \<noteq> ReasonHistoryUnknown)"
proof -
  have "server_at (cf_Servers cfg) alias = Some (migrate_server s)"
    using assms by (auto simp: decodeConfig_def server_at_def split: if_splits option.splits)
  moreover have "sv_LastUsed (migrate_server s) \<noteq> 0" using assms(5) by (simp add: migrate_server_def)
  ultimately show ?thesis by (auto simp: classify_def Let_def reason_defs split: if_splits)
qed

theorem migrated_history_is_known_witness:
  "ce_Reason (the (classify ''a'' (the (server_at (gm_map (\<lambda>_. map_option migrate_server)
     (gm_of_list [(''a'', Some (zero_server\<lparr>sv_LastSeen := 9\<rparr>))])) ''a'')) 20 10)) \<noteq> ReasonHistoryUnknown"
proof -
  let ?m = "gm_of_list [(''a'', Some (zero_server\<lparr>sv_LastSeen := 9\<rparr>))]"
  let ?old = "New\<lparr>cf_Version := 4, cf_Servers := ?m\<rparr>"
  have u: "ce_unmarshal old_env [] New = Some ?old" by (simp add: old_env_def)
  have d: "decodeConfig old_env [] = (Inr (?old\<lparr>cf_Servers := gm_map (\<lambda>_. map_option migrate_server) ?m\<rparr>) :: unit store_error + Config)"
    by (simp add: decodeConfig_def u CurrentVersion_def)
  have "cf_Version ?old < 5" "server_at (cf_Servers ?old) ''a'' = Some (zero_server\<lparr>sv_LastSeen := 9\<rparr>)"
    "sv_LastSeen (zero_server\<lparr>sv_LastSeen := 9\<rparr>) \<noteq> 0" by (simp_all add: server_at_def gm_lookup_of_list)
  note known = migrated_history_is_known[OF u this(1) d this(2,3)]
  have "server_at (gm_map (\<lambda>_. map_option migrate_server) ?m) ''a'' = Some (migrate_server (zero_server\<lparr>sv_LastSeen := 9\<rparr>))"
    by (simp add: server_at_def gm_lookup_of_list)
  moreover have "\<exists>e. classify ''a'' (migrate_server (zero_server\<lparr>sv_LastSeen := 9\<rparr>)) 20 10 = Some e"
    by (simp add: classify_def migrate_server_def zero_server_def Let_def)
  ultimately show ?thesis using known by auto
qed

end
