(* ===== verification/Ssh_Key.thy ===== *)
theory Ssh_Key
  imports Main
begin

text \<open>
  What the callers of the SSH key parser (\<open>golang.org/x/crypto/ssh\<close>) rely on. The parser itself
  is outside the repository: it enters the components as functions into \<open>parsed_key\<close>, a signer
  (identified by the SHA-256 fingerprint of its public half), a key that needs a passphrase
  (\<open>PassphraseMissingError\<close>, with the fingerprint when its public half is readable), or
  any other parse error.
\<close>

datatype parsed_key = Parsed string | NeedsPassphrase "string option" | NoKey

fun signer_of :: "parsed_key \<Rightarrow> string option" where
  "signer_of (Parsed fp) = Some fp"
| "signer_of (NeedsPassphrase _) = None"
| "signer_of NoKey = None"

text \<open>The public half that is known after a parse.\<close>

fun public_of :: "parsed_key \<Rightarrow> string option" where
  "public_of (Parsed fp) = Some fp"
| "public_of (NeedsPassphrase fp) = fp"
| "public_of NoKey = None"

lemma signer_is_public: "signer_of p = Some fp \<Longrightarrow> public_of p = Some fp"
  by (cases p) auto

end
