(* ===== verification/Local_Store.thy ===== *)
theory Local_Store
  imports Config_Store Ssh_Key
begin

text \<open>
  \<open>internal/localstore\<close>: the device-protected store of SSH credentials and secrets
  (\<open>store.go\<close>, \<open>credentials.go\<close>, and the reads and writes of \<open>files.go\<close>). The state is the
  contents of the store file and whether the explicit lock file exists. The device
  protector, AES-GCM, SHA-256, the JSON codecs, the SSH key parser and the file system are
  fields of an environment record. A step that may fail (a file operation, the random
  source, a cancelled context) is asked of the environment too.
\<close>

section \<open>Data\<close>

record Credential =
  cr_Key :: bytes
  cr_Passphrase :: bytes
  cr_Password :: bytes
  cr_Fingerprint :: string

record Data =
  da_Version :: int
  da_Connections :: "(string, Credential list) gomap"
  da_Secrets :: "(string, bytes) gomap"
  da_KeyFiles :: "(string, Credential) gomap"
  da_Disabled :: "(string, bool) gomap"

record envelope =
  ev_Version :: int
  ev_Instance :: string
  ev_Backend :: string
  ev_WrappedKey :: bytes
  ev_Nonce :: bytes
  ev_Ciphertext :: bytes

datatype ls_step = LsPrepareDir | LsLock | LsLstat | LsReadFile | LsIrregular | LsRand | LsContext | LsWrite | LsSyncDir | LsRemove

datatype ls_error = ErrNotFound | ErrInactive | ErrLocked | ErrCorrupt | ErrKeyFileChanged
  | LsIo ls_step | OpenProtection | SealProtection | StoreTooLarge | InvalidSecret
  | CredentialCount | FingerprintMismatch | CannotProve | CredentialTooLarge | MixedCredential | BadKey | InvalidCredential
  | MarshalFailed | TargetRequired | TargetPort | KeyFileUnreadable | NoHome

datatype key_file = KfMissing | KfUnreadable | KfContents bytes

type_synonym identity_fields = "(string \<times> string \<times> string \<times> string \<times> string \<times> string) \<times> int"

text \<open>Decoded JSON whose three required maps may be missing.\<close>

record raw_data =
  rd_data :: Data
  rd_complete :: bool \<comment> \<open>no required map is nil\<close>

record ls_env =
  le_instance :: string
  le_fails :: "ls_step \<Rightarrow> bool"
  le_new_key :: bytes
  le_nonce :: bytes
  le_seal :: "bytes \<Rightarrow> (string \<times> bytes) option"
  le_open :: "string \<Rightarrow> bytes \<Rightarrow> bytes option"
  le_gcm_seal :: "bytes \<Rightarrow> bytes \<Rightarrow> bytes \<Rightarrow> bytes"
  le_gcm_open :: "bytes \<Rightarrow> bytes \<Rightarrow> bytes \<Rightarrow> bytes option"
  le_marshal_data :: "Data \<Rightarrow> bytes option"
  le_unmarshal_data :: "bytes \<Rightarrow> raw_data option"
  le_marshal_env :: "envelope \<Rightarrow> bytes option"
  le_unmarshal_env :: "bytes \<Rightarrow> envelope option"
  le_parse :: "bytes \<Rightarrow> parsed_key"
  le_parse_with :: "bytes \<Rightarrow> bytes \<Rightarrow> parsed_key"
  le_proves :: "Credential \<Rightarrow> bool" \<comment> \<open>the key signs a challenge that its public half verifies\<close>
  le_identity :: "identity_fields \<Rightarrow> string"
  le_key_file :: "string \<Rightarrow> key_file"
  le_home :: "string option"
  le_key_id :: "string \<Rightarrow> string option" \<comment> \<open>digest of the absolute path\<close>

record ls_state =
  st_file :: "bytes option"
  st_locked :: bool

definition maxStoreSize :: nat where "maxStoreSize = 32 * 2 ^ 20"
definition nonce_size :: nat where "nonce_size = 12"

section \<open>Credentials and identities\<close>

definition expand_home :: "ls_env \<Rightarrow> string \<Rightarrow> ls_error + string" where
  "expand_home env path =
    (if HasPrefix path ''~/'' then
       (case le_home env of None \<Rightarrow> Inl NoHome | Some home \<Rightarrow> Inr (path_Join home (drop 2 path)))
     else Inr path)"

definition checkKeyFile :: "ls_env \<Rightarrow> string \<Rightarrow> Credential \<Rightarrow> bool \<Rightarrow> ls_error option" where
  "checkKeyFile env path0 saved allowMissing =
    (case expand_home env path0 of Inl e \<Rightarrow> Some e | Inr path \<Rightarrow>
     case le_key_file env path of
       KfMissing \<Rightarrow> if allowMissing then None else Some (LsIo LsReadFile)
     | KfUnreadable \<Rightarrow> Some KeyFileUnreadable
     | KfContents data \<Rightarrow>
         if cr_Key saved \<noteq> [] \<and> data = cr_Key saved then None
         else let actual = le_parse env data;
                  actual = (if signer_of actual = None \<and> cr_Passphrase saved \<noteq> []
                            then le_parse_with env data (cr_Passphrase saved) else actual)
           in if public_of actual = Some (cr_Fingerprint saved) then None else Some ErrKeyFileChanged)"

definition Signer :: "ls_env \<Rightarrow> Credential \<Rightarrow> ls_error + string" where
  "Signer env c =
    (let first = le_parse env (cr_Key c);
         signer = (case first of
             NeedsPassphrase _ \<Rightarrow> if cr_Passphrase c \<noteq> [] then le_parse_with env (cr_Key c) (cr_Passphrase c) else first
           | _ \<Rightarrow> first)
     in case signer_of signer of None \<Rightarrow> Inl BadKey
        | Some fp \<Rightarrow> if cr_Fingerprint c \<noteq> [] \<and> fp \<noteq> cr_Fingerprint c then Inl FingerprintMismatch else Inr fp)"

definition validate_credential :: "ls_env \<Rightarrow> Credential \<Rightarrow> ls_error + Credential" where
  "validate_credential env c =
    (if 2 ^ 20 < length (cr_Key c) \<or> 65536 < length (cr_Passphrase c) \<or> 65536 < length (cr_Password c)
     then Inl CredentialTooLarge
     else if cr_Key c \<noteq> [] then
       (if cr_Password c \<noteq> [] then Inl MixedCredential
        else case Signer env c of Inl e \<Rightarrow> Inl e
          | Inr fp \<Rightarrow> if le_fails env LsRand then Inl (LsIo LsRand)
                      else if \<not> le_proves env c then Inl CannotProve
                      else Inr (c\<lparr>cr_Fingerprint := fp\<rparr>))
     else if cr_Password c = [] \<or> cr_Passphrase c \<noteq> [] \<or> cr_Fingerprint c \<noteq> [] then Inl InvalidCredential
     else Inr c)"

fun validate_each :: "ls_env \<Rightarrow> Credential list \<Rightarrow> ls_error + Credential list" where
  "validate_each env [] = Inr []"
| "validate_each env (c # cs) =
    bind_result (validate_credential env c) (\<lambda>c'. bind_result (validate_each env cs) (\<lambda>cs'. Inr (c' # cs')))"

definition validateCredentials :: "ls_env \<Rightarrow> Credential list \<Rightarrow> ls_error + Credential list" where
  "validateCredentials env cs =
    (if cs = [] \<or> 32 < length cs then Inl CredentialCount else validate_each env cs)"

definition Identity :: "ls_env \<Rightarrow> Server option \<Rightarrow> ls_error + string" where
  "Identity env so =
    (case so of None \<Rightarrow> Inl TargetRequired | Some s \<Rightarrow>
      if TrimSpace (sv_Host s) = [] \<or> TrimSpace (sv_User s) = [] then Inl TargetRequired
      else let port = (if sv_Port s = 0 then 22 else sv_Port s) in
        if port < 1 \<or> 65535 < port then Inl TargetPort
        else let vault = (if sv_CloudEntry s = [] \<and> sv_Auth s \<noteq> AuthCloud then [] else sv_CloudVault s) in
          Inr (le_identity env ((sv_Host s, sv_User s, sv_Auth s, sv_KeyPath s, sv_CloudEntry s, vault), port)))"

definition keyFileID :: "ls_env \<Rightarrow> string \<Rightarrow> ls_error + string" where
  "keyFileID env path0 =
    bind_result (expand_home env path0) (\<lambda>path.
      if path = [] then Inl ErrNotFound
      else case le_key_id env path of None \<Rightarrow> Inl NoHome | Some d \<Rightarrow> Inr (''keyfile/'' @ d))"

section \<open>Reading and updating the file\<close>

definition CheckLocked :: "ls_env \<Rightarrow> ls_state \<Rightarrow> ls_error option" where
  "CheckLocked env st =
    (if le_fails env LsLstat then Some (LsIo LsLstat) else if st_locked st then Some ErrLocked else None)"

definition readPrivate :: "ls_env \<Rightarrow> ls_state \<Rightarrow> ls_error + bytes" where
  "readPrivate env st =
    (if le_fails env LsReadFile then Inl (LsIo LsReadFile)
     else case st_file st of None \<Rightarrow> Inl ErrNotFound
       | Some b \<Rightarrow> if le_fails env LsIrregular \<or> maxStoreSize < length b then Inl ErrCorrupt else Inr b)"

definition read :: "ls_env \<Rightarrow> bool \<Rightarrow> ls_state \<Rightarrow> ls_error + (Data \<times> envelope \<times> bytes)" where
  "read env allowLocked st =
    (case (if allowLocked then None else CheckLocked env st) of Some e \<Rightarrow> Inl e | None \<Rightarrow>
     case readPrivate env st of Inl e \<Rightarrow> Inl e | Inr b \<Rightarrow>
     case le_unmarshal_env env b of None \<Rightarrow> Inl ErrCorrupt | Some enc \<Rightarrow>
       if ev_Version enc \<noteq> 1 \<or> ev_Instance enc \<noteq> le_instance env \<or>
          2 ^ 20 < length (ev_WrappedKey enc) \<or> ev_WrappedKey enc = [] then Inl ErrCorrupt
       else case le_open env (ev_Backend enc) (ev_WrappedKey enc) of None \<Rightarrow> Inl OpenProtection | Some key \<Rightarrow>
         if length key \<noteq> 32 \<or> length (ev_Nonce enc) \<noteq> nonce_size then Inl ErrCorrupt
         else case le_gcm_open env key (ev_Nonce enc) (ev_Ciphertext enc) of None \<Rightarrow> Inl ErrCorrupt | Some plain \<Rightarrow>
           (case le_unmarshal_data env plain of None \<Rightarrow> Inl ErrCorrupt | Some d \<Rightarrow>
              if da_Version (rd_data d) \<noteq> 1 \<or> \<not> rd_complete d then Inl ErrCorrupt
              else Inr (rd_data d, enc, key)))"

definition Read :: "ls_env \<Rightarrow> ls_state \<Rightarrow> ls_error + Data" where
  "Read env st =
    (if le_fails env LsLstat then Inl (LsIo LsLstat)
     else if st_file st = None then Inl ErrNotFound
     else if le_fails env LsLock then Inl (LsIo LsLock)
     else bind_result (read env False st) (\<lambda>(d, _, _). Inr d))"

definition empty_data :: Data where
  "empty_data = \<lparr>da_Version = 1, da_Connections = gm_empty, da_Secrets = gm_empty, da_KeyFiles = gm_empty,
     da_Disabled = gm_empty\<rparr>"

text \<open>The first half of \<open>Update\<close>: the store opened, or a fresh one whose key the protector has
  been seen to recover.\<close>

definition open_or_create :: "ls_env \<Rightarrow> ls_state \<Rightarrow> ls_error + (Data \<times> envelope \<times> bytes)" where
  "open_or_create env st =
    (case read env False st of
       Inr r \<Rightarrow> Inr r
     | Inl e \<Rightarrow>
         if e \<noteq> ErrNotFound then Inl e
         else if le_fails env LsRand then Inl (LsIo LsRand)
         else case le_seal env (le_new_key env) of None \<Rightarrow> Inl SealProtection | Some (backend, wrapped) \<Rightarrow>
           (case le_open env backend wrapped of None \<Rightarrow> Inl OpenProtection | Some reopened \<Rightarrow>
              if reopened \<noteq> le_new_key env then Inl ErrCorrupt
              else Inr (empty_data, \<lparr>ev_Version = 1, ev_Instance = le_instance env, ev_Backend = backend,
                     ev_WrappedKey = wrapped, ev_Nonce = [], ev_Ciphertext = []\<rparr>, le_new_key env)))"

text \<open>\<open>writePrivate\<close> renames a complete temporary file; only the sync of the directory can fail
  after the new contents are in place.\<close>

definition writePrivate :: "ls_env \<Rightarrow> bytes \<Rightarrow> bytes option \<Rightarrow> ls_error option \<times> bytes option" where
  "writePrivate env b target =
    (if le_fails env LsWrite then (Some (LsIo LsWrite), target)
     else if le_fails env LsSyncDir then (Some (LsIo LsSyncDir), Some b)
     else (None, Some b))"

definition seal_envelope :: "ls_env \<Rightarrow> envelope \<Rightarrow> bytes \<Rightarrow> bytes \<Rightarrow> envelope" where
  "seal_envelope env enc key plain =
    enc\<lparr>ev_Nonce := le_nonce env, ev_Ciphertext := le_gcm_seal env key (le_nonce env) plain\<rparr>"

definition Store_Update :: "ls_env \<Rightarrow> (Data \<Rightarrow> ls_error + Data) \<Rightarrow> ls_state \<Rightarrow> ls_error option \<times> ls_state" where
  "Store_Update env fn st =
    (if le_fails env LsPrepareDir then (Some (LsIo LsPrepareDir), st)
     else if le_fails env LsLock then (Some (LsIo LsLock), st)
     else case open_or_create env st of Inl e \<Rightarrow> (Some e, st) | Inr (d, enc, key) \<Rightarrow>
     case fn d of Inl e \<Rightarrow> (Some e, st) | Inr d' \<Rightarrow>
       if le_fails env LsContext then (Some (LsIo LsContext), st)
       else case le_marshal_data env d' of None \<Rightarrow> (Some MarshalFailed, st) | Some plain \<Rightarrow>
         if maxStoreSize div 2 < length plain then (Some StoreTooLarge, st)
         else if le_fails env LsRand then (Some (LsIo LsRand), st)
         else case le_marshal_env env (seal_envelope env enc key plain) of None \<Rightarrow> (Some MarshalFailed, st) | Some out \<Rightarrow>
           (case CheckLocked env st of Some e \<Rightarrow> (Some e, st) | None \<Rightarrow>
              (case writePrivate env out (st_file st) of (err, file) \<Rightarrow> (err, st\<lparr>st_file := file\<rparr>))))"

section \<open>Operations\<close>

definition Enabled :: "ls_env \<Rightarrow> ls_state \<Rightarrow> bool" where
  "Enabled env st \<longleftrightarrow> le_fails env LsLstat \<or> st_file st \<noteq> None"

definition Ensure :: "ls_env \<Rightarrow> ls_state \<Rightarrow> ls_error option \<times> ls_state" where
  "Ensure env st =
    (if Enabled env st then (case Read env st of Inl e \<Rightarrow> (Some e, st) | Inr _ \<Rightarrow> (None, st))
     else Store_Update env Inr st)"

definition put :: "string \<Rightarrow> Credential list \<Rightarrow> Data \<Rightarrow> Data" where
  "put cid cs d = d\<lparr>da_Connections := gm_update cid cs (da_Connections d), da_Disabled := gm_delete cid (da_Disabled d)\<rparr>"

definition disable :: "string \<Rightarrow> Data \<Rightarrow> Data" where
  "disable cid d = d\<lparr>da_Disabled := gm_update cid True (da_Disabled d)\<rparr>"

definition prepareCredentials :: "ls_env \<Rightarrow> Server option \<Rightarrow> Credential list \<Rightarrow> ls_error + (string \<times> Credential list)" where
  "prepareCredentials env target cs =
    bind_result (Identity env target) (\<lambda>cid. bind_result (validateCredentials env cs) (\<lambda>cs'. Inr (cid, cs')))"

definition Put :: "ls_env \<Rightarrow> Server option \<Rightarrow> Credential list \<Rightarrow> ls_state \<Rightarrow> ls_error option \<times> ls_state" where
  "Put env target cs st =
    (case prepareCredentials env target cs of Inl e \<Rightarrow> (Some e, st)
     | Inr (cid, cs') \<Rightarrow> Store_Update env (\<lambda>d. Inr (put cid cs' d)) st)"

definition connection :: "Data \<Rightarrow> string \<Rightarrow> Credential list" where
  "connection d cid = (case gm_lookup (da_Connections d) cid of None \<Rightarrow> [] | Some cs \<Rightarrow> cs)"

definition uses_key_file :: "Server \<Rightarrow> bool" where
  "uses_key_file s \<longleftrightarrow> sv_Auth s = AuthKey \<and> sv_KeyPath s \<noteq> []"

definition resolve :: "ls_env \<Rightarrow> string \<Rightarrow> Server \<Rightarrow> Data \<Rightarrow> ls_error + Credential list" where
  "resolve env cid target d =
    (if gm_lookup (da_Disabled d) cid = Some True then Inl ErrInactive
     else let cs0 = connection d cid;
              cs = (if cs0 = [] \<and> uses_key_file target then
                      (case keyFileID env (sv_KeyPath target) of Inl _ \<Rightarrow> []
                       | Inr kid \<Rightarrow> (case gm_lookup (da_KeyFiles d) kid of None \<Rightarrow> [] | Some c \<Rightarrow> [c]))
                    else cs0)
       in if cs = [] then Inl ErrNotFound
          else case (if uses_key_file target
                     then first_error (\<lambda>c. if cr_Key c \<noteq> [] then checkKeyFile env (sv_KeyPath target) c True else None) cs
                     else None) of
            Some e \<Rightarrow> Inl e
          | None \<Rightarrow> Inr cs)"

definition Resolve :: "ls_env \<Rightarrow> Server option \<Rightarrow> ls_state \<Rightarrow> ls_error + Credential list" where
  "Resolve env target st =
    bind_result (Identity env target) (\<lambda>cid. bind_result (Read env st) (\<lambda>d.
      case target of None \<Rightarrow> Inl TargetRequired | Some s \<Rightarrow> resolve env cid s d))"

definition Disable :: "ls_env \<Rightarrow> Server option \<Rightarrow> ls_state \<Rightarrow> ls_error option \<times> ls_state" where
  "Disable env target st =
    (case Identity env target of Inl e \<Rightarrow> (Some e, st) | Inr cid \<Rightarrow> Store_Update env (\<lambda>d. Inr (disable cid d)) st)"

text \<open>The same operations staged on the document of an open transaction.\<close>

definition staged_Put :: "ls_env \<Rightarrow> Server option \<Rightarrow> Credential list \<Rightarrow> Data \<Rightarrow> ls_error + Data" where
  "staged_Put env target cs d =
    bind_result (prepareCredentials env target cs) (\<lambda>(cid, cs'). Inr (put cid cs' d))"

definition staged_Resolve :: "ls_env \<Rightarrow> Server option \<Rightarrow> Data \<Rightarrow> ls_error + Credential list" where
  "staged_Resolve env target d =
    bind_result (Identity env target) (\<lambda>cid. case target of None \<Rightarrow> Inl TargetRequired | Some s \<Rightarrow> resolve env cid s d)"

definition staged_Disable :: "ls_env \<Rightarrow> Server option \<Rightarrow> Data \<Rightarrow> ls_error + Data" where
  "staged_Disable env target d = bind_result (Identity env target) (\<lambda>cid. Inr (disable cid d))"

definition RememberKeyFile :: "ls_env \<Rightarrow> string \<Rightarrow> Credential \<Rightarrow> ls_state \<Rightarrow> ls_error option \<times> ls_state" where
  "RememberKeyFile env path c st =
    (case keyFileID env path of Inl e \<Rightarrow> (Some e, st) | Inr kid \<Rightarrow>
     case validateCredentials env [c] of Inl e \<Rightarrow> (Some e, st) | Inr cs \<Rightarrow>
       Store_Update env (\<lambda>d. Inr (d\<lparr>da_KeyFiles := gm_update kid (hd cs) (da_KeyFiles d)\<rparr>)) st)"

definition KeyFile :: "ls_env \<Rightarrow> string \<Rightarrow> ls_state \<Rightarrow> ls_error + Credential" where
  "KeyFile env path st =
    bind_result (keyFileID env path) (\<lambda>kid. bind_result (Read env st) (\<lambda>d.
      case gm_lookup (da_KeyFiles d) kid of None \<Rightarrow> Inl ErrNotFound | Some c \<Rightarrow> Inr c))"

definition secret_ok :: "string \<Rightarrow> bytes \<Rightarrow> bool" where
  "secret_ok name value \<longleftrightarrow> name \<noteq> [] \<and> length name \<le> 256 \<and> length value \<le> 2 ^ 20"

definition staged_SetSecret :: "string \<Rightarrow> bytes \<Rightarrow> Data \<Rightarrow> ls_error + Data" where
  "staged_SetSecret name value d =
    (if \<not> secret_ok name value then Inl InvalidSecret
     else Inr (d\<lparr>da_Secrets := gm_update name value (da_Secrets d)\<rparr>))"

definition SetSecret :: "ls_env \<Rightarrow> string \<Rightarrow> bytes \<Rightarrow> ls_state \<Rightarrow> ls_error option \<times> ls_state" where
  "SetSecret env name value st =
    (if \<not> secret_ok name value then (Some InvalidSecret, st) else Store_Update env (staged_SetSecret name value) st)"

definition Secret :: "ls_env \<Rightarrow> string \<Rightarrow> ls_state \<Rightarrow> ls_error + bytes" where
  "Secret env name st =
    bind_result (Read env st) (\<lambda>d. case gm_lookup (da_Secrets d) name of None \<Rightarrow> Inl ErrNotFound | Some b \<Rightarrow> Inr b)"

definition DeleteSecrets :: "ls_env \<Rightarrow> string \<Rightarrow> ls_state \<Rightarrow> ls_error option \<times> ls_state" where
  "DeleteSecrets env p st =
    (if \<not> Enabled env st then (None, st)
     else Store_Update env (\<lambda>d. Inr (d\<lparr>da_Secrets := gm_filter (\<lambda>k _. \<not> HasPrefix k p) (da_Secrets d)\<rparr>)) st)"

definition Lock :: "ls_env \<Rightarrow> ls_state \<Rightarrow> ls_error option \<times> ls_state" where
  "Lock env st =
    (if \<not> Enabled env st then (Some ErrNotFound, st)
     else if le_fails env LsLock then (Some (LsIo LsLock), st)
     else if le_fails env LsWrite then (Some (LsIo LsWrite), st)
     else (if le_fails env LsSyncDir then Some (LsIo LsSyncDir) else None, st\<lparr>st_locked := True\<rparr>))"

definition Unlock :: "ls_env \<Rightarrow> ls_state \<Rightarrow> ls_error option \<times> ls_state" where
  "Unlock env st =
    (if le_fails env LsLock then (Some (LsIo LsLock), st)
     else case read env True st of Inl e \<Rightarrow> (Some e, st)
       | Inr _ \<Rightarrow> if st_locked st \<and> le_fails env LsRemove then (Some (LsIo LsRemove), st)
                 else (None, st\<lparr>st_locked := False\<rparr>))"

section \<open>Laws\<close>

text \<open>Without a failing directory sync an update is a transaction on the store.\<close>

definition dir_synced :: "ls_env \<Rightarrow> ls_env" where
  "dir_synced env = env\<lparr>le_fails := \<lambda>s. s \<noteq> LsSyncDir \<and> le_fails env s\<rparr>"

definition ls_load :: "ls_env \<Rightarrow> ls_state \<Rightarrow> ls_error + Data" where
  "ls_load env st =
    (if le_fails env LsPrepareDir then Inl (LsIo LsPrepareDir)
     else if le_fails env LsLock then Inl (LsIo LsLock)
     else bind_result (open_or_create env st) (\<lambda>(d, _, _). Inr d))"

definition ls_store :: "ls_env \<Rightarrow> Data \<Rightarrow> ls_state \<Rightarrow> ls_error + ls_state" where
  "ls_store env d st =
    (case Store_Update env (\<lambda>_. Inr d) st of (Some e, _) \<Rightarrow> Inl e | (None, st') \<Rightarrow> Inr st')"

lemma Store_Update_error:
  assumes "Store_Update env fn st = (Some e, st')" "e \<noteq> LsIo LsSyncDir"
  shows "st' = st"
  using assms unfolding Store_Update_def writePrivate_def
  by (auto split: if_splits sum.splits option.splits prod.splits)

lemma Store_Update_fn:
  "Store_Update env fn st =
   (case ls_load env st of Inl e \<Rightarrow> (Some e, st) | Inr d \<Rightarrow>
    case fn d of Inl e \<Rightarrow> (Some e, st) | Inr d' \<Rightarrow> Store_Update env (\<lambda>_. Inr d') st)"
  by (auto simp: Store_Update_def ls_load_def split: sum.splits prod.splits option.splits)

lemma dir_synced_error: "Store_Update (dir_synced env) fn st = (Some e, st') \<Longrightarrow> st' = st"
  unfolding Store_Update_def writePrivate_def dir_synced_def
  by (auto split: if_splits sum.splits option.splits prod.splits)

lemma Store_Update_transacts:
  "Store_Update (dir_synced env) fn st = transact (ls_load (dir_synced env)) (ls_store (dir_synced env)) (\<lambda>e. e) fn st"
proof (cases "ls_load (dir_synced env) st")
  case (Inr d)
  show ?thesis
  proof (cases "fn d")
    case (Inr d')
    then have "Store_Update (dir_synced env) fn st = Store_Update (dir_synced env) (\<lambda>_. Inr d') st"
      using \<open>ls_load (dir_synced env) st = Inr d\<close> by (subst Store_Update_fn) simp
    then show ?thesis using Inr \<open>ls_load (dir_synced env) st = Inr d\<close>
      by (cases "Store_Update (dir_synced env) (\<lambda>_. Inr d') st"; cases "fst (Store_Update (dir_synced env) (\<lambda>_. Inr d') st)")
        (auto simp: transact_def ls_store_def dest: dir_synced_error)
  qed (use Inr in \<open>subst Store_Update_fn, simp add: transact_def\<close>)
qed (subst Store_Update_fn, simp add: transact_def)

interpretation ls: transaction "ls_load (dir_synced env)" "ls_store (dir_synced env)" "\<lambda>e. e" "Store_Update (dir_synced env)" for env
  by unfold_locales (rule Store_Update_transacts)

text \<open>What the codecs and the cipher promise.\<close>

definition codecs_ok :: "ls_env \<Rightarrow> bool" where
  "codecs_ok env \<longleftrightarrow>
    (\<forall>d b. le_marshal_data env d = Some b \<longrightarrow> le_unmarshal_data env b = Some \<lparr>rd_data = d, rd_complete = True\<rparr>) \<and>
    (\<forall>e b. le_marshal_env env e = Some b \<longrightarrow> le_unmarshal_env env b = Some e) \<and>
    (\<forall>k n p. le_gcm_open env k n (le_gcm_seal env k n p) = Some p) \<and>
    length (le_nonce env) = nonce_size \<and> length (le_new_key env) = 32 \<and>
    (\<forall>k b w. le_seal env k = Some (b, w) \<longrightarrow> w \<noteq> [] \<and> length w \<le> 2 ^ 20)"

lemma read_Inr:
  "read env a st = Inr (d, enc, key) \<Longrightarrow>
   ev_Version enc = 1 \<and> ev_Instance enc = le_instance env \<and> length (ev_WrappedKey enc) \<le> 2 ^ 20 \<and>
   ev_WrappedKey enc \<noteq> [] \<and> le_open env (ev_Backend enc) (ev_WrappedKey enc) = Some key \<and> length key = 32 \<and>
   da_Version d = 1"
  unfolding read_def by (auto split: if_splits option.splits sum.splits)

lemma open_or_create_Inr:
  assumes "open_or_create env st = Inr (d, enc, key)" "codecs_ok env"
  shows "ev_Version enc = 1 \<and> ev_Instance enc = le_instance env \<and> length (ev_WrappedKey enc) \<le> 2 ^ 20 \<and>
   ev_WrappedKey enc \<noteq> [] \<and> le_open env (ev_Backend enc) (ev_WrappedKey enc) = Some key \<and> length key = 32 \<and>
   da_Version d = 1"
proof (cases "read env False st")
  case (Inr r)
  then have "read env False st = Inr (d, enc, key)" using assms(1) by (simp add: open_or_create_def)
  then show ?thesis by (rule read_Inr)
next
  case (Inl e)
  then show ?thesis using assms
    by (auto simp: open_or_create_def codecs_ok_def empty_data_def split: if_splits option.splits prod.splits)
qed

text \<open>A successful update can be read back.\<close>

lemma Store_Update_reads:
  assumes "Store_Update env fn st = (None, st')" "codecs_ok env"
    and "\<And>d d'. fn d = Inr d' \<Longrightarrow> da_Version d' = da_Version d"
    and "\<And>b. st_file st' = Some b \<Longrightarrow> length b \<le> maxStoreSize"
    and "\<not> le_fails env LsReadFile" "\<not> le_fails env LsIrregular"
  obtains d d' where "ls_load env st = Inr d" "fn d = Inr d'" "Read env st' = Inr d'" "st_locked st' = st_locked st"
proof -
  obtain d enc key d' plain out where
    o: "open_or_create env st = Inr (d, enc, key)" "fn d = Inr d'" "le_marshal_data env d' = Some plain"
      "le_marshal_env env (seal_envelope env enc key plain) = Some out"
    and io: "\<not> le_fails env LsPrepareDir" "\<not> le_fails env LsLock" "CheckLocked env st = None"
    and st': "st' = st\<lparr>st_file := Some out\<rparr>"
    using assms(1) unfolding Store_Update_def writePrivate_def
    by (auto split: if_splits sum.splits option.splits prod.splits)
  note enc = open_or_create_Inr[OF o(1) assms(2)]
  have dec: "le_unmarshal_env env out = Some (seal_envelope env enc key plain)"
    "le_unmarshal_data env plain = Some \<lparr>rd_data = d', rd_complete = True\<rparr>"
    "le_gcm_open env key (le_nonce env) (le_gcm_seal env key (le_nonce env) plain) = Some plain"
    "length (le_nonce env) = nonce_size"
    using assms(2) o(3,4) by (auto simp: codecs_ok_def)
  have size: "length out \<le> maxStoreSize" using assms(4) st' by simp
  have lock: "CheckLocked env st' = None" using io(3) st' by (auto simp: CheckLocked_def split: if_splits)
  have rp: "readPrivate env st' = Inr out" using size assms(5,6) st' by (simp add: readPrivate_def)
  have "da_Version d' = 1" using assms(3)[OF o(2)] enc by simp
  then have rd: "read env False st' = Inr (d', seal_envelope env enc key plain, key)"
    using enc by (simp add: read_def lock rp dec seal_envelope_def)
  moreover have "\<not> le_fails env LsLstat" using io(3) by (auto simp: CheckLocked_def split: if_splits)
  ultimately have "Read env st' = Inr d'" using io st' by (simp add: Read_def)
  moreover have "ls_load env st = Inr d" using o(1) io by (simp add: ls_load_def)
  ultimately show ?thesis using that o(2) st' by simp
qed

lemma read_locked: "st_locked st \<Longrightarrow> \<exists>e. read env False st = Inl e \<and> e \<noteq> ErrNotFound"
  by (simp add: read_def CheckLocked_def)

lemma read_existing: "st_file st \<noteq> None \<Longrightarrow> read env a st = Inl e \<Longrightarrow> e \<noteq> ErrNotFound"
  unfolding read_def CheckLocked_def readPrivate_def
  by (auto split: if_splits option.splits sum.splits)

lemma Store_Update_unreadable:
  assumes "read env False st = Inl e" "e \<noteq> ErrNotFound"
  shows "\<exists>e'. Store_Update env fn st = (Some e', st)"
proof -
  have "open_or_create env st = Inl e" using assms by (simp add: open_or_create_def)
  then show ?thesis by (simp add: Store_Update_def)
qed

lemma resolve_connection:
  assumes "gm_lookup (da_Disabled d) cid \<noteq> Some True" "gm_lookup (da_Connections d) cid = Some cs" "cs \<noteq> []" "\<not> uses_key_file t"
  shows "resolve env cid t d = Inr cs"
  using assms by (simp add: resolve_def connection_def Let_def)

lemma validate_each_length: "validate_each env cs = Inr cs' \<Longrightarrow> length cs' = length cs"
  by (induction env cs arbitrary: cs' rule: validate_each.induct) (auto simp: bind_result_eq_Inr)

lemma validateCredentials_nonempty: "validateCredentials env cs = Inr cs' \<Longrightarrow> cs' \<noteq> []"
  by (auto simp: validateCredentials_def dest: validate_each_length split: if_splits)

text \<open>A concrete environment whose codecs know one document each, for the examples.\<close>

definition demo_data :: Data where
  "demo_data = put ''id'' [\<lparr>cr_Key = [], cr_Passphrase = [], cr_Password = ''pw'', cr_Fingerprint = []\<rparr>] empty_data"

definition demo_envelope :: envelope where
  "demo_envelope = \<lparr>ev_Version = 1, ev_Instance = ''i'', ev_Backend = ''b'', ev_WrappedKey = ''w'',
     ev_Nonce = replicate 12 (CHR ''n''), ev_Ciphertext = ''data''\<rparr>"

definition demo_env :: ls_env where
  "demo_env = \<lparr>le_instance = ''i'', le_fails = \<lambda>_. False, le_new_key = replicate 32 (CHR ''k''),
     le_nonce = replicate 12 (CHR ''n''), le_seal = \<lambda>_. Some (''b'', ''w''), le_open = \<lambda>_ _. Some (replicate 32 (CHR ''k'')),
     le_gcm_seal = \<lambda>_ _ p. p, le_gcm_open = \<lambda>_ _ c. Some c,
     le_marshal_data = \<lambda>d. if d = demo_data then Some ''data'' else None,
     le_unmarshal_data = \<lambda>b. if b = ''data'' then Some \<lparr>rd_data = demo_data, rd_complete = True\<rparr> else None,
     le_marshal_env = \<lambda>e. if e = demo_envelope then Some ''file'' else None,
     le_unmarshal_env = \<lambda>b. if b = ''file'' then Some demo_envelope else None,
     le_parse = \<lambda>_. NoKey, le_parse_with = \<lambda>_ _. NoKey, le_proves = \<lambda>_. False, le_identity = \<lambda>_. ''id'', le_key_file = \<lambda>_. KfMissing,
     le_home = None, le_key_id = \<lambda>_. None\<rparr>"

definition demo_target :: Server where
  "demo_target = zero_server\<lparr>sv_Host := ''h'', sv_User := ''u'', sv_Auth := AuthPassword\<rparr>"

lemma demo_put:
  "Put demo_env (Some demo_target) [\<lparr>cr_Key = [], cr_Passphrase = [], cr_Password = ''pw'', cr_Fingerprint = []\<rparr>]
     \<lparr>st_file = None, st_locked = False\<rparr> = (None, \<lparr>st_file = Some ''file'', st_locked = False\<rparr>)"
  by (simp add: Put_def prepareCredentials_def Identity_def demo_target_def zero_server_def AuthPassword_def AuthCloud_def
      TrimSpace_def Trim_if_def is_space_def demo_env_def validateCredentials_def validate_credential_def
      Store_Update_def open_or_create_def read_def CheckLocked_def readPrivate_def demo_data_def demo_envelope_def
      seal_envelope_def writePrivate_def maxStoreSize_def)

definition demo_env2 :: ls_env where
  "demo_env2 = demo_env\<lparr>
     le_marshal_data := \<lambda>d. if d = disable ''id'' empty_data then Some ''data'' else None,
     le_unmarshal_data := \<lambda>b. if b = ''data'' then Some \<lparr>rd_data = disable ''id'' empty_data, rd_complete = True\<rparr> else None\<rparr>"

lemma demo_disable:
  "Disable demo_env2 (Some demo_target) \<lparr>st_file = None, st_locked = False\<rparr> = (None, \<lparr>st_file = Some ''file'', st_locked = False\<rparr>)"
  by (simp add: Disable_def Identity_def demo_target_def zero_server_def AuthPassword_def AuthCloud_def
      TrimSpace_def Trim_if_def is_space_def demo_env2_def demo_env_def Store_Update_def open_or_create_def read_def
      CheckLocked_def readPrivate_def demo_envelope_def seal_envelope_def writePrivate_def maxStoreSize_def)

lemma demo_codecs2: "codecs_ok demo_env2"
  by (auto simp: codecs_ok_def demo_env2_def demo_env_def nonce_size_def)

lemma demo_codecs: "codecs_ok demo_env"
  by (auto simp: codecs_ok_def demo_env_def nonce_size_def)

section \<open>Properties\<close>

text \<open>C4: while the explicit device lock is set, nothing is read or written: every update fails
  and leaves the state alone, and no credential, key or secret is returned. The lock
  is lifted only by a call that has verified the whole store.\<close>

theorem locked_store_denies:
  assumes "st_locked st"
  shows "(\<exists>e. Store_Update env fn st = (Some e, st)) \<and>
    (\<forall>d. Read env st \<noteq> Inr d) \<and> (\<forall>cs. Resolve env target st \<noteq> Inr cs) \<and>
    (\<forall>b. Secret env name st \<noteq> Inr b) \<and> (\<forall>c. KeyFile env path st \<noteq> Inr c) \<and>
    (\<forall>st'. Unlock env st = (None, st') \<longrightarrow> (\<exists>r. read env True st = Inr r) \<and> st' = st\<lparr>st_locked := False\<rparr>)"
proof -
  obtain e where e: "read env False st = Inl e" "e \<noteq> ErrNotFound" using read_locked[OF assms] by blast
  have r: "Read env st \<noteq> Inr d" for d by (simp add: Read_def e)
  then have "Resolve env target st \<noteq> Inr cs" "Secret env name st \<noteq> Inr b" "KeyFile env path st \<noteq> Inr c" for cs b c
    by (auto simp: Resolve_def Secret_def KeyFile_def bind_result_eq_Inr)
  moreover have "(\<exists>r. read env True st = Inr r) \<and> st' = st\<lparr>st_locked := False\<rparr>" if "Unlock env st = (None, st')" for st'
    using that by (auto simp: Unlock_def split: sum.splits if_splits)
  ultimately show ?thesis using Store_Update_unreadable[OF e] r by blast
qed

theorem locked_store_denies_witness:
  "\<exists>e. Store_Update demo_env (\<lambda>d. Inr d) \<lparr>st_file = Some ''file'', st_locked = True\<rparr> = (Some e, \<lparr>st_file = Some ''file'', st_locked = True\<rparr>)"
  using locked_store_denies[of "\<lparr>st_file = Some ''file'', st_locked = True\<rparr>" demo_env] by simp



text \<open>Credentials put for a target are what resolving that target returns, with the
  fingerprints that validation computed, and a target disabled before is active again. The
  hypotheses are those of the codecs and the cipher, and that the stored file fits the size a
  reader accepts.\<close>

theorem put_then_resolve:
  assumes "Put env (Some t) cs st = (None, st')" "codecs_ok env" "\<not> uses_key_file t"
    and "\<not> le_fails env LsReadFile" "\<not> le_fails env LsIrregular" "\<And>b. st_file st' = Some b \<Longrightarrow> length b \<le> maxStoreSize"
  shows "\<exists>cs'. validateCredentials env cs = Inr cs' \<and> Resolve env (Some t) st' = Inr cs'"
proof -
  obtain cid cs' where p: "Identity env (Some t) = Inr cid" "validateCredentials env cs = Inr cs'"
    and u: "Store_Update env (\<lambda>d. Inr (put cid cs' d)) st = (None, st')"
    using assms(1) by (auto simp: Put_def prepareCredentials_def bind_result_eq_Inr split: sum.splits)
  obtain d d' where "Inr (put cid cs' d) = (Inr d' :: ls_error + Data)" "Read env st' = Inr d'"
    by (rule Store_Update_reads[OF u assms(2) _ assms(6) assms(4,5)]) (auto simp: put_def)
  then have "Read env st' = Inr (put cid cs' d)" by simp
  moreover have "resolve env cid t (put cid cs' d) = Inr cs'"
    by (rule resolve_connection) (use validateCredentials_nonempty[OF p(2)] assms(3) in
      \<open>simp_all add: put_def gm.lookup_update gm.lookup_delete\<close>)
  ultimately show ?thesis using p by (simp add: Resolve_def)
qed

theorem put_then_resolve_witness:
  "\<exists>cs'. Resolve demo_env (Some demo_target) \<lparr>st_file = Some ''file'', st_locked = False\<rparr> = Inr cs'"
  using put_then_resolve[OF demo_put demo_codecs]
  by (simp add: uses_key_file_def demo_target_def AuthPassword_def AuthKey_def demo_env_def maxStoreSize_def) blast

text \<open>An accepted deletion blocks authentication but keeps the recovery material: after
  a target is disabled, resolving it reports it inactive, whatever credentials or
  key files there are, while its stored credentials are still in the store.\<close>

theorem disable_blocks_but_keeps:
  assumes "Disable env (Some t) st = (None, st')" "codecs_ok env"
    and "\<not> le_fails env LsReadFile" "\<not> le_fails env LsIrregular" "\<And>b. st_file st' = Some b \<Longrightarrow> length b \<le> maxStoreSize"
  shows "Resolve env (Some t) st' = Inl ErrInactive \<and>
    (\<exists>d d'. ls_load env st = Inr d \<and> Read env st' = Inr d' \<and> da_Connections d' = da_Connections d \<and>
       da_KeyFiles d' = da_KeyFiles d \<and> da_Secrets d' = da_Secrets d)"
proof -
  obtain cid where p: "Identity env (Some t) = Inr cid"
    and u: "Store_Update env (\<lambda>d. Inr (disable cid d)) st = (None, st')"
    using assms(1) by (auto simp: Disable_def split: sum.splits)
  obtain d d' where d: "ls_load env st = Inr d" "Inr (disable cid d) = (Inr d' :: ls_error + Data)" "Read env st' = Inr d'"
    by (rule Store_Update_reads[OF u assms(2) _ assms(5) assms(3,4)]) (auto simp: disable_def)
  then have "resolve env cid t d' = Inl ErrInactive"
    by (auto simp: resolve_def disable_def gm.lookup_update)
  then show ?thesis using p d by (auto simp: Resolve_def disable_def)
qed

theorem disable_blocks_but_keeps_witness:
  "Resolve demo_env2 (Some demo_target) \<lparr>st_file = Some ''file'', st_locked = False\<rparr> = Inl ErrInactive"
proof -
  have "\<not> le_fails demo_env2 LsReadFile" "\<not> le_fails demo_env2 LsIrregular" by (simp_all add: demo_env2_def demo_env_def)
  from disable_blocks_but_keeps[OF demo_disable demo_codecs2 this] show ?thesis by (simp add: maxStoreSize_def)
qed

end
