(* ===== verification/Cloud_Data.thy ===== *)
theory Cloud_Data
  imports Config_Model Ssh_Key
begin

text \<open>
  \<open>internal/cloudsync\<close>: the decrypted vault document (\<open>data.go\<close>), its three-way merge
  (\<open>data.go\<close>, \<open>merge_additions.go\<close>), the observational activity merged beside it
  (\<open>activity.go\<close>) and entries for devices (\<open>device_entry.go\<close>).

  The digest of the package is a parameter (\<open>digests\<close>), and so are the files and the key
  parser that an import consults. Structural equality of Go values is equality here; a nil
  and an empty slice or map are the same value. Loops over maps whose iterations touch
  only their own key run over the sorted keys; the one loop whose result could depend on the
  order, over the sources of an entry, takes the order from a function argument \<open>vorder\<close>.
\<close>

section \<open>Data\<close>

record cl_Credential =
  cc_Kind :: string
  cc_Key :: bytes
  cc_Passphrase :: bytes
  cc_Password :: string
  cc_Fingerprint :: string

record Source =
  so_Device :: string
  so_Alias :: string
  so_Server :: Server

record cl_Entry =
  et_ID :: string
  et_Aliases :: "string list"
  et_Server :: Server
  et_CredentialIDs :: "string list"
  et_Sources :: "(string, Source) gomap"

record Conflict =
  cn_Local :: "cl_Entry option"
  cn_Remote :: "cl_Entry option"

record Activity =
  ay_Hardware :: "Snapshot option"
  ay_SSHMStatus :: string
  ay_SSHMVersion :: string
  ay_SSHMCheckedAt :: int
  ay_SSHCheckedAt :: int
  ay_SSHError :: string
  ay_Status :: string
  ay_Platform :: string
  ay_LastConnected :: int
  ay_LastSeen :: int
  ay_CheckedAt :: int

definition zero_activity :: Activity where
  "zero_activity = \<lparr>ay_Hardware = None, ay_SSHMStatus = [], ay_SSHMVersion = [], ay_SSHMCheckedAt = 0,
     ay_SSHCheckedAt = 0, ay_SSHError = [], ay_Status = [], ay_Platform = [], ay_LastConnected = 0,
     ay_LastSeen = 0, ay_CheckedAt = 0\<rparr>"

record cl_Data =
  vd_Hardware :: "(string, Snapshot option) gomap"
  vd_Activity :: "(string, Activity) gomap"
  vd_Version :: int
  vd_Entries :: "(string, cl_Entry) gomap"
  vd_Credentials :: "(string, cl_Credential) gomap"
  vd_Deleted :: "(string, bool) gomap"
  vd_Conflicts :: "(string, Conflict) gomap"

definition NewData :: cl_Data where
  "NewData = \<lparr>vd_Hardware = gm_empty, vd_Activity = gm_empty, vd_Version = 1, vd_Entries = gm_empty,
     vd_Credentials = gm_empty, vd_Deleted = gm_empty, vd_Conflicts = gm_empty\<rparr>"

type_synonym entry_key = "string \<times> int \<times> (string \<times> string \<times> string \<times> string \<times> string) \<times> string list"

record digests =
  dg_entry :: "entry_key \<Rightarrow> string"
  dg_pair :: "string \<Rightarrow> string \<Rightarrow> string"
  dg_source :: "Source \<Rightarrow> string"
  dg_credential :: "cl_Credential \<Rightarrow> string"

section \<open>Validation\<close>

text \<open>\<open>^[a-zA-Z0-9_-]{8,100}$\<close> as a test on the whole string.\<close>

definition validID :: "string \<Rightarrow> bool" where
  "validID s \<longleftrightarrow> 8 \<le> length s \<and> length s \<le> 100 \<and>
    list_all (\<lambda>c. is_lower c \<or> is_upper c \<or> is_digit c \<or> c \<in> set ''_-'') s"

datatype vault_error = VaultFormat | TooManyActivity | TooManyDevices | DeviceHardware | ServerHardware
  | InvalidActivity | ActivityPlatform | InvalidEntry | VaultKeyPath | LoginIdentity | VaultMetadata
  | VaultAlias | MissingCredential | CredentialShape | CredentialConflict | EntryNotFound | NotPasswordAuth
  | ResolveFirst | ManyVariants | ConflictNotFound | ChooseSide | NativeDevice | DeviceName
  | DeviceConflict | DeviceMetadata metadata_error | KeyMissing string | KeyUnreadable string | KeyInvalid string
  | RecoveryUnreadable string | NoHomeDir

definition activity_ok :: "int \<Rightarrow> string \<Rightarrow> Activity \<Rightarrow> vault_error option" where
  "activity_ok now i a =
    (if \<not> Valid now (ay_Hardware a) then Some ServerHardware
     else if \<not> validID i \<or> ay_LastConnected a < 0 \<or> ay_LastSeen a < 0 \<or> ay_CheckedAt a < 0 \<or> ay_SSHCheckedAt a < 0 \<or>
       64 < length (ay_SSHError a) \<or> 16 < length (ay_Status a) \<or> ay_SSHMCheckedAt a < 0 \<or>
       16 < length (ay_SSHMStatus a) \<or> 100 < length (ay_SSHMVersion a) then Some InvalidActivity
     else if NormalizePlatform (ay_Platform a) = None then Some ActivityPlatform
     else None)"

definition alias_ok :: "string \<Rightarrow> bool" where
  "alias_ok a \<longleftrightarrow> TrimSpace a \<noteq> [] \<and> length a \<le> 256 \<and> \<not> ContainsAny a (NUL_CR_LF @ [CHR 0x1B])"

definition entry_ok :: "string list \<Rightarrow> (string, cl_Credential) gomap \<Rightarrow> string \<Rightarrow> cl_Entry \<Rightarrow> vault_error option" where
  "entry_ok ord creds i e =
    (let s = et_Server e in
     if \<not> validID i \<or> i \<noteq> et_ID e \<or> et_Aliases e = [] \<or> 200 < length (et_Aliases e) \<or> 200 < length (et_CredentialIDs e) \<or>
        200 < gm_len (et_Sources e) \<or> ContainsAny (sv_Host s @ sv_User s) NUL_CR_LF \<or> sv_Host s = [] \<or>
        sv_Port s < 1 \<or> 65535 < sv_Port s then Some InvalidEntry
     else if sv_KeyPath s \<noteq> [] then Some VaultKeyPath
     else if TrimSpace (sv_User s) = [] \<or> sv_Auth s \<notin> {AuthKey, AuthAgent, AuthPassword} then Some LoginIdentity
     else if ValidateServerMetadataBounds ord (sv_Label s) (sv_Description s) (sv_Tags s) (sv_Group s) (sv_Notes s) \<noteq> None
     then Some VaultMetadata
     else if \<not> list_all alias_ok (et_Aliases e) then Some VaultAlias
     else if \<not> list_all (\<lambda>c. gm_lookup creds c \<noteq> None) (et_CredentialIDs e) then Some MissingCredential
     else None)"

definition credential_ok :: "string \<Rightarrow> cl_Credential \<Rightarrow> vault_error option" where
  "credential_ok i c =
    (if \<not> validID i \<or> cc_Kind c \<noteq> ''key'' \<and> cc_Kind c \<noteq> ''password'' \<or> 1024 * 1024 < length (cc_Key c) \<or>
        65536 < length (cc_Password c) \<or> 65536 < length (cc_Passphrase c) then Some CredentialShape
     else None)"

definition check_map :: "(string \<Rightarrow> 'v \<Rightarrow> vault_error option) \<Rightarrow> (string, 'v) gomap \<Rightarrow> vault_error option" where
  "check_map f m = first_error (\<lambda>i. case gm_lookup m i of None \<Rightarrow> None | Some v \<Rightarrow> f i v) (gm_keys m)"

definition metadata_names :: "string list" where "metadata_names = [''label'', ''group'', ''notes'']"

definition Data_Validate :: "int \<Rightarrow> cl_Data \<Rightarrow> vault_error option" where
  "Data_Validate now d =
    (if vd_Version d \<noteq> 1 \<or> 2000 < gm_len (vd_Entries d) \<or> 4000 < gm_len (vd_Credentials d) then Some VaultFormat
     else if 2000 < gm_len (vd_Activity d) then Some TooManyActivity
     else if 256 < gm_len (vd_Hardware d) then Some TooManyDevices
     else case check_map (\<lambda>i h. if \<not> validID i \<or> \<not> Valid now h then Some DeviceHardware else None) (vd_Hardware d) of
       Some e \<Rightarrow> Some e | None \<Rightarrow>
     case check_map (activity_ok now) (vd_Activity d) of Some e \<Rightarrow> Some e | None \<Rightarrow>
     case check_map (entry_ok metadata_names (vd_Credentials d)) (vd_Entries d) of Some e \<Rightarrow> Some e | None \<Rightarrow>
     check_map credential_ok (vd_Credentials d))"

section \<open>Entries\<close>

definition cleanServer :: "Server \<Rightarrow> Server" where
  "cleanServer s = s\<lparr>sv_CloudEntry := [], sv_CloudVault := [], sv_Hardware := None, sv_KeyPath := [], sv_LastUsed := 0,
     sv_LastSeen := 0, sv_LastChecked := 0, sv_LastStatus := [], sv_LastSSHChecked := 0, sv_LastSSHError := [],
     sv_Platform := [], sv_SSHMStatus := [], sv_SSHMVersion := [], sv_SSHMCheckedAt := 0, sv_IdentityChangedAt := 0,
     sv_CreatedAt := 0, sv_Port := (if sv_Port s = 0 then 22 else sv_Port s), sv_Host := ToLower (TrimSpace (sv_Host s))\<rparr>"

definition EntryID :: "digests \<Rightarrow> Server \<Rightarrow> string" where
  "EntryID dg s = dg_entry dg (sv_Host s, sv_Port s,
     (sv_User s, sv_Auth s, sv_ProxyJump s, sv_ProxyCommand s, sv_Proxy s), sv_Forwards s)"

definition union :: "string list \<Rightarrow> string list \<Rightarrow> string list" where
  "union a b = sort (remdups (a @ b))"

definition SetPassword :: "digests \<Rightarrow> string \<Rightarrow> string \<Rightarrow> cl_Data \<Rightarrow> vault_error + cl_Data" where
  "SetPassword dg i password d =
    (case gm_lookup (vd_Entries d) i of None \<Rightarrow> Inl EntryNotFound | Some e \<Rightarrow>
      if sv_Auth (et_Server e) \<noteq> AuthPassword then Inl NotPasswordAuth
      else let c = \<lparr>cc_Kind = ''password'', cc_Key = [], cc_Passphrase = [], cc_Password = password, cc_Fingerprint = []\<rparr>;
               cid = dg_credential dg c in
        Inr (d\<lparr>vd_Credentials := gm_update cid c (vd_Credentials d),
               vd_Entries := gm_update i (e\<lparr>et_CredentialIDs := [cid]\<rparr>) (vd_Entries d)\<rparr>))"

text \<open>\<open>ord\<close> is the order in which the entries are visited.\<close>

definition Find :: "string list \<Rightarrow> string \<Rightarrow> cl_Data \<Rightarrow> vault_error + cl_Entry" where
  "Find ord alias d =
    (case gm_lookup (vd_Entries d) alias of
       Some e \<Rightarrow> if gm_lookup (vd_Conflicts d) alias \<noteq> None then Inl ResolveFirst else Inr e
     | None \<Rightarrow>
         (case List.map_filter (\<lambda>i. case gm_lookup (vd_Entries d) i of None \<Rightarrow> None
                  | Some e \<Rightarrow> if alias \<in> set (et_Aliases e) then Some e else None) ord of
            [] \<Rightarrow> Inl EntryNotFound
          | [e] \<Rightarrow> if gm_lookup (vd_Conflicts d) (et_ID e) \<noteq> None then Inl ResolveFirst else Inr e
          | _ \<Rightarrow> Inl ManyVariants))"

definition Data_Remove :: "string \<Rightarrow> cl_Data \<Rightarrow> cl_Data" where
  "Data_Remove i d = d\<lparr>vd_Entries := gm_delete i (vd_Entries d), vd_Activity := gm_delete i (vd_Activity d),
     vd_Conflicts := gm_delete i (vd_Conflicts d), vd_Deleted := gm_update i True (vd_Deleted d)\<rparr>"

definition Data_Resolve :: "string \<Rightarrow> string \<Rightarrow> cl_Data \<Rightarrow> vault_error + cl_Data" where
  "Data_Resolve i side d =
    (case gm_lookup (vd_Conflicts d) i of None \<Rightarrow> Inl ConflictNotFound | Some c \<Rightarrow>
      if side \<noteq> ''local'' \<and> side \<noteq> ''remote'' then Inl ChooseSide
      else case (if side = ''local'' then cn_Local c else cn_Remote c) of
        None \<Rightarrow> Inr (Data_Remove i d)
      | Some e \<Rightarrow> Inr (d\<lparr>vd_Entries := gm_update i e (vd_Entries d), vd_Deleted := gm_delete i (vd_Deleted d),
                        vd_Conflicts := gm_delete i (vd_Conflicts d)\<rparr>))"

section \<open>Activity\<close>

text \<open>Milliseconds since 1970 of a time in nanoseconds since year 1; \<open>now\<close> in nanoseconds too.\<close>

definition unix_epoch :: gotime where "unix_epoch = 62135596800 * 1000000000"

definition UnixMilli :: "gotime \<Rightarrow> int" where "UnixMilli t = (t - unix_epoch) div 1000000"

definition activityTime :: "gotime \<Rightarrow> gotime \<Rightarrow> int" where
  "activityTime now t = (if UnixMilli t \<le> 0 \<or> now + 24 * 60 * 60 * 1000000000 < t then 0 else UnixMilli t)"

text \<open>The four conditional assignments of \<open>mergeActivity\<close>, in the order of the code.\<close>

definition merge_platform :: "Activity \<Rightarrow> Activity \<Rightarrow> Activity" where
  "merge_platform b a =
    (if ay_Platform b \<noteq> [] \<and> (ay_Platform a = [] \<or> ay_CheckedAt a < ay_CheckedAt b \<or>
        ay_CheckedAt b = ay_CheckedAt a \<and> ay_Platform a < ay_Platform b)
     then a\<lparr>ay_Platform := ay_Platform b\<rparr> else a)"

definition merge_ssh :: "Activity \<Rightarrow> Activity \<Rightarrow> Activity" where
  "merge_ssh b a =
    (if ay_SSHCheckedAt a < ay_SSHCheckedAt b \<or> ay_SSHCheckedAt b = ay_SSHCheckedAt a \<and> ay_SSHError a < ay_SSHError b
     then a\<lparr>ay_SSHCheckedAt := ay_SSHCheckedAt b, ay_SSHError := ay_SSHError b\<rparr> else a)"

definition merge_status :: "Activity \<Rightarrow> Activity \<Rightarrow> Activity" where
  "merge_status b a =
    (if ay_CheckedAt a < ay_CheckedAt b \<or> ay_CheckedAt b = ay_CheckedAt a \<and> ay_Status a < ay_Status b
     then a\<lparr>ay_Status := ay_Status b\<rparr> else a)"

definition merge_sshm :: "Activity \<Rightarrow> Activity \<Rightarrow> Activity" where
  "merge_sshm b a =
    (if ay_SSHMCheckedAt a < ay_SSHMCheckedAt b \<or>
        ay_SSHMCheckedAt b = ay_SSHMCheckedAt a \<and> ay_SSHMVersion a < ay_SSHMVersion b
     then a\<lparr>ay_SSHMCheckedAt := ay_SSHMCheckedAt b, ay_SSHMStatus := ay_SSHMStatus b, ay_SSHMVersion := ay_SSHMVersion b\<rparr>
     else a)"

definition mergeActivity :: "Activity \<Rightarrow> Activity \<Rightarrow> Activity" where
  "mergeActivity a0 b =
    (let a = a0\<lparr>ay_Hardware := Newer (ay_Hardware a0) (ay_Hardware b)\<rparr>;
         a = merge_sshm b (merge_status b (merge_ssh b (merge_platform b a)))
     in a\<lparr>ay_LastConnected := max (ay_LastConnected a) (ay_LastConnected b),
          ay_LastSeen := max (ay_LastSeen a) (ay_LastSeen b), ay_CheckedAt := max (ay_CheckedAt a) (ay_CheckedAt b)\<rparr>)"

definition activity_at :: "(string, Activity) gomap \<Rightarrow> string \<Rightarrow> Activity" where
  "activity_at m i = (case gm_lookup m i of None \<Rightarrow> zero_activity | Some a \<Rightarrow> a)"

definition server_activity :: "gotime \<Rightarrow> Server \<Rightarrow> Activity" where
  "server_activity now s =
    \<lparr>ay_Hardware = sv_Hardware s, ay_SSHMStatus = sv_SSHMStatus s, ay_SSHMVersion = sv_SSHMVersion s,
     ay_SSHMCheckedAt = activityTime now (sv_SSHMCheckedAt s), ay_SSHCheckedAt = activityTime now (sv_LastSSHChecked s),
     ay_SSHError = sv_LastSSHError s, ay_Status = sv_LastStatus s, ay_Platform = sv_Platform s,
     ay_LastConnected = activityTime now (sv_LastUsed s), ay_LastSeen = activityTime now (sv_LastSeen s),
     ay_CheckedAt = activityTime now (sv_LastChecked s)\<rparr>"

definition import_activity_step :: "digests \<Rightarrow> gotime \<Rightarrow> server_map \<Rightarrow> string \<Rightarrow> cl_Data \<times> bool \<Rightarrow> cl_Data \<times> bool" where
  "import_activity_step dg now servers alias st =
    (case server_at servers alias of None \<Rightarrow> st | Some s \<Rightarrow>
      let d = fst st;
          i = (if sv_CloudEntry s \<noteq> [] then sv_CloudEntry s else EntryID dg (cleanServer s)) in
      if gm_lookup (vd_Entries d) i = None then st
      else let before = activity_at (vd_Activity d) i;
               after = mergeActivity before (server_activity now s) in
        if before = after then st
        else (d\<lparr>vd_Activity := gm_update i after (vd_Activity d)\<rparr>, True))"

definition ImportActivity :: "digests \<Rightarrow> gotime \<Rightarrow> string list \<Rightarrow> Config \<Rightarrow> cl_Data \<Rightarrow> cl_Data \<times> bool" where
  "ImportActivity dg now ord cfg d = fold (import_activity_step dg now (cf_Servers cfg)) ord (d, False)"

section \<open>Importing a configuration\<close>

record ImportReport =
  rp_Added :: nat
  rp_Existing :: nat
  rp_Keys :: nat
  rp_LockedKeys :: nat
  rp_AgentOnly :: nat
  rp_NeedsPasswords :: nat
  rp_SkippedDeleted :: nat

definition zero_report :: ImportReport where
  "zero_report = \<lparr>rp_Added = 0, rp_Existing = 0, rp_Keys = 0, rp_LockedKeys = 0, rp_AgentOnly = 0,
     rp_NeedsPasswords = 0, rp_SkippedDeleted = 0\<rparr>"

record key_env =
  ke_home :: "string option"
  ke_size :: "string \<Rightarrow> nat option" \<comment> \<open>\<open>os.Stat\<close>: the size, or an error\<close>
  ke_read :: "string \<Rightarrow> bytes option"
  ke_parse :: "bytes \<Rightarrow> parsed_key"
  ke_parse_with :: "bytes \<Rightarrow> bytes \<Rightarrow> parsed_key"

definition key_path :: "key_env \<Rightarrow> string \<Rightarrow> string option" where
  "key_path env path =
    (if HasPrefix path ''~/'' \<or> HasPrefix path [CHR ''~'', CHR 0x5C]
     then map_option (\<lambda>h. path_Join h (drop 2 path)) (ke_home env) else Some path)"

definition recovery_line :: "bytes \<Rightarrow> bytes" where
  "recovery_line recovery =
    (case filter (\<lambda>l. l \<noteq> [] \<and> \<not> HasPrefix l ''#'') (map (\<lambda>l. TrimSuffix l [CHR 0x0D]) (Split_byte recovery newline)) of
       [] \<Rightarrow> [] | l # _ \<Rightarrow> l)"

definition key_credential :: "bytes \<Rightarrow> cl_Credential" where
  "key_credential key = \<lparr>cc_Kind = ''key'', cc_Key = key, cc_Passphrase = [], cc_Password = [], cc_Fingerprint = []\<rparr>"

text \<open>The credential made of a key file, and whether it stayed locked.\<close>

definition import_key :: "key_env \<Rightarrow> string \<Rightarrow> string \<Rightarrow> vault_error + (cl_Credential \<times> bool)" where
  "import_key env alias path0 =
    (case key_path env path0 of None \<Rightarrow> Inl NoHomeDir | Some path \<Rightarrow>
     case ke_size env path of None \<Rightarrow> Inl (KeyMissing alias) | Some n \<Rightarrow>
     if 1024 * 1024 < n then Inl (KeyMissing alias)
     else case ke_read env path of None \<Rightarrow> Inl (KeyUnreadable alias) | Some key \<Rightarrow>
     case ke_parse env key of
       NoKey \<Rightarrow> Inl (KeyInvalid alias)
     | Parsed fp \<Rightarrow> Inr ((key_credential key)\<lparr>cc_Fingerprint := fp\<rparr>, False)
     | NeedsPassphrase fp \<Rightarrow>
         let c = (key_credential key)\<lparr>cc_Fingerprint := (case fp of None \<Rightarrow> [] | Some f \<Rightarrow> f)\<rparr>;
             side = path @ ''.passphrase'' in
         if (case ke_size env side of None \<Rightarrow> False | Some n \<Rightarrow> n < 65536)
         then (case ke_read env side of None \<Rightarrow> Inl (RecoveryUnreadable alias) | Some recovery \<Rightarrow>
           case signer_of (ke_parse_with env key (recovery_line recovery)) of
             None \<Rightarrow> Inr (c, True)
           | Some fp' \<Rightarrow> Inr (c\<lparr>cc_Passphrase := recovery_line recovery, cc_Fingerprint := fp'\<rparr>, False))
         else Inr (c, True))"

definition import_entry :: "digests \<Rightarrow> string \<Rightarrow> string \<Rightarrow> Server \<Rightarrow> cl_Entry option \<Rightarrow> cl_Entry" where
  "import_entry dg device alias s found =
    (let e = (case found of Some e \<Rightarrow> e
              | None \<Rightarrow> \<lparr>et_ID = EntryID dg s, et_Aliases = [], et_Server = s, et_CredentialIDs = [], et_Sources = gm_empty\<rparr>) in
     e\<lparr>et_Aliases := union (et_Aliases e) [alias],
       et_Sources := gm_update (dg_pair dg device alias) \<lparr>so_Device = device, so_Alias = alias, so_Server = s\<rparr> (et_Sources e)\<rparr>)"

text \<open>One iteration of the loop of \<open>Import\<close>. An error ends the import; its callers discard the
  partly updated document, which is not returned here.\<close>

definition import_server :: "key_env \<Rightarrow> digests \<Rightarrow> string \<Rightarrow> bool \<Rightarrow> server_map \<Rightarrow> string \<Rightarrow> ImportReport \<times> cl_Data \<Rightarrow>
    vault_error + (ImportReport \<times> cl_Data)" where
  "import_server env dg device includeKeys servers alias st =
    (let (rep, d) = st in
     case server_at servers alias of None \<Rightarrow> Inr st | Some p \<Rightarrow>
     if sv_CloudEntry p \<noteq> [] then Inr st
     else let s = cleanServer p; i = EntryID dg s in
     if gm_lookup (vd_Deleted d) i = Some True then Inr (rep\<lparr>rp_SkippedDeleted := Suc (rp_SkippedDeleted rep)\<rparr>, d)
     else let found = gm_lookup (vd_Entries d) i;
              rep = (if found = None then rep\<lparr>rp_Added := Suc (rp_Added rep)\<rparr> else rep\<lparr>rp_Existing := Suc (rp_Existing rep)\<rparr>);
              e = import_entry dg device alias s found;
              rep = (if sv_Auth s = AuthAgent then rep\<lparr>rp_AgentOnly := Suc (rp_AgentOnly rep)\<rparr> else rep);
              rep = (if sv_Auth s = AuthPassword then rep\<lparr>rp_NeedsPasswords := Suc (rp_NeedsPasswords rep)\<rparr> else rep) in
     if sv_Auth s = AuthKey \<and> includeKeys
     then (case import_key env alias (sv_KeyPath p) of Inl err \<Rightarrow> Inl err | Inr (c, locked) \<Rightarrow>
       let cid = dg_credential dg c in
       Inr (rep\<lparr>rp_Keys := Suc (rp_Keys rep), rp_LockedKeys := rp_LockedKeys rep + (if locked then 1 else 0)\<rparr>,
            d\<lparr>vd_Credentials := gm_update cid c (vd_Credentials d),
              vd_Entries := gm_update i (e\<lparr>et_CredentialIDs := union (et_CredentialIDs e) [cid]\<rparr>) (vd_Entries d)\<rparr>))
     else Inr (rep, d\<lparr>vd_Entries := gm_update i e (vd_Entries d)\<rparr>))"

fun import_servers :: "key_env \<Rightarrow> digests \<Rightarrow> string \<Rightarrow> bool \<Rightarrow> server_map \<Rightarrow> string list \<Rightarrow> ImportReport \<times> cl_Data \<Rightarrow>
    vault_error + (ImportReport \<times> cl_Data)" where
  "import_servers env dg device includeKeys servers [] st = Inr st"
| "import_servers env dg device includeKeys servers (a # as) st =
    bind_result (import_server env dg device includeKeys servers a st)
      (import_servers env dg device includeKeys servers as)"

text \<open>\<open>ord\<close> is the order of the loop over the servers, \<open>ord'\<close> that of the loop of \<open>ImportActivity\<close>.\<close>

definition Import :: "key_env \<Rightarrow> digests \<Rightarrow> gotime \<Rightarrow> int \<Rightarrow> string list \<Rightarrow> string list \<Rightarrow> Config \<Rightarrow> string \<Rightarrow> bool \<Rightarrow> cl_Data \<Rightarrow>
    vault_error + (ImportReport \<times> cl_Data)" where
  "Import env dg now now_ms ord ord' cfg device includeKeys d =
    bind_result (import_servers env dg device includeKeys (cf_Servers cfg) ord (zero_report, d)) (\<lambda>(rep, d').
      let d'' = fst (ImportActivity dg now ord' cfg d') in
      case Data_Validate now_ms d'' of Some e \<Rightarrow> Inl e | None \<Rightarrow> Inr (rep, d''))"

section \<open>Merging\<close>

definition compatibleEntries :: "cl_Entry option \<Rightarrow> cl_Entry option \<Rightarrow> bool" where
  "compatibleEntries ao bo =
    (case (ao, bo) of
       (Some a, Some b) \<Rightarrow> et_ID a = et_ID b \<and> cleanServer (et_Server a) = cleanServer (et_Server b)
     | _ \<Rightarrow> False)"

definition add_source :: "digests \<Rightarrow> (string, Source) gomap \<Rightarrow> string \<Rightarrow> (string, Source) gomap \<Rightarrow> (string, Source) gomap" where
  "add_source dg from k out =
    (case gm_lookup from k of None \<Rightarrow> out | Some v \<Rightarrow>
      (case gm_lookup out k of
         Some existing \<Rightarrow> if existing \<noteq> v then gm_update (dg_pair dg k (dg_source dg v)) v out else gm_update k v out
       | None \<Rightarrow> gm_update k v out))"

type_synonym visit_order = "(string, Source) gomap \<Rightarrow> string list"

definition mergeAdditions :: "digests \<Rightarrow> visit_order \<Rightarrow> cl_Entry \<Rightarrow> cl_Entry \<Rightarrow> cl_Entry" where
  "mergeAdditions dg vorder a b = b\<lparr>
     et_Aliases := union (et_Aliases a) (et_Aliases b),
     et_CredentialIDs := union (et_CredentialIDs a) (et_CredentialIDs b),
     et_Sources := fold (add_source dg (et_Sources a)) (vorder (et_Sources a)) (et_Sources b)\<rparr>"

definition put_all :: "('k::linorder, 'v) gomap \<Rightarrow> ('k, 'v) gomap \<Rightarrow> ('k, 'v) gomap" where
  "put_all from out = fold (\<lambda>k m. case gm_lookup from k of None \<Rightarrow> m | Some v \<Rightarrow> gm_update k v m) (gm_keys from) out"

definition same_identity :: "digests \<Rightarrow> cl_Entry \<Rightarrow> cl_Entry \<Rightarrow> cl_Entry" where
  "same_identity dg l r = r\<lparr>
     et_Aliases := union (et_Aliases l) (et_Aliases r),
     et_CredentialIDs := union (et_CredentialIDs l) (et_CredentialIDs r),
     et_Sources := put_all (et_Sources l) (put_all (et_Sources r) gm_empty)\<rparr>"

text \<open>The switch over one entry: what is selected, and whether the edits conflict.\<close>

definition select_entry :: "digests \<Rightarrow> visit_order \<Rightarrow> cl_Entry option \<Rightarrow> cl_Entry option \<Rightarrow> cl_Entry option \<Rightarrow> cl_Entry option \<times> bool" where
  "select_entry dg vorder b l r =
    (if l = r then (l, False)
     else if b = l then (r, False)
     else if b = r then (l, False)
     else case (l, r) of
       (Some le, Some re) \<Rightarrow>
         if compatibleEntries l r then (Some (mergeAdditions dg vorder le re), False)
         else if b = None \<and> EntryID dg (et_Server le) = EntryID dg (et_Server re) then (Some (same_identity dg le re), False)
         else (r, True)
     | _ \<Rightarrow> (r, True))"

definition merge_hardware :: "(string, Snapshot option) gomap \<Rightarrow> string \<Rightarrow> (string, Snapshot option) gomap \<Rightarrow> (string, Snapshot option) gomap" where
  "merge_hardware src i out =
    (case gm_lookup src i of None \<Rightarrow> out
     | Some h \<Rightarrow> gm_update i (Newer (case gm_lookup out i of None \<Rightarrow> None | Some o' \<Rightarrow> o') h) out)"

definition merge_activity :: "(string, Activity) gomap \<Rightarrow> string \<Rightarrow> (string, Activity) gomap \<Rightarrow> (string, Activity) gomap" where
  "merge_activity src i out =
    (case gm_lookup src i of None \<Rightarrow> out | Some a \<Rightarrow> gm_update i (mergeActivity (activity_at out i) a) out)"

fun merge_credentials :: "(string, cl_Credential) gomap \<Rightarrow> string list \<Rightarrow> (string, cl_Credential) gomap \<Rightarrow> (string, cl_Credential) gomap option" where
  "merge_credentials src [] out = Some out"
| "merge_credentials src (i # is) out =
    (case gm_lookup src i of None \<Rightarrow> merge_credentials src is out
     | Some c \<Rightarrow>
         (case gm_lookup out i of
            Some old \<Rightarrow> if old \<noteq> c then None else merge_credentials src is (gm_update i c out)
          | None \<Rightarrow> merge_credentials src is (gm_update i c out)))"

definition is_deleted :: "cl_Data \<Rightarrow> string \<Rightarrow> bool" where
  "is_deleted d i \<longleftrightarrow> gm_lookup (vd_Deleted d) i = Some True"

definition merge_deleted :: "cl_Data \<Rightarrow> cl_Data \<Rightarrow> cl_Data \<Rightarrow> string \<Rightarrow> (string, bool) gomap \<Rightarrow> (string, bool) gomap" where
  "merge_deleted base local remote i out =
    (let b = is_deleted base i; l = is_deleted local i; r = is_deleted remote i;
         chosen = (if l = r \<or> r = b then l else r) in
     if chosen then gm_update i True out else out)"

definition merge_conflict :: "cl_Data \<Rightarrow> cl_Data \<Rightarrow> cl_Data \<Rightarrow> string \<Rightarrow> (string, Conflict) gomap \<Rightarrow> (string, Conflict) gomap" where
  "merge_conflict base local remote i out =
    (let b = gm_lookup (vd_Conflicts base) i; l = gm_lookup (vd_Conflicts local) i; r = gm_lookup (vd_Conflicts remote) i in
     case (if l = r \<or> b = r then l else r) of None \<Rightarrow> out | Some c \<Rightarrow> gm_update i c out)"

definition merge_entry :: "digests \<Rightarrow> visit_order \<Rightarrow> cl_Data \<Rightarrow> cl_Data \<Rightarrow> cl_Data \<Rightarrow> string \<Rightarrow> cl_Data \<Rightarrow> cl_Data" where
  "merge_entry dg vorder base local remote i out =
    (let b = gm_lookup (vd_Entries base) i; l = gm_lookup (vd_Entries local) i; r = gm_lookup (vd_Entries remote) i;
         (selected, clash) = select_entry dg vorder b l r;
         conflict = \<lparr>cn_Local = l, cn_Remote = r\<rparr>;
         out = (if clash then out\<lparr>vd_Conflicts := gm_update i conflict (vd_Conflicts out)\<rparr> else out) in
     if is_deleted out i \<and> selected \<noteq> None
     then out\<lparr>vd_Conflicts := gm_update i conflict (vd_Conflicts out)\<rparr>
     else case selected of None \<Rightarrow> out | Some e \<Rightarrow> out\<lparr>vd_Entries := gm_update i e (vd_Entries out)\<rparr>)"

definition repair_one :: "digests \<Rightarrow> visit_order \<Rightarrow> string \<Rightarrow> cl_Data \<times> nat \<Rightarrow> cl_Data \<times> nat" where
  "repair_one dg vorder i st =
    (let d = fst st in
     case (gm_lookup (vd_Conflicts d) i, gm_lookup (vd_Entries d) i) of
       (Some c, Some current) \<Rightarrow>
         if is_deleted d i \<or> \<not> compatibleEntries (cn_Local c) (cn_Remote c) \<or> \<not> compatibleEntries (cn_Local c) (Some current)
         then st
         else (case (cn_Local c, cn_Remote c) of
             (Some l, Some r) \<Rightarrow>
               (d\<lparr>vd_Entries := gm_update i (mergeAdditions dg vorder (mergeAdditions dg vorder l r) current) (vd_Entries d),
                  vd_Conflicts := gm_delete i (vd_Conflicts d)\<rparr>, Suc (snd st))
           | _ \<Rightarrow> st)
     | _ \<Rightarrow> st)"

definition RepairCompatibleConflicts :: "digests \<Rightarrow> visit_order \<Rightarrow> cl_Data \<Rightarrow> cl_Data \<times> nat" where
  "RepairCompatibleConflicts dg vorder d = fold (repair_one dg vorder) (gm_keys (vd_Conflicts d)) (d, 0)"

definition all_keys :: "('k::linorder, 'v) gomap list \<Rightarrow> 'k list" where
  "all_keys ms = sort (remdups (concat (map gm_keys ms)))"

definition merge_start :: "cl_Data \<Rightarrow> cl_Data \<Rightarrow> cl_Data \<Rightarrow> (string, cl_Credential) gomap \<Rightarrow> cl_Data" where
  "merge_start base local remote creds = NewData\<lparr>
     vd_Hardware := fold (merge_hardware (vd_Hardware local)) (gm_keys (vd_Hardware local))
       (fold (merge_hardware (vd_Hardware remote)) (gm_keys (vd_Hardware remote)) gm_empty),
     vd_Activity := fold (merge_activity (vd_Activity local)) (gm_keys (vd_Activity local))
       (fold (merge_activity (vd_Activity remote)) (gm_keys (vd_Activity remote)) gm_empty),
     vd_Credentials := creds,
     vd_Deleted := fold (merge_deleted base local remote)
       (all_keys [vd_Deleted base, vd_Deleted local, vd_Deleted remote]) gm_empty,
     vd_Conflicts := fold (merge_conflict base local remote)
       (all_keys [vd_Conflicts base, vd_Conflicts local, vd_Conflicts remote]) gm_empty\<rparr>"

definition Merge :: "digests \<Rightarrow> visit_order \<Rightarrow> int \<Rightarrow> cl_Data \<Rightarrow> cl_Data \<Rightarrow> cl_Data \<Rightarrow> vault_error + cl_Data" where
  "Merge dg vorder now base local remote =
    (case (case merge_credentials (vd_Credentials remote) (gm_keys (vd_Credentials remote)) gm_empty of
             None \<Rightarrow> None
           | Some c \<Rightarrow> merge_credentials (vd_Credentials local) (gm_keys (vd_Credentials local)) c) of
       None \<Rightarrow> Inl CredentialConflict
     | Some creds \<Rightarrow>
         (let out = fold (merge_entry dg vorder base local remote)
                (all_keys [vd_Entries base, vd_Entries local, vd_Entries remote]) (merge_start base local remote creds);
              out = out\<lparr>vd_Activity := gm_filter (\<lambda>i _. gm_lookup (vd_Entries out) i \<noteq> None) (vd_Activity out)\<rparr>;
              out = fst (RepairCompatibleConflicts dg vorder out)
          in case Data_Validate now out of Some e \<Rightarrow> Inl e | None \<Rightarrow> Inr out))"

section \<open>Devices\<close>

record Device =
  dv_ID :: string
  dv_Kind :: string
  dv_Label :: string
  dv_Group :: string
  dv_Tags :: "string list"
  dv_Platform :: string
  dv_LastSeen :: int
  dv_Version :: string

definition DeviceServerID :: "Server \<Rightarrow> string" where
  "DeviceServerID s = (if sv_Auth s \<noteq> AuthAgent then [] else DeviceConnectionID (Some s))"

definition device_name :: "Device \<Rightarrow> string \<Rightarrow> string" where
  "device_name device name =
    (let n = TrimSpace name in if n \<noteq> [] then n else if dv_Label device \<noteq> [] then dv_Label device else dv_ID device)"

definition device_server :: "Device \<Rightarrow> string \<Rightarrow> string \<Rightarrow> Server" where
  "device_server device name description = zero_server\<lparr>
     sv_Host := device_prefix @ hex_encode (dv_ID device) @ device_suffix, sv_Port := 22, sv_User := ''sshm-client'',
     sv_Auth := AuthAgent, sv_Label := name, sv_Description := description, sv_Group := dv_Group device, sv_Tags := dv_Tags device\<rparr>"

definition AddDevice :: "digests \<Rightarrow> string list \<Rightarrow> Device \<Rightarrow> string \<Rightarrow> string \<Rightarrow> cl_Data \<Rightarrow> vault_error + (cl_Data \<times> cl_Entry)" where
  "AddDevice dg ord device name0 description d =
    (if \<not> validID (dv_ID device) \<or> dv_Kind device = ''browser'' then Inl NativeDevice
     else let name = device_name device name0 in
     if 100 < length name \<or> ContainsAny name (NUL_CR_LF @ [CHR 0x1B]) then Inl DeviceName
     else let s = device_server device name description in
     case ValidateServerMetadataBounds ord (sv_Label s) (sv_Description s) (sv_Tags s) (sv_Group s) (sv_Notes s) of
       Some e \<Rightarrow> Inl (DeviceMetadata e)
     | None \<Rightarrow>
       let i = EntryID dg s in
       if gm_lookup (vd_Conflicts d) i \<noteq> None then Inl DeviceConflict
       else let found = gm_lookup (vd_Entries d) i;
                e0 = (case found of Some e \<Rightarrow> e
                      | None \<Rightarrow> \<lparr>et_ID = i, et_Aliases = [], et_Server = s, et_CredentialIDs = [], et_Sources = gm_empty\<rparr>);
                e1 = e0\<lparr>et_Aliases := [name], et_Server := (et_Server e0)\<lparr>sv_Label := name\<rparr>\<rparr>;
                e = (if found = None \<or> description \<noteq> []
                     then e1\<lparr>et_Server := (et_Server e1)\<lparr>sv_Description := description\<rparr>\<rparr> else e1);
                a = activity_at (vd_Activity d) i;
                a' = a\<lparr>ay_Platform := (case NormalizePlatform (dv_Platform device) of None \<Rightarrow> [] | Some p \<Rightarrow> p),
                       ay_LastSeen := max (ay_LastSeen a) (dv_LastSeen device), ay_SSHMStatus := ''installed'',
                       ay_SSHMVersion := dv_Version device, ay_SSHMCheckedAt := max (ay_SSHMCheckedAt a) (dv_LastSeen device)\<rparr>
            in Inr (d\<lparr>vd_Entries := gm_update i e (vd_Entries d), vd_Deleted := gm_delete i (vd_Deleted d),
                      vd_Activity := gm_update i a' (vd_Activity d)\<rparr>, e))"

section \<open>Laws\<close>

lemma in_all_keys: "i \<in> set (all_keys ms) \<longleftrightarrow> (\<exists>m \<in> set ms. gm_lookup m i \<noteq> None)"
  by (auto simp: all_keys_def in_gm_keys)

lemma distinct_all_keys [simp]: "distinct (all_keys ms)"
  by (simp add: all_keys_def)

lemma set_union [simp]: "set (union a b) = set a \<union> set b"
  by (simp add: union_def)

subsection \<open>The three-way choices\<close>

definition three_way :: "'a \<Rightarrow> 'a \<Rightarrow> 'a \<Rightarrow> 'a" where
  "three_way b l r = (if l = r \<or> r = b then l else r)"

lemma fold_put_if:
  assumes "distinct ks" "\<And>k. k \<notin> set ks \<Longrightarrow> g k = None"
  shows "gm_lookup (fold (\<lambda>k m. case g k of None \<Rightarrow> m | Some v \<Rightarrow> gm_update k v m) ks gm_empty) i = g i"
  by (subst gm.lookup_fold_pointwise[where g = "\<lambda>k old. case g k of None \<Rightarrow> old | Some v \<Rightarrow> Some v"])
    (use assms in \<open>auto split: option.splits\<close>)

lemma merge_start_deleted:
  "gm_lookup (vd_Deleted (merge_start base local remote creds)) i =
     (if three_way (is_deleted base i) (is_deleted local i) (is_deleted remote i) then Some True else None)"
proof -
  let ?g = "\<lambda>k. if three_way (is_deleted base k) (is_deleted local k) (is_deleted remote k) then Some True else None"
  have "merge_deleted base local remote = (\<lambda>k m. case ?g k of None \<Rightarrow> m | Some v \<Rightarrow> gm_update k v m)"
    by (auto simp: fun_eq_iff merge_deleted_def three_way_def Let_def)
  moreover have "?g k = None" if "k \<notin> set (all_keys [vd_Deleted base, vd_Deleted local, vd_Deleted remote])" for k
    using that by (auto simp: in_all_keys three_way_def is_deleted_def)
  ultimately show ?thesis by (simp add: merge_start_def NewData_def fold_put_if)
qed

lemma merge_start_conflicts:
  "gm_lookup (vd_Conflicts (merge_start base local remote creds)) i =
     three_way (gm_lookup (vd_Conflicts base) i) (gm_lookup (vd_Conflicts local) i) (gm_lookup (vd_Conflicts remote) i)"
proof -
  let ?g = "\<lambda>k. three_way (gm_lookup (vd_Conflicts base) k) (gm_lookup (vd_Conflicts local) k) (gm_lookup (vd_Conflicts remote) k)"
  have "merge_conflict base local remote = (\<lambda>k m. case ?g k of None \<Rightarrow> m | Some v \<Rightarrow> gm_update k v m)"
    by (auto simp: fun_eq_iff merge_conflict_def three_way_def Let_def)
  moreover have "?g k = None" if "k \<notin> set (all_keys [vd_Conflicts base, vd_Conflicts local, vd_Conflicts remote])" for k
    using that by (auto simp: in_all_keys three_way_def)
  ultimately show ?thesis by (simp add: merge_start_def NewData_def fold_put_if)
qed

lemma merge_start_simps [simp]:
  "vd_Entries (merge_start base local remote creds) = gm_empty"
  "vd_Credentials (merge_start base local remote creds) = creds"
  by (simp_all add: merge_start_def NewData_def)

subsection \<open>One entry of the merge\<close>

definition at_id :: "string \<Rightarrow> cl_Data \<Rightarrow> cl_Entry option \<times> Conflict option \<times> (string, bool) gomap \<times> (string, cl_Credential) gomap" where
  "at_id i d = (gm_lookup (vd_Entries d) i, gm_lookup (vd_Conflicts d) i, vd_Deleted d, vd_Credentials d)"

lemma merge_entry_frame: "k \<noteq> i \<Longrightarrow> at_id i (merge_entry dg vorder base local remote k d) = at_id i d"
  by (auto simp: merge_entry_def at_id_def Let_def split: prod.splits option.splits)

lemma merge_entry_local:
  "at_id i d = at_id i d' \<Longrightarrow>
   at_id i (merge_entry dg vorder base local remote i d) = at_id i (merge_entry dg vorder base local remote i d')"
  by (auto simp: merge_entry_def at_id_def Let_def is_deleted_def split: prod.splits option.splits)

lemma repair_frame: "k \<noteq> i \<Longrightarrow> at_id i (fst (repair_one dg vorder k st)) = at_id i (fst st)"
  by (auto simp: repair_one_def at_id_def Let_def split: option.splits)

lemma repair_local:
  "at_id i (fst st) = at_id i (fst st') \<Longrightarrow>
   at_id i (fst (repair_one dg vorder i st)) = at_id i (fst (repair_one dg vorder i st'))"
  by (auto simp: repair_one_def at_id_def Let_def is_deleted_def split: option.splits)

lemma repair_at:
  "at_id i (fst (RepairCompatibleConflicts dg vorder d)) = at_id i (fst (repair_one dg vorder i (d, 0)))"
proof -
  have "at_id i (fst (RepairCompatibleConflicts dg vorder d)) =
      (if i \<in> set (gm_keys (vd_Conflicts d)) then at_id i (fst (repair_one dg vorder i (d, 0))) else at_id i (fst (d, 0::nat)))"
    unfolding RepairCompatibleConflicts_def
    by (rule fold_observe[where obs = "\<lambda>st. at_id i (fst st)"]) (auto intro: repair_frame repair_local)
  then show ?thesis by (auto simp: in_gm_keys repair_one_def)
qed

lemma merged_at:
  "at_id i (fold (merge_entry dg vorder base local remote)
      (all_keys [vd_Entries base, vd_Entries local, vd_Entries remote]) d) =
   (if gm_lookup (vd_Entries base) i = None \<and> gm_lookup (vd_Entries local) i = None \<and> gm_lookup (vd_Entries remote) i = None
    then at_id i d else at_id i (merge_entry dg vorder base local remote i d))"
  by (subst fold_observe[where obs = "at_id i"]) (auto simp: in_all_keys intro: merge_entry_frame merge_entry_local)

lemma at_id_activity [simp]: "at_id i (d\<lparr>vd_Activity := a\<rparr>) = at_id i d"
  by (simp add: at_id_def)

definition merged_creds :: "cl_Data \<Rightarrow> cl_Data \<Rightarrow> (string, cl_Credential) gomap option" where
  "merged_creds local remote =
    (case merge_credentials (vd_Credentials remote) (gm_keys (vd_Credentials remote)) gm_empty of
       None \<Rightarrow> None
     | Some c \<Rightarrow> merge_credentials (vd_Credentials local) (gm_keys (vd_Credentials local)) c)"

lemma merge_at:
  assumes "Merge dg vorder now base local remote = Inr out"
  obtains creds d where "merged_creds local remote = Some creds" "Data_Validate now out = None"
    and "at_id i d = at_id i (merge_entry dg vorder base local remote i (merge_start base local remote creds))"
    and "at_id i out = at_id i (fst (repair_one dg vorder i (d, 0)))"
proof -
  obtain creds where c: "merged_creds local remote = Some creds"
    using assms by (cases "merged_creds local remote") (auto simp: Merge_def merged_creds_def)
  let ?start = "merge_start base local remote creds"
  let ?d0 = "fold (merge_entry dg vorder base local remote)
    (all_keys [vd_Entries base, vd_Entries local, vd_Entries remote]) ?start"
  let ?d = "?d0\<lparr>vd_Activity := gm_filter (\<lambda>i _. gm_lookup (vd_Entries ?d0) i \<noteq> None) (vd_Activity ?d0)\<rparr>"
  have out: "out = fst (RepairCompatibleConflicts dg vorder ?d)" "Data_Validate now out = None"
    using assms c by (auto simp: Merge_def merged_creds_def[symmetric] Let_def split: option.splits)
  have "at_id i ?d = at_id i (merge_entry dg vorder base local remote i ?start)"
    unfolding at_id_activity merged_at by (auto simp: merge_entry_def select_entry_def)
  then show ?thesis using that[OF c out(2)] out(1) repair_at by metis
qed

text \<open>The outcome of the merge of one entry before repair, from what the three sides hold.\<close>

lemma merge_entry_result:
  assumes "select_entry dg vorder (gm_lookup (vd_Entries base) i) (gm_lookup (vd_Entries local) i) (gm_lookup (vd_Entries remote) i) =
      (selected, clash)"
  defines "del \<equiv> three_way (is_deleted base i) (is_deleted local i) (is_deleted remote i)"
  shows "at_id i (merge_entry dg vorder base local remote i (merge_start base local remote creds)) =
    (if del then None else selected,
     if clash \<or> del \<and> selected \<noteq> None
       then Some \<lparr>cn_Local = gm_lookup (vd_Entries local) i, cn_Remote = gm_lookup (vd_Entries remote) i\<rparr>
       else three_way (gm_lookup (vd_Conflicts base) i) (gm_lookup (vd_Conflicts local) i) (gm_lookup (vd_Conflicts remote) i),
     vd_Deleted (merge_start base local remote creds), creds)"
proof -
  have "is_deleted (merge_start base local remote creds) i = del"
    by (simp add: is_deleted_def[of "merge_start base local remote creds"] merge_start_deleted del_def)
  then show ?thesis
    by (auto simp: merge_entry_def assms(1) at_id_def merge_start_conflicts is_deleted_def Let_def split: option.splits)
qed

lemma repair_idle:
  assumes "at_id i d = (e, c, dels, creds)"
    and "e = None \<or> c = None \<or> gm_lookup dels i = Some True \<or> \<not> compatibleEntries (cn_Local (the c)) (cn_Remote (the c))"
  shows "at_id i (fst (repair_one dg vorder i (d, 0))) = (e, c, dels, creds)"
  using assms by (auto simp: at_id_def repair_one_def is_deleted_def split: option.splits)

lemma merge_result:
  assumes "Merge dg vorder now base local remote = Inr out"
    and "select_entry dg vorder (gm_lookup (vd_Entries base) i) (gm_lookup (vd_Entries local) i) (gm_lookup (vd_Entries remote) i) =
      (selected, clash)"
  defines "del \<equiv> three_way (is_deleted base i) (is_deleted local i) (is_deleted remote i)"
  defines "cf \<equiv> (if clash \<or> del \<and> selected \<noteq> None
       then Some \<lparr>cn_Local = gm_lookup (vd_Entries local) i, cn_Remote = gm_lookup (vd_Entries remote) i\<rparr>
       else three_way (gm_lookup (vd_Conflicts base) i) (gm_lookup (vd_Conflicts local) i) (gm_lookup (vd_Conflicts remote) i))"
  shows "is_deleted out i = del" "merged_creds local remote = Some (vd_Credentials out)" "Data_Validate now out = None"
    and "del \<or> selected = None \<or> cf = None \<or> \<not> compatibleEntries (cn_Local (the cf)) (cn_Remote (the cf)) \<Longrightarrow>
      gm_lookup (vd_Entries out) i = (if del then None else selected) \<and> gm_lookup (vd_Conflicts out) i = cf"
proof -
  obtain creds d where d: "merged_creds local remote = Some creds" "Data_Validate now out = None"
    "at_id i d = at_id i (merge_entry dg vorder base local remote i (merge_start base local remote creds))"
    "at_id i out = at_id i (fst (repair_one dg vorder i (d, 0)))"
    by (rule merge_at[OF assms(1)])
  note r = merge_entry_result[OF assms(2), of creds, folded del_def, folded cf_def]
  have keep: "vd_Deleted (fst (repair_one dg vorder i st)) = vd_Deleted (fst st)"
    "vd_Credentials (fst (repair_one dg vorder i st)) = vd_Credentials (fst st)" for st
    by (auto simp: repair_one_def Let_def split: option.splits)
  have "vd_Deleted out = vd_Deleted (merge_start base local remote creds)" "vd_Credentials out = creds"
    using d(3,4) r keep by (auto simp: at_id_def)
  then show "is_deleted out i = del" "merged_creds local remote = Some (vd_Credentials out)" "Data_Validate now out = None"
    using d by (auto simp: is_deleted_def[of out] merge_start_deleted del_def)
  assume h: "del \<or> selected = None \<or> cf = None \<or> \<not> compatibleEntries (cn_Local (the cf)) (cn_Remote (the cf))"
  have "at_id i out = (if del then None else selected, cf, vd_Deleted (merge_start base local remote creds), creds)"
    unfolding d(4) by (rule repair_idle) (use d(3) r h in auto)
  then show "gm_lookup (vd_Entries out) i = (if del then None else selected) \<and> gm_lookup (vd_Conflicts out) i = cf"
    by (simp add: at_id_def)
qed

subsection \<open>Validation and lookup\<close>

lemma check_map_None: "check_map f m = None \<longleftrightarrow> (\<forall>i v. gm_lookup m i = Some v \<longrightarrow> f i v = None)"
  by (auto simp: check_map_def first_error_None in_gm_keys split: option.splits)

lemma Data_Validate_entry:
  assumes "Data_Validate now d = None" "gm_lookup (vd_Entries d) i = Some e"
  shows "entry_ok metadata_names (vd_Credentials d) i e = None"
  using assms by (auto simp: Data_Validate_def check_map_None split: if_splits option.splits)

lemma entry_ok_guards:
  assumes "entry_ok ord creds i e = None"
  shows "validID i" "et_ID e = i" "sv_KeyPath (et_Server e) = []" "\<forall>c \<in> set (et_CredentialIDs e). gm_lookup creds c \<noteq> None"
  using assms by (auto simp: entry_ok_def Let_def list_all_iff split: if_splits)

lemma Find_entry:
  assumes "Data_Validate now d = None" "range_order (vd_Entries d) ord" "Find ord a d = Inr e"
  shows "gm_lookup (vd_Entries d) (et_ID e) = Some e \<and> gm_lookup (vd_Conflicts d) (et_ID e) = None \<and> (a = et_ID e \<or> a \<in> set (et_Aliases e))"
proof (cases "gm_lookup (vd_Entries d) a")
  case (Some e')
  then have "e' = e" "gm_lookup (vd_Conflicts d) a = None" using assms(3) by (auto simp: Find_def split: if_splits)
  moreover have "et_ID e' = a" by (rule entry_ok_guards(2)[OF Data_Validate_entry[OF assms(1) Some]])
  ultimately show ?thesis using Some by auto
next
  case None
  let ?f = "\<lambda>i. case gm_lookup (vd_Entries d) i of None \<Rightarrow> None | Some e \<Rightarrow> if a \<in> set (et_Aliases e) then Some e else None"
  have "List.map_filter ?f ord = [e] \<and> gm_lookup (vd_Conflicts d) (et_ID e) = None"
    using assms(3) None by (auto simp: Find_def split: list.splits if_splits)
  moreover from this have "e \<in> set (List.map_filter ?f ord)" by simp
  then obtain i where "gm_lookup (vd_Entries d) i = Some e" "a \<in> set (et_Aliases e)"
    by (auto simp: map_filter_set split: option.splits if_splits)
  moreover from this(1) have "et_ID e = i" by (rule entry_ok_guards(2)[OF Data_Validate_entry[OF assms(1)]])
  ultimately show ?thesis by simp
qed

subsection \<open>Credentials of the merge\<close>

lemma merge_credentials_Some:
  assumes "merge_credentials src is out = Some res" "distinct is" "\<And>i. i \<in> set is \<Longrightarrow> gm_lookup src i \<noteq> None"
  shows "gm_lookup res k = (if k \<in> set is then gm_lookup src k else gm_lookup out k) \<and>
    (k \<in> set is \<longrightarrow> gm_lookup out k = None \<or> gm_lookup out k = gm_lookup src k)"
  using assms
proof (induction "is" arbitrary: out)
  case (Cons i "is")
  obtain c where c: "gm_lookup src i = Some c" using Cons.prems(3) by auto
  have m: "merge_credentials src is (gm_update i c out) = Some res" "gm_lookup out i = None \<or> gm_lookup out i = Some c"
    using Cons.prems(1) c by (auto split: option.splits if_splits)
  show ?case using Cons.IH[OF m(1)] Cons.prems m(2) c by (auto split: if_splits)
qed simp

lemma merge_credentials_None:
  assumes "gm_lookup src k = Some c" "gm_lookup out k = Some c'" "c \<noteq> c'" "k \<in> set is"
  shows "merge_credentials src is out = None"
  using assms
proof (induction "is" arbitrary: out)
  case (Cons i "is")
  show ?case
  proof (cases "i = k")
    case False
    then have "merge_credentials src is (gm_update i v out) = None" "merge_credentials src is out = None" for v
      using Cons.prems Cons.IH[of "gm_update i v out"] Cons.IH[of out] by auto
    then show ?thesis by (simp split: option.split)
  qed (use Cons.prems in simp)
qed simp

lemma merged_creds_Some:
  assumes "merged_creds local remote = Some creds"
  shows "gm_lookup creds k = (case gm_lookup (vd_Credentials local) k of None \<Rightarrow> gm_lookup (vd_Credentials remote) k | Some c \<Rightarrow> Some c)"
proof -
  obtain c1 where c1: "merge_credentials (vd_Credentials remote) (gm_keys (vd_Credentials remote)) gm_empty = Some c1"
    "merge_credentials (vd_Credentials local) (gm_keys (vd_Credentials local)) c1 = Some creds"
    using assms by (auto simp: merged_creds_def split: option.splits)
  show ?thesis
    using merge_credentials_Some[OF c1(1), of k] merge_credentials_Some[OF c1(2), of k]
    by (auto simp: in_gm_keys split: option.splits if_splits)
qed

lemma merged_creds_clash:
  assumes "gm_lookup (vd_Credentials local) k = Some c" "gm_lookup (vd_Credentials remote) k = Some c'" "c \<noteq> c'"
  shows "merged_creds local remote = None"
proof (cases "merge_credentials (vd_Credentials remote) (gm_keys (vd_Credentials remote)) gm_empty")
  case (Some c1)
  then have "gm_lookup c1 k = Some c'"
    using merge_credentials_Some[OF Some, of k] assms(2) by (auto simp: in_gm_keys)
  then show ?thesis using Some merge_credentials_None[OF assms(1) _ assms(3)] assms(1)
    by (auto simp: merged_creds_def in_gm_keys)
qed (simp add: merged_creds_def)

subsection \<open>Devices\<close>

lemma TrimSuffix_append: "TrimSuffix (s @ t) t = s"
  by (auto simp: TrimSuffix_def HasSuffix_def suffix_def)

lemma TrimPrefix_append: "TrimPrefix (t @ s) t = s"
  by (simp add: TrimPrefix_def HasPrefix_def)

lemma device_server_id:
  assumes "validID (dv_ID device)"
  shows "DeviceServerID ((device_server device name desc)\<lparr>sv_Label := l, sv_Description := t\<rparr>) = dv_ID device"
proof -
  have "list_all id_byte (dv_ID device)" "8 \<le> length (dv_ID device)" "length (dv_ID device) \<le> 100"
    using assms by (auto simp: validID_def id_byte_def list_all_iff)
  moreover have "TrimSuffix (TrimPrefix (device_prefix @ hex_encode (dv_ID device) @ device_suffix) device_prefix) device_suffix =
      hex_encode (dv_ID device)"
    by (simp only: TrimPrefix_append TrimSuffix_append)
  moreover have "HasSuffix (device_prefix @ hex_encode (dv_ID device) @ device_suffix) device_suffix"
    using suffixI[of _ "device_prefix @ hex_encode (dv_ID device)"] by (simp add: HasSuffix_def)
  ultimately show ?thesis
    by (auto simp: DeviceServerID_def DeviceConnectionID_def device_server_def hex_roundtrip HasPrefix_def)
qed

subsection \<open>Importing\<close>

text \<open>What an import may do to the document: tombstones, conflicts and tombstoned entries stay,
  credentials and entries are only added, and an entry keeps its connection settings.\<close>

definition entry_grows :: "cl_Entry \<Rightarrow> cl_Entry \<Rightarrow> bool" where
  "entry_grows e e' \<longleftrightarrow> et_ID e' = et_ID e \<and> et_Server e' = et_Server e \<and>
    set (et_Aliases e) \<subseteq> set (et_Aliases e') \<and> set (et_CredentialIDs e) \<subseteq> set (et_CredentialIDs e')"

lemma entry_grows_refl [simp]: "entry_grows e e"
  by (simp add: entry_grows_def)

lemma entry_grows_trans: "entry_grows e e' \<Longrightarrow> entry_grows e' e'' \<Longrightarrow> entry_grows e e''"
  by (auto simp: entry_grows_def)

definition only_adds :: "cl_Data \<Rightarrow> cl_Data \<Rightarrow> bool" where
  "only_adds d d' \<longleftrightarrow> vd_Deleted d' = vd_Deleted d \<and> vd_Conflicts d' = vd_Conflicts d \<and>
    (\<forall>i. is_deleted d i \<longrightarrow> gm_lookup (vd_Entries d') i = gm_lookup (vd_Entries d) i) \<and>
    (\<forall>i e. gm_lookup (vd_Entries d) i = Some e \<longrightarrow> (\<exists>e'. gm_lookup (vd_Entries d') i = Some e' \<and> entry_grows e e')) \<and>
    (\<forall>c. gm_lookup (vd_Credentials d) c \<noteq> None \<longrightarrow> gm_lookup (vd_Credentials d') c \<noteq> None)"

lemma only_adds_refl [simp]: "only_adds d d"
  by (simp add: only_adds_def)

lemma only_adds_trans: "only_adds d d' \<Longrightarrow> only_adds d' d'' \<Longrightarrow> only_adds d d''"
  unfolding only_adds_def is_deleted_def by (simp, meson entry_grows_trans)

lemma only_adds_entry:
  assumes "\<not> is_deleted d i" "\<And>e. gm_lookup (vd_Entries d) i = Some e \<Longrightarrow> entry_grows e e'"
  shows "only_adds d (d\<lparr>vd_Entries := gm_update i e' (vd_Entries d)\<rparr>)"
    and "only_adds d (d\<lparr>vd_Credentials := gm_update cid c (vd_Credentials d), vd_Entries := gm_update i e' (vd_Entries d)\<rparr>)"
  using assms by (auto simp: only_adds_def)

lemma import_entry_adds:
  "found = Some e \<Longrightarrow> entry_grows e (import_entry dg device a s found)"
  "found = Some e \<Longrightarrow> entry_grows e (import_entry dg device a s found
     \<lparr>et_CredentialIDs := union (et_CredentialIDs (import_entry dg device a s found)) cs\<rparr>)"
  by (auto simp: import_entry_def entry_grows_def)

lemma import_server_adds:
  assumes "import_server env dg device ik servers a (rep, d) = Inr (rep', d')"
  shows "only_adds d d'"
proof (cases "server_at servers a")
  case (Some p)
  let ?i = "EntryID dg (cleanServer p)"
  let ?e = "import_entry dg device a (cleanServer p) (gm_lookup (vd_Entries d) ?i)"
  show ?thesis
  proof (cases "sv_CloudEntry p \<noteq> [] \<or> is_deleted d ?i")
    case True
    then show ?thesis using assms Some by (auto simp: import_server_def is_deleted_def Let_def split: if_splits)
  next
    case False
    then have "d' = d\<lparr>vd_Entries := gm_update ?i ?e (vd_Entries d)\<rparr> \<or>
        (\<exists>c. d' = d\<lparr>vd_Credentials := gm_update (dg_credential dg c) c (vd_Credentials d),
          vd_Entries := gm_update ?i (?e\<lparr>et_CredentialIDs := union (et_CredentialIDs ?e) [dg_credential dg c]\<rparr>) (vd_Entries d)\<rparr>)"
      using assms Some by (auto simp: import_server_def is_deleted_def Let_def split: if_splits sum.splits)
    then show ?thesis
      using False by (elim disjE exE) (auto intro!: only_adds_entry import_entry_adds)
  qed
qed (use assms in \<open>simp add: import_server_def\<close>)

lemma import_servers_adds:
  "import_servers env dg device ik servers ord (rep, d) = Inr (rep', d') \<Longrightarrow> only_adds d d'"
proof (induction ord arbitrary: rep d)
  case (Cons a ord)
  then obtain rep1 d1 where "import_server env dg device ik servers a (rep, d) = Inr (rep1, d1)"
    "import_servers env dg device ik servers ord (rep1, d1) = Inr (rep', d')"
    by (auto simp: bind_result_eq_Inr)
  then show ?case using Cons.IH import_server_adds only_adds_trans by metis
qed simp

lemma import_activity_adds: "only_adds d (fst (ImportActivity dg now ord cfg d))"
  unfolding ImportActivity_def
proof (rule fold_invariant_on[where I = "\<lambda>st. only_adds d (fst st)"])
  fix x :: string and s :: "cl_Data \<times> bool"
  assume "only_adds d (fst s)"
  then show "only_adds d (fst (import_activity_step dg now (cf_Servers cfg) x s))"
    by (auto simp: import_activity_step_def only_adds_def Let_def split: option.splits)
qed simp

lemma Import_adds: "Import env dg now nm ord ord' cfg device ik d = Inr (rep, d') \<Longrightarrow> only_adds d d' \<and> Data_Validate nm d' = None"
  unfolding Import_def
  by (auto simp: bind_result_eq_Inr Let_def split: option.splits dest!: import_servers_adds
    intro: only_adds_trans[OF _ import_activity_adds])

subsection \<open>Activity\<close>

lemma merge_platform_frame [frames]:
  "ay_LastConnected (merge_platform b a) = ay_LastConnected a" "ay_LastSeen (merge_platform b a) = ay_LastSeen a"
  "ay_CheckedAt (merge_platform b a) = ay_CheckedAt a" "ay_Status (merge_platform b a) = ay_Status a"
  "ay_SSHCheckedAt (merge_platform b a) = ay_SSHCheckedAt a" "ay_SSHError (merge_platform b a) = ay_SSHError a"
  "ay_SSHMCheckedAt (merge_platform b a) = ay_SSHMCheckedAt a" "ay_SSHMVersion (merge_platform b a) = ay_SSHMVersion a"
  by (simp_all add: merge_platform_def)

lemma merge_ssh_frame [frames]:
  "ay_LastConnected (merge_ssh b a) = ay_LastConnected a" "ay_LastSeen (merge_ssh b a) = ay_LastSeen a"
  "ay_CheckedAt (merge_ssh b a) = ay_CheckedAt a" "ay_Status (merge_ssh b a) = ay_Status a"
  "ay_Platform (merge_ssh b a) = ay_Platform a"
  "ay_SSHMCheckedAt (merge_ssh b a) = ay_SSHMCheckedAt a" "ay_SSHMVersion (merge_ssh b a) = ay_SSHMVersion a"
  by (simp_all add: merge_ssh_def)

lemma merge_status_frame [frames]:
  "ay_LastConnected (merge_status b a) = ay_LastConnected a" "ay_LastSeen (merge_status b a) = ay_LastSeen a"
  "ay_CheckedAt (merge_status b a) = ay_CheckedAt a" "ay_Platform (merge_status b a) = ay_Platform a"
  "ay_SSHCheckedAt (merge_status b a) = ay_SSHCheckedAt a" "ay_SSHError (merge_status b a) = ay_SSHError a"
  "ay_SSHMCheckedAt (merge_status b a) = ay_SSHMCheckedAt a" "ay_SSHMVersion (merge_status b a) = ay_SSHMVersion a"
  by (simp_all add: merge_status_def)

lemma merge_sshm_frame [frames]:
  "ay_LastConnected (merge_sshm b a) = ay_LastConnected a" "ay_LastSeen (merge_sshm b a) = ay_LastSeen a"
  "ay_CheckedAt (merge_sshm b a) = ay_CheckedAt a" "ay_Status (merge_sshm b a) = ay_Status a"
  "ay_Platform (merge_sshm b a) = ay_Platform a"
  "ay_SSHCheckedAt (merge_sshm b a) = ay_SSHCheckedAt a" "ay_SSHError (merge_sshm b a) = ay_SSHError a"
  by (simp_all add: merge_sshm_def)

lemma mergeActivity_platform:
  "ay_Platform (mergeActivity a b) = ay_Platform (merge_platform b (a\<lparr>ay_Hardware := Newer (ay_Hardware a) (ay_Hardware b)\<rparr>))"
  by (simp add: mergeActivity_def Let_def frames)

lemma mergeActivity_times:
  "ay_LastConnected (mergeActivity a b) = max (ay_LastConnected a) (ay_LastConnected b)"
  "ay_LastSeen (mergeActivity a b) = max (ay_LastSeen a) (ay_LastSeen b)"
  by (simp_all add: mergeActivity_def Let_def frames)

lemma mergeActivity_status:
  "(ay_CheckedAt (mergeActivity a b), ay_Status (mergeActivity a b)) = max (ay_CheckedAt a, ay_Status a) (ay_CheckedAt b, ay_Status b)"
  by (auto simp: mergeActivity_def Let_def frames merge_status_def max_def less_eq_prod_def)

lemma mergeActivity_ssh:
  "(ay_SSHCheckedAt (mergeActivity a b), ay_SSHError (mergeActivity a b)) =
     max (ay_SSHCheckedAt a, ay_SSHError a) (ay_SSHCheckedAt b, ay_SSHError b)"
  by (auto simp: mergeActivity_def Let_def frames merge_ssh_def max_def less_eq_prod_def)

lemma mergeActivity_sshm:
  "(ay_SSHMCheckedAt (mergeActivity a b), ay_SSHMVersion (mergeActivity a b)) =
     max (ay_SSHMCheckedAt a, ay_SSHMVersion a) (ay_SSHMCheckedAt b, ay_SSHMVersion b)"
  by (auto simp: mergeActivity_def Let_def frames merge_sshm_def max_def less_eq_prod_def)

section \<open>Small vaults\<close>

definition demo_digests :: digests where
  "demo_digests = \<lparr>dg_entry = \<lambda>(h, _). ''entry-'' @ h, dg_pair = (\<lambda>a b. a @ b), dg_source = (\<lambda>_. ''source''),
     dg_credential = (\<lambda>_. ''credential'')\<rparr>"

definition demo_entry :: "string \<Rightarrow> string \<Rightarrow> cl_Entry" where
  "demo_entry nm h = \<lparr>et_ID = ''entry001'', et_Aliases = [nm],
     et_Server = zero_server\<lparr>sv_Host := h, sv_Port := 22, sv_User := ''root'', sv_Auth := AuthAgent\<rparr>,
     et_CredentialIDs = [], et_Sources = gm_empty\<rparr>"

definition demo_vault :: "cl_Entry list \<Rightarrow> cl_Data" where
  "demo_vault es = NewData\<lparr>vd_Entries := gm_of_list (map (\<lambda>e. (et_ID e, e)) es)\<rparr>"

definition demo_base :: cl_Data where "demo_base = demo_vault [demo_entry ''web'' ''alpha'']"
definition demo_local :: cl_Data where "demo_local = demo_vault [demo_entry ''web'' ''beta'']"
definition demo_remote :: cl_Data where "demo_remote = demo_vault [demo_entry ''web'' ''gamma'']"

definition demo_deleted :: cl_Data where "demo_deleted = Data_Remove ''entry001'' demo_base"

definition demo_clash :: cl_Data where
  "demo_clash = demo_remote\<lparr>vd_Conflicts := gm_of_list [(''entry001'',
     \<lparr>cn_Local = Some (demo_entry ''web'' ''beta''), cn_Remote = Some (demo_entry ''web'' ''gamma'')\<rparr>)]\<rparr>"

definition demo_device :: Device where
  "demo_device = \<lparr>dv_ID = ''device-1'', dv_Kind = ''desktop'', dv_Label = ''Laptop'', dv_Group = [], dv_Tags = [],
     dv_Platform = ''linux'', dv_LastSeen = 5, dv_Version = ''1''\<rparr>"

definition demo_config :: Config where
  "demo_config = New\<lparr>cf_Servers := gm_of_list [(''web'', Some (zero_server\<lparr>sv_Host := ''alpha'', sv_User := ''root'', sv_Auth := AuthAgent\<rparr>))]\<rparr>"

definition demo_keys :: key_env where
  "demo_keys = \<lparr>ke_home = None, ke_size = Map.empty, ke_read = Map.empty, ke_parse = (\<lambda>_. NoKey), ke_parse_with = (\<lambda>_ _. NoKey)\<rparr>"

section \<open>Properties\<close>

text \<open>C11: a merge follows the tombstones: an entry is deleted afterwards exactly when the side that
  changed the mark says so; a deleted entry is never in the merged vault, and when some side still
  has a version of it, both versions are kept as a conflict instead of resurrecting it.\<close>

theorem merge_respects_tombstones:
  assumes "Merge dg vorder now base local remote = Inr out"
  shows "(is_deleted out i \<longleftrightarrow> three_way (is_deleted base i) (is_deleted local i) (is_deleted remote i)) \<and>
    (is_deleted out i \<longrightarrow> gm_lookup (vd_Entries out) i = None \<and>
      (fst (select_entry dg vorder (gm_lookup (vd_Entries base) i) (gm_lookup (vd_Entries local) i)
         (gm_lookup (vd_Entries remote) i)) \<noteq> None \<longrightarrow>
       gm_lookup (vd_Conflicts out) i =
         Some \<lparr>cn_Local = gm_lookup (vd_Entries local) i, cn_Remote = gm_lookup (vd_Entries remote) i\<rparr>))"
proof -
  obtain selected clash where s: "select_entry dg vorder (gm_lookup (vd_Entries base) i) (gm_lookup (vd_Entries local) i)
      (gm_lookup (vd_Entries remote) i) = (selected, clash)" by fastforce
  show ?thesis using merge_result[OF assms s] s by auto
qed

theorem merge_respects_tombstones_witness:
  "\<exists>out. Merge demo_digests gm_keys 0 demo_base demo_deleted demo_local = Inr out \<and>
     gm_lookup (vd_Entries out) ''entry001'' = None \<and>
     gm_lookup (vd_Conflicts out) ''entry001'' = Some \<lparr>cn_Local = None, cn_Remote = Some (demo_entry ''web'' ''beta'')\<rparr>"
proof -
  have "is_ok (Merge demo_digests gm_keys 0 demo_base demo_deleted demo_local)" by code_simp
  then obtain out where o: "Merge demo_digests gm_keys 0 demo_base demo_deleted demo_local = Inr out"
    by (auto simp: is_ok_def split: sum.splits)
  have d: "three_way (is_deleted demo_base ''entry001'') (is_deleted demo_deleted ''entry001'') (is_deleted demo_local ''entry001'')"
    by code_simp
  have l: "gm_lookup (vd_Entries demo_deleted) ''entry001'' = None" by code_simp
  have r: "gm_lookup (vd_Entries demo_local) ''entry001'' = Some (demo_entry ''web'' ''beta'')" by code_simp
  have b: "gm_lookup (vd_Entries demo_base) ''entry001'' = Some (demo_entry ''web'' ''alpha'')" by code_simp
  have ne: "demo_entry ''web'' ''alpha'' \<noteq> demo_entry ''web'' ''beta''" by code_simp
  show ?thesis using merge_respects_tombstones[OF o, of "''entry001''"] d l r b o ne by (simp add: select_entry_def)
qed

text \<open>C10: no edit is lost in a merge: when both sides changed an entry in incompatible ways, both
  versions are kept as its conflict, and until that is resolved no lookup in the merged vault returns
  the entry.\<close>

theorem merge_keeps_both_edits:
  assumes "Merge dg vorder now base local remote = Inr out"
    and "l = gm_lookup (vd_Entries local) i" "r = gm_lookup (vd_Entries remote) i" "b = gm_lookup (vd_Entries base) i"
    and "l \<noteq> r" "b \<noteq> l" "b \<noteq> r" "\<not> compatibleEntries l r"
    and "b = None \<Longrightarrow> l \<noteq> None \<Longrightarrow> r \<noteq> None \<Longrightarrow> EntryID dg (et_Server (the l)) \<noteq> EntryID dg (et_Server (the r))"
  shows "gm_lookup (vd_Conflicts out) i = Some \<lparr>cn_Local = l, cn_Remote = r\<rparr> \<and>
    (\<forall>ord a e. range_order (vd_Entries out) ord \<longrightarrow> Find ord a out = Inr e \<longrightarrow> et_ID e \<noteq> i)"
proof -
  have "snd (select_entry dg vorder b l r)"
    using assms(5-9) by (auto simp: select_entry_def split: option.splits)
  then obtain s where s: "select_entry dg vorder b l r = (s, True)" by (cases "select_entry dg vorder b l r") auto
  have c: "gm_lookup (vd_Conflicts out) i = Some \<lparr>cn_Local = l, cn_Remote = r\<rparr>" "Data_Validate now out = None"
    using merge_result(3,4)[OF assms(1) s[unfolded assms(2-4)]] assms(2,3,8) by auto
  show ?thesis using c(1) Find_entry[OF c(2)] by auto
qed

theorem merge_keeps_both_edits_witness:
  "\<exists>out. Merge demo_digests gm_keys 0 demo_base demo_local demo_remote = Inr out \<and>
     gm_lookup (vd_Conflicts out) ''entry001'' =
       Some \<lparr>cn_Local = Some (demo_entry ''web'' ''beta''), cn_Remote = Some (demo_entry ''web'' ''gamma'')\<rparr>"
proof -
  have "is_ok (Merge demo_digests gm_keys 0 demo_base demo_local demo_remote)" by code_simp
  then obtain out where o: "Merge demo_digests gm_keys 0 demo_base demo_local demo_remote = Inr out"
    by (auto simp: is_ok_def split: sum.splits)
  have l: "Some (demo_entry ''web'' ''beta'') = gm_lookup (vd_Entries demo_local) ''entry001''" by code_simp
  have r: "Some (demo_entry ''web'' ''gamma'') = gm_lookup (vd_Entries demo_remote) ''entry001''" by code_simp
  have b: "Some (demo_entry ''web'' ''alpha'') = gm_lookup (vd_Entries demo_base) ''entry001''" by code_simp
  have ne: "Some (demo_entry ''web'' ''beta'') \<noteq> Some (demo_entry ''web'' ''gamma'')"
    "Some (demo_entry ''web'' ''alpha'') \<noteq> Some (demo_entry ''web'' ''beta'')"
    "Some (demo_entry ''web'' ''alpha'') \<noteq> Some (demo_entry ''web'' ''gamma'')"
    "\<not> compatibleEntries (Some (demo_entry ''web'' ''beta'')) (Some (demo_entry ''web'' ''gamma''))" by code_simp+
  show ?thesis using merge_keeps_both_edits[OF o l r b ne] o by simp
qed

text \<open>Without a pending conflict or a tombstone, an edit made on one side only is what the merge
  keeps, and compatible additions made on both sides are combined: the merged entry has
  the aliases and the credentials of both. In neither case does a conflict arise.\<close>

theorem merge_takes_edits:
  assumes "Merge dg vorder now base local remote = Inr out" "\<not> is_deleted out i"
    and "gm_lookup (vd_Conflicts base) i = None" "gm_lookup (vd_Conflicts local) i = None" "gm_lookup (vd_Conflicts remote) i = None"
    and "l = gm_lookup (vd_Entries local) i" "r = gm_lookup (vd_Entries remote) i" "b = gm_lookup (vd_Entries base) i"
  shows "(b = l \<longrightarrow> gm_lookup (vd_Entries out) i = r \<and> gm_lookup (vd_Conflicts out) i = None) \<and>
    (b = r \<longrightarrow> gm_lookup (vd_Entries out) i = l \<and> gm_lookup (vd_Conflicts out) i = None) \<and>
    (b \<noteq> l \<and> b \<noteq> r \<and> l \<noteq> r \<and> compatibleEntries l r \<longrightarrow>
      (\<exists>e. gm_lookup (vd_Entries out) i = Some e \<and> gm_lookup (vd_Conflicts out) i = None \<and> et_Server e = et_Server (the r) \<and>
         set (et_Aliases e) = set (et_Aliases (the l)) \<union> set (et_Aliases (the r)) \<and>
         set (et_CredentialIDs e) = set (et_CredentialIDs (the l)) \<union> set (et_CredentialIDs (the r))))"
proof -
  obtain selected clash where s: "select_entry dg vorder b l r = (selected, clash)" by fastforce
  note m = merge_result[OF assms(1) s[unfolded assms(6-8)], unfolded assms(3-5)]
  have out: "gm_lookup (vd_Entries out) i = selected \<and> gm_lookup (vd_Conflicts out) i = None" if "\<not> clash"
    using m(1,4) assms(2) that by (auto simp: three_way_def)
  show ?thesis
  proof (intro conjI impI)
    assume "b \<noteq> l \<and> b \<noteq> r \<and> l \<noteq> r \<and> compatibleEntries l r"
    then obtain le re where "l = Some le" "r = Some re" "\<not> clash" "selected = Some (mergeAdditions dg vorder le re)"
      using s by (auto simp: select_entry_def compatibleEntries_def split: option.splits)
    then show "\<exists>e. gm_lookup (vd_Entries out) i = Some e \<and> gm_lookup (vd_Conflicts out) i = None \<and> et_Server e = et_Server (the r) \<and>
         set (et_Aliases e) = set (et_Aliases (the l)) \<union> set (et_Aliases (the r)) \<and>
         set (et_CredentialIDs e) = set (et_CredentialIDs (the l)) \<union> set (et_CredentialIDs (the r))"
      using out by (auto simp: mergeAdditions_def)
  qed (use s out in \<open>auto simp: select_entry_def split: if_splits\<close>)
qed

theorem merge_takes_edits_witness:
  "\<exists>out. Merge demo_digests gm_keys 0 demo_base demo_base demo_remote = Inr out \<and>
     gm_lookup (vd_Entries out) ''entry001'' = Some (demo_entry ''web'' ''gamma'')"
proof -
  have "is_ok (Merge demo_digests gm_keys 0 demo_base demo_base demo_remote)" by code_simp
  then obtain out where o: "Merge demo_digests gm_keys 0 demo_base demo_base demo_remote = Inr out"
    by (auto simp: is_ok_def split: sum.splits)
  have "is_deleted out ''entry001'' = three_way (is_deleted demo_base ''entry001'') (is_deleted demo_base ''entry001'')
      (is_deleted demo_remote ''entry001'')"
    by (rule merge_result(1)[OF o prod.collapse[symmetric]])
  then have d: "\<not> is_deleted out ''entry001''" by (simp, code_simp)
  have c: "gm_lookup (vd_Conflicts demo_base) ''entry001'' = None" "gm_lookup (vd_Conflicts demo_remote) ''entry001'' = None"
    by code_simp+
  have r: "gm_lookup (vd_Entries demo_remote) ''entry001'' = Some (demo_entry ''web'' ''gamma'')" by code_simp
  show ?thesis using merge_takes_edits[OF o d c(1) c(1) c(2) refl refl refl] r o by simp
qed

text \<open>Credentials are immutable and never lost: a merge of two vaults that hold different
  credentials under one identifier is refused, and otherwise the merged vault has exactly the
  credentials of both sides, and every credential its entries refer to.\<close>

theorem merge_keeps_credentials:
  "(\<forall>k c c'. gm_lookup (vd_Credentials local) k = Some c \<longrightarrow> gm_lookup (vd_Credentials remote) k = Some c' \<longrightarrow> c \<noteq> c' \<longrightarrow>
      Merge dg vorder now base local remote = Inl CredentialConflict) \<and>
   (\<forall>out. Merge dg vorder now base local remote = Inr out \<longrightarrow>
      (\<forall>k. gm_lookup (vd_Credentials out) k =
         (case gm_lookup (vd_Credentials local) k of None \<Rightarrow> gm_lookup (vd_Credentials remote) k | Some c \<Rightarrow> Some c)) \<and>
      (\<forall>i e. gm_lookup (vd_Entries out) i = Some e \<longrightarrow>
         (\<forall>c \<in> set (et_CredentialIDs e). gm_lookup (vd_Credentials out) c \<noteq> None)))"
proof (intro conjI allI impI, goal_cases)
  case (1 k c c')
  then show ?case using merged_creds_clash[OF 1] by (simp add: Merge_def merged_creds_def)
next
  case (2 out k)
  then show ?case using merged_creds_Some merge_result(2)[OF 2 prod.collapse[symmetric]] by blast
next
  case (3 out i e)
  then show ?case
    using entry_ok_guards(4) Data_Validate_entry merge_result(3)[OF 3(1) prod.collapse[symmetric]] by blast
qed

theorem merge_keeps_credentials_witness:
  "Merge demo_digests gm_keys 0 NewData
     (NewData\<lparr>vd_Credentials := gm_update ''credential'' (key_credential ''k1'') gm_empty\<rparr>)
     (NewData\<lparr>vd_Credentials := gm_update ''credential'' (key_credential ''k2'') gm_empty\<rparr>) = Inl CredentialConflict"
  by (rule merge_keeps_credentials[THEN conjunct1, rule_format, of _ "''credential''" "key_credential ''k1''" _ "key_credential ''k2''"])
    (simp_all add: key_credential_def)

text \<open>Resolving a conflict settles it for good: the conflict is gone, the chosen version is the entry
  (or the entry is tombstoned when that side had deleted it), no other entry changes, and merging
  the resolved vault with an unchanged remote copy does not bring the conflict back.\<close>

theorem resolution_survives_merge:
  assumes "Data_Resolve i side d = Inr d'"
  shows "\<exists>c chosen. gm_lookup (vd_Conflicts d) i = Some c \<and> chosen = (if side = ''local'' then cn_Local c else cn_Remote c) \<and>
      gm_lookup (vd_Conflicts d') i = None \<and> gm_lookup (vd_Entries d') i = chosen \<and> (is_deleted d' i \<longleftrightarrow> chosen = None) \<and>
      (\<forall>k. k \<noteq> i \<longrightarrow> gm_lookup (vd_Entries d') k = gm_lookup (vd_Entries d) k \<and>
         gm_lookup (vd_Conflicts d') k = gm_lookup (vd_Conflicts d) k \<and> is_deleted d' k = is_deleted d k) \<and>
      (\<forall>dg vorder now out. Merge dg vorder now d d' d = Inr out \<longrightarrow>
         gm_lookup (vd_Conflicts out) i = None \<and> gm_lookup (vd_Entries out) i = chosen \<and> (is_deleted out i \<longleftrightarrow> chosen = None))"
proof -
  obtain c where c: "gm_lookup (vd_Conflicts d) i = Some c" "side = ''local'' \<or> side = ''remote''"
    using assms by (auto simp: Data_Resolve_def split: option.splits if_splits)
  define chosen where "chosen = (if side = ''local'' then cn_Local c else cn_Remote c)"
  have d': "d' = (case chosen of None \<Rightarrow> Data_Remove i d
      | Some e \<Rightarrow> d\<lparr>vd_Entries := gm_update i e (vd_Entries d), vd_Deleted := gm_delete i (vd_Deleted d),
                    vd_Conflicts := gm_delete i (vd_Conflicts d)\<rparr>)"
    using assms c by (auto simp: Data_Resolve_def chosen_def split: option.splits if_splits)
  have now: "gm_lookup (vd_Conflicts d') i = None" "gm_lookup (vd_Entries d') i = chosen" "is_deleted d' i \<longleftrightarrow> chosen = None"
    and others: "k \<noteq> i \<Longrightarrow> gm_lookup (vd_Entries d') k = gm_lookup (vd_Entries d) k \<and>
      gm_lookup (vd_Conflicts d') k = gm_lookup (vd_Conflicts d) k \<and> is_deleted d' k = is_deleted d k" for k
    unfolding d' by (auto simp: Data_Remove_def is_deleted_def split: option.splits)
  have merged: "gm_lookup (vd_Conflicts out) i = None \<and> gm_lookup (vd_Entries out) i = chosen \<and> (is_deleted out i \<longleftrightarrow> chosen = None)"
    if m: "Merge dg vorder now d d' d = Inr out" for dg vorder now out
  proof -
    have s: "select_entry dg vorder (gm_lookup (vd_Entries d) i) (gm_lookup (vd_Entries d') i) (gm_lookup (vd_Entries d) i) = (chosen, False)"
      by (auto simp: select_entry_def now)
    have cf: "three_way (gm_lookup (vd_Conflicts d) i) (gm_lookup (vd_Conflicts d') i) (gm_lookup (vd_Conflicts d) i) = None"
      "three_way (is_deleted d i) (is_deleted d' i) (is_deleted d i) \<longleftrightarrow> chosen = None"
      by (simp_all add: three_way_def now)
    show ?thesis using merge_result(1,4)[OF m s] unfolding cf by (cases chosen) simp_all
  qed
  show ?thesis
    by (rule exI[of _ c], rule exI[of _ chosen], intro conjI allI impI) (simp_all add: c chosen_def[symmetric] now others merged)
qed

theorem resolution_survives_merge_witness:
  "\<exists>d'. Data_Resolve ''entry001'' ''local'' demo_clash = Inr d' \<and>
     gm_lookup (vd_Entries d') ''entry001'' = Some (demo_entry ''web'' ''beta'') \<and> gm_lookup (vd_Conflicts d') ''entry001'' = None"
proof -
  have "is_ok (Data_Resolve ''entry001'' ''local'' demo_clash)" by code_simp
  then obtain d' where d: "Data_Resolve ''entry001'' ''local'' demo_clash = Inr d'"
    by (auto simp: is_ok_def split: sum.splits)
  have "gm_lookup (vd_Conflicts demo_clash) ''entry001'' =
    Some \<lparr>cn_Local = Some (demo_entry ''web'' ''beta''), cn_Remote = Some (demo_entry ''web'' ''gamma'')\<rparr>" by code_simp
  then show ?thesis using resolution_survives_merge[OF d] d by auto
qed

text \<open>Importing a configuration only adds: tombstones and conflicts stay, a deleted entry is not
  resurrected, every entry keeps its identifier, its connection settings, its aliases and its
  credentials, and no device key path enters the vault.\<close>

theorem import_only_adds:
  assumes "Import env dg now nm ord ord' cfg device includeKeys d = Inr (rep, d')"
  shows "only_adds d d' \<and> (\<forall>i e. gm_lookup (vd_Entries d') i = Some e \<longrightarrow> et_ID e = i \<and> sv_KeyPath (et_Server e) = [])"
  using Import_adds[OF assms] Data_Validate_entry entry_ok_guards(2,3) by blast

theorem import_only_adds_witness:
  "\<exists>rep d'. Import demo_keys demo_digests 0 0 [''web''] [''web''] demo_config ''laptop'' True demo_deleted = Inr (rep, d') \<and>
     only_adds demo_deleted d'"
proof -
  have "is_ok (Import demo_keys demo_digests 0 0 [''web''] [''web''] demo_config ''laptop'' True demo_deleted)" by code_simp
  then obtain rep d' where "Import demo_keys demo_digests 0 0 [''web''] [''web''] demo_config ''laptop'' True demo_deleted = Inr (rep, d')"
    by (auto simp: is_ok_def split: sum.splits)
  then show ?thesis using import_only_adds by blast
qed

text \<open>A device added to the vault can be recognised again: its entry is stored, not tombstoned,
  and when it is new its reserved host name decodes to the identifier of the device.\<close>

theorem device_entry_roundtrip:
  assumes "AddDevice dg ord device name desc d = Inr (d', e)"
  shows "\<exists>i. gm_lookup (vd_Entries d') i = Some e \<and> \<not> is_deleted d' i \<and> gm_lookup (vd_Conflicts d') i = None \<and>
    (gm_lookup (vd_Entries d) i = None \<longrightarrow> et_ID e = i \<and> DeviceServerID (et_Server e) = dv_ID device)"
proof -
  define i where "i = EntryID dg (device_server device (device_name device name) desc)"
  have v: "validID (dv_ID device)" using assms by (auto simp: AddDevice_def split: if_splits)
  have "gm_lookup (vd_Entries d') i = Some e \<and> \<not> is_deleted d' i \<and> gm_lookup (vd_Conflicts d') i = None"
    and "gm_lookup (vd_Entries d) i = None \<Longrightarrow> et_ID e = i \<and>
      et_Server e = (device_server device (device_name device name) desc)\<lparr>sv_Label := device_name device name, sv_Description := desc\<rparr>"
    using assms by (auto simp: AddDevice_def Let_def i_def is_deleted_def split: if_splits option.splits)
  then show ?thesis using device_server_id[OF v] by auto
qed

theorem device_entry_roundtrip_witness:
  "\<exists>d' e. AddDevice demo_digests metadata_names demo_device ''Work'' [] NewData = Inr (d', e) \<and>
     DeviceServerID (et_Server e) = ''device-1''"
proof -
  have "is_ok (AddDevice demo_digests metadata_names demo_device ''Work'' [] NewData)" by code_simp
  then obtain d' e where a: "AddDevice demo_digests metadata_names demo_device ''Work'' [] NewData = Inr (d', e)"
    by (auto simp: is_ok_def split: sum.splits)
  then show ?thesis using device_entry_roundtrip[OF a] by (auto simp: NewData_def demo_device_def)
qed

text \<open>Merging observations keeps the most recent of each kind: connection and sighting times are
  maxima, and the status, the SSH check and the SSHM version are those of the later check (the
  larger text on a tie), in whichever order two devices are merged.\<close>

theorem activity_merge_keeps_latest:
  "ay_LastConnected (mergeActivity a b) = max (ay_LastConnected a) (ay_LastConnected b) \<and>
   ay_LastSeen (mergeActivity a b) = max (ay_LastSeen a) (ay_LastSeen b) \<and>
   (ay_CheckedAt (mergeActivity a b), ay_Status (mergeActivity a b)) = max (ay_CheckedAt a, ay_Status a) (ay_CheckedAt b, ay_Status b) \<and>
   (ay_SSHCheckedAt (mergeActivity a b), ay_SSHError (mergeActivity a b)) =
     max (ay_SSHCheckedAt a, ay_SSHError a) (ay_SSHCheckedAt b, ay_SSHError b) \<and>
   (ay_SSHMCheckedAt (mergeActivity a b), ay_SSHMVersion (mergeActivity a b)) =
     max (ay_SSHMCheckedAt a, ay_SSHMVersion a) (ay_SSHMCheckedAt b, ay_SSHMVersion b)"
  using mergeActivity_times mergeActivity_status mergeActivity_ssh mergeActivity_sshm by auto

text \<open>The merged platform depends on the order in which three devices are merged: a later
  check that reports no platform makes an older platform look as recent as that check.\<close>

theorem activity_platform_depends_on_order:
  "\<exists>a b c. ay_Platform (mergeActivity (mergeActivity a b) c) = ''linux'' \<and>
     ay_Platform (mergeActivity a (mergeActivity b c)) = ''windows''"
proof (intro exI conjI)
  let ?a = "zero_activity\<lparr>ay_Platform := ''linux'', ay_CheckedAt := 5\<rparr>"
    and ?b = "zero_activity\<lparr>ay_CheckedAt := 9\<rparr>" and ?c = "zero_activity\<lparr>ay_Platform := ''windows'', ay_CheckedAt := 7\<rparr>"
  show "ay_Platform (mergeActivity (mergeActivity ?a ?b) ?c) = ''linux''" by code_simp
  show "ay_Platform (mergeActivity ?a (mergeActivity ?b ?c)) = ''windows''" by code_simp
qed

end
