(* ===== verification/Go_Netip.thy ===== *)
theory Go_Netip
  imports Go_Strings "HOL-Library.Word"
begin

unbundle bit_operations_syntax

text \<open>
  The part of Go's package \<open>net/netip\<close> (and of \<open>net\<close>) that the components use: addresses
  as machine words, their parser, the classification predicates, and splitting and joining
  host and port. The classification tests are written with shifts and masks as in the library;
  the laws below say which ranges of addresses they describe.
\<close>

section \<open>Addresses\<close>

datatype addr = V4 "32 word" | V6 "128 word" string \<comment> \<open>with its zone\<close>

definition word_of_bytes :: "nat list \<Rightarrow> 'a::len word" where
  "word_of_bytes bs = foldl (\<lambda>w b. push_bit 8 w OR of_nat b) 0 bs"

definition v4 :: "nat \<Rightarrow> nat \<Rightarrow> nat \<Rightarrow> nat \<Rightarrow> addr" where
  "v4 a b c d = V4 (word_of_bytes [a, b, c, d])"

definition is_hex_digit :: "char \<Rightarrow> bool" where
  "is_hex_digit c \<longleftrightarrow> is_digit c \<or> CHR ''a'' \<le> c \<and> c \<le> CHR ''f'' \<or> CHR ''A'' \<le> c \<and> c \<le> CHR ''F''"

definition hex_digit_value :: "char \<Rightarrow> nat" where
  "hex_digit_value c =
    (if is_digit c then of_char c - 48 else if CHR ''a'' \<le> c then of_char c - 87 else of_char c - 55)"

definition hex_number :: "string \<Rightarrow> nat" where
  "hex_number s = foldl (\<lambda>n c. 16 * n + hex_digit_value c) 0 s"

definition ip4_field :: "string \<Rightarrow> bool" where
  "ip4_field f \<longleftrightarrow> all_digits f \<and> (length f = 1 \<or> hd f \<noteq> CHR ''0'') \<and> decimal_value f \<le> 255"

definition ip4_bytes :: "string \<Rightarrow> nat list option" where
  "ip4_bytes s =
    (let fs = Split_byte s (CHR ''.'') in if length fs = 4 \<and> list_all ip4_field fs then Some (map decimal_value fs) else None)"

text \<open>The loop of \<open>parseIPv6\<close>: the bytes filled so far, and the position of the ellipsis. It ends
  with the bytes before the final expansion, or fails.\<close>

function ip6_loop :: "string \<Rightarrow> nat list \<Rightarrow> nat option \<Rightarrow> (nat list \<times> nat option) option" where
  "ip6_loop s ip ellipsis =
    (if 16 \<le> length ip then (if s = [] then Some (ip, ellipsis) else None)
     else let digits = takeWhile is_hex_digit s; rest = dropWhile is_hex_digit s in
       if digits = [] \<or> 4 < length digits then None
       else if rest \<noteq> [] \<and> hd rest = CHR ''.'' then
         (if ellipsis = None \<and> length ip \<noteq> 12 \<or> 16 < length ip + 4 then None
          else map_option (\<lambda>bs. (ip @ bs, ellipsis)) (ip4_bytes s))
       else let ip' = ip @ [hex_number digits div 256, hex_number digits mod 256] in
         if rest = [] then Some (ip', ellipsis)
         else if hd rest \<noteq> CHR '':'' \<or> tl rest = [] then None
         else if hd (tl rest) = CHR '':'' then
           (if ellipsis \<noteq> None then None
            else if tl (tl rest) = [] then Some (ip', Some (length ip'))
            else ip6_loop (tl (tl rest)) ip' (Some (length ip')))
         else ip6_loop (tl rest) ip' ellipsis)"
  by pat_completeness auto
termination
  by (relation "measure (\<lambda>(s, ip, ellipsis). 16 - length ip)") auto

declare ip6_loop.simps [simp del]

definition ip6_expand :: "nat list \<times> nat option \<Rightarrow> nat list option" where
  "ip6_expand r =
    (let (ip, ellipsis) = r in
     if length ip < 16 then
       (case ellipsis of None \<Rightarrow> None | Some e \<Rightarrow> Some (take e ip @ replicate (16 - length ip) 0 @ drop e ip))
     else if ellipsis = None then Some ip else None)"

definition ip6_bytes :: "string \<Rightarrow> nat list option" where
  "ip6_bytes s =
    (if HasPrefix s ''::'' then
       (if drop 2 s = [] then Some (replicate 16 0)
        else Option.bind (ip6_loop (drop 2 s) [] (Some 0)) ip6_expand)
     else Option.bind (ip6_loop s [] None) ip6_expand)"

definition parse_v6 :: "string \<Rightarrow> addr option" where
  "parse_v6 s =
    (case Cut s (CHR ''%'') of (body, zone, found) \<Rightarrow>
      if found \<and> zone = [] then None else map_option (\<lambda>bs. V6 (word_of_bytes bs) zone) (ip6_bytes body))"

definition ParseAddr :: "string \<Rightarrow> addr option" where
  "ParseAddr s =
    (case dropWhile (\<lambda>c. c \<notin> set ''.:%'') s of
       [] \<Rightarrow> None
     | c # _ \<Rightarrow> if c = CHR ''.'' then map_option (\<lambda>bs. V4 (word_of_bytes bs)) (ip4_bytes s)
                else if c = CHR '':'' then parse_v6 s else None)"

fun Unmap :: "addr \<Rightarrow> addr" where
  "Unmap (V4 w) = V4 w"
| "Unmap (V6 w z) = (if drop_bit 32 w = 0xffff then V4 (ucast w) else V6 w z)"

section \<open>Classification\<close>

fun Is6 :: "addr \<Rightarrow> bool" where
  "Is6 (V4 _) = False"
| "Is6 (V6 _ _) = True"

fun IsLoopback :: "addr \<Rightarrow> bool" where
  "IsLoopback (V4 w) \<longleftrightarrow> drop_bit 24 w = 127"
| "IsLoopback (V6 w _) \<longleftrightarrow> w = 1"

fun IsPrivate :: "addr \<Rightarrow> bool" where
  "IsPrivate (V4 w) \<longleftrightarrow> drop_bit 24 w = 10 \<or>
     drop_bit 24 w = 172 \<and> (drop_bit 16 w AND 0xff) AND 0xf0 = 16 \<or>
     drop_bit 24 w = 192 \<and> drop_bit 16 w AND 0xff = 168"
| "IsPrivate (V6 w _) \<longleftrightarrow> drop_bit 120 w AND 0xfe = 0xfc"

fun IsLinkLocalUnicast :: "addr \<Rightarrow> bool" where
  "IsLinkLocalUnicast (V4 w) \<longleftrightarrow> drop_bit 24 w = 169 \<and> drop_bit 16 w AND 0xff = 254"
| "IsLinkLocalUnicast (V6 w _) \<longleftrightarrow> drop_bit 112 w AND 0xffc0 = 0xfe80"

text \<open>\<open>Prefix.Contains\<close> for an IPv4 prefix of the given length.\<close>

fun prefix4_contains :: "32 word \<Rightarrow> nat \<Rightarrow> addr \<Rightarrow> bool" where
  "prefix4_contains p bits (V4 w) \<longleftrightarrow> drop_bit (32 - bits) (w XOR p) = 0"
| "prefix4_contains p bits (V6 _ _) \<longleftrightarrow> False"

section \<open>Host and port\<close>

definition JoinHostPort :: "string \<Rightarrow> string \<Rightarrow> string" where
  "JoinHostPort host port =
    (if CHR '':'' \<in> set host then ''['' @ host @ '']:'' @ port else host @ '':'' @ port)"

text \<open>\<open>net.SplitHostPort\<close>: the last colon separates the port; a host in brackets may hold colons;
  a bracket anywhere else is an error.\<close>

definition last_colon :: "string \<Rightarrow> nat option" where
  "last_colon s = LastIndexAny s '':''"

definition SplitHostPort :: "string \<Rightarrow> (string \<times> string) option" where
  "SplitHostPort s =
    (case last_colon s of None \<Rightarrow> None | Some i \<Rightarrow>
      if s \<noteq> [] \<and> hd s = CHR ''['' then
        (case IndexByte s (CHR '']'') of None \<Rightarrow> None | Some e \<Rightarrow>
          if Suc e \<noteq> i then None
          else let host = take (e - 1) (drop 1 s); port = drop (Suc i) s in
            if CHR ''['' \<in> set (drop 1 s) \<or> CHR '']'' \<in> set (drop (Suc e) s) then None else Some (host, port))
      else let host = take i s; port = drop (Suc i) s in
        if CHR '':'' \<in> set host \<or> CHR ''['' \<in> set s \<or> CHR '']'' \<in> set s then None else Some (host, port))"

section \<open>Laws\<close>

text \<open>Shifts and masks as divisions of the value.\<close>

lemma unat_shift: "unat (drop_bit n w) = unat w div 2 ^ n"
  by (subst unat_drop_bit_eq) (simp add: drop_bit_eq_div)

lemma and_high_bits:
  fixes n :: nat
  assumes "n < 2 ^ (a + b)"
  shows "n AND push_bit a (mask b) = 2 ^ a * (n div 2 ^ a)"
proof -
  have low: "k < a + b" if "bit n k" for k
  proof (rule ccontr)
    assume "\<not> k < a + b"
    then have "n < 2 ^ k" by (intro less_le_trans[OF assms power_increasing]) simp_all
    then show False using that by (simp add: bit_iff_odd)
  qed
  have "n AND push_bit a (mask b) = push_bit a (drop_bit a n)"
    by (intro bit_eqI) (auto simp: bit_simps dest: low)
  then show ?thesis by (simp add: push_bit_eq_mult drop_bit_eq_div)
qed

lemma div_eq_range: "0 < (d :: nat) \<Longrightarrow> n div d = k \<longleftrightarrow> k * d \<le> n \<and> n < k * d + d"
  by (metis add.commute div_less_iff_less_mult div_mult_self_is_m dividend_less_div_times less_eq_div_iff_mult_less_eq
      mult.commute mult_Suc nat_less_le order_refl Suc_leI leD not_less_eq_eq)

lemma shift_eq_range:
  fixes w :: "'a::len word"
  assumes "unat v = k"
  shows "drop_bit n w = v \<longleftrightarrow> k * 2 ^ n \<le> unat w \<and> unat w < k * 2 ^ n + 2 ^ n"
  by (simp add: word_unat_eq_iff unat_shift assms div_eq_range)

text \<open>What is joined is split again.\<close>

lemma SplitHostPort_JoinHostPort:
  assumes "CHR ''['' \<notin> set host" "CHR '']'' \<notin> set host" "set port \<inter> {CHR '':'', CHR ''['', CHR '']''} = {}"
  shows "SplitHostPort (JoinHostPort host port) = Some (host, port)"
proof (cases "CHR '':'' \<in> set host")
  case True
  let ?s = "CHR ''['' # host @ CHR '']'' # CHR '':'' # port"
  have e: "IndexByte ?s (CHR '']'') = Some (Suc (length host))"
    using IndexByte_split[of "CHR '']''" "CHR ''['' # host" "CHR '':'' # port"] assms by simp
  have c: "last_colon ?s = Some (Suc (Suc (length host)))"
    using LastIndexAny_split[of "CHR '':''" "'':''" port "CHR ''['' # host @ '']''"] assms by (simp add: last_colon_def)
  show ?thesis using True assms e c by (simp add: JoinHostPort_def SplitHostPort_def)
next
  case False
  have "last_colon (host @ CHR '':'' # port) = Some (length host)"
    using LastIndexAny_split[of "CHR '':''" "'':''" port host] assms by (simp add: last_colon_def)
  then show ?thesis using False assms by (cases host) (auto simp: JoinHostPort_def SplitHostPort_def)
qed

lemma JoinHostPort_chars: "set (JoinHostPort host port) \<subseteq> set host \<union> set port \<union> {CHR '':'', CHR ''['', CHR '']''}"
  by (auto simp: JoinHostPort_def)

end
