(* ===== verification/Pair.thy ===== *)
theory Pair
  imports Sshm_Prelude Go_Netip
begin

text \<open>
  \<open>internal/pair/pair.go\<close>: one-time enrollment of a target on the local network. The callback
  handler is a state machine over requests and the receives of the pairing command: its state is the
  variables of the closure, the contents of the two channels and what the command has received.
  The mutex makes the part of a request after decoding one atomic step; decoding depends on the
  request alone, so a request is a single step. The channels are buffered, as the callers make
  them. The decoders of JSON and of forms, the name
  resolver and the route the operating system picks are parameters.
\<close>

section \<open>Reports\<close>

record PairReport =
  pr_User :: string
  pr_Hostname :: string
  pr_Platform :: string

definition maxReportBytes :: nat where "maxReportBytes = 8 * 2 ^ 10"

definition CallbackPath :: "string \<Rightarrow> string" where
  "CallbackPath token = ''/v1/pair/'' @ token"

definition CallbackURL :: "string \<Rightarrow> int \<Rightarrow> string \<Rightarrow> string" where
  "CallbackURL host port token = ''http://'' @ JoinHostPort host (Itoa port) @ CallbackPath token"

datatype report_error = EmptyField string | InvalidField string | UnsupportedPlatform string

definition validIdentityField :: "string \<Rightarrow> string \<Rightarrow> nat \<Rightarrow> report_error option" where
  "validIdentityField name val bound =
    (if val = [] then Some (EmptyField name)
     else if bound < RuneCountInString val \<or> ContainsAny val NUL_CR_LF then Some (InvalidField name)
     else None)"

definition pair_platforms :: "string list" where
  "pair_platforms = [''windows'', ''linux'', ''darwin'', ''freebsd'', ''other-posix'']"

definition validateReport :: "PairReport \<Rightarrow> report_error option" where
  "validateReport r =
    (case validIdentityField ''user'' (pr_User r) 128 of Some e \<Rightarrow> Some e | None \<Rightarrow>
     case validIdentityField ''hostname'' (pr_Hostname r) 255 of Some e \<Rightarrow> Some e | None \<Rightarrow>
     if pr_Platform r \<in> set pair_platforms then None else Some (UnsupportedPlatform (pr_Platform r)))"

definition normalizeReport :: "PairReport \<Rightarrow> PairReport" where
  "normalizeReport r = \<lparr>pr_User = TrimSpace (pr_User r), pr_Hostname = TrimSpace (pr_Hostname r),
     pr_Platform = ToLower (TrimSpace (pr_Platform r))\<rparr>"

text \<open>The decoders see the body up to the limit of the reader, and whether reading on fails there. The
  JSON decoder stops after the first value, so it can succeed on a longer body; the form decoder
  merges the values of the query.\<close>

record pair_request =
  rq_Method :: string
  rq_Path :: string
  rq_Query :: string
  rq_ContentType :: string
  rq_Body :: bytes

record pair_decoders =
  de_json :: "bytes \<Rightarrow> bool \<Rightarrow> PairReport option"
  de_form :: "pair_request \<Rightarrow> bool \<Rightarrow> (string \<Rightarrow> string) option"

definition limited_request :: "pair_request \<Rightarrow> pair_request \<times> bool" where
  "limited_request rq = (rq\<lparr>rq_Body := take maxReportBytes (rq_Body rq)\<rparr>, maxReportBytes < length (rq_Body rq))"

definition decodeReport :: "pair_decoders \<Rightarrow> pair_request \<times> bool \<Rightarrow> PairReport option" where
  "decodeReport dec body =
    (let (rq, cut) = body in
     if Contains (ToLower (rq_ContentType rq)) ''application/json'' then map_option normalizeReport (de_json dec (rq_Body rq) cut)
     else map_option (\<lambda>form. normalizeReport \<lparr>pr_User = form ''user'', pr_Hostname = form ''hostname'', pr_Platform = form ''platform''\<rparr>)
       (de_form dec rq cut))"

section \<open>The handler\<close>

datatype pair_response = NotFound404 | BadRequest400 | Accepted202 | Duplicate202 | Conflict409 | Unavailable503

record pair_state =
  ps_accepted :: bool
  ps_acceptedReport :: PairReport
  ps_reports :: "PairReport list" \<comment> \<open>buffered in the channel\<close>
  ps_retries :: nat \<comment> \<open>signals buffered in the retry channel\<close>
  ps_received :: "PairReport list" \<comment> \<open>taken by the pairing command\<close>

record pair_config =
  pc_token :: string
  pc_reports_cap :: nat
  pc_retries_cap :: nat \<comment> \<open>0 stands for a nil channel too\<close>
  pc_dec :: pair_decoders

definition critical_section :: "pair_config \<Rightarrow> PairReport \<Rightarrow> pair_state \<Rightarrow> pair_response \<times> pair_state" where
  "critical_section cfg r st =
    (if ps_accepted st then
       (if r = ps_acceptedReport st
        then (Duplicate202, st\<lparr>ps_retries := (if ps_retries st < pc_retries_cap cfg then Suc (ps_retries st) else ps_retries st)\<rparr>)
        else (Conflict409, st))
     else if length (ps_reports st) < pc_reports_cap cfg
     then (Accepted202, st\<lparr>ps_reports := ps_reports st @ [r], ps_accepted := True, ps_acceptedReport := r\<rparr>)
     else (Unavailable503, st))"

definition HandlerWithRetrySignal :: "pair_config \<Rightarrow> pair_request \<Rightarrow> pair_state \<Rightarrow> pair_response \<times> pair_state" where
  "HandlerWithRetrySignal cfg rq st =
    (if rq_Method rq \<noteq> ''POST'' \<or> rq_Path rq \<noteq> CallbackPath (pc_token cfg) then (NotFound404, st)
     else case decodeReport (pc_dec cfg) (limited_request rq) of None \<Rightarrow> (BadRequest400, st) | Some r \<Rightarrow>
       if validateReport r \<noteq> None then (BadRequest400, st) else critical_section cfg r st)"

definition pair_start :: pair_state where
  "pair_start = \<lparr>ps_accepted = False, ps_acceptedReport = \<lparr>pr_User = [], pr_Hostname = [], pr_Platform = []\<rparr>,
     ps_reports = [], ps_retries = 0, ps_received = []\<rparr>"

text \<open>The steps of a session: a request is served, or the command receives a report or a retry
  signal.\<close>

inductive pair_step :: "pair_config \<Rightarrow> pair_state \<Rightarrow> pair_state \<Rightarrow> bool" for cfg where
  request: "HandlerWithRetrySignal cfg rq st = (resp, st') \<Longrightarrow> pair_step cfg st st'"
| receive: "ps_reports st = r # rs \<Longrightarrow> pair_step cfg st (st\<lparr>ps_reports := rs, ps_received := ps_received st @ [r]\<rparr>)"
| retry: "ps_retries st = Suc n \<Longrightarrow> pair_step cfg st (st\<lparr>ps_retries := n\<rparr>)"

inductive_cases pair_stepE: "pair_step cfg st st'"

inductive pair_reach :: "pair_config \<Rightarrow> pair_state \<Rightarrow> bool" for cfg where
  start: "pair_reach cfg pair_start"
| step: "pair_reach cfg st \<Longrightarrow> pair_step cfg st st' \<Longrightarrow> pair_reach cfg st'"

section \<open>Callback addresses\<close>

definition trustedCallbackIP :: "addr \<Rightarrow> bool" where
  "trustedCallbackIP ip =
    (if Is6 ip \<and> IsLinkLocalUnicast ip then False
     else if IsLoopback ip \<or> IsPrivate ip \<or> IsLinkLocalUnicast ip then True
     else prefix4_contains (word_of_bytes [100, 64, 0, 0]) 10 ip)"

definition legacy_digits :: "string \<Rightarrow> bool" where
  "legacy_digits part =
    (if 2 < length part \<and> part ! 0 = CHR ''0'' \<and> (part ! 1 = CHR ''x'' \<or> part ! 1 = CHR ''X'') then list_all is_hex_digit (drop 2 part)
     else if 1 < length part \<and> part ! 0 = CHR ''0'' then list_all (\<lambda>c. CHR ''0'' \<le> c \<and> c \<le> CHR ''7'') (drop 1 part)
     else list_all is_digit part)"

definition looksLikeLegacyNumericAddress :: "string \<Rightarrow> bool" where
  "looksLikeLegacyNumericAddress host =
    (let parts = Split_byte host (CHR ''.'') in
     if parts = [] \<or> 4 < length parts then False else list_all (\<lambda>p. p \<noteq> [] \<and> legacy_digits p) parts)"

definition label_byte :: "char \<Rightarrow> bool" where
  "label_byte c \<longleftrightarrow> is_lower c \<or> is_upper c \<or> is_digit c \<or> c = CHR ''-''"

definition valid_label :: "string \<Rightarrow> bool" where
  "valid_label l \<longleftrightarrow> l \<noteq> [] \<and> length l \<le> 63 \<and> hd l \<noteq> CHR ''-'' \<and> last l \<noteq> CHR ''-'' \<and> list_all label_byte l"

definition validCallbackHostname :: "string \<Rightarrow> bool" where
  "validCallbackHostname host0 =
    (if 253 < length host0 then False
     else let host = TrimSuffix host0 ''.'' in
       if host = [] then False else list_all valid_label (Split_byte host (CHR ''.'')))"

datatype callback_error = NotAHost | UntrustedAddress addr | LegacyNumeric | BadHostname | ResolvesUntrusted addr
  | EmptyTarget | NoRoute | NoLocalIP | NoRemoteIP | UntrustedTarget addr | UntrustedLocal addr

definition callback_host :: "string \<Rightarrow> string" where
  "callback_host host = TrimSpace (Trim host ''[]'')"

text \<open>\<open>lookup\<close> is the name resolver: the addresses of a name, or None when the lookup fails.\<close>

definition ValidateCallbackHost :: "(string \<Rightarrow> addr list option) \<Rightarrow> string \<Rightarrow> callback_error option" where
  "ValidateCallbackHost lookup host0 =
    (let host = callback_host host0 in
     if host = [] \<or> ContainsAny host (NUL_CR_LF @ ''/?#'') then Some NotAHost
     else let canonical = TrimSuffix host ''.'' in
       case ParseAddr canonical of
         Some ip \<Rightarrow> if \<not> trustedCallbackIP (Unmap ip) then Some (UntrustedAddress ip) else None
       | None \<Rightarrow>
         if CHR '':'' \<in> set host then Some NotAHost
         else if looksLikeLegacyNumericAddress canonical then Some LegacyNumeric
         else if \<not> validCallbackHostname host then Some BadHostname
         else case lookup canonical of None \<Rightarrow> None | Some as \<Rightarrow>
           (case List.find (\<lambda>a. \<not> trustedCallbackIP (Unmap a)) as of
              None \<Rightarrow> None | Some a \<Rightarrow> Some (ResolvesUntrusted (Unmap a))))"

text \<open>\<open>route\<close> is what a UDP socket connected to the target says of its two ends; an end can be
  without an address. The result is the address whose text the code returns.\<close>

definition DiscoverCallbackHost :: "(string \<Rightarrow> int \<Rightarrow> (addr option \<times> addr option) option) \<Rightarrow> string \<Rightarrow> int \<Rightarrow> callback_error + addr" where
  "DiscoverCallbackHost route target0 port0 =
    (let target = callback_host target0; port = (if port0 = 0 then 22 else port0) in
     if target = [] then Inl EmptyTarget
     else case route target port of
       None \<Rightarrow> Inl NoRoute
     | Some (None, _) \<Rightarrow> Inl NoLocalIP
     | Some (Some _, None) \<Rightarrow> Inl NoRemoteIP
     | Some (Some l, Some r) \<Rightarrow>
         if \<not> trustedCallbackIP (Unmap r) then Inl (UntrustedTarget (Unmap r))
         else if \<not> trustedCallbackIP (Unmap l) then Inl (UntrustedLocal (Unmap l))
         else Inr (Unmap l))"

section \<open>Laws\<close>

lemma normalizeReport_idem: "normalizeReport (normalizeReport r) = normalizeReport r"
  by (simp add: normalizeReport_def TrimSpace_ToLower)

text \<open>What a session keeps true: at most one report has been accepted, and it is normalised and
  valid.\<close>

definition pair_inv :: "pair_state \<Rightarrow> bool" where
  "pair_inv st \<longleftrightarrow>
    ps_received st @ ps_reports st = (if ps_accepted st then [ps_acceptedReport st] else []) \<and>
    (ps_accepted st \<longrightarrow> validateReport (ps_acceptedReport st) = None \<and> (\<exists>raw. ps_acceptedReport st = normalizeReport raw))"

lemma decodeReport_normal: "decodeReport dec b = Some r \<Longrightarrow> \<exists>raw. r = normalizeReport raw"
  by (auto simp: decodeReport_def split: if_splits prod.splits)

lemma handler_inv:
  assumes "pair_inv st" "HandlerWithRetrySignal cfg rq st = (resp, st')"
  shows "pair_inv st'"
  using assms by (auto simp: HandlerWithRetrySignal_def critical_section_def pair_inv_def dest: decodeReport_normal
      split: if_splits option.splits)

lemma pair_step_inv: "pair_step cfg st st' \<Longrightarrow> pair_inv st \<Longrightarrow> pair_inv st'"
  by (auto elim!: pair_stepE intro: handler_inv) (auto simp: pair_inv_def split: if_splits)

lemma pair_reach_inv: "pair_reach cfg st \<Longrightarrow> pair_inv st"
proof (induction rule: pair_reach.induct)
  case start
  show ?case by (simp add: pair_inv_def pair_start_def)
next
  case (step st st')
  then show ?case by (blast intro: pair_step_inv)
qed

lemma xor_zero_iff: "a XOR b = 0 \<longleftrightarrow> a = (b :: 'a::len word)"
proof
  assume "a XOR b = 0"
  moreover have "(a XOR b) XOR b = a" by (simp add: xor.assoc)
  ultimately show "a = b" by simp
qed simp

lemma div_mod_pair: "(b :: nat) < d \<Longrightarrow> m div d = a \<and> m mod d = b \<longleftrightarrow> m = a * d + b"
  by (auto simp: div_mult_mod_eq)

lemma trusted_v4_parts:
  fixes w :: "32 word"
  defines "n \<equiv> unat w"
  shows "IsLoopback (V4 w) \<longleftrightarrow> n div 2 ^ 24 = 127"
    and "IsPrivate (V4 w) \<longleftrightarrow> n div 2 ^ 24 = 10 \<or> n div 2 ^ 20 = 172 * 16 + 1 \<or> n div 2 ^ 16 = 192 * 256 + 168"
    and "IsLinkLocalUnicast (V4 w) \<longleftrightarrow> n div 2 ^ 16 = 169 * 256 + 254"
    and "prefix4_contains (word_of_bytes [100, 64, 0, 0]) 10 (V4 w) \<longleftrightarrow> n div 2 ^ 22 = 100 * 4 + 1"
proof -
  define m where "m = n div 2 ^ 16"
  have eq: "drop_bit k w = v \<longleftrightarrow> n div 2 ^ k = unat v" for k v
    by (simp add: word_unat_eq_iff unat_shift n_def)
  have m24: "n div 2 ^ 24 = m div 256" and m20: "n div 2 ^ 20 = m div 16"
    by (simp_all add: m_def flip: div_mult2_eq)
  have "(0xff :: 32 word) = mask 8" by (simp add: mask_eq_exp_minus_1)
  then have "unat (drop_bit 16 w AND 0xff) = unat (take_bit 8 (drop_bit 16 w))" by (simp only: take_bit_eq_mask)
  then have byte: "unat (drop_bit 16 w AND 0xff) = m mod 256"
    unfolding unsigned_take_bit_eq unfolding unat_shift m_def n_def take_bit_eq_mod by simp
  then have byte_eq: "drop_bit 16 w AND 0xff = v \<longleftrightarrow> m mod 256 = unat v" for v by (simp add: word_unat_eq_iff)
  have "m mod (16 * 16) = 16 * (m div 16 mod 16) + m mod 16" by (rule mod_mult2_eq)
  then have nib: "m mod 256 div 16 = m div 16 mod 16" by simp
  have "(m mod 256) AND push_bit 4 (mask 4) = 2 ^ 4 * (m mod 256 div 2 ^ 4)" by (rule and_high_bits) simp
  then have f0: "(m mod 256) AND 0xf0 = 16 * (m div 16 mod 16)" by (simp add: mask_eq_exp_minus_1 nib)
  show "IsLoopback (V4 w) \<longleftrightarrow> n div 2 ^ 24 = 127" by (simp add: eq)
  show "IsLinkLocalUnicast (V4 w) \<longleftrightarrow> n div 2 ^ 16 = 169 * 256 + 254"
    using div_mod_pair[of 254 256 m 169] unfolding m_def[symmetric] IsLinkLocalUnicast.simps eq m24 byte_eq by simp
  have "unat ((drop_bit 16 w AND 0xff) AND 0xf0) = 16 * (m div 16 mod 16)"
    using f0 by (subst unsigned_and_eq) (simp only: byte, simp)
  then have "(drop_bit 16 w AND 0xff) AND 0xf0 = 16 \<longleftrightarrow> m div 16 mod 16 = 1" by (simp add: word_unat_eq_iff)
  moreover have "m div 256 = m div 16 div 16" by (simp flip: div_mult2_eq)
  ultimately show "IsPrivate (V4 w) \<longleftrightarrow> n div 2 ^ 24 = 10 \<or> n div 2 ^ 20 = 172 * 16 + 1 \<or> n div 2 ^ 16 = 192 * 256 + 168"
    using div_mod_pair[of 1 16 "m div 16" 172] div_mod_pair[of 168 256 m 192]
    unfolding m_def[symmetric] IsPrivate.simps eq m24 m20 byte_eq by simp
  have "word_of_bytes [100, 64, 0, 0] = (0x64400000 :: 32 word)" by code_simp
  moreover have "drop_bit 22 (w XOR 0x64400000) = 0 \<longleftrightarrow> drop_bit 22 w = (drop_bit 22 0x64400000 :: 32 word)"
    unfolding drop_bit_xor by (rule xor_zero_iff)
  moreover have "unat (drop_bit 22 0x64400000 :: 32 word) = 100 * 4 + 1" by (simp add: unat_shift)
  ultimately show "prefix4_contains (word_of_bytes [100, 64, 0, 0]) 10 (V4 w) \<longleftrightarrow> n div 2 ^ 22 = 100 * 4 + 1"
    by (simp add: eq)
qed

lemma trusted_v6_parts:
  fixes w :: "128 word"
  shows "IsPrivate (V6 w z) \<longleftrightarrow> unat w div 2 ^ 121 = 0x7e" and "IsLinkLocalUnicast (V6 w z) \<longleftrightarrow> unat w div 2 ^ 118 = 0x3fa"
proof -
  have b: "unat w div 2 ^ 120 < 2 ^ (1 + 7)" "unat w div 2 ^ 112 < 2 ^ (6 + 10)"
    using unsigned_less[of w, where ?'a = nat] by (simp_all add: div_less_iff_less_mult)
  have "(unat w div 2 ^ 120) AND 0xfe = 2 * (unat w div 2 ^ 120 div 2)"
    using and_high_bits[OF b(1)] by (simp add: mask_eq_exp_minus_1)
  then have "unat (drop_bit 120 w AND 0xfe) = 2 * (unat w div 2 ^ 121)"
    by (subst unsigned_and_eq) (simp add: unat_shift flip: div_mult2_eq)
  then show "IsPrivate (V6 w z) \<longleftrightarrow> unat w div 2 ^ 121 = 0x7e" by (simp add: word_unat_eq_iff)
  have "(unat w div 2 ^ 112) AND 0xffc0 = 64 * (unat w div 2 ^ 112 div 64)"
    using and_high_bits[OF b(2)] by (simp add: mask_eq_exp_minus_1)
  then have "unat (drop_bit 112 w AND 0xffc0) = 64 * (unat w div 2 ^ 118)"
    by (subst unsigned_and_eq) (simp add: unat_shift flip: div_mult2_eq)
  then show "IsLinkLocalUnicast (V6 w z) \<longleftrightarrow> unat w div 2 ^ 118 = 0x3fa" by (simp add: word_unat_eq_iff)
qed

lemma accepted_stays:
  assumes "(pair_step cfg)\<^sup>*\<^sup>* st st'" "ps_accepted st"
  shows "ps_accepted st' \<and> ps_acceptedReport st' = ps_acceptedReport st"
  using assms
proof (induction rule: rtranclp_induct)
  case (step y z)
  then show ?case by (auto elim!: pair_stepE simp: HandlerWithRetrySignal_def critical_section_def split: if_splits option.splits)
qed simp

lemma net_range:
  fixes w :: "'a::len word"
  assumes "unat lo = a * 2 ^ k" "unat hi = a * 2 ^ k + (2 ^ k - 1)"
  shows "unat w div 2 ^ k = a \<longleftrightarrow> w \<in> {lo..hi}"
proof -
  have "n < m + 2 ^ k \<longleftrightarrow> n \<le> m + (2 ^ k - 1)" for n m :: nat by (cases "2 ^ k :: nat") auto
  then show ?thesis by (simp add: div_eq_range word_le_nat_alt assms)
qed

lemma v4_nets:
  fixes w :: "32 word"
  shows "unat w div 2 ^ 24 = 127 \<longleftrightarrow> w \<in> {0x7f000000..0x7fffffff}" "unat w div 2 ^ 24 = 10 \<longleftrightarrow> w \<in> {0x0a000000..0x0affffff}"
    "unat w div 2 ^ 20 = 172 * 16 + 1 \<longleftrightarrow> w \<in> {0xac100000..0xac1fffff}"
    "unat w div 2 ^ 16 = 192 * 256 + 168 \<longleftrightarrow> w \<in> {0xc0a80000..0xc0a8ffff}"
    "unat w div 2 ^ 16 = 169 * 256 + 254 \<longleftrightarrow> w \<in> {0xa9fe0000..0xa9feffff}"
    "unat w div 2 ^ 22 = 100 * 4 + 1 \<longleftrightarrow> w \<in> {0x64400000..0x647fffff}"
  by (rule net_range; simp)+

lemma v6_net:
  fixes w :: "128 word"
  shows "unat w div 2 ^ 121 = 0x7e \<longleftrightarrow> w \<in> {0xfc000000000000000000000000000000..0xfdffffffffffffffffffffffffffffff}"
  by (rule net_range; simp)

text \<open>A session with one report buffered, for the examples.\<close>

definition demo_pair_config :: pair_config where
  "demo_pair_config = \<lparr>pc_token = ''t0ken'', pc_reports_cap = 1, pc_retries_cap = 1,
     pc_dec = \<lparr>de_json = \<lambda>b cut. if b = ''body'' then Some \<lparr>pr_User = '' deploy '', pr_Hostname = ''box'', pr_Platform = ''Linux''\<rparr> else None,
       de_form = \<lambda>_ _. None\<rparr>\<rparr>"

definition demo_pair_request :: pair_request where
  "demo_pair_request = \<lparr>rq_Method = ''POST'', rq_Path = ''/v1/pair/t0ken'', rq_Query = [],
     rq_ContentType = ''application/json'', rq_Body = ''body''\<rparr>"

definition demo_pair_accepted :: pair_state where
  "demo_pair_accepted = pair_start\<lparr>ps_accepted := True,
     ps_acceptedReport := \<lparr>pr_User = ''deploy'', pr_Hostname = ''box'', pr_Platform = ''linux''\<rparr>,
     ps_reports := [\<lparr>pr_User = ''deploy'', pr_Hostname = ''box'', pr_Platform = ''linux''\<rparr>]\<rparr>"

lemma demo_handle: "HandlerWithRetrySignal demo_pair_config demo_pair_request pair_start = (Accepted202, demo_pair_accepted)"
  by code_simp

section \<open>Properties\<close>



text \<open>A lost response does not spoil an enrollment: once a request has been accepted, repeating it at
  any later time is acknowledged and enqueues nothing, while any other valid report is refused
  without an effect.\<close>

theorem pair_retry_is_idempotent:
  assumes "HandlerWithRetrySignal cfg rq st = (Accepted202, st1)" "(pair_step cfg)\<^sup>*\<^sup>* st1 st2"
  shows "(\<exists>st3. HandlerWithRetrySignal cfg rq st2 = (Duplicate202, st3) \<and>
      ps_reports st3 = ps_reports st2 \<and> ps_received st3 = ps_received st2 \<and> ps_acceptedReport st3 = ps_acceptedReport st1) \<and>
    (\<forall>rq' r. rq_Method rq' = ''POST'' \<and> rq_Path rq' = CallbackPath (pc_token cfg) \<and>
      decodeReport (pc_dec cfg) (limited_request rq') = Some r \<and> validateReport r = None \<and> r \<noteq> ps_acceptedReport st1 \<longrightarrow>
      HandlerWithRetrySignal cfg rq' st2 = (Conflict409, st2))"
proof -
  obtain r0 where r0: "rq_Method rq = ''POST''" "rq_Path rq = CallbackPath (pc_token cfg)"
    "decodeReport (pc_dec cfg) (limited_request rq) = Some r0" "validateReport r0 = None"
    "ps_accepted st1" "ps_acceptedReport st1 = r0"
    using assms(1) by (auto simp: HandlerWithRetrySignal_def critical_section_def split: if_splits option.splits)
  have "ps_accepted st2 \<and> ps_acceptedReport st2 = r0" using accepted_stays[OF assms(2) r0(5)] r0(6) by simp
  then show ?thesis using r0 by (simp add: HandlerWithRetrySignal_def critical_section_def)
qed

theorem pair_retry_is_idempotent_witness:
  "\<exists>st3. HandlerWithRetrySignal demo_pair_config demo_pair_request demo_pair_accepted = (Duplicate202, st3) \<and>
     ps_reports st3 = ps_reports demo_pair_accepted"
  using pair_retry_is_idempotent[OF demo_handle rtranclp.rtrancl_refl] by blast

text \<open>The addresses to which the plain-text callback may go are exactly the loopback, private,
  IPv4 link-local and carrier-grade NAT ranges of IPv4, and of IPv6 the loopback address and the
  unique local range \<open>fc00::/7\<close>; no other 32-bit or 128-bit address is trusted.\<close>

theorem trusted_callback_ranges:
  "(trustedCallbackIP (V4 w) \<longleftrightarrow>
      w \<in> {0x7f000000..0x7fffffff} \<union> {0x0a000000..0x0affffff} \<union> {0xac100000..0xac1fffff} \<union> {0xc0a80000..0xc0a8ffff} \<union>
          {0xa9fe0000..0xa9feffff} \<union> {0x64400000..0x647fffff}) \<and>
   (trustedCallbackIP (V6 w' z) \<longleftrightarrow>
      w' = 1 \<or> w' \<in> {0xfc000000000000000000000000000000..0xfdffffffffffffffffffffffffffffff})"
proof
  show "trustedCallbackIP (V4 w) \<longleftrightarrow>
      w \<in> {0x7f000000..0x7fffffff} \<union> {0x0a000000..0x0affffff} \<union> {0xac100000..0xac1fffff} \<union> {0xc0a80000..0xc0a8ffff} \<union>
          {0xa9fe0000..0xa9feffff} \<union> {0x64400000..0x647fffff}"
    unfolding trustedCallbackIP_def trusted_v4_parts Is6.simps v4_nets Un_iff by argo
  have "unat w' div 2 ^ 118 div 2 ^ 3 = unat w' div 2 ^ 121" by (simp flip: div_mult2_eq)
  then have "unat w' div 2 ^ 118 = 0x3fa \<Longrightarrow> unat w' div 2 ^ 121 \<noteq> 0x7e" by auto
  moreover have "w' = 1 \<Longrightarrow> unat w' div 2 ^ 118 \<noteq> 0x3fa" by simp
  ultimately show "trustedCallbackIP (V6 w' z) \<longleftrightarrow>
      w' = 1 \<or> w' \<in> {0xfc000000000000000000000000000000..0xfdffffffffffffffffffffffffffffff}"
    unfolding trustedCallbackIP_def trusted_v6_parts Is6.simps IsLoopback.simps prefix4_contains.simps v6_net[symmetric] by argo
qed

text \<open>A callback host that passes validation never leads outside those ranges: an address literal
  is itself trusted, and a name is a well-formed host name, not a number in disguise, none of
  whose resolved addresses is untrusted. An automatically discovered callback address is
  trusted, and so is the address of its target.\<close>

theorem callback_host_is_trusted:
  "(ValidateCallbackHost lookup host = None \<longrightarrow>
     (case ParseAddr (TrimSuffix (callback_host host) ''.'') of
        Some ip \<Rightarrow> trustedCallbackIP (Unmap ip)
      | None \<Rightarrow> validCallbackHostname (callback_host host) \<and> \<not> looksLikeLegacyNumericAddress (TrimSuffix (callback_host host) ''.'') \<and>
          (\<forall>as. lookup (TrimSuffix (callback_host host) ''.'') = Some as \<longrightarrow> (\<forall>a \<in> set as. trustedCallbackIP (Unmap a))))) \<and>
   (DiscoverCallbackHost route target port = Inr ip \<longrightarrow> trustedCallbackIP ip \<and>
     (\<exists>l r. route (callback_host target) (if port = 0 then 22 else port) = Some (Some l, Some r) \<and> ip = Unmap l \<and> trustedCallbackIP (Unmap r)))"
proof
  show "ValidateCallbackHost lookup host = None \<longrightarrow>
     (case ParseAddr (TrimSuffix (callback_host host) ''.'') of
        Some ip \<Rightarrow> trustedCallbackIP (Unmap ip)
      | None \<Rightarrow> validCallbackHostname (callback_host host) \<and> \<not> looksLikeLegacyNumericAddress (TrimSuffix (callback_host host) ''.'') \<and>
          (\<forall>as. lookup (TrimSuffix (callback_host host) ''.'') = Some as \<longrightarrow> (\<forall>a \<in> set as. trustedCallbackIP (Unmap a))))"
    by (auto simp: ValidateCallbackHost_def Let_def find_None_iff split: if_splits option.splits)
  show "DiscoverCallbackHost route target port = Inr ip \<longrightarrow> trustedCallbackIP ip \<and>
     (\<exists>l r. route (callback_host target) (if port = 0 then 22 else port) = Some (Some l, Some r) \<and> ip = Unmap l \<and> trustedCallbackIP (Unmap r))"
    by (auto simp: DiscoverCallbackHost_def Let_def split: if_splits option.splits prod.splits)
qed

theorem callback_host_is_trusted_witness: "trustedCallbackIP (v4 192 168 1 2)"
proof -
  have "ValidateCallbackHost (\<lambda>_. None) ''192.168.1.2'' = None" by code_simp
  moreover have "ParseAddr (TrimSuffix (callback_host ''192.168.1.2'') ''.'') = Some (v4 192 168 1 2)" by code_simp
  ultimately show ?thesis using callback_host_is_trusted[of "\<lambda>_. None" "''192.168.1.2''"] by (simp add: v4_def)
qed

end
