(* ===== verification/Updater.thy ===== *)
theory Updater
  imports Config_Model
begin

text \<open>
  \<open>internal/updater/update.go\<close> and the update command of \<open>internal/commands/update.go\<close>: version
  comparison, verification of the signed release manifest, the download and the replacement of the
  running binary on a file system given as a map from paths to contents.

  Ed25519, SHA-256, base64, the JSON decoders and \<open>url.Parse\<close> are fields of an environment record;
  so are the answers of the server, the platform and which file operations fail.
\<close>

section \<open>Versions\<close>

definition re_number :: re where
  "re_number = alts [lit ''0'', seqs [Cls (\<lambda>c. CHR ''1'' \<le> c \<and> c \<le> CHR ''9''), many digit]]"

definition re_identifiers :: re where
  "re_identifiers = some (Cls (\<lambda>c. is_digit c \<or> is_upper c \<or> is_lower c \<or> c = CHR ''.'' \<or> c = CHR ''-''))"

definition versionRE :: re where
  "versionRE = seqs [TextStart, opt (lit ''v''), Grp 1 re_number, lit ''.'', Grp 2 re_number, lit ''.'', Grp 3 re_number,
     opt (seqs [lit ''-'', Grp 4 re_identifiers]), opt (seqs [lit ''+'', re_identifiers]), TextEnd]"

definition version_match :: "string \<Rightarrow> (string list \<times> string) option" where
  "version_match s =
    (case search_from versionRE s 0 of None \<Rightarrow> None
     | Some (a, j, cs) \<Rightarrow> Some ([submatch s cs 1, submatch s cs 2, submatch s cs 3], submatch s cs 4))"

datatype update_error = UnrecognizedVersion | VersionRange | ManifestTooLarge | InvalidManifest | KeyUnavailable
  | BadSignature | InvalidRelease | ReleaseExpired | InvalidAsset | Unreachable | HttpStatus int | ReadFailed
  | NoAsset | TempFailed | DownloadFailed | Mismatch | SyncFailed | CloseFailed | ChmodFailed
  | NoExecutable | PackageManaged | StagingDirectory | NotRegular | CannotPreserve | RestoreFailed | ActivationFailed
  | UpdateLocked | NeedsConfirmation

text \<open>The loop over the three numbers: an error, a decision, or none.\<close>

fun cmp_numbers :: "string list \<Rightarrow> string list \<Rightarrow> update_error + int option" where
  "cmp_numbers (a # as) (b # bs) =
    (let (x, okx) = ParseUint64 a; (y, oky) = ParseUint64 b in
     if \<not> okx then Inl VersionRange
     else if \<not> oky then Inl VersionRange
     else if x < y then Inr (Some (-1)) else if y < x then Inr (Some 1) else cmp_numbers as bs)"
| "cmp_numbers _ _ = Inr None"

definition strings_Compare :: "string \<Rightarrow> string \<Rightarrow> int" where
  "strings_Compare x y = (if x < y then -1 else if x = y then 0 else 1)"

fun cmp_identifiers :: "string list \<Rightarrow> string list \<Rightarrow> int" where
  "cmp_identifiers (x # xs) (y # ys) =
    (if x = y then cmp_identifiers xs ys
     else let (nx, ex) = ParseUint64 x; (ny, ey) = ParseUint64 y in
       if ex \<and> ey then (if nx < ny then -1 else 1)
       else if ex then -1
       else if ey then 1
       else strings_Compare x y)"
| "cmp_identifiers xs ys = (if length xs < length ys then -1 else 1)"

definition Compare :: "string \<Rightarrow> string \<Rightarrow> update_error + int" where
  "Compare a b =
    (case (version_match a, version_match b) of
       (Some (an, ap), Some (bn, bp)) \<Rightarrow>
         (case cmp_numbers an bn of
            Inl e \<Rightarrow> Inl e
          | Inr (Some c) \<Rightarrow> Inr c
          | Inr None \<Rightarrow>
              if ap = bp then Inr 0
              else if ap = [] then Inr 1
              else if bp = [] then Inr (-1)
              else Inr (cmp_identifiers (Split_byte ap (CHR ''.'')) (Split_byte bp (CHR ''.''))))
     | _ \<Rightarrow> Inl UnrecognizedVersion)"

section \<open>Releases\<close>

record Asset =
  as_OS :: string
  as_Arch :: string
  as_URL :: string
  as_SHA256 :: string
  as_Size :: int

record Release =
  re_Protocol :: int
  re_Version :: string
  re_Published :: int
  re_Expires :: int
  re_Assets :: "Asset list"

record Signed =
  si_Payload :: bytes
  si_Signature :: string

record url_parts =
  ur_Scheme :: string
  ur_Host :: string
  ur_User :: bool
  ur_Query :: string
  ur_Fragment :: string
  ur_Path :: string

text \<open>A body of a response: what can be read of it, and whether reading it to the end fails.\<close>

record response =
  hr_Status :: int
  hr_Body :: bytes
  hr_Broken :: bool

datatype up_step = UpTemp | UpSync | UpClose | UpChmod | UpPreserve | UpActivate | UpRestore | UpLock

record up_env =
  ue_json_signed :: "bytes \<Rightarrow> Signed option"
  ue_json_release :: "bytes \<Rightarrow> Release option"
  ue_base64 :: "string \<Rightarrow> bytes option"
  ue_verify :: "bytes \<Rightarrow> bytes \<Rightarrow> bytes \<Rightarrow> bool"
  ue_url :: "string \<Rightarrow> url_parts option"
  ue_sha256 :: "bytes \<Rightarrow> bytes"
  ue_get :: "string \<Rightarrow> response option"
  ue_fails :: "up_step \<Rightarrow> bool"
  ue_os :: string
  ue_arch :: string
  ue_executable :: "string option" \<comment> \<open>with symbolic links resolved\<close>
  ue_temp :: "string \<Rightarrow> string" \<comment> \<open>a fresh name in a directory\<close>
  ue_stamp :: string \<comment> \<open>the decimal time that makes the backup name\<close>

definition FeedURL :: string where "FeedURL = ''https://sshm.yunmini.net/downloads/release.json''"
definition PublicKey :: string where "PublicKey = ''ihdgSJDRX-pBIH6ORAanzGs4-JwAFNcmYreMXR2R8wU''"
definition MaxDownload :: int where "MaxDownload = 64 * 1024 * 1024"

definition asset_ok :: "up_env \<Rightarrow> string list \<Rightarrow> Asset \<Rightarrow> bool" where
  "asset_ok env seen a \<longleftrightarrow>
    (case (ue_url env (as_URL a), hex_decode (as_SHA256 a)) of
       (Some u, Some digest) \<Rightarrow> ur_Scheme u = ''https'' \<and> ur_Host u = ''sshm.yunmini.net'' \<and> \<not> ur_User u \<and> ur_Query u = [] \<and>
         ur_Fragment u = [] \<and> HasPrefix (ur_Path u) ''/downloads/sshm-'' \<and> length digest = 32 \<and> 1 \<le> as_Size a \<and>
         as_Size a \<le> MaxDownload \<and> as_OS a @ ''/'' @ as_Arch a \<notin> set seen
     | _ \<Rightarrow> False)"

fun assets_ok :: "up_env \<Rightarrow> string list \<Rightarrow> Asset list \<Rightarrow> bool" where
  "assets_ok env seen [] = True"
| "assets_ok env seen (a # as) = (asset_ok env seen a \<and> assets_ok env ((as_OS a @ ''/'' @ as_Arch a) # seen) as)"

text \<open>\<open>now\<close> in seconds since 1970.\<close>

definition Verify :: "up_env \<Rightarrow> bytes \<Rightarrow> string \<Rightarrow> int \<Rightarrow> update_error + Release" where
  "Verify env b public now =
    (if 64 * 1024 < length b then Inl ManifestTooLarge
     else case ue_json_signed env b of None \<Rightarrow> Inl InvalidManifest | Some sg \<Rightarrow>
     case ue_base64 env public of None \<Rightarrow> Inl KeyUnavailable | Some key \<Rightarrow>
     if length key \<noteq> 32 then Inl KeyUnavailable
     else case ue_base64 env (si_Signature sg) of None \<Rightarrow> Inl BadSignature | Some sig \<Rightarrow>
     if \<not> ue_verify env key (si_Payload sg) sig then Inl BadSignature
     else case ue_json_release env (si_Payload sg) of None \<Rightarrow> Inl InvalidRelease | Some r \<Rightarrow>
     if re_Protocol r \<noteq> 1 \<or> re_Assets r = [] \<or> 20 < length (re_Assets r) then Inl InvalidRelease
     else case Compare (re_Version r) (re_Version r) of Inl e \<Rightarrow> Inl e | Inr _ \<Rightarrow>
     if now + 24 * 60 * 60 < re_Published r \<or> re_Expires r < now \<or> re_Expires r \<le> re_Published r then Inl ReleaseExpired
     else if assets_ok env [] (re_Assets r) then Inr r else Inl InvalidAsset)"

definition Check :: "up_env \<Rightarrow> int \<Rightarrow> update_error + (Release \<times> bytes)" where
  "Check env now =
    (case ue_get env FeedURL of None \<Rightarrow> Inl Unreachable | Some r \<Rightarrow>
     if hr_Status r \<noteq> 200 then Inl (HttpStatus (hr_Status r))
     else if hr_Broken r \<and> length (hr_Body r) \<le> 64 * 1024 then Inl ReadFailed
     else let b = take (64 * 1024 + 1) (hr_Body r) in
       bind_result (Verify env b PublicKey now) (\<lambda>release. Inr (release, b)))"

definition Release_Asset :: "up_env \<Rightarrow> Release \<Rightarrow> update_error + Asset" where
  "Release_Asset env r =
    (case List.find (\<lambda>a. as_OS a = ue_os env \<and> as_Arch a = ue_arch env) (re_Assets r) of
       None \<Rightarrow> Inl NoAsset | Some a \<Rightarrow> Inr a)"

section \<open>Files\<close>

type_synonym files = "(string, bytes) gomap"

text \<open>On every failure the deferred function removes the temporary file.\<close>

definition Download :: "up_env \<Rightarrow> Asset \<Rightarrow> string \<Rightarrow> files \<Rightarrow> (update_error + string) \<times> files" where
  "Download env a dir fs =
    (if ue_fails env UpTemp then (Inl TempFailed, fs)
     else let path = ue_temp env dir; removed = gm_delete path fs in
     case ue_get env (as_URL a) of None \<Rightarrow> (Inl DownloadFailed, removed) | Some r \<Rightarrow>
     if hr_Status r \<noteq> 200 then (Inl (HttpStatus (hr_Status r)), removed)
     else let got = take (nat (as_Size a + 1)) (hr_Body r) in
     if hr_Broken r \<and> length (hr_Body r) \<le> nat (as_Size a) \<or> int (length got) \<noteq> as_Size a \<or> hex_encode (ue_sha256 env got) \<noteq> as_SHA256 a
     then (Inl Mismatch, removed)
     else if ue_fails env UpSync then (Inl SyncFailed, removed)
     else if ue_fails env UpClose then (Inl CloseFailed, removed)
     else if ue_fails env UpChmod then (Inl ChmodFailed, removed)
     else (Inr path, gm_update path got fs))"

definition Target :: "up_env \<Rightarrow> update_error + string" where
  "Target env =
    (case ue_executable env of None \<Rightarrow> Inl NoExecutable | Some p \<Rightarrow>
      let normal = ToLower p in
      if Contains normal ''/cellar/'' \<or> Contains normal ''/scoop/apps/'' then Inl PackageManaged else Inr p)"

text \<open>\<open>filepath.Dir\<close>: the cleaned path without its last element.\<close>

definition path_Dir :: "string \<Rightarrow> string" where
  "path_Dir p = (case LastIndexAny p ''/'' of None \<Rightarrow> ''.'' | Some i \<Rightarrow> path_Clean (take (Suc i) p))"

definition rename_file :: "string \<Rightarrow> string \<Rightarrow> files \<Rightarrow> files" where
  "rename_file old new fs = (case gm_lookup fs old of None \<Rightarrow> fs | Some b \<Rightarrow> gm_update new b (gm_delete old fs))"

definition backup_name :: "up_env \<Rightarrow> string \<Rightarrow> string" where
  "backup_name env target = target @ ''.backup-'' @ ue_stamp env"

definition Replace :: "up_env \<Rightarrow> string \<Rightarrow> string \<Rightarrow> files \<Rightarrow> (update_error + string) \<times> string \<times> files" where
  "Replace env target staged fs =
    (if path_Dir target \<noteq> path_Dir staged then (Inl StagingDirectory, [], fs)
     else if gm_lookup fs target = None then (Inl NotRegular, [], fs)
     else let backup = backup_name env target in
     if ue_fails env UpPreserve then (Inl CannotPreserve, [], fs)
     else let fs1 = rename_file target backup fs in
     if ue_fails env UpActivate \<or> gm_lookup fs1 staged = None then
       (if ue_fails env UpRestore then (Inl RestoreFailed, backup, fs1)
        else (Inl ActivationFailed, [], rename_file backup target fs1))
     else (Inr backup, backup, rename_file staged target fs1))"

section \<open>The update command\<close>

text \<open>\<open>installRelease\<close> up to the replaced binary; reporting the version and refreshing the
  integrations come after it and do not touch these files.\<close>

definition installRelease :: "up_env \<Rightarrow> Release \<Rightarrow> files \<Rightarrow> (update_error + string) \<times> files" where
  "installRelease env release fs =
    (case Release_Asset env release of Inl e \<Rightarrow> (Inl e, fs) | Inr asset \<Rightarrow>
     case Target env of Inl e \<Rightarrow> (Inl e, fs) | Inr target \<Rightarrow>
     if ue_fails env UpLock then (Inl UpdateLocked, fs)
     else case Download env asset (path_Dir target) fs of (Inl e, fs1) \<Rightarrow> (Inl e, fs1) | (Inr staged, fs1) \<Rightarrow>
     case Replace env target staged fs1 of (Inl e, _, fs2) \<Rightarrow> (Inl e, gm_delete staged fs2)
       | (Inr _, _, fs2) \<Rightarrow> (Inr target, gm_delete staged fs2))"

record update_flags =
  uf_json :: bool
  uf_check :: bool
  uf_yes :: bool

datatype update_outcome = Reported bool | UpToDate | Available | Skipped | Installed

text \<open>\<open>confirm\<close> is the answer of the confirmation: an error, or whether it was approved.\<close>

definition update_command :: "up_env \<Rightarrow> int \<Rightarrow> string \<Rightarrow> update_flags \<Rightarrow> update_error + bool \<Rightarrow> files \<Rightarrow> (update_error + update_outcome) \<times> files" where
  "update_command env now current flags confirm fs =
    (case Check env now of Inl e \<Rightarrow> (Inl e, fs) | Inr (release, _) \<Rightarrow>
     case Compare (re_Version release) current of Inl e \<Rightarrow> (Inl e, fs) | Inr comparison \<Rightarrow>
     if uf_json flags then (Inr (Reported (0 < comparison)), fs)
     else if comparison \<le> 0 then (Inr UpToDate, fs)
     else case Release_Asset env release of Inl e \<Rightarrow> (Inl e, fs) | Inr asset \<Rightarrow>
     if uf_check flags then (Inr Available, fs)
     else case (if uf_yes flags then Inr True else confirm) of Inl e \<Rightarrow> (Inl e, fs) | Inr approved \<Rightarrow>
     if \<not> approved then (Inr Skipped, fs)
     else case installRelease env release fs of (Inl e, fs1) \<Rightarrow> (Inl e, fs1) | (Inr _, fs1) \<Rightarrow> (Inr Installed, fs1))"

record updateCache =
  uc_Checked :: int
  uc_Signed :: bytes

text \<open>The refresh of the cached notice, and the version it announces.\<close>

definition refresh_cache :: "up_env \<Rightarrow> int \<Rightarrow> updateCache \<Rightarrow> updateCache" where
  "refresh_cache env now cache =
    (if 6 * 3600 < now - uc_Checked cache then
       (case Check env now of
          Inl _ \<Rightarrow> cache\<lparr>uc_Checked := now - 6 * 3600 + 10 * 60\<rparr>
        | Inr (_, b) \<Rightarrow> \<lparr>uc_Checked = now, uc_Signed = b\<rparr>)
     else cache)"

definition update_hint :: "up_env \<Rightarrow> int \<Rightarrow> string \<Rightarrow> updateCache \<Rightarrow> string option" where
  "update_hint env now current cache =
    (if uc_Signed cache = [] then None
     else case Verify env (uc_Signed cache) PublicKey now of Inl _ \<Rightarrow> None | Inr r \<Rightarrow>
       (case Compare (re_Version r) current of Inr n \<Rightarrow> if 0 < n then Some (re_Version r) else None | Inl _ \<Rightarrow> None))"

section \<open>Laws\<close>

subsection \<open>Versions are ordered by a key\<close>

text \<open>An identifier of a pre-release that is a number sorts before one that is not; numbers sort by
  value and the others by their bytes.\<close>

definition identifier_key :: "string \<Rightarrow> nat \<times> nat \<times> string" where
  "identifier_key x = (if snd (ParseUint64 x) then (0, fst (ParseUint64 x), []) else (1, 0, x))"

definition version_key :: "string list \<times> string \<Rightarrow> nat list \<times> nat \<times> (nat \<times> nat \<times> string) list" where
  "version_key v = (map (\<lambda>n. fst (ParseUint64 n)) (fst v),
     if snd v = [] then (1, []) else (0, map identifier_key (Split_byte (snd v) (CHR ''.''))))"

definition order_sign :: "'a::linorder \<Rightarrow> 'a \<Rightarrow> int" where
  "order_sign x y = (if x < y then -1 else if x = y then 0 else 1)"

text \<open>Semantic Versioning forbids numeric identifiers with a leading zero.\<close>

definition canonical_number :: "string \<Rightarrow> bool" where
  "canonical_number s \<longleftrightarrow> (all_digits s \<longrightarrow> length s = 1 \<or> hd s \<noteq> CHR ''0'')"

definition canonical_pre :: "string \<Rightarrow> bool" where
  "canonical_pre pre \<longleftrightarrow> list_all canonical_number (Split_byte pre (CHR ''.''))"

lemma identifier_key_inj:
  assumes "canonical_number x" "canonical_number y" "identifier_key x = identifier_key y"
  shows "x = y"
proof (cases "snd (ParseUint64 x)")
  case True
  then have "snd (ParseUint64 y)" "fst (ParseUint64 x) = fst (ParseUint64 y)"
    using assms(3) by (auto simp: identifier_key_def split: if_splits)
  then have "all_digits x" "all_digits y" "decimal_value x = decimal_value y"
    using True by (auto simp: ParseUint64_def split: if_splits)
  then show ?thesis using assms(1,2) digits_of_decimal unfolding canonical_number_def by metis
next
  case False
  then show ?thesis using assms(3) by (auto simp: identifier_key_def split: if_splits)
qed

lemma Nil_less_map: "[] \<noteq> ys \<Longrightarrow> [] < map (f :: 'a \<Rightarrow> 'b::linorder) ys"
  by (cases ys) auto

lemma cmp_identifiers_key:
  assumes "list_all canonical_number xs" "list_all canonical_number ys" "xs \<noteq> ys"
  shows "cmp_identifiers xs ys = order_sign (map identifier_key xs) (map identifier_key ys)"
  using assms
proof (induction xs ys rule: cmp_identifiers.induct)
  case (1 x xs y ys)
  show ?case
  proof (cases "x = y")
    case False
    then have "identifier_key x \<noteq> identifier_key y" using 1 identifier_key_inj by auto
    then show ?thesis using False
      by (auto simp: order_sign_def identifier_key_def strings_Compare_def less_prod_def split: prod.splits if_splits)
  qed (use 1 in \<open>simp add: order_sign_def\<close>)
qed (auto simp: order_sign_def Nil_less_map)

lemma cmp_numbers_key:
  assumes "cmp_numbers as bs = Inr r" "length as = length bs"
  shows "r = (if map (\<lambda>n. fst (ParseUint64 n)) as = map (\<lambda>n. fst (ParseUint64 n)) bs then None
    else Some (order_sign (map (\<lambda>n. fst (ParseUint64 n)) as) (map (\<lambda>n. fst (ParseUint64 n)) bs)))"
  using assms
proof (induction as bs rule: cmp_numbers.induct)
  case (1 a as b bs)
  then show ?case by (auto simp: order_sign_def split: prod.splits if_splits)
qed auto

lemma version_match_length: "version_match a = Some (an, ap) \<Longrightarrow> length an = 3"
  by (auto simp: version_match_def split: option.splits prod.splits)

lemma Compare_key:
  assumes "Compare a b = Inr c" "version_match a = Some va" "version_match b = Some vb"
    and "canonical_pre (snd va)" "canonical_pre (snd vb)"
  shows "c = order_sign (version_key va) (version_key vb)"
proof -
  obtain an ap bn bp where v: "va = (an, ap)" "vb = (bn, bp)" by fastforce
  let ?nums = "map (\<lambda>n. fst (ParseUint64 n))"
  have len: "length an = length bn" using version_match_length assms(2,3) v by metis
  obtain r where r: "cmp_numbers an bn = Inr r"
    using assms(1-3) v by (auto simp: Compare_def split: sum.splits)
  note r' = cmp_numbers_key[OF r len]
  show ?thesis
  proof (cases "?nums an = ?nums bn")
    case False
    then show ?thesis using assms(1-3) v r r' by (auto simp: Compare_def version_key_def order_sign_def less_prod_def)
  next
    case True
    then have c: "c = (if ap = bp then 0 else if ap = [] then 1 else if bp = [] then -1
        else cmp_identifiers (Split_byte ap (CHR ''.'')) (Split_byte bp (CHR ''.'')))"
      using assms(1-3) v r r' by (auto simp: Compare_def split: if_splits)
    show ?thesis
    proof (cases "ap = bp \<or> ap = [] \<or> bp = []")
      case True
      then show ?thesis using c \<open>?nums an = ?nums bn\<close> v by (auto simp: version_key_def order_sign_def less_prod_def)
    next
      case False
      then have "Split_byte ap (CHR ''.'') \<noteq> Split_byte bp (CHR ''.'')" using Split_byte_Join by metis
      then show ?thesis using c \<open>?nums an = ?nums bn\<close> v False assms(4,5) cmp_identifiers_key
        by (auto simp: version_key_def order_sign_def less_prod_def canonical_pre_def)
    qed
  qed
qed

subsection \<open>The binary on disk\<close>

lemma backup_differs [simp]: "backup_name env target \<noteq> target" "target \<noteq> backup_name env target"
  by (auto simp: backup_name_def)

lemma Download_outcome:
  assumes "Download env a dir fs = (res, fs')" "gm_lookup fs (ue_temp env dir) = None"
  shows "k \<noteq> ue_temp env dir \<Longrightarrow> gm_lookup fs' k = gm_lookup fs k"
    and "res = Inr staged \<Longrightarrow> staged = ue_temp env dir \<and>
      (\<exists>got. gm_lookup fs' staged = Some got \<and> int (length got) = as_Size a \<and> hex_encode (ue_sha256 env got) = as_SHA256 a)"
  using assms by (auto simp: Download_def Let_def split: if_splits option.splits)

lemma Replace_outcome:
  assumes "Replace env target staged fs = (res, bk, fs')" "gm_lookup fs target = Some old"
    and "staged \<noteq> target" "staged \<noteq> backup_name env target"
  shows "(\<exists>b. res = Inr b \<and> b = backup_name env target \<and> gm_lookup fs' target = gm_lookup fs staged \<and> gm_lookup fs staged \<noteq> None \<and>
        gm_lookup fs' b = Some old) \<or>
     res = Inl RestoreFailed \<and> gm_lookup fs' (backup_name env target) = Some old \<or>
     (\<exists>e. res = Inl e \<and> e \<noteq> RestoreFailed \<and> gm_lookup fs' target = Some old)"
  using assms by (auto simp: Replace_def Let_def rename_file_def split: if_splits option.splits)

lemma Verify_guards:
  assumes "Verify env b public now = Inr r"
  shows "\<exists>sg key sig. ue_json_signed env b = Some sg \<and> ue_base64 env public = Some key \<and> ue_base64 env (si_Signature sg) = Some sig \<and>
      ue_verify env key (si_Payload sg) sig \<and> ue_json_release env (si_Payload sg) = Some r"
    and "re_Published r \<le> now + 24 * 60 * 60" "now \<le> re_Expires r" "assets_ok env [] (re_Assets r)"
  using assms by (auto simp: Verify_def split: if_splits option.splits sum.splits)

lemma assets_ok_each:
  "assets_ok env seen as \<Longrightarrow> a \<in> set as \<Longrightarrow> \<exists>seen'. asset_ok env seen' a"
  by (induction as arbitrary: seen) auto

lemma Release_Asset_in:
  "Release_Asset env r = Inr a \<Longrightarrow> a \<in> set (re_Assets r) \<and> as_OS a = ue_os env \<and> as_Arch a = ue_arch env"
  by (auto simp: Release_Asset_def find_Some_iff split: option.splits)

definition fresh_temp :: "up_env \<Rightarrow> files \<Rightarrow> string \<Rightarrow> bool" where
  "fresh_temp env fs target \<longleftrightarrow> gm_lookup fs (ue_temp env (path_Dir target)) = None \<and>
     ue_temp env (path_Dir target) \<noteq> backup_name env target"

lemma installRelease_outcome:
  assumes "installRelease env release fs = (res, fs')" "Target env = Inr target" "gm_lookup fs target = Some old"
    and "fresh_temp env fs target"
  shows "(\<exists>asset got. res = Inr target \<and> Release_Asset env release = Inr asset \<and> gm_lookup fs' target = Some got \<and>
        int (length got) = as_Size asset \<and> hex_encode (ue_sha256 env got) = as_SHA256 asset \<and>
        gm_lookup fs' (backup_name env target) = Some old) \<or>
     res = Inl RestoreFailed \<and> gm_lookup fs' (backup_name env target) = Some old \<or>
     (\<exists>e. res = Inl e \<and> e \<noteq> RestoreFailed \<and> gm_lookup fs' target = Some old)"
proof (cases "\<exists>asset. Release_Asset env release = Inr asset \<and> \<not> ue_fails env UpLock")
  case False
  then show ?thesis using assms(1-3) by (auto simp: installRelease_def Release_Asset_def split: sum.splits if_splits option.splits)
next
  case True
  then obtain asset where a: "Release_Asset env release = Inr asset" "\<not> ue_fails env UpLock" by blast
  let ?tmp = "ue_temp env (path_Dir target)"
  obtain dres fs1 where dl: "Download env asset (path_Dir target) fs = (dres, fs1)" by fastforce
  have tmp: "gm_lookup fs ?tmp = None" "?tmp \<noteq> backup_name env target" "?tmp \<noteq> target"
    using assms(3,4) by (auto simp: fresh_temp_def)
  have old: "gm_lookup fs1 target = Some old" using Download_outcome(1)[OF dl tmp(1), of target] tmp(3) assms(3) by simp
  show ?thesis
  proof (cases dres)
    case (Inl e)
    have "e \<noteq> RestoreFailed" using dl Inl by (auto simp: Download_def Let_def split: if_splits option.splits)
    then show ?thesis using Inl dl old assms(1,2) a by (auto simp: installRelease_def)
  next
    case (Inr staged)
    from Download_outcome(2)[OF dl tmp(1) Inr] obtain got where s: "staged = ?tmp" "gm_lookup fs1 staged = Some got"
      "int (length got) = as_Size asset" "hex_encode (ue_sha256 env got) = as_SHA256 asset" by blast
    obtain rres bk fs2 where rp: "Replace env target staged fs1 = (rres, bk, fs2)" using prod_cases3 by blast
    have "fs' = gm_delete staged fs2" "res = (case rres of Inl e \<Rightarrow> Inl e | Inr _ \<Rightarrow> Inr target)"
      using assms(1,2) a dl Inr rp by (auto simp: installRelease_def split: sum.splits)
    then show ?thesis using Replace_outcome[OF rp old] s tmp a by auto
  qed
qed

subsection \<open>A small installation\<close>

definition demo_asset :: Asset where
  "demo_asset = \<lparr>as_OS = ''linux'', as_Arch = ''amd64'', as_URL = ''asset'', as_SHA256 = replicate 64 (CHR ''0''), as_Size = 3\<rparr>"

definition demo_release :: Release where
  "demo_release = \<lparr>re_Protocol = 1, re_Version = ''1.2.0'', re_Published = 0, re_Expires = 100, re_Assets = [demo_asset]\<rparr>"

definition demo_up_env :: up_env where
  "demo_up_env = \<lparr>ue_json_signed = \<lambda>_. Some \<lparr>si_Payload = ''p'', si_Signature = ''s''\<rparr>, ue_json_release = \<lambda>_. Some demo_release,
     ue_base64 = \<lambda>_. Some (replicate 32 (CHR ''k'')), ue_verify = \<lambda>_ _ _. True,
     ue_url = \<lambda>_. Some \<lparr>ur_Scheme = ''https'', ur_Host = ''sshm.yunmini.net'', ur_User = False, ur_Query = [], ur_Fragment = [],
       ur_Path = ''/downloads/sshm-linux''\<rparr>,
     ue_sha256 = \<lambda>_. replicate 32 (CHR 0x00), ue_get = \<lambda>_. Some \<lparr>hr_Status = 200, hr_Body = ''new'', hr_Broken = False\<rparr>,
     ue_fails = \<lambda>_. False, ue_os = ''linux'', ue_arch = ''amd64'', ue_executable = Some ''/bin/sshm'', ue_temp = \<lambda>_. ''/bin/tmp'',
     ue_stamp = ''7''\<rparr>"

definition demo_files :: files where "demo_files = gm_update ''/bin/sshm'' ''old'' gm_empty"

lemma demo_parse: "ParseUint64 ''0'' = (0, True)" "ParseUint64 ''1'' = (1, True)" "ParseUint64 ''2'' = (2, True)" "ParseUint64 ''7'' = (7, True)"
    "ParseUint64 ''07'' = (7, True)"
  by (simp_all add: ParseUint64_def all_digits_def is_digit_def less_eq_char_def decimal_value_def digit_value_def)

lemma demo_versions: "version_match ''1.2.0'' = Some ([''1'', ''2'', ''0''], [])" "version_match ''1.1.0'' = Some ([''1'', ''1'', ''0''], [])"
    "version_match ''1.0.0-07'' = Some ([''1'', ''0'', ''0''], ''07'')" "version_match ''1.0.0-7'' = Some ([''1'', ''0'', ''0''], ''7'')"
  by code_simp+

lemma demo_compare: "Compare ''1.2.0'' ''1.1.0'' = Inr 1" "Compare ''1.2.0'' ''1.2.0'' = Inr 0"
  by (simp_all add: Compare_def demo_versions demo_parse)

lemma demo_asset_ok: "assets_ok demo_up_env [] [demo_asset]"
  by code_simp

lemma demo_check: "Check demo_up_env 5 = Inr (demo_release, ''new'')"
  using demo_asset_ok by (simp add: Check_def Verify_def demo_up_env_def demo_release_def demo_compare)

lemma demo_target: "Target demo_up_env = Inr ''/bin/sshm''" "Release_Asset demo_up_env demo_release = Inr demo_asset"
    "path_Dir ''/bin/sshm'' = ''/bin''" "path_Dir ''/bin/tmp'' = ''/bin''"
  by code_simp+

lemma demo_version: "re_Version demo_release = ''1.2.0''"
  by (simp add: demo_release_def)

lemma demo_install: "is_ok (fst (installRelease demo_up_env demo_release demo_files))"
  by code_simp

section \<open>Properties\<close>

text \<open>Comparing two versions is comparing them in one linear order, the precedence of Semantic
  Versioning: by the three numbers, then releases after pre-releases, then identifier by identifier,
  numbers by value and before other identifiers. The versions must not have numeric identifiers
  with a leading zero, which the standard forbids.\<close>

theorem compare_is_precedence:
  assumes "Compare a b = Inr c" "version_match a = Some va" "version_match b = Some vb"
    and "canonical_pre (snd va)" "canonical_pre (snd vb)"
  shows "c = order_sign (version_key va) (version_key vb) \<and> (version_key va = version_key vb \<longleftrightarrow> c = 0)"
  using Compare_key[OF assms] by (auto simp: order_sign_def)

theorem compare_is_precedence_witness:
  "order_sign (version_key ([''1'', ''2'', ''0''], [])) (version_key ([''1'', ''1'', ''0''], [])) = 1"
proof -
  have "canonical_pre []" by (simp add: canonical_pre_def canonical_number_def all_digits_def)
  then show ?thesis using compare_is_precedence[OF demo_compare(1) demo_versions(1,2)] by simp
qed

text \<open>With a leading zero the comparison is not an order: each of two versions is newer than the
  other.\<close>

theorem leading_zero_versions_newer_than_each_other:
  "Compare ''1.0.0-07'' ''1.0.0-7'' = Inr 1 \<and> Compare ''1.0.0-7'' ''1.0.0-07'' = Inr 1"
  by (simp add: Compare_def demo_versions demo_parse)

text \<open>C16: an update installs only what was signed, published for this platform and newer: when the command
  reports an installed update, the user approved it, the manifest carries a valid signature of the
  built-in key and has not expired, its version is greater than the running one, and the binary at
  the target has the size and the SHA-256 digest that the signed asset states; the old binary is
  kept as the backup.\<close>

theorem update_installs_signed_newer:
  assumes "update_command env now current flags confirm fs = (Inr Installed, fs')"
    and "Target env = Inr target" "gm_lookup fs target = Some old" "fresh_temp env fs target"
  shows "\<exists>release b sg key sig asset got c.
    Check env now = Inr (release, b) \<and> ue_json_signed env b = Some sg \<and> ue_base64 env PublicKey = Some key \<and>
    ue_base64 env (si_Signature sg) = Some sig \<and> ue_verify env key (si_Payload sg) sig \<and>
    ue_json_release env (si_Payload sg) = Some release \<and> now \<le> re_Expires release \<and>
    Compare (re_Version release) current = Inr c \<and> 0 < c \<and> (uf_yes flags \<or> confirm = Inr True) \<and>
    asset \<in> set (re_Assets release) \<and> as_OS asset = ue_os env \<and> as_Arch asset = ue_arch env \<and>
    gm_lookup fs' target = Some got \<and> int (length got) = as_Size asset \<and> hex_encode (ue_sha256 env got) = as_SHA256 asset \<and>
    gm_lookup fs' (backup_name env target) = Some old"
proof -
  obtain release b where ck: "Check env now = Inr (release, b)"
    using assms(1) by (auto simp: update_command_def split: sum.splits)
  obtain c where c: "Compare (re_Version release) current = Inr c" "0 < c" "uf_yes flags \<or> confirm = Inr True"
    and ins: "\<exists>x. installRelease env release fs = (Inr x, fs')"
    using assms(1) ck by (auto simp: update_command_def split: sum.splits if_splits prod.splits)
  have v: "Verify env b PublicKey now = Inr release"
    using ck by (auto simp: Check_def Let_def bind_result_eq_Inr split: option.splits if_splits)
  obtain asset got where i: "Release_Asset env release = Inr asset" "gm_lookup fs' target = Some got"
    "int (length got) = as_Size asset" "hex_encode (ue_sha256 env got) = as_SHA256 asset" "gm_lookup fs' (backup_name env target) = Some old"
    using ins installRelease_outcome[OF _ assms(2-4)] by blast
  show ?thesis using ck c i Release_Asset_in[OF i(1)] Verify_guards(1,3)[OF v] by blast
qed

theorem update_installs_signed_newer_witness:
  "\<exists>fs' got. update_command demo_up_env 5 ''1.1.0'' \<lparr>uf_json = False, uf_check = False, uf_yes = True\<rparr> (Inr False) demo_files =
     (Inr Installed, fs') \<and> gm_lookup fs' ''/bin/sshm'' = Some got \<and> hex_encode (ue_sha256 demo_up_env got) = replicate 64 (CHR ''0'')"
proof -
  let ?run = "update_command demo_up_env 5 ''1.1.0'' \<lparr>uf_json = False, uf_check = False, uf_yes = True\<rparr> (Inr False) demo_files"
  obtain t fs' where "installRelease demo_up_env demo_release demo_files = (Inr t, fs')"
    using demo_install by (cases "installRelease demo_up_env demo_release demo_files"; cases "fst (installRelease demo_up_env demo_release demo_files)") auto
  then have run: "?run = (Inr Installed, fs')"
    using demo_compare(1) by (simp add: update_command_def demo_check demo_target demo_version)
  have fresh: "gm_lookup demo_files ''/bin/sshm'' = Some ''old''" "fresh_temp demo_up_env demo_files ''/bin/sshm''"
    by (code_simp)+
  show ?thesis using update_installs_signed_newer[OF run demo_target(1) fresh] run demo_check
    by (auto simp: demo_release_def demo_asset_def)
qed

text \<open>No update loses the binary: whatever fails, the old contents are at the target, and after an
  installation, or when activating the new binary and restoring the old one both fail, at the
  backup path.\<close>

theorem update_never_loses_binary:
  assumes "update_command env now current flags confirm fs = (res, fs')"
    and "Target env = Inr target" "gm_lookup fs target = Some old" "fresh_temp env fs target"
  shows "gm_lookup fs' target = Some old \<or>
    gm_lookup fs' (backup_name env target) = Some old \<and> (res = Inr Installed \<or> res = Inl RestoreFailed)"
proof (cases "fs' = fs")
  case False
  then obtain release x where i: "installRelease env release fs = (x, fs')" "res = (case x of Inl e \<Rightarrow> Inl e | Inr _ \<Rightarrow> Inr Installed)"
    using assms(1) by (auto simp: update_command_def split: sum.splits if_splits prod.splits)
  show ?thesis using installRelease_outcome[OF i(1) assms(2-4)] i(2) by auto
qed (simp add: assms(3))

theorem update_never_loses_binary_witness:
  "gm_lookup (snd (update_command demo_up_env 5 ''1.1.0'' \<lparr>uf_json = False, uf_check = True, uf_yes = True\<rparr> (Inr False) demo_files)) ''/bin/sshm''
     = Some ''old''"
proof -
  have run: "update_command demo_up_env 5 ''1.1.0'' \<lparr>uf_json = False, uf_check = True, uf_yes = True\<rparr> (Inr False) demo_files =
      (Inr Available, demo_files)"
    using demo_compare(1) by (simp add: update_command_def demo_check demo_target demo_version)
  have fresh: "gm_lookup demo_files ''/bin/sshm'' = Some ''old''" "fresh_temp demo_up_env demo_files ''/bin/sshm''"
    by (code_simp)+
  show ?thesis using update_never_loses_binary[OF run demo_target(1) fresh] run by simp
qed

end
