(* ===== verification/Host_Key.thy ===== *)
theory Host_Key
  imports Config_Model
begin

text \<open>
  \<open>internal/ssh/hostkey.go\<close> and \<open>internal/ssh/hostkey_algorithms.go\<close>: trust on first use against the
  known_hosts file, and the order in which host key algorithms are offered.

  The library \<open>knownhosts\<close> is a parameter: what its matcher says of a file, a host and a key,
  and the line it writes for a key. A dial is two atomic steps, the check of the file and, for an
  unknown host, the append under the mutex; \<open>dial_step\<close> interleaves the steps of several dials.
\<close>

section \<open>Trust on first use\<close>

type_synonym public_key = string \<comment> \<open>type and fingerprint stand for the key\<close>

text \<open>A key error lists the records that match the host, by line and key type; it lists none for an
  unknown host.\<close>

datatype kh_result = KhMalformed | KhMatch | KhKeyError "(nat \<times> string) list" | KhOther

record known_hosts_lib =
  kl_check :: "bytes \<Rightarrow> string \<Rightarrow> string \<Rightarrow> public_key \<Rightarrow> kh_result"
  kl_normalize :: "string \<Rightarrow> string"
  kl_line :: "string list \<Rightarrow> public_key \<Rightarrow> string"

datatype host_error = MkdirFailed | CreateFailed | Unreadable | HostKeyMismatch string public_key | MatcherError | OpenFailed | AppendFailed

record host_io =
  hi_mkdir :: bool
  hi_create :: bool
  hi_open :: bool
  hi_write :: bool

definition ensureKnownHosts :: "host_io \<Rightarrow> bytes option \<Rightarrow> host_error option \<times> bytes option" where
  "ensureKnownHosts io file =
    (if \<not> hi_mkdir io then (Some MkdirFailed, file)
     else if \<not> hi_create io then (Some CreateFailed, file)
     else (None, Some (case file of None \<Rightarrow> [] | Some b \<Rightarrow> b)))"

definition pin_addresses :: "known_hosts_lib \<Rightarrow> string \<Rightarrow> string option \<Rightarrow> string list" where
  "pin_addresses lib hostname remote =
    (let first = kl_normalize lib hostname in
     case remote of None \<Rightarrow> [first]
     | Some r \<Rightarrow> if kl_normalize lib r \<noteq> first then [first, kl_normalize lib r] else [first])"

definition remote_text :: "string option \<Rightarrow> string" where
  "remote_text remote = (case remote of None \<Rightarrow> [] | Some r \<Rightarrow> r)"

definition pin_line :: "known_hosts_lib \<Rightarrow> string \<Rightarrow> string option \<Rightarrow> public_key \<Rightarrow> string" where
  "pin_line lib hostname remote key = kl_line lib (pin_addresses lib hostname remote) key @ [newline]"

definition appendKnownHost :: "known_hosts_lib \<Rightarrow> host_io \<Rightarrow> string \<Rightarrow> string option \<Rightarrow> public_key \<Rightarrow> bytes \<Rightarrow> host_error option \<times> bytes" where
  "appendKnownHost lib io hostname remote key file =
    (if kl_check lib file hostname (remote_text remote) key = KhMatch then (None, file)
     else if \<not> hi_open io then (Some OpenFailed, file)
     else if \<not> hi_write io then (Some AppendFailed, file)
     else (None, file @ pin_line lib hostname remote key))"

text \<open>The first half of the callback: a verdict, or the decision to pin.\<close>

definition check_host :: "known_hosts_lib \<Rightarrow> host_io \<Rightarrow> string \<Rightarrow> string option \<Rightarrow> public_key \<Rightarrow> bytes option \<Rightarrow>
    host_error option option \<times> bytes option" where
  "check_host lib io hostname remote key file =
    (case ensureKnownHosts io file of
       (Some e, f) \<Rightarrow> (Some (Some e), f)
     | (None, f) \<Rightarrow>
         (case kl_check lib (the f) hostname (remote_text remote) key of
            KhMalformed \<Rightarrow> (Some (Some Unreadable), f)
          | KhMatch \<Rightarrow> (Some None, f)
          | KhKeyError want \<Rightarrow> if want = [] then (None, f) else (Some (Some (HostKeyMismatch hostname key)), f)
          | KhOther \<Rightarrow> (Some (Some MatcherError), f)))"

definition tofuHostKeyCallback :: "known_hosts_lib \<Rightarrow> host_io \<Rightarrow> string \<Rightarrow> string option \<Rightarrow> public_key \<Rightarrow> bytes option \<Rightarrow>
    host_error option \<times> bytes option" where
  "tofuHostKeyCallback lib io hostname remote key file =
    (case check_host lib io hostname remote key file of
       (Some verdict, f) \<Rightarrow> (verdict, f)
     | (None, f) \<Rightarrow> (case appendKnownHost lib io hostname remote key (the f) of (e, f') \<Rightarrow> (e, Some f')))"

section \<open>Several dials\<close>

record dial =
  dl_host :: string
  dl_remote :: "string option"
  dl_key :: public_key

datatype dial_pc = Checking | Pinning | Finished "host_error option"

record dial_state =
  ds_file :: "bytes option"
  ds_pc :: "nat \<Rightarrow> dial_pc"

inductive dial_step :: "known_hosts_lib \<Rightarrow> (nat \<Rightarrow> dial) \<Rightarrow> dial_state \<Rightarrow> dial_state \<Rightarrow> bool" for lib dials where
  check: "ds_pc st i = Checking \<Longrightarrow>
    check_host lib io (dl_host (dials i)) (dl_remote (dials i)) (dl_key (dials i)) (ds_file st) = (verdict, f) \<Longrightarrow>
    dial_step lib dials st \<lparr>ds_file = f,
      ds_pc = (ds_pc st)(i := (case verdict of None \<Rightarrow> Pinning | Some v \<Rightarrow> Finished v))\<rparr>"
| pin: "ds_pc st i = Pinning \<Longrightarrow> ds_file st = Some f \<Longrightarrow>
    appendKnownHost lib io (dl_host (dials i)) (dl_remote (dials i)) (dl_key (dials i)) f = (e, f') \<Longrightarrow>
    dial_step lib dials st \<lparr>ds_file = Some f', ds_pc = (ds_pc st)(i := Finished e)\<rparr>"

inductive_cases dial_stepE: "dial_step lib dials st st'"

section \<open>Algorithms\<close>

record algorithm_names =
  an_all :: "string list" \<comment> \<open>supported and insecure host key algorithms, in the library's order\<close>
  an_rsa :: string
  an_rsa256 :: string
  an_rsa512 :: string
  an_cert_rsa :: string
  an_cert_rsa256 :: string
  an_cert_rsa512 :: string

definition preferred_by :: "algorithm_names \<Rightarrow> string list \<Rightarrow> nat \<times> string \<Rightarrow> string list" where
  "preferred_by an lines known =
    (let (line, key_type) = known;
         fields = (if 0 < line \<and> line \<le> length lines then Fields (lines ! (line - 1)) else []) in
     if fields \<noteq> [] \<and> hd fields = ''@cert-authority'' then filter (\<lambda>a. Contains a ''-cert-'') (an_all an)
     else if key_type = an_rsa an then [an_rsa256 an, an_rsa512 an, an_rsa an]
     else if key_type = an_cert_rsa an then [an_cert_rsa256 an, an_cert_rsa512 an, an_cert_rsa an]
     else [key_type])"

datatype algorithms_result = NoPreference | Ordered "string list" | AlgorithmsError

text \<open>The probe key is the empty key; \<open>file\<close> is None when there is no known_hosts file.\<close>

definition preferredHostKeyAlgorithms :: "known_hosts_lib \<Rightarrow> algorithm_names \<Rightarrow> bytes option \<Rightarrow> bool \<Rightarrow> string \<Rightarrow> algorithms_result" where
  "preferredHostKeyAlgorithms lib an file readable address =
    (case file of None \<Rightarrow> NoPreference | Some data \<Rightarrow>
      if \<not> readable then AlgorithmsError
      else case kl_check lib data address ''0.0.0.0:22'' [] of
        KhMalformed \<Rightarrow> AlgorithmsError
      | KhMatch \<Rightarrow> NoPreference
      | KhOther \<Rightarrow> AlgorithmsError
      | KhKeyError want \<Rightarrow>
          if want = [] then NoPreference
          else let preferred = concat (map (preferred_by an (Split_byte data newline)) want) in
            Ordered (filter (\<lambda>a. a \<in> set preferred) (an_all an) @ filter (\<lambda>a. a \<notin> set preferred) (an_all an)))"

section \<open>Laws\<close>

text \<open>What the library documents: in a file whose lines are complete, the line written for an unknown
  host makes the matcher accept the key for it.\<close>

definition terminated :: "bytes \<Rightarrow> bool" where
  "terminated f \<longleftrightarrow> f = [] \<or> last f = newline"

definition lib_ok :: "known_hosts_lib \<Rightarrow> bool" where
  "lib_ok lib \<longleftrightarrow>
    (\<forall>file host remote key. terminated file \<longrightarrow> newline \<notin> set host \<longrightarrow> newline \<notin> set key \<longrightarrow>
       kl_check lib file host (remote_text remote) key = KhKeyError [] \<longrightarrow>
       kl_check lib (file @ pin_line lib host remote key) host (remote_text remote) key = KhMatch)"

lemma Split_byte_append: "Split_byte (a @ c # b) c = Split_byte a c @ Split_byte b c"
  by (induction a) (auto split: list.splits)

lemma Split_byte_one: "c \<notin> set s \<Longrightarrow> Split_byte s c = [s]"
  by (induction s) auto

lemma terminated_append: "f \<noteq> [] \<Longrightarrow> terminated f \<Longrightarrow> f = butlast f @ [newline]"
  by (metis append_butlast_last_id terminated_def)

lemma check_host_cases:
  assumes "check_host lib io h r k file = (v, f)"
  shows "f = file \<or> file = None \<and> f = Some []"
    and "v = None \<Longrightarrow> \<exists>b. f = Some b \<and> kl_check lib b h (remote_text r) k = KhKeyError []"
    and "v = Some None \<Longrightarrow> \<exists>b. f = Some b \<and> kl_check lib b h (remote_text r) k = KhMatch"
  using assms by (auto simp: check_host_def ensureKnownHosts_def split: if_splits option.splits kh_result.splits)

text \<open>The offered algorithms are those of the library, those of the recorded keys first.\<close>

lemma algorithms_only_reordered:
  assumes "preferredHostKeyAlgorithms lib an (Some data) readable address = Ordered xs"
    and "kl_check lib data address ''0.0.0.0:22'' [] = KhKeyError want"
  shows "mset xs = mset (an_all an) \<and>
    (\<forall>a \<in> set (an_all an). \<forall>b \<in> set (an_all an). \<forall>known \<in> set want.
       a \<in> set (preferred_by an (Split_byte data newline) known) \<longrightarrow>
       (\<forall>known' \<in> set want. b \<notin> set (preferred_by an (Split_byte data newline) known')) \<longrightarrow>
       (\<exists>us vs ws. xs = us @ a # vs @ b # ws))"
proof -
  define P where "P = (\<lambda>a. a \<in> set (concat (map (preferred_by an (Split_byte data newline)) want)))"
  have xs: "xs = filter P (an_all an) @ filter (\<lambda>a. \<not> P a) (an_all an)"
    using assms by (auto simp: preferredHostKeyAlgorithms_def P_def Let_def split: if_splits)
  have "\<exists>us vs ws. xs = us @ a # vs @ b # ws" if "a \<in> set (an_all an)" "b \<in> set (an_all an)" "P a" "\<not> P b" for a b
  proof -
    have "a \<in> set (filter P (an_all an))" "b \<in> set (filter (\<lambda>a. \<not> P a) (an_all an))" using that by auto
    then obtain u1 u2 v1 v2 where "filter P (an_all an) = u1 @ a # u2" "filter (\<lambda>a. \<not> P a) (an_all an) = v1 @ b # v2"
      by (meson split_list)
    then have "xs = u1 @ a # (u2 @ v1) @ b # v2" using xs by simp
    then show ?thesis by blast
  qed
  note before = this
  show ?thesis
  proof (intro conjI ballI impI)
    show "mset xs = mset (an_all an)" unfolding xs by (simp add: mset_filter)
    fix a b known
    assume "a \<in> set (an_all an)" "b \<in> set (an_all an)" "known \<in> set want"
      "a \<in> set (preferred_by an (Split_byte data newline) known)"
      "\<forall>known' \<in> set want. b \<notin> set (preferred_by an (Split_byte data newline) known')"
    moreover from this have "P a" "\<not> P b" by (auto simp: P_def)
    ultimately show "\<exists>us vs ws. xs = us @ a # vs @ b # ws" using before by blast
  qed
qed

text \<open>A library that reads lines of a host, a blank and a key.\<close>

definition demo_lib :: known_hosts_lib where
  "demo_lib = \<lparr>kl_check = \<lambda>file h r k.
       (let ks = map (drop (Suc (length h))) (filter (\<lambda>l. HasPrefix l (h @ '' '')) (Split_byte file newline)) in
        if k \<in> set ks then KhMatch else KhKeyError (map (Pair 1) ks)),
     kl_normalize = (\<lambda>h. h), kl_line = (\<lambda>addrs key. hd addrs @ '' '' @ key)\<rparr>"

definition good_io :: host_io where "good_io = \<lparr>hi_mkdir = True, hi_create = True, hi_open = True, hi_write = True\<rparr>"

lemma demo_lib_ok: "lib_ok demo_lib"
proof -
  have "kl_check demo_lib (fl @ pin_line demo_lib host remote key) host (remote_text remote) key = KhMatch"
    if "terminated fl" "newline \<notin> set host" "newline \<notin> set key" for fl host remote key
  proof -
    let ?line = "host @ '' '' @ key"
    have l: "pin_line demo_lib host remote key = ?line @ [newline]"
      by (auto simp: pin_line_def demo_lib_def pin_addresses_def split: option.splits)
    have "newline \<notin> set ?line" using that by (auto simp: newline_def)
    then have "?line \<in> set (Split_byte (?line @ [newline]) newline)"
      using Split_byte_append[of ?line newline "[]"] Split_byte_one by simp
    moreover have "set (Split_byte (?line @ [newline]) newline) \<subseteq> set (Split_byte (fl @ ?line @ [newline]) newline)"
    proof (cases "fl = []")
      case False
      have "fl @ ?line @ [newline] = butlast fl @ newline # (?line @ [newline])"
        by (subst terminated_append[OF False that(1)]) simp
      then have "Split_byte (fl @ ?line @ [newline]) newline = Split_byte (butlast fl) newline @ Split_byte (?line @ [newline]) newline"
        by (simp only: Split_byte_append)
      then show ?thesis by auto
    qed simp
    ultimately have "?line \<in> set (Split_byte (fl @ pin_line demo_lib host remote key) newline)" using l by auto
    then have "key \<in> set (map (drop (Suc (length host))) (filter (\<lambda>l. HasPrefix l (host @ '' ''))
        (Split_byte (fl @ pin_line demo_lib host remote key) newline)))"
      by (force simp: HasPrefix_def)
    then show ?thesis by (simp add: demo_lib_def Let_def)
  qed
  then show ?thesis by (simp add: lib_ok_def)
qed

section \<open>Properties\<close>



text \<open>Two connections to an unknown host that run at the same time can both be accepted with different
  keys: the second look at the file, under the mutex, only recognises a matching key and pins the
  other one as well, although the same connections one after the other are refused.\<close>

theorem concurrent_dials_pin_two_keys:
  "\<exists>lib dials st. (dial_step lib dials)\<^sup>*\<^sup>* \<lparr>ds_file = Some [], ds_pc = \<lambda>_. Checking\<rparr> st \<and>
     dl_host (dials 0) = dl_host (dials 1) \<and> dl_key (dials 0) \<noteq> dl_key (dials 1) \<and>
     ds_pc st 0 = Finished None \<and> ds_pc st 1 = Finished None \<and> lib_ok lib \<and>
     fst (tofuHostKeyCallback lib good_io (dl_host (dials 1)) None (dl_key (dials 1))
       (snd (tofuHostKeyCallback lib good_io (dl_host (dials 0)) None (dl_key (dials 0)) (Some [])))) \<noteq> None"
proof -
  define dials :: "nat \<Rightarrow> dial" where
    "dials = (\<lambda>i. \<lparr>dl_host = ''box'', dl_remote = None, dl_key = (if i = 0 then ''k1'' else ''k2'')\<rparr>)"
  let ?step = "dial_step demo_lib dials"
  let ?s0 = "\<lparr>ds_file = Some [], ds_pc = \<lambda>_. Checking\<rparr>"
  let ?s1 = "\<lparr>ds_file = Some [], ds_pc = (\<lambda>_. Checking)(0 := Pinning)\<rparr>"
  let ?s2 = "\<lparr>ds_file = Some [], ds_pc = (\<lambda>_. Checking)(0 := Pinning, 1 := Pinning)\<rparr>"
  let ?s3 = "\<lparr>ds_file = Some (''box k1'' @ [newline]), ds_pc = (\<lambda>_. Checking)(0 := Finished None, 1 := Pinning)\<rparr>"
  let ?s4 = "\<lparr>ds_file = Some (''box k1'' @ [newline] @ ''box k2'' @ [newline]), ds_pc = (\<lambda>_. Checking)(0 := Finished None, 1 := Finished None)\<rparr>"
  have unknown: "check_host demo_lib good_io ''box'' None k (Some []) = (None, Some [])" if "k \<noteq> []" for k
    using that by (simp add: check_host_def ensureKnownHosts_def good_io_def demo_lib_def HasPrefix_def)
  have "?step ?s0 ?s1" using dial_step.check[of ?s0 0 demo_lib good_io dials None "Some []"] unknown[of "''k1''"] by (simp add: dials_def)
  moreover have "?step ?s1 ?s2" using dial_step.check[of ?s1 1 demo_lib good_io dials None "Some []"] unknown[of "''k2''"]
    by (simp add: dials_def)
  moreover have "?step ?s2 ?s3"
  proof -
    have "appendKnownHost demo_lib good_io ''box'' None ''k1'' [] = (None, ''box k1'' @ [newline])" by code_simp
    then show ?thesis using dial_step.pin[of ?s2 0 "[]" demo_lib good_io dials None "''box k1'' @ [newline]"]
      by (simp add: dials_def fun_upd_twist)
  qed
  moreover have "?step ?s3 ?s4"
  proof -
    have "appendKnownHost demo_lib good_io ''box'' None ''k2'' (''box k1'' @ [newline]) =
        (None, ''box k1'' @ [newline] @ ''box k2'' @ [newline])" by code_simp
    then show ?thesis using dial_step.pin[of ?s3 1 "''box k1'' @ [newline]" demo_lib good_io dials None
        "''box k1'' @ [newline] @ ''box k2'' @ [newline]"] by (simp add: dials_def)
  qed
  ultimately have "?step\<^sup>*\<^sup>* ?s0 ?s4" by (meson rtranclp.rtrancl_into_rtrancl rtranclp.rtrancl_refl)
  moreover have "fst (tofuHostKeyCallback demo_lib good_io ''box'' None ''k2''
       (snd (tofuHostKeyCallback demo_lib good_io ''box'' None ''k1'' (Some [])))) = Some (HostKeyMismatch ''box'' ''k2'')" by code_simp
  ultimately show ?thesis using demo_lib_ok
    by (intro exI[of _ demo_lib] exI[of _ dials] exI[of _ ?s4]) (simp add: dials_def)
qed

text \<open>Pinning a host in a file whose last line is not terminated spoils both records: the line
  before it and the new one become a single line.\<close>

theorem pin_joins_unterminated_line:
  assumes "file = before @ tail" "terminated before" "newline \<notin> set tail" "tail \<noteq> []"
    and "appendKnownHost lib io host remote key file = (None, file')" "file' \<noteq> file"
    and "newline \<notin> set (kl_line lib (pin_addresses lib host remote) key)"
  shows "Split_byte file' newline = butlast (Split_byte before newline) @ [tail @ kl_line lib (pin_addresses lib host remote) key, []]"
proof -
  let ?line = "kl_line lib (pin_addresses lib host remote) key"
  have f: "file' = before @ (tail @ ?line) @ [newline]"
    using assms(1,5,6) by (auto simp: appendKnownHost_def pin_line_def split: if_splits)
  have "Split_byte (tail @ ?line) newline = [tail @ ?line]" using assms(3,7) by (intro Split_byte_one) auto
  then have tail: "Split_byte ((tail @ ?line) @ [newline]) newline = [tail @ ?line, []]"
    using Split_byte_append[of "tail @ ?line" newline "[]"] by simp
  show ?thesis
  proof (cases "before = []")
    case True
    then show ?thesis using f tail by simp
  next
    case False
    note b = terminated_append[OF False assms(2)]
    have "Split_byte before newline = Split_byte (butlast before) newline @ [[]]"
      by (subst b) (simp add: Split_byte_append[of _ _ "[]", simplified])
    moreover have "Split_byte file' newline = Split_byte (butlast before) newline @ [tail @ ?line, []]"
      unfolding f by (subst b) (simp only: append_assoc append_Cons append_Nil Split_byte_append tail[simplified append_assoc])
    ultimately show ?thesis by simp
  qed
qed

theorem pin_joins_unterminated_line_witness:
  "Split_byte (''a k0b k1'' @ [newline]) newline = [''a k0b k1'', []]"
proof -
  have "appendKnownHost demo_lib good_io ''b'' None ''k1'' ''a k0'' = (None, ''a k0b k1'' @ [newline])" by code_simp
  moreover have "kl_line demo_lib (pin_addresses demo_lib ''b'' None) ''k1'' = ''b k1''" by code_simp
  ultimately show ?thesis
    using pin_joins_unterminated_line[of "''a k0''" "[]" "''a k0''" demo_lib good_io "''b''" None "''k1''" "''a k0b k1'' @ [newline]"]
    by (simp add: terminated_def newline_def)
qed

end
