(* ===== verification/Ssh_Transport.thy ===== *)
theory Ssh_Transport
  imports Config_Store Go_Netip
begin

text \<open>
  \<open>internal/ssh/proxy.go\<close> and \<open>internal/ssh/dial.go\<close>: how a target is reached. The selection of the
  route (proxy command, jump host, SOCKS proxy, direct), the parsers of proxy and jump
  specifications, the dial through at most one jump host, and the fallback to a direct connection.

  A connection is a value that says by which route it was made. The network, the processes, the SSH
  handshake, the environment variables and the callbacks that resolve cloud bindings are fields of an
  environment record; every network contact and every authentication is an event of the trace that
  the dial returns, so that failed attempts count too. Closing of resources and timeouts are not
  modelled.
\<close>

section \<open>Routes\<close>

datatype transportKind = kindDirect | kindProxyCommand | kindProxyJump | kindSOCKS5

fun kind_String :: "transportKind \<Rightarrow> string" where
  "kind_String kindProxyCommand = ''proxy-command''"
| "kind_String kindProxyJump = ''proxy-jump''"
| "kind_String kindSOCKS5 = ''socks5''"
| "kind_String kindDirect = ''direct''"

type_synonym proxy_auth = "string \<times> string"

record BuildOpts =
  bo_StrictRoute :: bool
  bo_ResolveCloud :: bool \<comment> \<open>the callback is set\<close>
  bo_ResolveJump :: bool
  bo_Password :: string
  bo_Alias :: string
  bo_ProbeOnly :: bool
  bo_Insecure :: bool
  bo_ConfigPath :: string

definition zero_opts :: BuildOpts where
  "zero_opts = \<lparr>bo_StrictRoute = False, bo_ResolveCloud = False, bo_ResolveJump = False, bo_Password = [], bo_Alias = [],
     bo_ProbeOnly = False, bo_Insecure = False, bo_ConfigPath = []\<rparr>"

datatype conn = DirectConn string | CommandConn string | SocksConn string string | JumpConn conn string string
  \<comment> \<open>a jump connection has the connection to the jump host, its address and the target's address\<close>

datatype ssh_event = Contact conn | Authenticate string string bool \<comment> \<open>address, password, insecure\<close>
  | UsedAlias string | FailedAlias string

datatype dial_error = TargetRequiredErr | EmptyJump | JumpSyntax | JumpPort | JumpHost | DirectFailed | CommandFailed | SocksFailed
  | ResolveFailed | NotAuthenticated | NestedCloudJump | BuildFailed | HandshakeFailed | ForwardFailed | BothFailed dial_error dial_error

record ssh_env =
  sn_getenv :: "string \<Rightarrow> string"
  sn_url :: "string \<Rightarrow> (string \<times> proxy_auth option) option" \<comment> \<open>host and user of a parsed URL\<close>
  sn_default_path :: string
  sn_config :: "string \<Rightarrow> Config option" \<comment> \<open>\<open>config.Load\<close>\<close>
  sn_reaches :: "conn \<Rightarrow> bool" \<comment> \<open>the connection can be opened\<close>
  sn_handshake :: "conn \<Rightarrow> Server \<Rightarrow> bool"
  sn_builds :: "Server \<Rightarrow> BuildOpts \<Rightarrow> bool"
  sn_resolve_cloud :: "Server \<Rightarrow> BuildOpts \<Rightarrow> (Server option \<times> BuildOpts) option"
  sn_resolve_jump :: "string \<Rightarrow> (Server \<times> BuildOpts) option"

definition socksEnvVars :: "string list" where
  "socksEnvVars = [''ALL_PROXY'', ''all_proxy'', ''SOCKS5_PROXY'', ''socks5_proxy'', ''HTTPS_PROXY'', ''https_proxy'']"

definition parseSocksAddr :: "ssh_env \<Rightarrow> string \<Rightarrow> string \<times> proxy_auth option" where
  "parseSocksAddr env raw =
    (let v = TrimSpace raw in
     if v = [] then ([], None)
     else let lower = ToLower v in
       if HasPrefix lower ''socks5://'' \<or> HasPrefix lower ''socks5h://'' then
         (case sn_url env v of None \<Rightarrow> ([], None)
          | Some (hostPort, auth) \<Rightarrow> if SplitHostPort hostPort = None then ([], None) else (hostPort, auth))
       else if Contains v ''://'' then ([], None)
       else if SplitHostPort v = None then ([], None)
       else (v, None))"

definition normalizeSocksAddr :: "ssh_env \<Rightarrow> string \<Rightarrow> string" where
  "normalizeSocksAddr env raw = fst (parseSocksAddr env raw)"

fun first_proxy :: "ssh_env \<Rightarrow> string list \<Rightarrow> string \<times> proxy_auth option" where
  "first_proxy env [] = ([], None)"
| "first_proxy env (k # ks) =
    (let p = parseSocksAddr env (sn_getenv env k) in if fst p \<noteq> [] then p else first_proxy env ks)"

definition socksProxyFromEnv :: "ssh_env \<Rightarrow> string \<times> proxy_auth option" where
  "socksProxyFromEnv env = first_proxy env socksEnvVars"

definition resolveRouteTransportKind :: "ssh_env \<Rightarrow> Server \<Rightarrow> bool \<Rightarrow> transportKind \<times> string \<times> proxy_auth option" where
  "resolveRouteTransportKind env s strict =
    (if TrimSpace (sv_ProxyCommand s) \<noteq> [] then (kindProxyCommand, TrimSpace (sv_ProxyCommand s), None)
     else if TrimSpace (sv_ProxyJump s) \<noteq> [] then (kindProxyJump, TrimSpace (sv_ProxyJump s), None)
     else let (hostPort, auth) = parseSocksAddr env (sv_Proxy s) in
       if hostPort \<noteq> [] then (kindSOCKS5, hostPort, auth)
       else let (envHostPort, envAuth) = socksProxyFromEnv env in
         if \<not> strict \<and> envHostPort \<noteq> [] then (kindSOCKS5, envHostPort, envAuth)
         else (kindDirect, [], None))"

definition resolveTransportKind :: "ssh_env \<Rightarrow> Server \<Rightarrow> transportKind \<times> string \<times> proxy_auth option" where
  "resolveTransportKind env s = resolveRouteTransportKind env s False"

section \<open>Jump specifications and tokens\<close>

record jumpSpec =
  js_user :: string
  js_host :: string
  js_port :: int

definition parseJumpSpec :: "string \<Rightarrow> string \<Rightarrow> dial_error + jumpSpec" where
  "parseJumpSpec spec defaultUser =
    (let v0 = TrimSpace spec in
     if v0 = [] then Inl EmptyJump
     else let (user, v) = (case LastIndexAny v0 ''@'' of None \<Rightarrow> (defaultUser, v0) | Some at \<Rightarrow> (take at v0, drop (Suc at) v0)) in
       if CHR '':'' \<in> set v then
         (case SplitHostPort v of None \<Rightarrow> Inl JumpSyntax
          | Some (host, portStr) \<Rightarrow>
              (let (port, ok) = Atoi portStr in
               if \<not> ok \<or> port < 1 \<or> 65535 < port then Inl JumpPort
               else if host = [] then Inl JumpHost
               else Inr \<lparr>js_user = user, js_host = host, js_port = port\<rparr>))
       else if v = [] then Inl JumpHost
       else Inr \<lparr>js_user = user, js_host = v, js_port = 22\<rparr>)"

fun substituteTokens :: "string \<Rightarrow> string \<Rightarrow> string \<Rightarrow> string \<Rightarrow> string" where
  "substituteTokens [] host port user = []"
| "substituteTokens [c] host port user = [c]"
| "substituteTokens (a # b # rest) host port user =
    (if a = CHR ''%'' \<and> b = CHR ''h'' then host @ substituteTokens rest host port user
     else if a = CHR ''%'' \<and> b = CHR ''p'' then port @ substituteTokens rest host port user
     else if a = CHR ''%'' \<and> b = CHR ''r'' then user @ substituteTokens rest host port user
     else a # substituteTokens (b # rest) host port user)"

definition portOf :: "Server \<Rightarrow> int" where
  "portOf s = (if sv_Port s = 0 then 22 else sv_Port s)"

definition Address :: "Server \<Rightarrow> string" where
  "Address s = JoinHostPort (sv_Host s) (Itoa (portOf s))"

text \<open>A nil record under the alias would be dereferenced by the code; loaded configurations have none.\<close>

definition resolveJumpServer :: "ssh_env \<Rightarrow> string \<Rightarrow> Server \<Rightarrow> BuildOpts \<Rightarrow> dial_error + (Server \<times> string)" where
  "resolveJumpServer env spec target opts =
    (let v = TrimSpace spec; path = (if bo_ConfigPath opts = [] then sn_default_path env else bo_ConfigPath opts) in
     case (if path = [] then None else Option.bind (sn_config env path) (\<lambda>cfg. server_at (cf_Servers cfg) v)) of
       Some js \<Rightarrow> Inr (js, v)
     | None \<Rightarrow> bind_result (parseJumpSpec v (sv_User target)) (\<lambda>js.
         Inr (zero_server\<lparr>sv_Host := js_host js, sv_Port := js_port js, sv_User := js_user js, sv_Auth := AuthAgent\<rparr>, [])))"

section \<open>Dialing\<close>

definition is_cloud :: "Server \<Rightarrow> bool" where
  "is_cloud s \<longleftrightarrow> sv_CloudEntry s \<noteq> [] \<or> sv_Auth s = AuthCloud"

text \<open>The jump host and the options to reach it: by the callback of a vault, or by the configuration,
  and then a cloud binding exchanged for its target.\<close>

definition jump_target :: "ssh_env \<Rightarrow> Server \<Rightarrow> string \<Rightarrow> BuildOpts \<Rightarrow> dial_error + (Server \<times> string \<times> BuildOpts)" where
  "jump_target env s spec opts =
    bind_result
      (if bo_ResolveJump opts
       then (case sn_resolve_jump env spec of None \<Rightarrow> Inl ResolveFailed
             | Some (jump, jopts) \<Rightarrow> Inr (jump, [], jopts\<lparr>bo_Insecure := bo_Insecure opts\<rparr>))
       else map_sum id (\<lambda>(jump, alias). (jump, alias, zero_opts\<lparr>bo_Insecure := bo_Insecure opts, bo_ConfigPath := bo_ConfigPath opts\<rparr>))
             (resolveJumpServer env spec s opts))
      (\<lambda>(jump, alias, jopts).
        if bo_ResolveCloud opts \<and> is_cloud jump
        then (case sn_resolve_cloud env jump jopts of
                None \<Rightarrow> Inl ResolveFailed
              | Some (None, _) \<Rightarrow> Inl NotAuthenticated
              | Some (Some resolved, ropts) \<Rightarrow>
                  if is_cloud resolved then Inl NotAuthenticated
                  else if sv_ProxyJump resolved \<noteq> [] then Inl NestedCloudJump
                  else Inr (resolved, alias, ropts\<lparr>bo_StrictRoute := True\<rparr>))
        else Inr (jump, alias, jopts\<lparr>bo_StrictRoute := bo_StrictRoute jopts \<or> bo_StrictRoute opts\<rparr>))"

definition open_conn :: "ssh_env \<Rightarrow> dial_error \<Rightarrow> conn \<Rightarrow> (dial_error + conn) \<times> ssh_event list" where
  "open_conn env e c = (if sn_reaches env c then Inr c else Inl e, [Contact c])"

text \<open>\<open>dialTransportKind\<close> and \<open>dialViaJump\<close>. The jump host is reached with its own jump cleared, so
  the recursion ends after one hop.\<close>

function dialTransportKind :: "ssh_env \<Rightarrow> Server \<Rightarrow> BuildOpts \<Rightarrow> bool \<Rightarrow> (dial_error + conn) \<times> transportKind \<times> ssh_event list"
  and dialViaJump :: "ssh_env \<Rightarrow> Server \<Rightarrow> string \<Rightarrow> BuildOpts \<Rightarrow> (dial_error + conn) \<times> ssh_event list" where
  "dialTransportKind env s opts forceDirect =
    (let (kind, param, auth) = (if forceDirect \<and> \<not> bo_StrictRoute opts then (kindDirect, [], None)
           else resolveRouteTransportKind env s (bo_StrictRoute opts)) in
     case kind of
       kindProxyCommand \<Rightarrow>
         (let (r, ev) = open_conn env CommandFailed (CommandConn (substituteTokens param (sv_Host s) (Itoa (portOf s)) (sv_User s)))
          in (r, kindProxyCommand, ev))
     | kindProxyJump \<Rightarrow> (let (r, ev) = dialViaJump env s param opts in (r, kindProxyJump, ev))
     | kindSOCKS5 \<Rightarrow> (let (r, ev) = open_conn env SocksFailed (SocksConn param (Address s)) in (r, kindSOCKS5, ev))
     | kindDirect \<Rightarrow> (let (r, ev) = open_conn env DirectFailed (DirectConn (Address s)) in (r, kindDirect, ev)))"
| "dialViaJump env s spec opts =
    (case jump_target env s spec opts of Inl e \<Rightarrow> (Inl e, [])
     | Inr (jump, alias, jopts) \<Rightarrow>
        if \<not> sn_builds env jump jopts then (Inl BuildFailed, [])
        else (case dialTransportKind env (jump\<lparr>sv_ProxyJump := []\<rparr>) jopts False of
          (Inl e, _, ev) \<Rightarrow> (Inl e, ev)
        | (Inr jconn, _, ev) \<Rightarrow>
            let ev = ev @ [Authenticate (Address jump) (bo_Password jopts) (bo_Insecure jopts)] in
            if \<not> sn_handshake env jconn jump then (Inl HandshakeFailed, ev)
            else let ev = ev @ (if alias \<noteq> [] \<and> \<not> bo_ProbeOnly opts then [UsedAlias alias] else []);
                     c = JumpConn jconn (Address jump) (Address s) in
              (if sn_reaches env c then Inr c else Inl ForwardFailed, ev @ [Contact c])))"
  by pat_completeness auto
termination
  by (relation "measure (\<lambda>x. case x of Inl (env, s, opts, f) \<Rightarrow> (if TrimSpace (sv_ProxyJump s) \<noteq> [] then 2 else 0)
      | Inr (env, s, spec, opts) \<Rightarrow> 1)")
    (auto simp: resolveRouteTransportKind_def Let_def split: if_splits prod.splits)

declare dialTransportKind.simps [simp del] dialViaJump.simps [simp del]

definition dial_once :: "ssh_env \<Rightarrow> Server \<Rightarrow> BuildOpts \<Rightarrow> bool \<Rightarrow> (dial_error + conn) \<times> transportKind \<times> ssh_event list" where
  "dial_once env s opts forceDirect =
    (case dialTransportKind env s opts forceDirect of
       (Inl e, kind, ev) \<Rightarrow> (Inl e, kind, ev)
     | (Inr c, kind, ev) \<Rightarrow>
         (if sn_handshake env c s then Inr c else Inl HandshakeFailed, kind,
          ev @ [Authenticate (Address s) (bo_Password opts) (bo_Insecure opts)]))"

definition resolve_target :: "ssh_env \<Rightarrow> Server \<Rightarrow> BuildOpts \<Rightarrow> dial_error + (Server \<times> BuildOpts)" where
  "resolve_target env s opts =
    (if bo_ResolveCloud opts \<and> is_cloud s
     then (case sn_resolve_cloud env s opts of
             None \<Rightarrow> Inl ResolveFailed
           | Some (None, _) \<Rightarrow> Inl NotAuthenticated
           | Some (Some resolved, ropts) \<Rightarrow>
               if is_cloud resolved then Inl NotAuthenticated else Inr (resolved, ropts\<lparr>bo_StrictRoute := True\<rparr>))
     else Inr (s, opts))"

definition alias_event :: "(string \<Rightarrow> ssh_event) \<Rightarrow> BuildOpts \<Rightarrow> ssh_event list" where
  "alias_event f opts = (if bo_Alias opts \<noteq> [] \<and> \<not> bo_ProbeOnly opts then [f (bo_Alias opts)] else [])"

definition Dial :: "ssh_env \<Rightarrow> Server option \<Rightarrow> BuildOpts \<Rightarrow> (dial_error + (conn \<times> transportKind)) \<times> ssh_event list" where
  "Dial env so opts0 =
    (case so of None \<Rightarrow> (Inl TargetRequiredErr, []) | Some s0 \<Rightarrow>
     case resolve_target env s0 opts0 of Inl e \<Rightarrow> (Inl e, alias_event FailedAlias opts0) | Inr (s, opts) \<Rightarrow>
     if \<not> sn_builds env s opts then (Inl BuildFailed, alias_event FailedAlias opts)
     else case dial_once env s opts False of
       (Inr c, kind, ev) \<Rightarrow> (Inr (c, kind), ev @ alias_event UsedAlias opts)
     | (Inl e, kind, ev) \<Rightarrow>
         if kind \<noteq> kindDirect \<and> \<not> bo_StrictRoute opts
         then (case dial_once env s opts True of
                 (Inr c, kind', ev') \<Rightarrow> (Inr (c, kind'), ev @ ev' @ alias_event UsedAlias opts)
               | (Inl e', _, ev') \<Rightarrow> (Inl (BothFailed e e'), ev @ ev' @ alias_event FailedAlias opts))
         else (Inl e, ev @ alias_event FailedAlias opts))"

section \<open>Laws\<close>

subsection \<open>The plan of a dial\<close>

text \<open>The connections that the configured route of a server calls for, in order: one, or the one to the jump
  host and the one through it.\<close>

definition hop :: "ssh_env \<Rightarrow> Server \<Rightarrow> bool \<Rightarrow> conn" where
  "hop env s strict =
    (case resolveRouteTransportKind env s strict of
       (kindProxyCommand, p, _) \<Rightarrow> CommandConn (substituteTokens p (sv_Host s) (Itoa (portOf s)) (sv_User s))
     | (kindSOCKS5, p, _) \<Rightarrow> SocksConn p (Address s)
     | _ \<Rightarrow> DirectConn (Address s))"

definition route_plan :: "ssh_env \<Rightarrow> Server \<Rightarrow> BuildOpts \<Rightarrow> conn list" where
  "route_plan env s opts =
    (case resolveRouteTransportKind env s (bo_StrictRoute opts) of
       (kindProxyJump, p, _) \<Rightarrow>
         (case jump_target env s p opts of Inl _ \<Rightarrow> []
          | Inr (jump, alias, jopts) \<Rightarrow>
              let h = hop env (jump\<lparr>sv_ProxyJump := []\<rparr>) (bo_StrictRoute jopts) in [h, JumpConn h (Address jump) (Address s)])
     | _ \<Rightarrow> [hop env s (bo_StrictRoute opts)])"

fun contacts :: "ssh_event list \<Rightarrow> conn list" where
  "contacts [] = []"
| "contacts (Contact c # ev) = c # contacts ev"
| "contacts (_ # ev) = contacts ev"

lemma contacts_append [simp]: "contacts (a @ b) = contacts a @ contacts b"
  by (induction a rule: contacts.induct) auto

lemma contacts_alias [simp]: "contacts (alias_event FailedAlias opts) = []" "contacts (alias_event UsedAlias opts) = []"
  by (simp_all add: alias_event_def)

lemma no_second_jump: "fst (resolveRouteTransportKind env (s\<lparr>sv_ProxyJump := []\<rparr>) strict) \<noteq> kindProxyJump"
  by (simp add: resolveRouteTransportKind_def Let_def split: prod.splits)

definition hop_error :: "transportKind \<Rightarrow> dial_error" where
  "hop_error k = (case k of kindProxyCommand \<Rightarrow> CommandFailed | kindSOCKS5 \<Rightarrow> SocksFailed | _ \<Rightarrow> DirectFailed)"

lemma dial_no_jump:
  assumes "resolveRouteTransportKind env s (bo_StrictRoute opts) = (k, p, a)" "k \<noteq> kindProxyJump"
  shows "dialTransportKind env s opts False =
    (if sn_reaches env (hop env s (bo_StrictRoute opts)) then Inr (hop env s (bo_StrictRoute opts)) else Inl (hop_error k),
     k, [Contact (hop env s (bo_StrictRoute opts))])"
  using assms by (cases k) (auto simp: dialTransportKind.simps hop_def open_conn_def hop_error_def)

lemma dial_forced:
  "\<not> bo_StrictRoute opts \<Longrightarrow> dialTransportKind env s opts True =
    (if sn_reaches env (DirectConn (Address s)) then Inr (DirectConn (Address s)) else Inl DirectFailed, kindDirect, [Contact (DirectConn (Address s))])"
  by (simp add: dialTransportKind.simps open_conn_def)

lemma dial_plan:
  assumes "dialTransportKind env s opts False = (r, kind, ev)"
  shows "kind = fst (resolveRouteTransportKind env s (bo_StrictRoute opts))" "prefix (contacts ev) (route_plan env s opts)"
    "r = Inr c \<Longrightarrow> contacts ev = route_plan env s opts \<and> c = last (contacts ev)"
proof -
  obtain k p a where k: "resolveRouteTransportKind env s (bo_StrictRoute opts) = (k, p, a)" using prod_cases3 by blast
  have "kind = k \<and> prefix (contacts ev) (route_plan env s opts) \<and> (r = Inr c \<longrightarrow> contacts ev = route_plan env s opts \<and> c = last (contacts ev))"
  proof (cases "k = kindProxyJump")
    case False
    have plan: "route_plan env s opts = [hop env s (bo_StrictRoute opts)]"
      using False k by (cases k) (auto simp: route_plan_def)
    show ?thesis using dial_no_jump[OF k False] assms plan by (auto split: if_splits)
  next
    case True
    then obtain r' where d: "dialViaJump env s p opts = (r', ev)" "r = r'" "kind = k"
      using assms k by (auto simp: dialTransportKind.simps split: prod.splits)
    show ?thesis
    proof (cases "jump_target env s p opts")
      case (Inl e)
      then show ?thesis using d True k by (auto simp: dialViaJump.simps route_plan_def)
    next
      case (Inr t)
      obtain jump al jopts where t: "t = (jump, al, jopts)" using prod_cases3 by blast
      let ?j = "jump\<lparr>sv_ProxyJump := []\<rparr>"
      let ?h = "hop env ?j (bo_StrictRoute jopts)"
      have plan: "route_plan env s opts = [?h, JumpConn ?h (Address jump) (Address s)]"
        using True k Inr t by (simp add: route_plan_def Let_def)
      obtain k' p' a' where k': "resolveRouteTransportKind env ?j (bo_StrictRoute jopts) = (k', p', a')" using prod_cases3 by blast
      then have "k' \<noteq> kindProxyJump" using no_second_jump[of env jump "bo_StrictRoute jopts"] by simp
      from dial_no_jump[OF k' this] show ?thesis using d plan Inr t True k by (auto simp: dialViaJump.simps Let_def split: if_splits)
    qed
  qed
  then show "kind = fst (resolveRouteTransportKind env s (bo_StrictRoute opts))" "prefix (contacts ev) (route_plan env s opts)"
    "r = Inr c \<Longrightarrow> contacts ev = route_plan env s opts \<and> c = last (contacts ev)" using k by auto
qed

subsection \<open>Specifications of jump hosts\<close>

text \<open>The specification \<open>user@host:port\<close> that names a user, a host (also an IPv6 address, in brackets)
  and a port of the valid range is read back as exactly these three, whatever the default user is.\<close>

theorem parse_jump_roundtrip:
  assumes "host \<noteq> []" "1 \<le> port" "port \<le> 65535"
    "\<forall>c \<in> set host. c \<notin> {CHR ''['', CHR '']'', CHR ''@''} \<and> \<not> is_space c" "\<forall>c \<in> set user. \<not> is_space c"
  shows "parseJumpSpec (user @ ''@'' @ JoinHostPort host (Itoa port)) defaultUser =
    Inr \<lparr>js_user = user, js_host = host, js_port = port\<rparr>"
proof -
  let ?hp = "JoinHostPort host (Itoa port)"
  have d: "\<forall>c \<in> set (Itoa port). is_digit c" using assms(2) by (auto intro: Itoa_digits[of port])
  then have sep: "set (Itoa port) \<inter> {CHR '':'', CHR ''['', CHR '']''} = {}" using digit_chars by blast
  have hp: "\<forall>c \<in> set ?hp. c \<noteq> CHR ''@'' \<and> \<not> is_space c"
  proof
    fix c
    assume "c \<in> set ?hp"
    then consider "c \<in> set host" | "c \<in> set (Itoa port)" | "c \<in> {CHR '':'', CHR ''['', CHR '']''}"
      using JoinHostPort_chars[of host "Itoa port"] by blast
    then show "c \<noteq> CHR ''@'' \<and> \<not> is_space c"
    proof cases
      case 1
      then show ?thesis using assms(4) by auto
    next
      case 2
      then show ?thesis using d digit_chars by blast
    next
      case 3
      then show ?thesis by (auto simp: is_space_def less_eq_char_def)
    qed
  qed
  have at: "\<not> is_space (CHR ''@'')" by code_simp
  have t: "TrimSpace (user @ CHR ''@'' # ?hp) = user @ CHR ''@'' # ?hp"
    using assms(5) hp at by (intro TrimSpace_none) auto
  have a: "LastIndexAny (user @ CHR ''@'' # ?hp) ''@'' = Some (length user)" using hp by (intro LastIndexAny_split) auto
  have s: "SplitHostPort ?hp = Some (host, Itoa port)" using assms(4) sep by (intro SplitHostPort_JoinHostPort) auto
  have "CHR '':'' \<in> set ?hp" by (simp add: JoinHostPort_def)
  moreover have "Atoi (Itoa port) = (port, True)" using assms by (intro Atoi_Itoa) auto
  ultimately show ?thesis using assms t a s by (simp add: parseJumpSpec_def Let_def)
qed

lemma digits_of_2222: "digits_of 2222 = ''2222''"
  by code_simp

theorem parse_jump_roundtrip_witness:
  "parseJumpSpec (''ops@[fd00::1]:2222'') ''root'' = Inr \<lparr>js_user = ''ops'', js_host = ''fd00::1'', js_port = 2222\<rparr>"
  using parse_jump_roundtrip[of "''fd00::1''" 2222 "''ops''" "''root''"]
    digits_of_2222 by (simp add: JoinHostPort_def Itoa_def is_space_def less_eq_char_def)

subsection \<open>The trace of a dial\<close>

lemma dial_once_contacts:
  assumes "dial_once env s opts f = (r, kind, ev)"
  obtains r' ev' where "dialTransportKind env s opts f = (r', kind, ev')" "contacts ev = contacts ev'" "\<And>c. r = Inr c \<Longrightarrow> r' = Inr c"
  using assms by (auto simp: dial_once_def split: prod.splits sum.splits if_splits)

text \<open>C14: a dial contacts the connections of the configured route in their order and stops at the first
  that fails; only when the route is not strict and was not already direct is the target then contacted
  directly, once. The connection it returns is the last it contacted, and ends the route or is that
  direct one.\<close>

theorem dial_follows_route:
  assumes "Dial env (Some s0) opts0 = (r, ev)" "resolve_target env s0 opts0 = Inr (s, opts)"
  shows "(prefix (contacts ev) (route_plan env s opts) \<or>
     (\<exists>p. contacts ev = p @ [DirectConn (Address s)] \<and> prefix p (route_plan env s opts) \<and>
       \<not> bo_StrictRoute opts \<and> fst (resolveRouteTransportKind env s False) \<noteq> kindDirect)) \<and>
    (\<forall>c k. r = Inr (c, k) \<longrightarrow> contacts ev \<noteq> [] \<and> last (contacts ev) = c \<and>
       (contacts ev = route_plan env s opts \<and> k = fst (resolveRouteTransportKind env s (bo_StrictRoute opts)) \<or>
        c = DirectConn (Address s) \<and> k = kindDirect))"
proof -
  obtain r1 k1 e1 where one: "dial_once env s opts False = (r1, k1, e1)" using prod_cases3 by blast
  obtain r2 k2 e2 where two: "dial_once env s opts True = (r2, k2, e2)" using prod_cases3 by blast
  have plan: "k1 = fst (resolveRouteTransportKind env s (bo_StrictRoute opts))" "prefix (contacts e1) (route_plan env s opts)"
    "\<And>c. r1 = Inr c \<Longrightarrow> contacts e1 = route_plan env s opts \<and> c = last (contacts e1)"
    using one by (metis dial_once_contacts dial_plan)+
  have direct: "contacts e2 = [DirectConn (Address s)]" "\<And>c. r2 = Inr c \<Longrightarrow> c = DirectConn (Address s)" "k2 = kindDirect"
    if "\<not> bo_StrictRoute opts"
    using two dial_forced[OF that, of env s] by (auto simp: dial_once_def split: if_splits)
  have ne: "route_plan env s opts \<noteq> []" if "r1 = Inr c" for c
    using one that by (auto simp: dial_once_def dialTransportKind.simps dialViaJump.simps route_plan_def Let_def
        split: prod.splits sum.splits transportKind.splits if_splits)
  show ?thesis
    using assms one two plan direct ne
    by (auto simp: Dial_def split: sum.splits if_splits)
qed

definition example_env :: ssh_env where
  "example_env = \<lparr>sn_getenv = (\<lambda>k. if k = ''ALL_PROXY'' then ''10.0.0.9:1080'' else []), sn_url = (\<lambda>_. None), sn_default_path = [],
     sn_config = (\<lambda>_. None), sn_reaches = (\<lambda>c. case c of SocksConn _ _ \<Rightarrow> False | _ \<Rightarrow> True), sn_handshake = (\<lambda>_ _. True), sn_builds = (\<lambda>_ _. True),
     sn_resolve_cloud = (\<lambda>s opts. Some (Some (s\<lparr>sv_CloudEntry := [], sv_Auth := AuthKey\<rparr>), opts)), sn_resolve_jump = (\<lambda>_. None)\<rparr>"

definition example_target :: Server where
  "example_target = zero_server\<lparr>sv_Host := ''10.0.0.5'', sv_User := ''root'', sv_Auth := AuthKey\<rparr>"

definition proxied_dial :: "(dial_error + (conn \<times> transportKind)) \<times> ssh_event list" where
  "proxied_dial = (Inr (DirectConn ''10.0.0.5:22'', kindDirect),
     [Contact (SocksConn ''10.0.0.9:1080'' ''10.0.0.5:22''), Contact (DirectConn ''10.0.0.5:22''),
      Authenticate ''10.0.0.5:22'' [] False])"

lemma proxied_dial: "Dial example_env (Some example_target) zero_opts = proxied_dial"
  by code_simp

theorem dial_follows_route_witness:
  "last (contacts (snd (Dial example_env (Some example_target) zero_opts))) = DirectConn ''10.0.0.5:22''"
proof -
  have r: "resolve_target example_env example_target zero_opts = Inr (example_target, zero_opts)" by code_simp
  have "Dial example_env (Some example_target) zero_opts = (fst proxied_dial, snd proxied_dial)" by (simp add: proxied_dial)
  from dial_follows_route[OF this r] have "last (contacts (snd proxied_dial)) = DirectConn ''10.0.0.5:22''"
    by (simp add: proxied_dial_def)
  then show ?thesis by (simp add: proxied_dial)
qed

subsection \<open>Strict routes and the environment\<close>

lemma getenv_frames:
  fixes g
  defines "u env \<equiv> env\<lparr>sn_getenv := g\<rparr>"
  shows "sn_url (u env) = sn_url env" "sn_default_path (u env) = sn_default_path env" "sn_config (u env) = sn_config env"
    "sn_reaches (u env) = sn_reaches env" "sn_handshake (u env) = sn_handshake env" "sn_builds (u env) = sn_builds env"
    "sn_resolve_cloud (u env) = sn_resolve_cloud env" "sn_resolve_jump (u env) = sn_resolve_jump env"
  by (simp_all add: u_def)

lemma parseSocksAddr_getenv [simp]: "parseSocksAddr (env\<lparr>sn_getenv := g\<rparr>) raw = parseSocksAddr env raw"
  unfolding parseSocksAddr_def getenv_frames ..

lemma strict_route_getenv [simp]:
  "resolveRouteTransportKind (env\<lparr>sn_getenv := g\<rparr>) s True = resolveRouteTransportKind env s True"
  by (simp add: resolveRouteTransportKind_def Let_def split: prod.splits)

lemma jump_target_getenv [simp]: "jump_target (env\<lparr>sn_getenv := g\<rparr>) s spec opts = jump_target env s spec opts"
  unfolding jump_target_def resolveJumpServer_def getenv_frames ..

lemma jump_target_strict:
  assumes "jump_target env s spec opts = Inr (jump, al, jopts)" "bo_StrictRoute opts"
  shows "bo_StrictRoute jopts"
proof -
  from assms obtain j n o' where "(if bo_ResolveCloud opts \<and> is_cloud j
        then (case sn_resolve_cloud env j o' of
                None \<Rightarrow> Inl ResolveFailed
              | Some (None, _) \<Rightarrow> Inl NotAuthenticated
              | Some (Some resolved, ropts) \<Rightarrow>
                  if is_cloud resolved then Inl NotAuthenticated
                  else if sv_ProxyJump resolved \<noteq> [] then Inl NestedCloudJump
                  else Inr (resolved, n, ropts\<lparr>bo_StrictRoute := True\<rparr>))
        else Inr (j, n, o'\<lparr>bo_StrictRoute := bo_StrictRoute o' \<or> bo_StrictRoute opts\<rparr>)) = Inr (jump, al, jopts)"
    unfolding jump_target_def bind_result_eq_Inr by (auto simp only: prod.case)
  then show ?thesis using assms(2)
    by (cases "sn_resolve_cloud env j o'") (auto split: if_splits option.splits)
qed

lemma open_conn_getenv [simp]: "open_conn (env\<lparr>sn_getenv := g\<rparr>) e c = open_conn env e c"
  by (simp add: open_conn_def)

lemma strict_transport_getenv:
  "bo_StrictRoute opts \<Longrightarrow> dialTransportKind (env\<lparr>sn_getenv := g\<rparr>) s opts f = dialTransportKind env s opts f"
  "bo_StrictRoute opts \<Longrightarrow> dialViaJump (env\<lparr>sn_getenv := g\<rparr>) s spec opts = dialViaJump env s spec opts"
proof (induction env s opts f and env s spec opts rule: dialTransportKind_dialViaJump.induct)
  case (1 env s opts forceDirect)
  then show ?case
    by (subst (1 2) dialTransportKind.simps) (auto split: prod.splits transportKind.splits)
next
  case (2 env s spec opts)
  show ?case
  proof (cases "jump_target env s spec opts")
    case (Inl e)
    then show ?thesis by (simp add: dialViaJump.simps)
  next
    case (Inr t)
    obtain jump al jopts where t: "t = (jump, al, jopts)" using prod_cases3 by blast
    have "sn_builds env jump jopts \<Longrightarrow> dialTransportKind (env\<lparr>sn_getenv := g\<rparr>) (jump\<lparr>sv_ProxyJump := []\<rparr>) jopts False =
       dialTransportKind env (jump\<lparr>sv_ProxyJump := []\<rparr>) jopts False"
      using 2 Inr t jump_target_strict[of env s spec opts jump al jopts] by auto
    then show ?thesis using Inr t by (auto simp: dialViaJump.simps Let_def split: prod.splits sum.splits)
  qed
qed

text \<open>The dial of a strict route, and of every binding to a cloud credential, gives the same result and
  makes the same contacts whatever the proxy variables of the environment say.\<close>

theorem strict_dial_ignores_environment:
  assumes "bo_StrictRoute opts \<or> bo_ResolveCloud opts \<and> is_cloud s"
  shows "Dial (env\<lparr>sn_getenv := g\<rparr>) (Some s) opts = Dial env (Some s) opts"
proof -
  have r: "resolve_target (env\<lparr>sn_getenv := g\<rparr>) s opts = resolve_target env s opts"
    by (simp add: resolve_target_def)
  have st: "bo_StrictRoute opts'" if "resolve_target env s opts = Inr (s', opts')" for s' opts'
    using that assms by (auto simp: resolve_target_def split: if_splits option.splits prod.splits)
  have o: "dial_once (env\<lparr>sn_getenv := g\<rparr>) s' opts' f = dial_once env s' opts' f" if "bo_StrictRoute opts'" for s' opts' f
    unfolding dial_once_def strict_transport_getenv(1)[OF that] getenv_frames ..
  show ?thesis
    by (auto simp: Dial_def r o split: sum.splits prod.splits dest: st)
qed

definition cloud_target :: Server where
  "cloud_target = example_target\<lparr>sv_CloudEntry := ''e1'', sv_Auth := AuthCloud\<rparr>"

theorem strict_dial_ignores_environment_witness:
  "Dial (example_env\<lparr>sn_getenv := (\<lambda>_. [])\<rparr>) (Some cloud_target) (zero_opts\<lparr>bo_ResolveCloud := True\<rparr>) =
   Dial example_env (Some cloud_target) (zero_opts\<lparr>bo_ResolveCloud := True\<rparr>)"
  by (rule strict_dial_ignores_environment) code_simp

subsection \<open>Where the password goes\<close>

fun password_ok :: "string \<Rightarrow> string \<Rightarrow> ssh_event \<Rightarrow> bool" where
  "password_ok a p (Authenticate a' p' i) \<longleftrightarrow> p' = [] \<or> a' = a \<and> p' = p"
| "password_ok a p _ \<longleftrightarrow> True"

abbreviation passwords_for :: "string \<Rightarrow> string \<Rightarrow> ssh_event list \<Rightarrow> bool" where
  "passwords_for a p \<equiv> list_all (password_ok a p)"

lemma jump_password:
  "jump_target env s spec opts = Inr (jump, al, jopts) \<Longrightarrow> \<not> bo_ResolveJump opts \<Longrightarrow> \<not> bo_ResolveCloud opts \<Longrightarrow> bo_Password jopts = []"
  by (cases "resolveJumpServer env spec s opts") (auto simp: jump_target_def zero_opts_def)

lemma no_jump_passwords:
  assumes "TrimSpace (sv_ProxyJump s) = []"
  shows "passwords_for a p (snd (snd (dialTransportKind env s opts f)))"
  using assms by (auto simp: dialTransportKind.simps resolveRouteTransportKind_def open_conn_def Let_def split: prod.splits)

lemma jump_passwords:
  assumes "\<not> bo_ResolveJump opts" "\<not> bo_ResolveCloud opts"
  shows "passwords_for a p (snd (dialViaJump env s spec opts))"
proof (cases "jump_target env s spec opts")
  case (Inl e)
  then show ?thesis by (simp add: dialViaJump.simps)
next
  case (Inr t)
  obtain jump al jopts where t: "t = (jump, al, jopts)" using prod_cases3 by blast
  obtain r k ev where d: "dialTransportKind env (jump\<lparr>sv_ProxyJump := []\<rparr>) jopts False = (r, k, ev)" using prod_cases3 by blast
  have "passwords_for a p ev" using no_jump_passwords[of "jump\<lparr>sv_ProxyJump := []\<rparr>" a p env jopts False] d by simp
  then show ?thesis using Inr t d jump_password[of env s spec opts jump al jopts] assms
    by (auto simp: dialViaJump.simps Let_def split: sum.splits)
qed

lemma transport_passwords:
  assumes "\<not> bo_ResolveJump opts" "\<not> bo_ResolveCloud opts"
  shows "passwords_for a p (snd (snd (dialTransportKind env s opts f)))"
  using jump_passwords[OF assms, of a p env s]
  by (auto simp: dialTransportKind.simps open_conn_def split: prod.splits transportKind.splits)
    (metis snd_conv)+

lemma dial_once_passwords:
  assumes "\<not> bo_ResolveJump opts" "\<not> bo_ResolveCloud opts"
  shows "passwords_for (Address s) (bo_Password opts) (snd (snd (dial_once env s opts f)))"
  using transport_passwords[OF assms, of "Address s" "bo_Password opts" env s f]
  by (auto simp: dial_once_def split: prod.splits sum.splits)

lemma dial_passwords:
  assumes "\<not> bo_ResolveJump opts" "\<not> bo_ResolveCloud opts"
  shows "passwords_for (Address s) (bo_Password opts) (snd (Dial env (Some s) opts))"
proof -
  have "resolve_target env s opts = Inr (s, opts)" using assms(2) by (simp add: resolve_target_def)
  moreover have "passwords_for (Address s) (bo_Password opts) (alias_event f opts)" if "\<And>x. \<exists>z. f x = UsedAlias z \<or> f x = FailedAlias z" for f
    using that[of "bo_Alias opts"] by (auto simp: alias_event_def)
  ultimately show ?thesis
    using dial_once_passwords[OF assms, of s env False] dial_once_passwords[OF assms, of s env True]
    by (auto simp: Dial_def split: if_splits prod.splits sum.splits)
qed

text \<open>A dial that resolves its jump host from the configuration offers the password it was given to the
  target only, on every attempt: no jump host is authenticated to with a password, the target's or another.\<close>

theorem password_only_for_target:
  assumes "Dial env (Some s) opts = (r, ev)" "\<not> bo_ResolveJump opts" "\<not> bo_ResolveCloud opts"
    "Authenticate a p i \<in> set ev" "p \<noteq> []"
  shows "a = Address s \<and> p = bo_Password opts"
  using dial_passwords[OF assms(2,3), of s env] assms(1,4,5) by (auto simp: list_all_iff)

definition jump_env :: ssh_env where
  "jump_env = example_env\<lparr>sn_reaches := (\<lambda>_. True)\<rparr>"

definition jumped_target :: Server where
  "jumped_target = example_target\<lparr>sv_ProxyJump := ''ops@gate:2222''\<rparr>"

lemma jumped_dial: "snd (Dial jump_env (Some jumped_target) (zero_opts\<lparr>bo_Password := ''pw''\<rparr>)) =
  [Contact (SocksConn ''10.0.0.9:1080'' ''gate:2222''), Authenticate ''gate:2222'' [] False,
   Contact (JumpConn (SocksConn ''10.0.0.9:1080'' ''gate:2222'') ''gate:2222'' ''10.0.0.5:22''), Authenticate ''10.0.0.5:22'' ''pw'' False]"
  by code_simp

theorem password_only_for_target_witness:
  "''10.0.0.5:22'' = Address jumped_target \<and> ''pw'' = bo_Password (zero_opts\<lparr>bo_Password := ''pw''\<rparr>)"
proof (rule password_only_for_target)
  let ?d = "Dial jump_env (Some jumped_target) (zero_opts\<lparr>bo_Password := ''pw''\<rparr>)"
  show "?d = (fst ?d, snd ?d)" by simp
  show "Authenticate ''10.0.0.5:22'' ''pw'' False \<in> set (snd ?d)" unfolding jumped_dial by simp
qed (simp_all add: zero_opts_def)

end
