(* ===== verification/Go_Encoding.thy ===== *)
theory Go_Encoding
  imports Go_Strings
begin

text \<open>
  Package \<open>encoding/base64\<close> with the raw URL alphabet, as \<open>crypto.go\<close> uses it, and
  \<open>utf8.Valid\<close>. The decoder ignores line ends and the unused low bits of the last character, as
  Go's non-strict decoder does.
\<close>

section \<open>Base 64\<close>

definition b64_char :: "nat \<Rightarrow> char" where
  "b64_char n = char_of (if n < 26 then 65 + n else if n < 52 then 71 + n else if n < 62 then n - 4 else if n = 62 then 45 else (95 :: nat))"

definition b64_value :: "char \<Rightarrow> nat option" where
  "b64_value c = (let n = of_char c in
     if 65 \<le> n \<and> n \<le> 90 then Some (n - 65) else if 97 \<le> n \<and> n \<le> 122 then Some (n - 71)
     else if 48 \<le> n \<and> n \<le> 57 then Some (n + 4) else if n = 45 then Some 62 else if n = (95 :: nat) then Some 63 else None)"

fun b64_split :: "nat list \<Rightarrow> nat list" where
  "b64_split [] = []"
| "b64_split [a] = [a div 4, a mod 4 * 16]"
| "b64_split [a, b] = [a div 4, a mod 4 * 16 + b div 16, b mod 16 * 4]"
| "b64_split (a # b # c # r) = a div 4 # (a mod 4 * 16 + b div 16) # (b mod 16 * 4 + c div 64) # c mod 64 # b64_split r"

fun b64_join :: "nat list \<Rightarrow> nat list option" where
  "b64_join [] = Some []"
| "b64_join [x] = None"
| "b64_join [x, y] = Some [x * 4 + y div 16]"
| "b64_join [x, y, z] = Some [x * 4 + y div 16, y mod 16 * 16 + z div 4]"
| "b64_join (x # y # z # w # r) =
    map_option (\<lambda>t. (x * 4 + y div 16) # (y mod 16 * 16 + z div 4) # (z mod 4 * 64 + w) # t) (b64_join r)"

definition EncodeToString :: "bytes \<Rightarrow> string" where
  "EncodeToString b = map b64_char (b64_split (map of_char b))"

definition DecodeString :: "string \<Rightarrow> bytes option" where
  "DecodeString s =
    Option.bind (those (map b64_value (filter (\<lambda>c. c \<noteq> CHR 0x0A \<and> c \<noteq> CHR 0x0D) s))) (\<lambda>v.
      map_option (map char_of) (b64_join v))"

section \<open>UTF-8\<close>

definition continuation :: "nat \<Rightarrow> bool" where "continuation b \<longleftrightarrow> 0x80 \<le> b \<and> b \<le> 0xBF"

definition second_ok :: "nat \<Rightarrow> nat \<Rightarrow> bool" where
  "second_ok a b \<longleftrightarrow> continuation b \<and> (a = 0xE0 \<longrightarrow> 0xA0 \<le> b) \<and> (a = 0xED \<longrightarrow> b \<le> 0x9F) \<and> (a = 0xF0 \<longrightarrow> 0x90 \<le> b) \<and> (a = 0xF4 \<longrightarrow> b \<le> 0x8F)"

fun utf8_runes :: "nat list \<Rightarrow> bool" where
  "utf8_runes [] \<longleftrightarrow> True"
| "utf8_runes (a # r) \<longleftrightarrow>
    (if a < 0x80 then utf8_runes r
     else if 0xC2 \<le> a \<and> a \<le> 0xDF then (case r of b # r' \<Rightarrow> continuation b \<and> utf8_runes r' | _ \<Rightarrow> False)
     else if 0xE0 \<le> a \<and> a \<le> 0xEF then (case r of b # c # r' \<Rightarrow> second_ok a b \<and> continuation c \<and> utf8_runes r' | _ \<Rightarrow> False)
     else if 0xF0 \<le> a \<and> a \<le> 0xF4
     then (case r of b # c # d # r' \<Rightarrow> second_ok a b \<and> continuation c \<and> continuation d \<and> utf8_runes r' | _ \<Rightarrow> False)
     else False)"

definition utf8_Valid :: "bytes \<Rightarrow> bool" where
  "utf8_Valid b \<longleftrightarrow> utf8_runes (map of_char b)"

section \<open>Laws\<close>

lemma those_map_Some: "those (map Some xs) = Some xs"
  by (induction xs) auto

lemma b64_value_char: "n < 64 \<Longrightarrow> b64_value (b64_char n) = Some n"
  by (simp add: b64_value_def b64_char_def Let_def) arith

lemma b64_char_line: "n < 64 \<Longrightarrow> b64_char n \<noteq> CHR 0x0A \<and> b64_char n \<noteq> CHR 0x0D"
  using b64_value_char[of n] by (auto simp: b64_value_def)

lemma byte_digits:
  fixes a b c :: nat
  shows "a < 256 \<Longrightarrow> a div 4 < 64" "b < 256 \<Longrightarrow> b div 16 < 16" "c < 256 \<Longrightarrow> c div 64 < 4"
  by (simp_all add: less_mult_imp_div_less)

lemma b64_digits:
  fixes a b c :: nat
  assumes "b < 256" "c < 256"
  shows "(a mod 4 * 16 + b div 16) div 16 = a mod 4" "(a mod 4 * 16 + b div 16) mod 16 = b div 16"
    "(b mod 16 * 4 + c div 64) div 4 = b mod 16" "(b mod 16 * 4 + c div 64) mod 4 = c div 64"
  using byte_digits(2)[OF assms(1)] byte_digits(3)[OF assms(2)] by simp_all

lemma b64_split_bound: "\<forall>x \<in> set b. x < 256 \<Longrightarrow> \<forall>v \<in> set (b64_split b). v < 64"
proof (induction b rule: b64_split.induct)
  case (4 a b c r)
  have "a mod 4 < 4" "b mod 16 < 16" "c mod 64 < 64" by simp_all
  moreover have "a div 4 < 64" "b div 16 < 16" "c div 64 < 4" using 4 byte_digits by simp_all
  ultimately have "a mod 4 * 16 + b div 16 < 64" "b mod 16 * 4 + c div 64 < 64" by linarith+
  then show ?case using 4 \<open>a div 4 < 64\<close> by simp
next
  case (3 a b)
  have "a mod 4 < 4" "b mod 16 < 16" by simp_all
  moreover have "a div 4 < 64" "b div 16 < 16" using 3 byte_digits by simp_all
  ultimately show ?case by simp
next
  case (2 a)
  have "a mod 4 < 4" by simp
  then show ?case using 2 byte_digits by simp
qed simp

lemma b64_join_split: "\<forall>x \<in> set b. x < 256 \<Longrightarrow> b64_join (b64_split b) = Some b"
proof (induction b rule: b64_split.induct)
  case (2 a)
  then show ?case by simp
next
  case (3 a b)
  then show ?case using b64_digits[of b 0] by simp
next
  case (4 a b c r)
  then have "b div 16 < 16" "c div 64 < 4" using byte_digits by simp_all
  then show ?case using 4 by simp
qed simp

theorem DecodeString_EncodeToString [simp]: "DecodeString (EncodeToString b) = Some b"
proof -
  let ?v = "b64_split (map of_char b)"
  have bound: "\<forall>v \<in> set ?v. v < 64" by (rule b64_split_bound) (auto simp: nat_of_char_less_256)
  have "filter (\<lambda>c. c \<noteq> CHR 0x0A \<and> c \<noteq> CHR 0x0D) (map b64_char ?v) = map b64_char ?v"
    using bound b64_char_line by (auto simp: filter_id_conv)
  moreover have "map b64_value (map b64_char ?v) = map Some ?v"
    using bound b64_value_char by auto
  moreover have "b64_join ?v = Some (map of_char b)" by (rule b64_join_split) (auto simp: nat_of_char_less_256)
  moreover have "map char_of (map (of_char :: char \<Rightarrow> nat) b) = b" by (simp add: comp_def)
  ultimately show ?thesis
    by (simp add: DecodeString_def EncodeToString_def those_map_Some del: map_map)
qed

lemma b64_no_newline: "CHR 0x0A \<notin> set (EncodeToString b)"
proof -
  have "\<forall>v \<in> set (b64_split (map of_char b)). v < 64" by (rule b64_split_bound) (auto simp: nat_of_char_less_256)
  then show ?thesis using b64_char_line by (fastforce simp: EncodeToString_def)
qed

end
