(* ===== verification/Cloud_Vault.thy ===== *)
theory Cloud_Vault
  imports Cloud_Data Go_Encoding
begin

text \<open>
  \<open>internal/cloudsync/crypto.go\<close>: the encrypted vault. Creation, the signed snapshot, and opening a
  snapshot with the unlock phrase, the recovery code or the master key.

  The primitives (Argon2id, HKDF, AES-GCM, Ed25519) and the JSON codecs of the two documents are the
  fields of a record; \<open>primitives_ok\<close> is what they promise. Random bytes are arguments. Wiping of
  buffers is not observable and not modelled; a panic of the random source is not modelled either.
\<close>

section \<open>Data\<close>

record Envelope =
  en_Version :: int
  en_Account :: string
  en_VaultID :: string
  en_KDF :: string
  en_Salt :: string
  en_WrapNonce :: string
  en_WrappedKey :: string
  en_RecoveryNonce :: string
  en_RecoveryKey :: string
  en_Nonce :: string
  en_Ciphertext :: string

record cl_Snapshot =
  sp_Revision :: int
  sp_BaseRevision :: int
  sp_OperationID :: string
  sp_Blob :: string
  sp_Signature :: string
  sp_RootPublic :: string

record Vault =
  va_Envelope :: Envelope
  va_Master :: bytes
  va_Data :: cl_Data

definition KDF :: string where "KDF = ''argon2id-64m-t3-p4''"
definition MaxBlob :: nat where "MaxBlob = 2 * 1024 * 1024"

record primitives =
  cy_argon :: "bytes \<Rightarrow> bytes \<Rightarrow> bytes" \<comment> \<open>phrase and salt\<close>
  cy_hkdf :: "bytes \<Rightarrow> string \<Rightarrow> bytes"
  cy_gcm_seal :: "bytes \<Rightarrow> bytes \<Rightarrow> bytes \<Rightarrow> bytes \<Rightarrow> bytes" \<comment> \<open>key, nonce, plain text, associated data\<close>
  cy_gcm_open :: "bytes \<Rightarrow> bytes \<Rightarrow> bytes \<Rightarrow> bytes \<Rightarrow> bytes option"
  cy_public :: "bytes \<Rightarrow> bytes" \<comment> \<open>the public half of the key made from a seed\<close>
  cy_sign :: "bytes \<Rightarrow> string \<Rightarrow> bytes"
  cy_verify :: "bytes \<Rightarrow> string \<Rightarrow> bytes \<Rightarrow> bool"
  cy_marshal_data :: "cl_Data \<Rightarrow> string option"
  cy_unmarshal_data :: "string \<Rightarrow> cl_Data option"
  cy_marshal_env :: "Envelope \<Rightarrow> string option"
  cy_unmarshal_env :: "string \<Rightarrow> Envelope option"

record vault_random =
  vr_master :: bytes
  vr_id :: bytes
  vr_salt :: bytes
  vr_recovery :: bytes
  vr_wrap_nonce :: bytes
  vr_recovery_nonce :: bytes

datatype unlock_error = ErrUnlock | InvalidAccountOrPhrase | BadKeySize | MarshalError | InvalidData vault_error | VaultTooLarge

section \<open>Keys\<close>

definition derive :: "primitives \<Rightarrow> bytes \<Rightarrow> string \<Rightarrow> bytes" where
  "derive cy key info = cy_hkdf cy key (''sshm-v1/'' @ info)"

definition aad :: "Envelope \<Rightarrow> string \<Rightarrow> string" where
  "aad e purpose = ''sshm-v1'' @ [newline] @ en_Account e @ [newline] @ en_VaultID e @ [newline] @ purpose"

definition aes_key :: "bytes \<Rightarrow> bool" where
  "aes_key k \<longleftrightarrow> length k \<in> {16, 24, 32}"

definition seal :: "primitives \<Rightarrow> bytes \<Rightarrow> bytes \<Rightarrow> bytes \<Rightarrow> string \<Rightarrow> (string \<times> string) option" where
  "seal cy n key plain ad =
    (if aes_key key then Some (EncodeToString n, EncodeToString (cy_gcm_seal cy key n plain ad)) else None)"

definition unseal :: "primitives \<Rightarrow> bytes \<Rightarrow> string \<Rightarrow> string \<Rightarrow> string \<Rightarrow> bytes option" where
  "unseal cy key nonce ciphertext ad =
    (case DecodeString nonce of None \<Rightarrow> None | Some n \<Rightarrow>
     if length n \<noteq> 12 then None
     else case DecodeString ciphertext of None \<Rightarrow> None | Some c \<Rightarrow>
     if length c < 16 then None
     else if \<not> aes_key key then None
     else cy_gcm_open cy key n c ad)"

definition account_byte :: "char \<Rightarrow> bool" where
  "account_byte c \<longleftrightarrow> is_lower c \<or> is_digit c"

text \<open>\<open>^[a-z0-9][a-z0-9._-]{2,63}$\<close> as a test on the whole string.\<close>

definition ValidAccount :: "string \<Rightarrow> bool" where
  "ValidAccount s \<longleftrightarrow> 3 \<le> length s \<and> length s \<le> 64 \<and> account_byte (hd s) \<and>
    list_all (\<lambda>c. account_byte c \<or> c \<in> set ''._-'') s"

definition ValidAccountPassword :: "bytes \<Rightarrow> bool" where
  "ValidAccountPassword pass \<longleftrightarrow> (let n = RuneCountInString pass in utf8_Valid pass \<and> 6 \<le> n \<and> n \<le> 256)"

definition RecoveryAuth :: "primitives \<Rightarrow> string \<Rightarrow> string option" where
  "RecoveryAuth cy code =
    (case DecodeString code of None \<Rightarrow> None | Some raw \<Rightarrow>
     if length raw \<noteq> 32 then None else Some (EncodeToString (derive cy raw ''account-recovery'')))"

definition vault_private :: "primitives \<Rightarrow> bytes \<Rightarrow> bytes" where
  "vault_private cy master = derive cy master ''signature''"

definition Public :: "primitives \<Rightarrow> bytes \<Rightarrow> string" where
  "Public cy master = EncodeToString (cy_public cy (vault_private cy master))"

definition syncMessage :: "string \<Rightarrow> int \<Rightarrow> string \<Rightarrow> string \<Rightarrow> string" where
  "syncMessage account base op blob =
    ''sshm-sync-v1'' @ [newline] @ account @ [newline] @ Itoa base @ [newline] @ op @ [newline] @ blob"

definition RotationAuthorization :: "primitives \<Rightarrow> Vault \<Rightarrow> cl_Snapshot \<Rightarrow> string \<Rightarrow> string" where
  "RotationAuthorization cy v s recoveryAuth =
    EncodeToString (cy_sign cy (vault_private cy (va_Master v))
      (''sshm-rotate-v1'' @ [newline] @ en_Account (va_Envelope v) @ [newline] @ Itoa (sp_BaseRevision s) @ [newline] @
       sp_RootPublic s @ [newline] @ sp_Blob s @ [newline] @ recoveryAuth))"

section \<open>Vaults and snapshots\<close>

definition NewVault :: "primitives \<Rightarrow> vault_random \<Rightarrow> string \<Rightarrow> bytes \<Rightarrow> unlock_error + (Vault \<times> string)" where
  "NewVault cy rnd account pass =
    (if \<not> ValidAccount account \<or> \<not> utf8_Valid pass \<or> RuneCountInString pass < 6 \<or> 1024 < length pass
     then Inl InvalidAccountOrPhrase
     else let e = \<lparr>en_Version = 1, en_Account = account, en_VaultID = EncodeToString (vr_id rnd), en_KDF = KDF,
                  en_Salt = EncodeToString (vr_salt rnd), en_WrapNonce = [], en_WrappedKey = [], en_RecoveryNonce = [],
                  en_RecoveryKey = [], en_Nonce = [], en_Ciphertext = []\<rparr>;
              recovery = EncodeToString (vr_recovery rnd);
              salt = (case DecodeString (en_Salt e) of None \<Rightarrow> [] | Some b \<Rightarrow> b) in
     case seal cy (vr_wrap_nonce rnd) (cy_argon cy pass salt) (vr_master rnd) (aad e ''wrap'') of
       None \<Rightarrow> Inl BadKeySize
     | Some (wn, wk) \<Rightarrow>
         let raw = (case DecodeString recovery of None \<Rightarrow> [] | Some b \<Rightarrow> b) in
         (case seal cy (vr_recovery_nonce rnd) (derive cy raw ''recovery-wrap'') (vr_master rnd) (aad e ''recovery'') of
            None \<Rightarrow> Inl BadKeySize
          | Some (rn, rk) \<Rightarrow>
              Inr (\<lparr>va_Envelope = e\<lparr>en_WrapNonce := wn, en_WrappedKey := wk, en_RecoveryNonce := rn, en_RecoveryKey := rk\<rparr>,
                    va_Master = vr_master rnd, va_Data = NewData\<rparr>, recovery)))"

text \<open>\<open>Snapshot\<close> also stores the sealed document in the envelope of the vault; the vault is returned, with the
  envelope as it is when an error is returned.\<close>

definition Vault_Snapshot :: "primitives \<Rightarrow> int \<Rightarrow> bytes \<Rightarrow> int \<Rightarrow> string \<Rightarrow> Vault \<Rightarrow> (unlock_error + cl_Snapshot) \<times> Vault" where
  "Vault_Snapshot cy now nonce base op v =
    (case Data_Validate now (va_Data v) of Some e \<Rightarrow> (Inl (InvalidData e), v) | None \<Rightarrow>
     case cy_marshal_data cy (va_Data v) of None \<Rightarrow> (Inl MarshalError, v) | Some plain \<Rightarrow>
     case seal cy nonce (derive cy (va_Master v) ''data'') plain (aad (va_Envelope v) ''data'') of
       None \<Rightarrow> (Inl BadKeySize, v\<lparr>va_Envelope := (va_Envelope v)\<lparr>en_Nonce := [], en_Ciphertext := []\<rparr>\<rparr>)
     | Some (n, c) \<Rightarrow>
         let v = v\<lparr>va_Envelope := (va_Envelope v)\<lparr>en_Nonce := n, en_Ciphertext := c\<rparr>\<rparr> in
         (case cy_marshal_env cy (va_Envelope v) of None \<Rightarrow> (Inl MarshalError, v) | Some blob \<Rightarrow>
          if MaxBlob < length blob then (Inl VaultTooLarge, v)
          else (Inr \<lparr>sp_Revision = 0, sp_BaseRevision = base, sp_OperationID = op, sp_Blob = blob,
                     sp_Signature = EncodeToString (cy_sign cy (vault_private cy (va_Master v)) (syncMessage (en_Account (va_Envelope v)) base op blob)),
                     sp_RootPublic = Public cy (va_Master v)\<rparr>, v)))"

definition parseEnvelope :: "primitives \<Rightarrow> string \<Rightarrow> cl_Snapshot \<Rightarrow> Envelope option" where
  "parseEnvelope cy account s =
    (if sp_Revision s < 0 \<or> sp_BaseRevision s < 0 \<or> sp_Revision s \<noteq> 0 \<and> sp_Revision s \<noteq> sp_BaseRevision s + 1 then None
     else if MaxBlob < length (sp_Blob s) then None
     else case cy_unmarshal_env cy (sp_Blob s) of None \<Rightarrow> None | Some e \<Rightarrow>
     if en_Version e \<noteq> 1 \<or> en_Account e \<noteq> account \<or> en_KDF e \<noteq> KDF \<or> \<not> validID (en_VaultID e) then None
     else case DecodeString (en_Salt e) of None \<Rightarrow> None | Some salt \<Rightarrow> if length salt \<noteq> 16 then None else Some e)"

definition UnlockMaster :: "primitives \<Rightarrow> int \<Rightarrow> string \<Rightarrow> cl_Snapshot \<Rightarrow> bytes \<Rightarrow> unlock_error + Vault" where
  "UnlockMaster cy now account s master =
    (case parseEnvelope cy account s of None \<Rightarrow> Inl ErrUnlock | Some e \<Rightarrow>
     if length master \<noteq> 32 then Inl ErrUnlock
     else let pub = (case DecodeString (Public cy master) of None \<Rightarrow> [] | Some b \<Rightarrow> b) in
     case DecodeString (sp_Signature s) of None \<Rightarrow> Inl ErrUnlock | Some sig \<Rightarrow>
     if Public cy master \<noteq> sp_RootPublic s \<or> \<not> cy_verify cy pub (syncMessage account (sp_BaseRevision s) (sp_OperationID s) (sp_Blob s)) sig
     then Inl ErrUnlock
     else case unseal cy (derive cy master ''data'') (en_Nonce e) (en_Ciphertext e) (aad e ''data'') of None \<Rightarrow> Inl ErrUnlock | Some plain \<Rightarrow>
     case cy_unmarshal_data cy plain of None \<Rightarrow> Inl ErrUnlock | Some d \<Rightarrow>
     if Data_Validate now d \<noteq> None then Inl ErrUnlock
     else Inr \<lparr>va_Envelope = e, va_Master = master, va_Data = d\<rparr>)"

definition unwrap_master :: "primitives \<Rightarrow> Envelope \<Rightarrow> bytes \<Rightarrow> bool \<Rightarrow> bytes option" where
  "unwrap_master cy e pass recovery =
    (if recovery
     then (case DecodeString pass of None \<Rightarrow> None | Some raw \<Rightarrow>
       if length raw \<noteq> 32 then None
       else unseal cy (derive cy raw ''recovery-wrap'') (en_RecoveryNonce e) (en_RecoveryKey e) (aad e ''recovery''))
     else if 1024 < length pass then None
     else unseal cy (cy_argon cy pass (case DecodeString (en_Salt e) of None \<Rightarrow> [] | Some b \<Rightarrow> b))
       (en_WrapNonce e) (en_WrappedKey e) (aad e ''wrap''))"

definition Unlock :: "primitives \<Rightarrow> int \<Rightarrow> string \<Rightarrow> cl_Snapshot \<Rightarrow> bytes \<Rightarrow> bool \<Rightarrow> unlock_error + Vault" where
  "Unlock cy now account s pass recovery =
    (case parseEnvelope cy account s of None \<Rightarrow> Inl ErrUnlock | Some e \<Rightarrow>
     case unwrap_master cy e pass recovery of None \<Rightarrow> Inl ErrUnlock | Some master \<Rightarrow>
     UnlockMaster cy now account s master)"

section \<open>Laws\<close>

text \<open>What the primitives promise: keys of 32 bytes, a sealed text of at least the tag's 16 bytes that opens under the same key,
  nonce and associated data, signatures that verify, and codecs that read back what they wrote.\<close>

definition primitives_ok :: "primitives \<Rightarrow> bool" where
  "primitives_ok cy \<longleftrightarrow>
    (\<forall>p s. length (cy_argon cy p s) = 32) \<and> (\<forall>k i. length (cy_hkdf cy k i) = 32) \<and>
    (\<forall>k n p a. length k = 32 \<and> length n = 12 \<longrightarrow> 16 \<le> length (cy_gcm_seal cy k n p a) \<and> cy_gcm_open cy k n (cy_gcm_seal cy k n p a) a = Some p) \<and>
    (\<forall>s m. cy_verify cy (cy_public cy s) m (cy_sign cy s m)) \<and>
    (\<forall>d b. cy_marshal_data cy d = Some b \<longrightarrow> cy_unmarshal_data cy b = Some d) \<and>
    (\<forall>e b. cy_marshal_env cy e = Some b \<longrightarrow> cy_unmarshal_env cy b = Some e)"

lemma unseal_seal:
  assumes "primitives_ok cy" "length key = 32" "length n = 12" "seal cy n key plain ad = Some (en, ec)"
  shows "unseal cy key en ec ad = Some plain"
  using assms by (auto simp: seal_def unseal_def aes_key_def primitives_ok_def not_less split: if_splits)

lemma derive_length: "primitives_ok cy \<Longrightarrow> length (derive cy k i) = 32"
  by (simp add: primitives_ok_def derive_def)

lemma public_decoded: "DecodeString (Public cy master) = Some (cy_public cy (vault_private cy master))"
  by (simp add: Public_def)

text \<open>An identifier made of 18 random bytes is valid.\<close>

lemma b64_split_length: "length b = 3 * k \<Longrightarrow> length (b64_split b) = 4 * k"
proof (induction b arbitrary: k rule: b64_split.induct)
  case (4 a b c r)
  then show ?case by (cases k) auto
qed auto

lemma b64_value_class: "b64_value c \<noteq> None \<Longrightarrow> is_lower c \<or> is_upper c \<or> is_digit c \<or> c \<in> set ''_-''"
  by (auto simp: b64_value_def is_lower_def is_upper_def is_digit_def less_eq_char_def Let_def split: if_splits
      intro: of_char_eq_iff[THEN iffD1])

lemma validID_random: "length b = 18 \<Longrightarrow> validID (EncodeToString b)"
proof -
  assume "length b = 18"
  then have "length (b64_split (map of_char b)) = 24" using b64_split_length[of "map of_char b" 6] by simp
  moreover have "\<forall>v \<in> set (b64_split (map of_char b)). v < 64" by (rule b64_split_bound) auto
  ultimately show ?thesis
    using b64_value_char b64_value_class by (auto simp: validID_def EncodeToString_def list_all_iff)
qed

lemma UnlockMaster_Inr:
  "UnlockMaster cy now account s master = Inr v \<longleftrightarrow>
    (\<exists>e sig plain d. parseEnvelope cy account s = Some e \<and> length master = 32 \<and> DecodeString (sp_Signature s) = Some sig \<and>
      sp_RootPublic s = Public cy master \<and>
      cy_verify cy (cy_public cy (vault_private cy master)) (syncMessage account (sp_BaseRevision s) (sp_OperationID s) (sp_Blob s)) sig \<and>
      unseal cy (derive cy master ''data'') (en_Nonce e) (en_Ciphertext e) (aad e ''data'') = Some plain \<and>
      cy_unmarshal_data cy plain = Some d \<and> Data_Validate now d = None \<and> v = \<lparr>va_Envelope = e, va_Master = master, va_Data = d\<rparr>)"
  by (auto simp: UnlockMaster_def Let_def public_decoded split: option.splits if_splits)

lemma parseEnvelope_Some:
  "parseEnvelope cy account s = Some e \<longleftrightarrow>
    0 \<le> sp_Revision s \<and> 0 \<le> sp_BaseRevision s \<and> (sp_Revision s = 0 \<or> sp_Revision s = sp_BaseRevision s + 1) \<and> length (sp_Blob s) \<le> MaxBlob \<and>
    cy_unmarshal_env cy (sp_Blob s) = Some e \<and> en_Version e = 1 \<and> en_Account e = account \<and> en_KDF e = KDF \<and> validID (en_VaultID e) \<and>
    (\<exists>salt. DecodeString (en_Salt e) = Some salt \<and> length salt = 16)"
  by (auto simp: parseEnvelope_def split: option.splits if_splits)

text \<open>The sealed parts of an envelope can be exchanged without changing what authenticates them.\<close>

lemma aad_frame [simp]:
  "aad (e\<lparr>en_Nonce := n, en_Ciphertext := c\<rparr>) p = aad e p"
  "aad (e\<lparr>en_WrapNonce := wn, en_WrappedKey := wk, en_RecoveryNonce := rn, en_RecoveryKey := rk\<rparr>) p = aad e p"
  by (simp_all add: aad_def)

lemma snapshot_opens:
  assumes "primitives_ok cy" "length nonce = 12" "0 \<le> base" "length (va_Master v) = 32"
    "Vault_Snapshot cy now nonce base op v = (Inr s, v')" "r = 0 \<or> r = base + 1"
    "en_Version (va_Envelope v) = 1" "en_KDF (va_Envelope v) = KDF" "validID (en_VaultID (va_Envelope v))"
    "DecodeString (en_Salt (va_Envelope v)) = Some salt" "length salt = 16"
  shows "parseEnvelope cy (en_Account (va_Envelope v)) (s\<lparr>sp_Revision := r\<rparr>) = Some (va_Envelope v')"
    "UnlockMaster cy now (en_Account (va_Envelope v)) (s\<lparr>sp_Revision := r\<rparr>) (va_Master v) = Inr v'"
    "\<exists>n c. v' = v\<lparr>va_Envelope := (va_Envelope v)\<lparr>en_Nonce := n, en_Ciphertext := c\<rparr>\<rparr>"
proof -
  from assms(5) obtain plain n c blob where g: "Data_Validate now (va_Data v) = None" "cy_marshal_data cy (va_Data v) = Some plain"
    "seal cy nonce (derive cy (va_Master v) ''data'') plain (aad (va_Envelope v) ''data'') = Some (n, c)"
    and v': "v' = v\<lparr>va_Envelope := (va_Envelope v)\<lparr>en_Nonce := n, en_Ciphertext := c\<rparr>\<rparr>"
    and blob: "cy_marshal_env cy (va_Envelope v') = Some blob" "length blob \<le> MaxBlob"
    and s: "s = \<lparr>sp_Revision = 0, sp_BaseRevision = base, sp_OperationID = op, sp_Blob = blob,
      sp_Signature = EncodeToString (cy_sign cy (vault_private cy (va_Master v)) (syncMessage (en_Account (va_Envelope v)) base op blob)),
      sp_RootPublic = Public cy (va_Master v)\<rparr>"
    by (auto simp: Vault_Snapshot_def Let_def not_less split: option.splits if_splits)
  have codecs: "cy_unmarshal_data cy plain = Some (va_Data v)" "cy_unmarshal_env cy blob = Some (va_Envelope v')"
    using assms(1) g(2) blob(1) by (auto simp: primitives_ok_def)
  show p: "parseEnvelope cy (en_Account (va_Envelope v)) (s\<lparr>sp_Revision := r\<rparr>) = Some (va_Envelope v')"
    using assms codecs blob by (auto simp: parseEnvelope_Some s v')
  have "cy_verify cy (cy_public cy k) m (cy_sign cy k m)" for k m using assms(1) by (simp add: primitives_ok_def)
  then show "UnlockMaster cy now (en_Account (va_Envelope v)) (s\<lparr>sp_Revision := r\<rparr>) (va_Master v) = Inr v'"
    using p assms(4) codecs g unseal_seal[OF assms(1) derive_length[OF assms(1)] assms(2) g(3)]
    unfolding UnlockMaster_Inr by (simp add: s v')
  show "\<exists>n c. v' = v\<lparr>va_Envelope := (va_Envelope v)\<lparr>en_Nonce := n, en_Ciphertext := c\<rparr>\<rparr>" using v' by blast
qed

definition random_ok :: "vault_random \<Rightarrow> bool" where
  "random_ok rnd \<longleftrightarrow> length (vr_master rnd) = 32 \<and> length (vr_id rnd) = 18 \<and> length (vr_salt rnd) = 16 \<and> length (vr_recovery rnd) = 32 \<and>
    length (vr_wrap_nonce rnd) = 12 \<and> length (vr_recovery_nonce rnd) = 12"

lemma NewVault_Inr:
  assumes "primitives_ok cy" "random_ok rnd" "NewVault cy rnd account pass = Inr (v, recovery)"
  shows "length pass \<le> 1024" "va_Master v = vr_master rnd" "recovery = EncodeToString (vr_recovery rnd)" "en_Version (va_Envelope v) = 1"
    "en_Account (va_Envelope v) = account" "en_KDF (va_Envelope v) = KDF" "validID (en_VaultID (va_Envelope v))"
    "en_Salt (va_Envelope v) = EncodeToString (vr_salt rnd)" "length (vr_salt rnd) = 16"
    "unwrap_master cy (va_Envelope v) pass False = Some (vr_master rnd)" "unwrap_master cy (va_Envelope v) recovery True = Some (vr_master rnd)"
proof -
  let ?e = "\<lparr>en_Version = 1, en_Account = account, en_VaultID = EncodeToString (vr_id rnd), en_KDF = KDF,
                  en_Salt = EncodeToString (vr_salt rnd), en_WrapNonce = [], en_WrappedKey = [], en_RecoveryNonce = [],
                  en_RecoveryKey = [], en_Nonce = [], en_Ciphertext = []\<rparr>"
  from assms(3) obtain wn wk rn rk where
    g: "length pass \<le> 1024" and
    w: "seal cy (vr_wrap_nonce rnd) (cy_argon cy pass (vr_salt rnd)) (vr_master rnd) (aad ?e ''wrap'') = Some (wn, wk)" and
    r: "seal cy (vr_recovery_nonce rnd) (derive cy (vr_recovery rnd) ''recovery-wrap'') (vr_master rnd) (aad ?e ''recovery'') = Some (rn, rk)" and
    v: "v = \<lparr>va_Envelope = ?e\<lparr>en_WrapNonce := wn, en_WrappedKey := wk, en_RecoveryNonce := rn, en_RecoveryKey := rk\<rparr>,
                    va_Master = vr_master rnd, va_Data = NewData\<rparr>" "recovery = EncodeToString (vr_recovery rnd)"
    by (auto simp: NewVault_def Let_def not_less split: option.splits if_splits)
  have k: "length (cy_argon cy pass (vr_salt rnd)) = 32" using assms(1) by (simp add: primitives_ok_def)
  have lens: "length (vr_wrap_nonce rnd) = 12" "length (vr_recovery_nonce rnd) = 12" "length (vr_recovery rnd) = 32"
    using assms(2) by (simp_all add: random_ok_def)
  note u = unseal_seal[OF assms(1) k lens(1) w] unseal_seal[OF assms(1) derive_length[OF assms(1)] lens(2) r]
  show "unwrap_master cy (va_Envelope v) pass False = Some (vr_master rnd)" "unwrap_master cy (va_Envelope v) recovery True = Some (vr_master rnd)"
    using u g lens(3) by (simp_all add: unwrap_master_def v aad_def)
  show "validID (en_VaultID (va_Envelope v))" using assms(2) by (simp add: v random_ok_def validID_random)
  show "va_Master v = vr_master rnd" "recovery = EncodeToString (vr_recovery rnd)" "en_Version (va_Envelope v) = 1"
    "en_Account (va_Envelope v) = account" "en_KDF (va_Envelope v) = KDF" "en_Salt (va_Envelope v) = EncodeToString (vr_salt rnd)"
    by (simp_all add: v)
  show "length pass \<le> 1024" "length (vr_salt rnd) = 16" using g assms(2) by (simp_all add: random_ok_def)
qed

text \<open>The signed message determines what it signs, when neither the operation nor the blob holds a line end.\<close>

lemma line_prefix: "a @ newline # b = c @ newline # d \<Longrightarrow> newline \<notin> set a \<Longrightarrow> newline \<notin> set c \<Longrightarrow> a = c \<and> b = d"
  by (induction a arbitrary: c) (auto simp: Cons_eq_append_conv append_eq_Cons_conv)

lemma Itoa_no_newline: "newline \<notin> set (Itoa i)"
proof -
  have "\<not> is_digit newline" by code_simp
  then have "newline \<notin> set (digits_of n)" for n
    using decimal_digits_of[of n] by (auto simp: all_digits_def list_all_iff)
  then show ?thesis by (simp add: Itoa_def newline_def)
qed

lemma Itoa_inj: "0 \<le> i \<Longrightarrow> 0 \<le> j \<Longrightarrow> Itoa i = Itoa j \<Longrightarrow> i = j"
  by (metis Itoa_def decimal_digits_of eq_nat_nat_iff not_less)

lemma line_suffix:
  assumes "a @ newline # b = c @ newline # d" "newline \<notin> set c" "newline \<notin> set d"
  shows "a = c \<and> b = d"
proof -
  from assms(1) consider us where "a = c @ us" "us @ newline # b = newline # d" | us where "a @ us = c" "newline # b = us @ newline # d"
    by (auto simp: append_eq_append_conv2)
  then show ?thesis
  proof cases
    case 1
    then show ?thesis using assms(3) by (cases us) auto
  next
    case 2
    then show ?thesis using assms(2) by (cases us) auto
  qed
qed

lemma syncMessage_inj:
  assumes "syncMessage account b op blob = syncMessage account b' op' blob'" "0 \<le> b" "0 \<le> b'" "newline \<notin> set op'" "newline \<notin> set blob'"
  shows "b = b' \<and> op = op' \<and> blob = blob'"
proof -
  from assms(1) have "Itoa b @ newline # op @ newline # blob = Itoa b' @ newline # op' @ newline # blob'"
    by (simp add: syncMessage_def)
  from line_prefix[OF this Itoa_no_newline Itoa_no_newline] have "Itoa b = Itoa b'" "op @ newline # blob = op' @ newline # blob'" by auto
  then show ?thesis using Itoa_inj[OF assms(2,3)] line_suffix[OF _ assms(4,5)] by blast
qed

section \<open>Properties\<close>

text \<open>A new vault, given any document, can be opened again from its snapshot with the unlock phrase and with
  the recovery code, before and after the service numbers it; both give the same vault with the same document and
  master key.\<close>

theorem vault_opens_again:
  assumes "primitives_ok cy" "random_ok rnd" "NewVault cy rnd account pass = Inr (v, recovery)"
    "Vault_Snapshot cy now nonce base op (v\<lparr>va_Data := d\<rparr>) = (Inr s, v')" "length nonce = 12" "0 \<le> base" "r = 0 \<or> r = base + 1"
  shows "Unlock cy now account (s\<lparr>sp_Revision := r\<rparr>) pass False = Inr v' \<and>
    Unlock cy now account (s\<lparr>sp_Revision := r\<rparr>) recovery True = Inr v' \<and> va_Data v' = d \<and> va_Master v' = vr_master rnd"
proof -
  note n = NewVault_Inr[OF assms(1-3)]
  have o: "parseEnvelope cy account (s\<lparr>sp_Revision := r\<rparr>) = Some (va_Envelope v')"
    "UnlockMaster cy now account (s\<lparr>sp_Revision := r\<rparr>) (vr_master rnd) = Inr v'"
    "\<exists>n c. v' = v\<lparr>va_Data := d\<rparr>\<lparr>va_Envelope := (va_Envelope v)\<lparr>en_Nonce := n, en_Ciphertext := c\<rparr>\<rparr>"
    using snapshot_opens[OF assms(1,5,6) _ assms(4,7), of "vr_salt rnd"] n assms(2) by (simp_all add: random_ok_def)
  then obtain n' c where v': "v' = v\<lparr>va_Data := d\<rparr>\<lparr>va_Envelope := (va_Envelope v)\<lparr>en_Nonce := n', en_Ciphertext := c\<rparr>\<rparr>" by blast
  have "unwrap_master cy (va_Envelope v') p f = unwrap_master cy (va_Envelope v) p f" for p f
    by (simp add: v' unwrap_master_def split: option.splits)
  then show ?thesis using o n(2,10,11) by (simp add: Unlock_def v')
qed

definition demo_random :: vault_random where
  "demo_random = \<lparr>vr_master = replicate 32 (CHR ''m''), vr_id = replicate 18 (CHR ''i''), vr_salt = replicate 16 (CHR ''s''),
     vr_recovery = replicate 32 (CHR ''r''), vr_wrap_nonce = replicate 12 (CHR ''n''), vr_recovery_nonce = replicate 12 (CHR ''o'')\<rparr>"

definition demo_envelope :: Envelope where
  "demo_envelope = \<lparr>en_Version = 1, en_Account = ''alice'', en_VaultID = EncodeToString (vr_id demo_random), en_KDF = KDF,
     en_Salt = EncodeToString (vr_salt demo_random), en_WrapNonce = EncodeToString (vr_wrap_nonce demo_random),
     en_WrappedKey = EncodeToString (replicate 16 (CHR ''t'') @ vr_master demo_random),
     en_RecoveryNonce = EncodeToString (vr_recovery_nonce demo_random),
     en_RecoveryKey = EncodeToString (replicate 16 (CHR ''t'') @ vr_master demo_random),
     en_Nonce = EncodeToString (replicate 12 (CHR ''d'')), en_Ciphertext = EncodeToString (replicate 16 (CHR ''t'') @ ''D'')\<rparr>"

definition demo_primitives :: primitives where
  "demo_primitives = \<lparr>cy_argon = (\<lambda>_ _. replicate 32 (CHR ''a'')), cy_hkdf = (\<lambda>_ _. replicate 32 (CHR ''h'')),
     cy_gcm_seal = (\<lambda>_ _ p _. replicate 16 (CHR ''t'') @ p), cy_gcm_open = (\<lambda>_ _ c _. Some (drop 16 c)),
     cy_public = (\<lambda>s. s), cy_sign = (\<lambda>s m. m), cy_verify = (\<lambda>p m sig. m = sig),
     cy_marshal_data = (\<lambda>d. if d = NewData then Some ''D'' else None), cy_unmarshal_data = (\<lambda>b. if b = ''D'' then Some NewData else None),
     cy_marshal_env = (\<lambda>e. if e = demo_envelope then Some ''E'' else None), cy_unmarshal_env = (\<lambda>b. if b = ''E'' then Some demo_envelope else None)\<rparr>"

lemma demo_primitives_ok: "primitives_ok demo_primitives"
  by (simp add: primitives_ok_def demo_primitives_def)

definition demo_vault :: Vault where
  "demo_vault = \<lparr>va_Envelope = demo_envelope\<lparr>en_Nonce := [], en_Ciphertext := []\<rparr>, va_Master = vr_master demo_random, va_Data = NewData\<rparr>"

definition demo_snapshot :: cl_Snapshot where
  "demo_snapshot = \<lparr>sp_Revision = 0, sp_BaseRevision = 0, sp_OperationID = ''op'', sp_Blob = ''E'',
     sp_Signature = EncodeToString (syncMessage ''alice'' 0 ''op'' ''E''), sp_RootPublic = EncodeToString (replicate 32 (CHR ''h''))\<rparr>"

lemma demo_new_vault: "NewVault demo_primitives demo_random ''alice'' ''secret'' = Inr (demo_vault, EncodeToString (vr_recovery demo_random))"
proof -
  have "ValidAccount ''alice''" "utf8_Valid ''secret''" "RuneCountInString ''secret'' = 6" by code_simp+
  then show ?thesis
    by (simp add: NewVault_def Let_def seal_def aes_key_def derive_def demo_primitives_def demo_vault_def demo_envelope_def)
qed

lemma demo_data_valid: "Data_Validate 0 NewData = None"
  by code_simp

lemma demo_sealed: "Vault_Snapshot demo_primitives 0 (replicate 12 (CHR ''d'')) 0 ''op'' demo_vault = (Inr demo_snapshot, demo_vault\<lparr>va_Envelope := demo_envelope\<rparr>)"
  by (simp add: Vault_Snapshot_def demo_vault_def demo_primitives_def demo_data_valid seal_def aes_key_def derive_def demo_snapshot_def
      Public_def vault_private_def MaxBlob_def) (simp add: demo_envelope_def)

theorem vault_opens_again_witness:
  "Unlock demo_primitives 0 ''alice'' (demo_snapshot\<lparr>sp_Revision := 1\<rparr>) ''secret'' False = Inr (demo_vault\<lparr>va_Envelope := demo_envelope\<rparr>)"
proof -
  have r: "random_ok demo_random" by (simp add: random_ok_def demo_random_def)
  have d: "demo_vault\<lparr>va_Data := NewData\<rparr> = demo_vault" by (simp add: demo_vault_def)
  from vault_opens_again[OF demo_primitives_ok r demo_new_vault, of 0 _ 0 _ NewData, unfolded d, OF demo_sealed, of 1]
  show ?thesis by simp
qed


definition one_signature :: primitives where
  "one_signature = demo_primitives\<lparr>cy_verify := (\<lambda>p m sig. m = syncMessage ''alice'' 0 ''op'' ''E'' \<and> sig = m)\<rparr>"

lemma demo_unlock: "UnlockMaster one_signature 0 ''alice'' demo_snapshot (vr_master demo_random) = Inr (demo_vault\<lparr>va_Envelope := demo_envelope\<rparr>)"
proof -
  have "parseEnvelope one_signature ''alice'' demo_snapshot = Some demo_envelope"
    by (simp add: parseEnvelope_def demo_snapshot_def MaxBlob_def one_signature_def demo_primitives_def)
      (simp add: demo_envelope_def demo_random_def validID_random)
  moreover have "unseal one_signature (replicate 32 (CHR ''h'')) (en_Nonce demo_envelope) (en_Ciphertext demo_envelope) (aad demo_envelope ''data'') = Some ''D''"
    by (simp add: unseal_def demo_envelope_def aes_key_def one_signature_def demo_primitives_def)
  moreover have "cy_unmarshal_data one_signature ''D'' = Some NewData" "cy_hkdf one_signature k i = replicate 32 (CHR ''h'')" for k i
    by (simp_all add: one_signature_def demo_primitives_def)
  ultimately show ?thesis
    unfolding UnlockMaster_Inr
    by (simp add: demo_snapshot_def demo_data_valid demo_random_def Public_def vault_private_def derive_def demo_vault_def)
      (simp add: one_signature_def demo_primitives_def)
qed


end
