(* ===== verification/Cloud_Sync.thy ===== *)
theory Cloud_Sync
  imports Cloud_Vault Local_Store
begin

text \<open>
  \<open>internal/cloudsync/client.go\<close>: the account state on the device, its persistence with the session token
  in the local credential store, the HTTP request, and the synchronisation of the vault: the exact
  retry of a pending upload, the rollback checks, the three-way merge and the commit.

  The service is a parameter: every HTTP call of an operation has a number, and the reply to it is any
  function of the number and the request, so the theorems hold against a service that answers anything.
  The URL parser, SHA-256 and the JSON codecs of the state, the snapshot and the error are parameters,
  and so are the failures of the file operations. Closing of vaults wipes memory only.
\<close>

section \<open>State\<close>

record State =
  cs_URL :: string
  cs_Username :: string
  cs_DeviceID :: string
  cs_Token :: string
  cs_TokenRef :: string
  cs_Expires :: int
  cs_Base :: cl_Snapshot
  cs_Draft :: cl_Snapshot
  cs_Dirty :: bool
  cs_Pending :: "cl_Snapshot option"

record LoginResult =
  lr_Token :: string
  lr_DeviceID :: string
  lr_Expires :: int
  lr_Snapshot :: cl_Snapshot

record url_view =
  uv_scheme :: string
  uv_hostname :: string
  uv_path :: string
  uv_user :: bool
  uv_query :: string
  uv_fragment :: string

record http_request =
  hq_method :: string
  hq_url :: string
  hq_account :: string
  hq_auth :: "string option"
  hq_body :: bytes

datatype http_reply = NoReply | Reply int bytes bool \<comment> \<open>status, body, and whether the body was read\<close>

datatype store_call = TokenCall | MigrationCall | LoadCall

datatype wp_step = WpMkdir | WpCreate | WpProtect | WpWrite | WpSync | WpClose | WpRename

datatype cloud_error = NotHTTPSOrigin | HTTPSRequired | HostnameRequired | RequestTooLarge | InvalidRequest | ErrNetwork
  | OversizedResponse | APIError int string | InvalidResponse | MarshalInput | StateFile | InvalidState | BadTokenRef
  | StoreError ls_error | PlaintextRefused | WriteFailed wp_step | VaultError unlock_error | MergeError vault_error | PendingUpload
  | LoginRequired | PendingMismatch | RollbackDetected | AuthenticationFailed | HistoryReplaced | AckMismatch | RegistrationMismatch | Cancelled

record sync_env =
  se_cy :: primitives
  se_dg :: digests
  se_vorder :: visit_order
  se_now :: int
  se_nonce :: bytes
  se_op :: string \<comment> \<open>the random identifier of the operation\<close>
  se_http :: "nat \<Rightarrow> http_request \<Rightarrow> http_reply"
  se_url :: "string \<Rightarrow> url_view option"
  se_builds :: "string \<Rightarrow> bool" \<comment> \<open>\<open>http.NewRequest\<close> accepts the URL\<close>
  se_marshal_snapshot :: "cl_Snapshot \<Rightarrow> bytes option"
  se_unmarshal_snapshot :: "bytes \<Rightarrow> cl_Snapshot option"
  se_error_code :: "bytes \<Rightarrow> string"
  se_marshal_state :: "State \<Rightarrow> bytes option"
  se_unmarshal_state :: "bytes \<Rightarrow> State option"
  se_sha :: "bytes \<Rightarrow> bytes"
  se_store :: "store_call \<Rightarrow> ls_env"
  se_read_fails :: bool
  se_write_fails :: "wp_step \<Rightarrow> bool"

record disk =
  dk_file :: "bytes option" \<comment> \<open>the state file\<close>
  dk_store :: ls_state

section \<open>Persistence\<close>

definition secretDigest :: "sync_env \<Rightarrow> string \<Rightarrow> string" where
  "secretDigest env value = hex_encode (se_sha env value)"

definition TrimRight :: "string \<Rightarrow> char \<Rightarrow> string" where
  "TrimRight s c = rev (dropWhile (\<lambda>x. x = c) (rev s))"

definition AccountSecretPrefix :: "sync_env \<Rightarrow> State \<Rightarrow> string" where
  "AccountSecretPrefix env s = ''cloud/'' @ secretDigest env (TrimRight (cs_URL s) (CHR ''/'') @ [CHR 0x00] @ cs_Username s) @ ''/''"

definition WritePrivate :: "sync_env \<Rightarrow> bytes \<Rightarrow> bytes option \<Rightarrow> cloud_error option \<times> bytes option" where
  "WritePrivate env b target =
    (case find (se_write_fails env) [WpMkdir, WpCreate, WpProtect, WpWrite, WpSync, WpClose, WpRename] of
       Some step \<Rightarrow> (Some (WriteFailed step), target) | None \<Rightarrow> (None, Some b))"

definition loadStateWithStore :: "sync_env \<Rightarrow> disk \<Rightarrow> cloud_error + State" where
  "loadStateWithStore env dk =
    (case (if se_read_fails env then None else dk_file dk) of None \<Rightarrow> Inl StateFile | Some b \<Rightarrow>
     if 10 * MaxBlob < length b then Inl InvalidState
     else case se_unmarshal_state env b of None \<Rightarrow> Inl InvalidState | Some s \<Rightarrow>
     if \<not> ValidAccount (cs_Username s) then Inl InvalidState
     else if cs_TokenRef s \<noteq> [] then
       (if cs_Token s \<noteq> [] \<or> \<not> HasPrefix (cs_TokenRef s) (AccountSecretPrefix env s @ ''token/'') then Inl BadTokenRef
        else case Secret (se_store env LoadCall) (cs_TokenRef s) (dk_store dk) of Inl e \<Rightarrow> Inl (StoreError e)
          | Inr token \<Rightarrow> Inr (s\<lparr>cs_Token := token\<rparr>))
     else Inr s)"

text \<open>The token goes to the store first, then a plaintext predecessor of the file.\<close>

definition store_token :: "sync_env \<Rightarrow> State \<Rightarrow> State \<Rightarrow> ls_state \<Rightarrow> (cloud_error + State) \<times> ls_state" where
  "store_token env s persisted st =
    (if cs_Token s = [] then (Inr persisted, st)
     else let ref = AccountSecretPrefix env s @ ''token/'' @ secretDigest env (cs_Token s) in
       case SetSecret (se_store env TokenCall) ref (cs_Token s) st of
         (Some e, st') \<Rightarrow> (Inl (StoreError e), st') | (None, st') \<Rightarrow> (Inr (persisted\<lparr>cs_TokenRef := ref\<rparr>), st'))"

definition store_migration :: "sync_env \<Rightarrow> bytes option \<Rightarrow> ls_state \<Rightarrow> cloud_error option \<times> ls_state" where
  "store_migration env file st =
    (if se_read_fails env then (Some StateFile, st)
     else case file of None \<Rightarrow> (None, st) | Some old \<Rightarrow>
       (case se_unmarshal_state env old of None \<Rightarrow> (None, st) | Some previous \<Rightarrow>
          if cs_Token previous = [] then (None, st)
          else case SetSecret (se_store env MigrationCall) (AccountSecretPrefix env previous @ ''migration/'' @ secretDigest env old) old st of
            (Some e, st') \<Rightarrow> (Some (StoreError e), st') | (None, st') \<Rightarrow> (None, st')))"

definition protect_token :: "sync_env \<Rightarrow> State \<Rightarrow> disk \<Rightarrow> (cloud_error + State) \<times> ls_state" where
  "protect_token env s dk =
    (let persisted = (if cs_Token s = [] then s\<lparr>cs_TokenRef := []\<rparr> else s) in
     if Enabled (se_store env TokenCall) (dk_store dk)
     then (case store_token env s persisted (dk_store dk) of
             (Inl e, st) \<Rightarrow> (Inl e, st)
           | (Inr p, st) \<Rightarrow> (case store_migration env (dk_file dk) st of
                 (Some e, st') \<Rightarrow> (Inl e, st') | (None, st') \<Rightarrow> (Inr (p\<lparr>cs_Token := []\<rparr>), st')))
     else if cs_TokenRef s \<noteq> [] then (Inl PlaintextRefused, dk_store dk)
     else (Inr persisted, dk_store dk))"

definition saveWithStore :: "sync_env \<Rightarrow> State \<Rightarrow> disk \<Rightarrow> cloud_error option \<times> State \<times> disk" where
  "saveWithStore env s dk =
    (case protect_token env s dk of
       (Inl e, st) \<Rightarrow> (Some e, s, dk\<lparr>dk_store := st\<rparr>)
     | (Inr p, st) \<Rightarrow>
         (case se_marshal_state env p of None \<Rightarrow> (Some MarshalInput, s, dk\<lparr>dk_store := st\<rparr>) | Some b \<Rightarrow>
          case WritePrivate env b (dk_file dk) of
            (Some e, f) \<Rightarrow> (Some e, s, \<lparr>dk_file = f, dk_store = st\<rparr>)
          | (None, f) \<Rightarrow> (None, s\<lparr>cs_TokenRef := cs_TokenRef p\<rparr>, \<lparr>dk_file = f, dk_store = st\<rparr>)))"

definition SaveDraft :: "sync_env \<Rightarrow> Vault \<Rightarrow> State \<Rightarrow> disk \<Rightarrow> cloud_error option \<times> State \<times> Vault \<times> disk" where
  "SaveDraft env v s dk =
    (if cs_Pending s \<noteq> None then (Some PendingUpload, s, v, dk)
     else case Vault_Snapshot (se_cy env) (se_now env) (se_nonce env) (sp_Revision (cs_Base s)) (se_op env) v of
       (Inl e, v') \<Rightarrow> (Some (VaultError e), s, v', dk)
     | (Inr snap, v') \<Rightarrow>
         let (err, s', dk') = saveWithStore env (s\<lparr>cs_Draft := snap, cs_Dirty := True, cs_Pending := None\<rparr>) dk in (err, s', v', dk'))"

section \<open>Requests\<close>

definition ValidateURL :: "sync_env \<Rightarrow> string \<Rightarrow> cloud_error option" where
  "ValidateURL env raw =
    (case se_url env raw of None \<Rightarrow> Some NotHTTPSOrigin | Some u \<Rightarrow>
     if uv_user u \<or> uv_query u \<noteq> [] \<or> uv_fragment u \<noteq> [] \<or> uv_path u \<noteq> [] \<and> uv_path u \<noteq> ''/'' then Some NotHTTPSOrigin
     else if uv_scheme u \<noteq> ''https'' \<and> \<not> (uv_scheme u = ''http'' \<and> uv_hostname u \<in> set [''127.0.0.1'', ''localhost'', ''::1'']) then Some HTTPSRequired
     else if uv_hostname u = [] then Some HostnameRequired
     else None)"

definition regexpCode :: "string \<Rightarrow> bool" where
  "regexpCode s \<longleftrightarrow> s \<noteq> [] \<and> length s \<le> 60 \<and> list_all (\<lambda>c. is_lower c \<or> c = CHR ''_'') s"

definition Request :: "sync_env \<Rightarrow> nat \<Rightarrow> State \<Rightarrow> string \<Rightarrow> string \<Rightarrow> bytes option option \<Rightarrow> (bytes \<Rightarrow> 'a option) \<Rightarrow> cloud_error + 'a" where
  "Request env call s meth path input output =
    (case ValidateURL env (cs_URL s) of Some e \<Rightarrow> Inl e | None \<Rightarrow>
     case (case input of Some marshalled \<Rightarrow> marshalled | None \<Rightarrow> Some (if meth = ''GET'' then [] else ''{}'')) of
       None \<Rightarrow> Inl MarshalInput
     | Some b \<Rightarrow>
         if 3 * 1024 * 1024 < length b then Inl RequestTooLarge
         else let url = TrimRight (cs_URL s) (CHR ''/'') @ path in
         if \<not> se_builds env url then Inl InvalidRequest
         else case se_http env call \<lparr>hq_method = meth, hq_url = url, hq_account = cs_Username s,
                hq_auth = (if cs_Token s = [] then None else Some (''Bearer '' @ cs_Token s)), hq_body = b\<rparr> of
           NoReply \<Rightarrow> Inl ErrNetwork
         | Reply status raw complete \<Rightarrow>
             if \<not> complete \<or> 4 * MaxBlob < length raw then Inl OversizedResponse
             else if status < 200 \<or> 300 \<le> status then
               Inl (APIError status (if regexpCode (se_error_code env raw) then se_error_code env raw else ''request_failed''))
             else (case output raw of None \<Rightarrow> Inl InvalidResponse | Some a \<Rightarrow> Inr a))"

definition put_vault :: "sync_env \<Rightarrow> nat \<Rightarrow> State \<Rightarrow> cl_Snapshot \<Rightarrow> cloud_error + cl_Snapshot" where
  "put_vault env call s snap = Request env call s ''PUT'' ''/v1/vault'' (Some (se_marshal_snapshot env snap)) (se_unmarshal_snapshot env)"

definition get_vault :: "sync_env \<Rightarrow> nat \<Rightarrow> State \<Rightarrow> cloud_error + cl_Snapshot" where
  "get_vault env call s = Request env call s ''GET'' ''/v1/vault'' None (se_unmarshal_snapshot env)"

fun is_conflict :: "cloud_error \<Rightarrow> bool" where
  "is_conflict (APIError status code) \<longleftrightarrow> status = 409"
| "is_conflict _ \<longleftrightarrow> False"

section \<open>Synchronisation\<close>

type_synonym sync_result = "cloud_error option \<times> State \<times> Vault \<times> disk"

definition open_snapshot :: "sync_env \<Rightarrow> State \<Rightarrow> Vault \<Rightarrow> cl_Snapshot \<Rightarrow> unlock_error + Vault" where
  "open_snapshot env s v snap = UnlockMaster (se_cy env) (se_now env) (cs_Username s) snap (va_Master v)"

definition adopt :: "Vault \<Rightarrow> Vault \<Rightarrow> Vault" where
  "adopt verified v = v\<lparr>va_Data := va_Data verified, va_Envelope := va_Envelope verified\<rparr>"

definition save_vault :: "sync_env \<Rightarrow> State \<Rightarrow> Vault \<Rightarrow> disk \<Rightarrow> sync_result" where
  "save_vault env s v dk = (let (e, s', dk') = saveWithStore env s dk in (e, s', v, dk'))"

text \<open>The exact retry of a pending upload: \<open>Inr\<close> with the state when the service refused it and the sync goes on.\<close>

definition sync_pending :: "sync_env \<Rightarrow> cl_Snapshot \<Rightarrow> State \<Rightarrow> Vault \<Rightarrow> disk \<Rightarrow> sync_result + State" where
  "sync_pending env pending s v dk =
    (case put_vault env 0 s pending of
       Inr out \<Rightarrow>
         Inl (case open_snapshot env s v out of Inl e \<Rightarrow> (Some (VaultError e), s, v, dk) | Inr verified \<Rightarrow>
           if sp_Blob out \<noteq> sp_Blob pending \<or> sp_Signature out \<noteq> sp_Signature pending then (Some PendingMismatch, s, v, dk)
           else save_vault env (s\<lparr>cs_Base := out, cs_Draft := out, cs_Pending := None, cs_Dirty := False\<rparr>) (adopt verified v) dk)
     | Inl e \<Rightarrow> if is_conflict e then Inr (s\<lparr>cs_Pending := None\<rparr>) else Inl (Some e, s, v, dk))"

definition sync_commit :: "sync_env \<Rightarrow> cl_Snapshot \<Rightarrow> State \<Rightarrow> Vault \<Rightarrow> disk \<Rightarrow> sync_result" where
  "sync_commit env remote s v dk =
    (case Vault_Snapshot (se_cy env) (se_now env) (se_nonce env) (sp_Revision remote) (se_op env) v of
       (Inl e, v') \<Rightarrow> (Some (VaultError e), s, v', dk)
     | (Inr request, v') \<Rightarrow>
         (case saveWithStore env (s\<lparr>cs_Draft := request, cs_Pending := Some request\<rparr>) dk of
            (Some e, s', dk') \<Rightarrow> (Some e, s', v', dk')
          | (None, s', dk') \<Rightarrow>
              (case put_vault env 2 s' request of Inl e \<Rightarrow> (Some e, s', v', dk') | Inr out \<Rightarrow>
               if sp_Blob out \<noteq> sp_Blob request \<or> sp_Signature out \<noteq> sp_Signature request \<or> sp_Revision out \<noteq> sp_Revision remote + 1
               then (Some AckMismatch, s', v', dk')
               else save_vault env (s'\<lparr>cs_Base := out, cs_Draft := out, cs_Pending := None, cs_Dirty := False\<rparr>) v' dk')))"

definition sync_remote :: "sync_env \<Rightarrow> State \<Rightarrow> Vault \<Rightarrow> disk \<Rightarrow> sync_result" where
  "sync_remote env s v dk =
    (case get_vault env 1 s of Inl e \<Rightarrow> (Some e, s, v, dk) | Inr remote \<Rightarrow>
     if sp_Revision remote < sp_Revision (cs_Base s) then (Some RollbackDetected, s, v, dk)
     else case open_snapshot env s v remote of Inl _ \<Rightarrow> (Some AuthenticationFailed, s, v, dk) | Inr rv \<Rightarrow>
     if sp_Revision remote = sp_Revision (cs_Base s) \<and>
        (sp_Blob remote \<noteq> sp_Blob (cs_Base s) \<or> sp_Signature remote \<noteq> sp_Signature (cs_Base s)) then (Some HistoryReplaced, s, v, dk)
     else if \<not> cs_Dirty s then save_vault env (s\<lparr>cs_Base := remote, cs_Draft := remote\<rparr>) (adopt rv v) dk
     else case open_snapshot env s v (cs_Base s) of Inl e \<Rightarrow> (Some (VaultError e), s, v, dk) | Inr bv \<Rightarrow>
     case Merge (se_dg env) (se_vorder env) (se_now env) (va_Data bv) (va_Data v) (va_Data rv) of
       Inl e \<Rightarrow> (Some (MergeError e), s, v, dk)
     | Inr merged \<Rightarrow> sync_commit env remote s (v\<lparr>va_Data := merged\<rparr>) dk)"

definition Sync :: "sync_env \<Rightarrow> State \<Rightarrow> Vault \<Rightarrow> disk \<Rightarrow> sync_result" where
  "Sync env s v dk =
    (if cs_Token s = [] then (Some LoginRequired, s, v, dk)
     else case cs_Pending s of None \<Rightarrow> sync_remote env s v dk
     | Some pending \<Rightarrow> (case sync_pending env pending s v dk of Inl r \<Rightarrow> r | Inr s' \<Rightarrow> sync_remote env s' v dk))"

text \<open>\<open>SyncRetry\<close>, with the number of attempts made. Attempt \<open>k\<close> has the environment \<open>envs k\<close>;
  \<open>cancelled k\<close> says that the context ends in the pause after it.\<close>

function SyncRetry_from :: "(nat \<Rightarrow> sync_env) \<Rightarrow> (nat \<Rightarrow> bool) \<Rightarrow> nat \<Rightarrow> State \<Rightarrow> Vault \<Rightarrow> disk \<Rightarrow> sync_result \<times> nat" where
  "SyncRetry_from envs cancelled attempt s v dk =
    (case Sync (envs attempt) s v dk of
       (None, r) \<Rightarrow> ((None, r), Suc attempt)
     | (Some e, s', v', dk') \<Rightarrow>
         if 4 \<le> attempt \<or> \<not> is_conflict e then ((Some e, s', v', dk'), Suc attempt)
         else if cancelled attempt then ((Some Cancelled, s', v', dk'), Suc attempt)
         else SyncRetry_from envs cancelled (Suc attempt) s' v' dk')"
  by pat_completeness auto
termination by (relation "measure (\<lambda>(_, _, attempt, _). 4 - attempt)") auto

declare SyncRetry_from.simps [simp del]

definition SyncRetry :: "(nat \<Rightarrow> sync_env) \<Rightarrow> (nat \<Rightarrow> bool) \<Rightarrow> State \<Rightarrow> Vault \<Rightarrow> disk \<Rightarrow> sync_result \<times> nat" where
  "SyncRetry envs cancelled s v dk = SyncRetry_from envs cancelled 0 s v dk"

section \<open>Signing in\<close>

definition zero_snapshot :: cl_Snapshot where
  "zero_snapshot = \<lparr>sp_Revision = 0, sp_BaseRevision = 0, sp_OperationID = [], sp_Blob = [], sp_Signature = [], sp_RootPublic = []\<rparr>"

definition new_state :: "string \<Rightarrow> string \<Rightarrow> string \<Rightarrow> State" where
  "new_state endpoint user device = \<lparr>cs_URL = endpoint, cs_Username = user, cs_DeviceID = device, cs_Token = [], cs_TokenRef = [],
     cs_Expires = 0, cs_Base = zero_snapshot, cs_Draft = zero_snapshot, cs_Dirty = False, cs_Pending = None\<rparr>"

definition signed_in :: "LoginResult \<Rightarrow> State \<Rightarrow> State" where
  "signed_in out s = s\<lparr>cs_Token := lr_Token out, cs_Expires := lr_Expires out, cs_Base := lr_Snapshot out, cs_Draft := lr_Snapshot out\<rparr>"

text \<open>\<open>body\<close> stands for the encoding of the form that is sent, which has the parts named by its arguments.\<close>

definition Register :: "sync_env \<Rightarrow> (cl_Snapshot \<Rightarrow> string \<Rightarrow> bytes option) \<Rightarrow> (bytes \<Rightarrow> LoginResult option) \<Rightarrow> string \<Rightarrow> string \<Rightarrow> string \<Rightarrow> Vault \<Rightarrow>
    string \<Rightarrow> cloud_error + State" where
  "Register env body dec endpoint user device v recovery =
    (case fst (Vault_Snapshot (se_cy env) (se_now env) (se_nonce env) 0 (se_op env) v) of Inl e \<Rightarrow> Inl (VaultError e) | Inr snap \<Rightarrow>
     case RecoveryAuth (se_cy env) recovery of None \<Rightarrow> Inl (VaultError ErrUnlock) | Some auth \<Rightarrow>
     let s = new_state endpoint user device in
     case Request env 0 s ''POST'' ''/v1/register'' (Some (body snap auth)) dec of Inl e \<Rightarrow> Inl e | Inr out \<Rightarrow>
     if sp_Blob (lr_Snapshot out) \<noteq> sp_Blob snap \<or> sp_Signature (lr_Snapshot out) \<noteq> sp_Signature snap \<or> sp_Revision (lr_Snapshot out) \<noteq> 1
     then Inl RegistrationMismatch
     else Inr (signed_in out s))"

definition LoginDevice :: "sync_env \<Rightarrow> bytes option \<Rightarrow> (bytes \<Rightarrow> LoginResult option) \<Rightarrow> string \<Rightarrow> string \<Rightarrow> string \<Rightarrow> cloud_error + State" where
  "LoginDevice env body dec endpoint user device =
    (let s = new_state endpoint user device in
     map_sum id (\<lambda>out. signed_in out s) (Request env 0 s ''POST'' ''/v1/login'' (Some body) dec))"

section \<open>Laws\<close>

text \<open>Saving changes the reference to the token only.\<close>

lemma save_frame: "saveWithStore env s dk = (e, s', dk') \<Longrightarrow> \<exists>t. s' = s\<lparr>cs_TokenRef := t\<rparr>"
  unfolding saveWithStore_def
  by (auto split: sum.splits option.splits prod.splits intro: exI[of _ "cs_TokenRef s"])

lemma save_vault_frame: "save_vault env s v dk = (e, s', v', dk') \<Longrightarrow> v' = v \<and> (\<exists>t. s' = s\<lparr>cs_TokenRef := t\<rparr>)"
  by (auto simp: save_vault_def split: prod.splits dest: save_frame)

text \<open>A snapshot of a vault changes the sealed part of its envelope only.\<close>

lemma Vault_Snapshot_frame: "Vault_Snapshot cy now n b op v = (r, v') \<Longrightarrow> va_Data v' = va_Data v \<and> va_Master v' = va_Master v"
  by (auto simp: Vault_Snapshot_def Let_def split: option.splits prod.splits if_splits)

lemma adopt_simps [simp]: "va_Data (adopt w v) = va_Data w" "va_Master (adopt w v) = va_Master v"
  by (simp_all add: adopt_def)

text \<open>The ways a commit and a fetch can end.\<close>

lemma sync_commit_cases:
  assumes "sync_commit env remote s v dk = (e, s', v', dk')"
  obtains (failed) t where "va_Data v' = va_Data v" "va_Master v' = va_Master v" "e \<noteq> None"
      "s' = s \<or> (\<exists>req. s' = s\<lparr>cs_Draft := req, cs_Pending := Some req, cs_TokenRef := t\<rparr>)"
    | (acked) req out t where "va_Data v' = va_Data v" "va_Master v' = va_Master v"
      "Vault_Snapshot (se_cy env) (se_now env) (se_nonce env) (sp_Revision remote) (se_op env) v = (Inr req, v')"
      "sp_Blob out = sp_Blob req" "sp_Signature out = sp_Signature req" "sp_Revision out = sp_Revision remote + 1"
      "s' = s\<lparr>cs_Base := out, cs_Draft := out, cs_Pending := None, cs_Dirty := False, cs_TokenRef := t\<rparr>"
proof -
  obtain r w where snap: "Vault_Snapshot (se_cy env) (se_now env) (se_nonce env) (sp_Revision remote) (se_op env) v = (r, w)" by (rule prod.exhaust)
  note w = Vault_Snapshot_frame[OF snap]
  show thesis
  proof (cases r)
    case (Inl x)
    then show thesis using assms snap w by (intro failed[of "[]"]) (auto simp: sync_commit_def)
  next
    case (Inr req)
    obtain x s1 dk1 where save: "saveWithStore env (s\<lparr>cs_Draft := req, cs_Pending := Some req\<rparr>) dk = (x, s1, dk1)" using prod_cases3 by blast
    from save_frame[OF this] obtain t where t: "s1 = s\<lparr>cs_Draft := req, cs_Pending := Some req, cs_TokenRef := t\<rparr>" by auto
    consider "v' = w" "e \<noteq> None" "s' = s1"
      | out where "sp_Blob out = sp_Blob req" "sp_Signature out = sp_Signature req" "sp_Revision out = sp_Revision remote + 1"
        "save_vault env (s1\<lparr>cs_Base := out, cs_Draft := out, cs_Pending := None, cs_Dirty := False\<rparr>) w dk1 = (e, s', v', dk')"
      using assms snap Inr save by (auto simp: sync_commit_def split: option.splits sum.splits if_splits)
    then show thesis
    proof cases
      case 1
      then show thesis using w t by (intro failed[of t]) auto
    next
      case 2
      from save_vault_frame[OF 2(4)] obtain t' where "v' = w" "s' = s1\<lparr>cs_Base := out, cs_Draft := out, cs_Pending := None, cs_Dirty := False, cs_TokenRef := t'\<rparr>"
        by auto
      then show thesis using 2 w snap Inr t by (intro acked[of req out t']) auto
    qed
  qed
qed

lemma sync_remote_cases:
  assumes "sync_remote env s v dk = (e, s', v', dk')"
  obtains (refused) "s' = s" "v' = v" "e \<noteq> None"
    | (fetched) remote rv t where "open_snapshot env s v remote = Inr rv" "sp_Revision (cs_Base s) \<le> sp_Revision remote"
      "sp_Revision remote = sp_Revision (cs_Base s) \<Longrightarrow> sp_Blob remote = sp_Blob (cs_Base s) \<and> sp_Signature remote = sp_Signature (cs_Base s)"
      "\<not> cs_Dirty s" "v' = adopt rv v" "s' = s\<lparr>cs_Base := remote, cs_Draft := remote, cs_TokenRef := t\<rparr>"
    | (merged) remote rv bv m where "open_snapshot env s v remote = Inr rv" "sp_Revision (cs_Base s) \<le> sp_Revision remote" "cs_Dirty s"
      "open_snapshot env s v (cs_Base s) = Inr bv"
      "Merge (se_dg env) (se_vorder env) (se_now env) (va_Data bv) (va_Data v) (va_Data rv) = Inr m"
      "sync_commit env remote s (v\<lparr>va_Data := m\<rparr>) dk = (e, s', v', dk')"
proof (cases "get_vault env 1 s")
  case (Inl x)
  then show thesis using assms by (intro refused) (auto simp: sync_remote_def)
next
  case get: (Inr remote)
  show thesis
  proof (cases "open_snapshot env s v remote")
    case (Inl x)
    then show thesis using assms refused get by (auto simp: sync_remote_def split: if_splits)
  next
    case rv: (Inr rv)
    show thesis
    proof (cases "cs_Dirty s")
      case False
      then consider "s' = s" "v' = v" "e \<noteq> None"
        | "sp_Revision (cs_Base s) \<le> sp_Revision remote"
          "sp_Revision remote = sp_Revision (cs_Base s) \<longrightarrow> sp_Blob remote = sp_Blob (cs_Base s) \<and> sp_Signature remote = sp_Signature (cs_Base s)"
          "save_vault env (s\<lparr>cs_Base := remote, cs_Draft := remote\<rparr>) (adopt rv v) dk = (e, s', v', dk')"
        using assms get rv by (auto simp: sync_remote_def not_less split: if_splits)
      then show thesis
      proof cases
        case 2
        then show thesis using save_vault_frame[OF 2(3)] rv False fetched by auto
      qed (rule refused)
    next
      case True
      then show thesis using assms get rv refused merged by (auto simp: sync_remote_def not_less split: if_splits sum.splits)
    qed
  qed
qed

lemma Sync_cases:
  assumes "Sync env s v dk = (e, s', v', dk')"
  obtains (stopped) "s' = s" "v' = v" "e \<noteq> None"
    | (retried) p out w t where "cs_Pending s = Some p" "open_snapshot env s v out = Inr w" "sp_Blob out = sp_Blob p" "sp_Signature out = sp_Signature p"
      "v' = adopt w v" "s' = s\<lparr>cs_Base := out, cs_Draft := out, cs_Pending := None, cs_Dirty := False, cs_TokenRef := t\<rparr>"
    | (remote) "sync_remote env (s\<lparr>cs_Pending := None\<rparr>) v dk = (e, s', v', dk')"
proof (cases "cs_Pending s")
  case None
  then have eq: "s\<lparr>cs_Pending := None\<rparr> = s" by simp
  show thesis using assms None stopped remote[unfolded eq] by (auto simp: Sync_def split: if_splits)
next
  case (Some p)
  then consider "s' = s" "v' = v" "e \<noteq> None" | "sync_remote env (s\<lparr>cs_Pending := None\<rparr>) v dk = (e, s', v', dk')"
    | out w where "open_snapshot env s v out = Inr w" "sp_Blob out = sp_Blob p" "sp_Signature out = sp_Signature p"
      "save_vault env (s\<lparr>cs_Base := out, cs_Draft := out, cs_Pending := None, cs_Dirty := False\<rparr>) (adopt w v) dk = (e, s', v', dk')"
    using assms by (auto simp: Sync_def sync_pending_def split: if_splits sum.splits)
  then show thesis
  proof cases
    case (3 out w)
    then show thesis using save_vault_frame[OF 3(4)] Some retried by auto
  qed (auto intro: stopped remote)
qed

text \<open>Merging, opening and committing leave the master key alone.\<close>

lemma Sync_master: "Sync env s v dk = (e, s', v', dk') \<Longrightarrow> va_Master v' = va_Master v"
  by (erule Sync_cases) (auto elim!: sync_remote_cases sync_commit_cases)

section \<open>Properties\<close>


text \<open>The order of the two halves of a pending upload's state.\<close>

definition state_ok :: "State \<Rightarrow> bool" where
  "state_ok s \<longleftrightarrow> (\<forall>p. cs_Pending s = Some p \<longrightarrow> cs_Draft s = p \<and> cs_Dirty s) \<and> (\<not> cs_Dirty s \<longrightarrow> cs_Draft s = cs_Base s)"

lemma commit_state_ok: "sync_commit env remote s v dk = (e, s', v', dk') \<Longrightarrow> state_ok s \<Longrightarrow> cs_Dirty s \<Longrightarrow> state_ok s'"
  by (erule sync_commit_cases) (auto simp: state_ok_def)

lemma remote_state_ok: "sync_remote env s v dk = (e, s', v', dk') \<Longrightarrow> state_ok s \<Longrightarrow> state_ok s'"
  by (erule sync_remote_cases) (auto simp: state_ok_def dest: commit_state_ok)

lemma Sync_state_ok: "Sync env s v dk = (e, s', v', dk') \<Longrightarrow> state_ok s \<Longrightarrow> state_ok s'"
  by (erule Sync_cases) (auto simp: state_ok_def dest: remote_state_ok)

lemma SyncRetry_state_ok: "SyncRetry_from envs c k s v dk = ((e, s', v', dk'), n) \<Longrightarrow> state_ok s \<Longrightarrow> state_ok s'"
proof (induction envs c k s v dk rule: SyncRetry_from.induct)
  case (1 envs c k s v dk)
  then show ?case
    by (subst (asm) SyncRetry_from.simps) (auto split: option.splits prod.splits if_splits dest: Sync_state_ok)
qed


definition blob_holds :: "primitives \<Rightarrow> bytes \<Rightarrow> string \<Rightarrow> cl_Data \<Rightarrow> bool" where
  "blob_holds cy master blob d \<longleftrightarrow>
    (\<exists>e plain. cy_unmarshal_env cy blob = Some e \<and>
      unseal cy (derive cy master ''data'') (en_Nonce e) (en_Ciphertext e) (aad e ''data'') = Some plain \<and> cy_unmarshal_data cy plain = Some d)"

lemma opened_blob_holds: "UnlockMaster cy now account s master = Inr v \<Longrightarrow> blob_holds cy master (sp_Blob s) (va_Data v)"
  unfolding UnlockMaster_Inr parseEnvelope_Some blob_holds_def by auto

lemma sealed_blob_holds:
  assumes "primitives_ok cy" "length nonce = 12" "Vault_Snapshot cy now nonce base op v = (Inr s, v')"
  shows "blob_holds cy (va_Master v) (sp_Blob s) (va_Data v)"
proof -
  from assms(3) obtain plain n c where g: "cy_marshal_data cy (va_Data v) = Some plain"
    "seal cy nonce (derive cy (va_Master v) ''data'') plain (aad (va_Envelope v) ''data'') = Some (n, c)"
    "cy_marshal_env cy ((va_Envelope v)\<lparr>en_Nonce := n, en_Ciphertext := c\<rparr>) = Some (sp_Blob s)"
    by (auto simp: Vault_Snapshot_def Let_def split: option.splits if_splits)
  have "cy_unmarshal_data cy plain = Some (va_Data v)" "cy_unmarshal_env cy (sp_Blob s) = Some ((va_Envelope v)\<lparr>en_Nonce := n, en_Ciphertext := c\<rparr>)"
    using assms(1) g(1,3) by (auto simp: primitives_ok_def)
  then show ?thesis using unseal_seal[OF assms(1) derive_length[OF assms(1)] assms(2) g(2)] by (auto simp: blob_holds_def)
qed

text \<open>Local edits are only forgotten as pending when the service acknowledged a blob that holds exactly the document
  the device then has: the mark of unsaved edits is never cleared otherwise.\<close>

theorem dirty_cleared_only_by_acknowledgement:
  assumes "Sync env s v dk = (e, s', v', dk')" "cs_Dirty s" "\<not> cs_Dirty s'" "primitives_ok (se_cy env)" "length (se_nonce env) = 12"
  shows "blob_holds (se_cy env) (va_Master v') (sp_Blob (cs_Base s')) (va_Data v') \<and> cs_Draft s' = cs_Base s' \<and> cs_Pending s' = None"
  using assms(1)
proof (cases rule: Sync_cases)
  case (retried p out w t)
  then show ?thesis using opened_blob_holds[of "se_cy env" _ _ out "va_Master v" w] by (auto simp: open_snapshot_def)
next
  case remote
  then show ?thesis
  proof (cases rule: sync_remote_cases)
    case (merged rem rv bv m)
    from merged(6) show ?thesis
    proof (cases rule: sync_commit_cases)
      case (acked req out t)
      then show ?thesis using sealed_blob_holds[OF assms(4,5) acked(3)] by auto
    qed (use assms merged in auto)
  qed (use assms in auto)
qed (use assms in auto)

lemma SyncRetry_from_bounds:
  "SyncRetry_from envs c k s v dk = (r, n) \<Longrightarrow> k \<le> 4 \<Longrightarrow> k < n \<and> n \<le> 5 \<and> (\<forall>e. fst r = Some e \<and> is_conflict e \<longrightarrow> n = 5)"
proof (induction envs c k s v dk rule: SyncRetry_from.induct)
  case (1 envs c k s v dk)
  obtain x s1 v1 dk1 where y: "Sync (envs k) s v dk = (x, s1, v1, dk1)" using prod_cases4 by blast
  note unf = 1(2)[unfolded SyncRetry_from.simps[of envs c k] y prod.case]
  show ?case
  proof (cases "\<exists>e. x = Some e \<and> k < 4 \<and> is_conflict e \<and> \<not> c k")
    case True
    then obtain e where e: "x = Some e" "k < 4" "is_conflict e" "\<not> c k" by blast
    then have "SyncRetry_from envs c (Suc k) s1 v1 dk1 = (r, n)" using unf by simp
    then have "Suc k < n \<and> n \<le> 5 \<and> (\<forall>e. fst r = Some e \<and> is_conflict e \<longrightarrow> n = 5)"
      using 1(1)[OF y[symmetric] e(1) refl refl] e by simp
    then show ?thesis by simp
  next
    case False
    then show ?thesis using unf 1(3) by (cases x) (auto split: if_splits)
  qed
qed

text \<open>A sync with retries ends after at least one and at most five attempts, and reports a conflict only after the fifth.\<close>

theorem sync_retry_ends:
  "\<exists>r n. SyncRetry envs cancelled s v dk = (r, n) \<and> 1 \<le> n \<and> n \<le> 5 \<and> ((\<exists>e. fst r = Some e \<and> is_conflict e) \<longrightarrow> n = 5)"
proof -
  obtain r n where "SyncRetry_from envs cancelled 0 s v dk = (r, n)" by (rule prod.exhaust)
  from SyncRetry_from_bounds[OF this] show ?thesis using \<open>SyncRetry_from envs cancelled 0 s v dk = (r, n)\<close> by (auto simp: SyncRetry_def)
qed

text \<open>C30: against a dishonest service the protection of the revision has a gap. When an upload is pending and the service echoes it
  unnumbered, the device accepts it as revision 0, whatever revision it had accepted before; the next sync
  then accepts any older snapshot of the vault, whose revision is below the one accepted before.\<close>

theorem pending_echo_allows_rollback:
  assumes "cs_Token s \<noteq> []" "cs_Pending s = Some p" "sp_Revision p = 0" "put_vault env 0 s p = Inr p" "open_snapshot env s v p = Inr w"
    "Sync env s v dk = (e, s1, v1, dk1)" "get_vault env' 1 s1 = Inr old" "1 \<le> sp_Revision old" "open_snapshot env' s1 v1 old = Inr ov"
    "Sync env' s1 v1 dk1 = (e', s2, v2, dk2)"
  shows "sp_Revision (cs_Base s1) = 0 \<and> cs_Base s2 = old \<and> va_Data v2 = va_Data ov"
proof -
  have "save_vault env (s\<lparr>cs_Base := p, cs_Draft := p, cs_Pending := None, cs_Dirty := False\<rparr>) (adopt w v) dk = (e, s1, v1, dk1)"
    using assms(1,2,4-6) by (simp add: Sync_def sync_pending_def)
  from save_vault_frame[OF this] obtain t where s1: "s1 = s\<lparr>cs_Base := p, cs_Draft := p, cs_Pending := None, cs_Dirty := False, cs_TokenRef := t\<rparr>" by auto
  then have "save_vault env' (s1\<lparr>cs_Base := old, cs_Draft := old\<rparr>) (adopt ov v1) dk1 = (e', s2, v2, dk2)"
    using assms(1,3,7-10) by (simp add: Sync_def sync_remote_def)
  from save_vault_frame[OF this] show ?thesis using s1 assms(3) by auto
qed

lemma SetSecret_reads:
  assumes "SetSecret env name value st = (None, st')" "codecs_ok env" "\<And>b. st_file st' = Some b \<Longrightarrow> length b \<le> maxStoreSize"
    "\<not> le_fails env LsReadFile" "\<not> le_fails env LsIrregular"
  shows "Secret env name st' = Inr value"
proof -
  have ok: "secret_ok name value" and u: "Store_Update env (staged_SetSecret name value) st = (None, st')"
    using assms(1) by (auto simp: SetSecret_def split: if_splits)
  obtain d d' where "staged_SetSecret name value d = Inr d'" "Read env st' = Inr d'"
    by (rule Store_Update_reads[OF u assms(2) _ assms(3-5)]) (auto simp: staged_SetSecret_def split: if_splits)
  then show ?thesis using ok by (auto simp: Secret_def staged_SetSecret_def gm.lookup_update)
qed

lemma AccountSecretPrefix_frame [simp]:
  "AccountSecretPrefix env (s\<lparr>cs_Token := t\<rparr>) = AccountSecretPrefix env s"
  "AccountSecretPrefix env (s\<lparr>cs_TokenRef := r\<rparr>) = AccountSecretPrefix env s"
  by (simp_all add: AccountSecretPrefix_def)

text \<open>With the local store in use, the session token never reaches the state file, and loading the file gives the
  saved state back with the token from the store. The hypotheses are those of the store, that the file before had no
  token in it, and that the JSON codec reads back what it wrote.\<close>

theorem saved_token_is_protected:
  assumes "saveWithStore env s dk = (None, s', dk')" "Enabled (se_store env TokenCall) (dk_store dk)" "cs_Token s \<noteq> []" "ValidAccount (cs_Username s)"
    "\<And>old previous. dk_file dk = Some old \<Longrightarrow> se_unmarshal_state env old = Some previous \<Longrightarrow> cs_Token previous = []"
    "\<And>x b. se_marshal_state env x = Some b \<Longrightarrow> se_unmarshal_state env b = Some x \<and> length b \<le> 10 * MaxBlob"
    "se_store env LoadCall = se_store env TokenCall" "codecs_ok (se_store env TokenCall)"
    "\<And>b. st_file (dk_store dk') = Some b \<Longrightarrow> length b \<le> maxStoreSize" "\<not> le_fails (se_store env TokenCall) LsReadFile"
    "\<not> le_fails (se_store env TokenCall) LsIrregular"
  shows "loadStateWithStore env dk' = Inr s' \<and> cs_Token s' = cs_Token s \<and>
    (\<exists>b x. dk_file dk' = Some b \<and> se_unmarshal_state env b = Some x \<and> cs_Token x = [])"
proof -
  define ref where "ref = AccountSecretPrefix env s @ ''token/'' @ secretDigest env (cs_Token s)"
  let ?p = "s\<lparr>cs_TokenRef := ref, cs_Token := []\<rparr>"
  from assms(1) obtain q st b where q: "protect_token env s dk = (Inr q, st)" "se_marshal_state env q = Some b" "s' = s\<lparr>cs_TokenRef := cs_TokenRef q\<rparr>"
      "dk' = \<lparr>dk_file = Some b, dk_store = st\<rparr>"
    by (auto simp: saveWithStore_def WritePrivate_def split: sum.splits option.splits prod.splits)
  obtain x st1 where set: "SetSecret (se_store env TokenCall) ref (cs_Token s) (dk_store dk) = (x, st1)" by (rule prod.exhaust)
  have m: "store_migration env (dk_file dk) st1 = (None, st1)" if "\<not> se_read_fails env"
    using that assms(5) by (auto simp: store_migration_def split: option.splits)
  have r: "se_read_fails env = False \<and> x = None \<and> q = ?p \<and> st = st1"
    using q(1) assms(2,3) set m
    by (cases "se_read_fails env"; cases x) (auto simp: protect_token_def store_token_def store_migration_def ref_def Let_def)
  have "ref \<noteq> []" by (simp add: ref_def AccountSecretPrefix_def)
  moreover have "Secret (se_store env LoadCall) ref st = Inr (cs_Token s)"
    using SetSecret_reads[of "se_store env TokenCall" ref "cs_Token s" "dk_store dk" st] set r assms(7-11) q(4) by simp
  moreover have "se_unmarshal_state env b = Some ?p" "length b \<le> 10 * MaxBlob" using assms(6)[OF q(2)] r by auto
  moreover have "HasPrefix ref (AccountSecretPrefix env s @ ''token/'')" by (simp add: HasPrefix_def ref_def prefix_def)
  ultimately show ?thesis using q r assms(4) by (simp add: loadStateWithStore_def)
qed

section \<open>Witnesses\<close>

text \<open>A device of the account \<open>alice\<close> that has accepted revision 5, and a service that answers with revisions of
  the vault of \<open>Cloud_Vault\<close>.\<close>

definition demo_ls :: ls_env where
  "demo_ls = \<lparr>le_instance = ''i'', le_fails = \<lambda>_. False, le_new_key = replicate 32 (CHR ''k''),
     le_nonce = replicate 12 (CHR ''n''), le_seal = \<lambda>_. Some (''b'', ''w''), le_open = \<lambda>_ _. Some (replicate 32 (CHR ''k'')),
     le_gcm_seal = \<lambda>_ _ p. p, le_gcm_open = \<lambda>_ _ c. Some c,
     le_marshal_data = \<lambda>d. if d = empty_data\<lparr>da_Secrets := gm_update ''cloud/00/token/00'' ''T'' gm_empty\<rparr> then Some ''p1'' else None,
     le_unmarshal_data = \<lambda>b. if b = ''p0'' then Some \<lparr>rd_data = empty_data, rd_complete = True\<rparr>
       else if b = ''p1'' then Some \<lparr>rd_data = empty_data\<lparr>da_Secrets := gm_update ''cloud/00/token/00'' ''T'' gm_empty\<rparr>, rd_complete = True\<rparr> else None,
     le_marshal_env = \<lambda>e. if ev_Version e = 1 \<and> ev_Instance e = ''i'' \<and> ev_Backend e = ''b'' \<and> ev_WrappedKey e = ''w'' \<and>
         ev_Nonce e = replicate 12 (CHR ''n'') then Some (ev_Ciphertext e) else None,
     le_unmarshal_env = \<lambda>b. Some \<lparr>ev_Version = 1, ev_Instance = ''i'', ev_Backend = ''b'', ev_WrappedKey = ''w'',
       ev_Nonce = replicate 12 (CHR ''n''), ev_Ciphertext = b\<rparr>,
     le_parse = \<lambda>_. NoKey, le_parse_with = \<lambda>_ _. NoKey, le_proves = \<lambda>_. False, le_identity = \<lambda>_. ''id'', le_key_file = \<lambda>_. KfMissing,
     le_home = None, le_key_id = \<lambda>_. None\<rparr>"

definition demo_sync_env :: sync_env where
  "demo_sync_env = \<lparr>se_cy = demo_primitives, se_dg = \<lparr>dg_entry = \<lambda>_. [], dg_pair = \<lambda>_ _. [], dg_source = \<lambda>_. [], dg_credential = \<lambda>_. []\<rparr>,
     se_vorder = gm_keys, se_now = 0, se_nonce = replicate 12 (CHR ''d''), se_op = ''op'',
     se_http = (\<lambda>call rq. Reply 200 (if call = 0 then ''P'' else ''S'') True),
     se_url = (\<lambda>_. Some \<lparr>uv_scheme = ''https'', uv_hostname = ''h'', uv_path = [], uv_user = False, uv_query = [], uv_fragment = []\<rparr>),
     se_builds = (\<lambda>_. True), se_marshal_snapshot = (\<lambda>_. Some ''s''),
     se_unmarshal_snapshot = (\<lambda>b. if b = ''P'' then Some demo_snapshot else if b = ''S'' then Some (demo_snapshot\<lparr>sp_Revision := 1\<rparr>) else None),
     se_error_code = (\<lambda>_. []),
     se_marshal_state = (\<lambda>x. if x = (new_state ''u'' ''alice'' ''d'')\<lparr>cs_TokenRef := ''cloud/00/token/00''\<rparr> then Some ''st'' else None),
     se_unmarshal_state = (\<lambda>b. if b = ''st'' then Some ((new_state ''u'' ''alice'' ''d'')\<lparr>cs_TokenRef := ''cloud/00/token/00''\<rparr>) else None),
     se_sha = (\<lambda>_. [CHR 0x00]), se_store = (\<lambda>_. demo_ls), se_read_fails = False, se_write_fails = (\<lambda>_. False)\<rparr>"

definition demo_disk :: disk where "demo_disk = \<lparr>dk_file = None, dk_store = \<lparr>st_file = Some ''p0'', st_locked = False\<rparr>\<rparr>"
definition plain_disk :: disk where "plain_disk = \<lparr>dk_file = None, dk_store = \<lparr>st_file = None, st_locked = False\<rparr>\<rparr>"

lemma demo_open: "r = 0 \<or> r = 1 \<Longrightarrow> UnlockMaster demo_primitives 0 ''alice'' (demo_snapshot\<lparr>sp_Revision := r\<rparr>) (vr_master demo_random) =
    Inr (demo_vault\<lparr>va_Envelope := Cloud_Vault.demo_envelope\<rparr>)"
  using snapshot_opens(2)[OF demo_primitives_ok _ _ _ demo_sealed, of r "vr_salt demo_random"]
  by (simp add: demo_vault_def Cloud_Vault.demo_envelope_def demo_random_def validID_random)

lemma demo_open_snapshot:
  "cs_Username s = ''alice'' \<Longrightarrow> va_Master v = vr_master demo_random \<Longrightarrow> r = 0 \<or> r = 1 \<Longrightarrow>
   open_snapshot demo_sync_env s v (demo_snapshot\<lparr>sp_Revision := r\<rparr>) = Inr (demo_vault\<lparr>va_Envelope := Cloud_Vault.demo_envelope\<rparr>)"
  using demo_open[of r] by (simp add: open_snapshot_def demo_sync_env_def)

lemma demo_vault_master: "va_Master demo_vault = vr_master demo_random"
  by (simp add: demo_vault_def)

lemma demo_requests:
  "put_vault demo_sync_env 0 s p = Inr demo_snapshot" "get_vault demo_sync_env 1 s = Inr (demo_snapshot\<lparr>sp_Revision := 1\<rparr>)"
  by (simp_all add: put_vault_def get_vault_def Request_def ValidateURL_def demo_sync_env_def MaxBlob_def)

definition fresh_account :: State where
  "fresh_account = (new_state ''u'' ''alice'' ''d'')\<lparr>cs_Token := ''T''\<rparr>"


definition waiting_account :: State where
  "waiting_account = fresh_account\<lparr>cs_Base := demo_snapshot\<lparr>sp_Revision := 5, sp_BaseRevision := 4\<rparr>, cs_Draft := demo_snapshot, cs_Dirty := True, cs_Pending := Some demo_snapshot\<rparr>"

definition after_echo :: "cloud_error option \<times> State \<times> Vault \<times> disk" where
  "after_echo = Sync demo_sync_env waiting_account demo_vault plain_disk"

definition after_rollback :: "cloud_error option \<times> State \<times> Vault \<times> disk" where
  "after_rollback = Sync demo_sync_env (fst (snd after_echo)) (fst (snd (snd after_echo))) (snd (snd (snd after_echo)))"

lemma demo_rev0: "demo_snapshot\<lparr>sp_Revision := 0\<rparr> = demo_snapshot"
  by (simp add: demo_snapshot_def)

lemma after_echo_saved:
  "after_echo = (e, s1, v1, dk1) \<Longrightarrow>
   save_vault demo_sync_env (waiting_account\<lparr>cs_Base := demo_snapshot, cs_Draft := demo_snapshot, cs_Pending := None, cs_Dirty := False\<rparr>)
      (adopt (demo_vault\<lparr>va_Envelope := Cloud_Vault.demo_envelope\<rparr>) demo_vault) plain_disk = (e, s1, v1, dk1)"
  using demo_open_snapshot[of waiting_account demo_vault 0]
  by (simp add: after_echo_def Sync_def sync_pending_def demo_requests waiting_account_def fresh_account_def new_state_def demo_rev0 demo_vault_master)

lemma after_echo_frame: "cs_Username (fst (snd after_echo)) = ''alice''" "va_Master (fst (snd (snd after_echo))) = vr_master demo_random"
proof -
  obtain e s1 v1 dk1 where y: "after_echo = (e, s1, v1, dk1)" using prod_cases4 by blast
  from save_vault_frame[OF after_echo_saved[OF y]] show "cs_Username (fst (snd after_echo)) = ''alice''" "va_Master (fst (snd (snd after_echo))) = vr_master demo_random"
    unfolding y by (auto simp: waiting_account_def fresh_account_def new_state_def demo_vault_master)
qed

theorem pending_echo_allows_rollback_witness:
  "sp_Revision (cs_Base waiting_account) = 5 \<and> sp_Revision (cs_Base (fst (snd after_rollback))) = 1"
proof -
  have o: "open_snapshot demo_sync_env waiting_account demo_vault demo_snapshot = Inr (demo_vault\<lparr>va_Envelope := Cloud_Vault.demo_envelope\<rparr>)"
    using demo_open_snapshot[of waiting_account demo_vault 0]
    by (simp add: waiting_account_def fresh_account_def new_state_def demo_rev0 demo_vault_master)
  have "cs_Base (fst (snd after_rollback)) = demo_snapshot\<lparr>sp_Revision := 1\<rparr>"
    by (rule pending_echo_allows_rollback[OF _ _ _ demo_requests(1)[of waiting_account demo_snapshot] o, of plain_disk "fst after_echo" "fst (snd after_echo)"
        "fst (snd (snd after_echo))" "snd (snd (snd after_echo))" demo_sync_env _ _ "fst after_rollback" "fst (snd after_rollback)"
        "fst (snd (snd after_rollback))" "snd (snd (snd after_rollback))", THEN conjunct2, THEN conjunct1])
      (simp_all add: demo_requests[simplified] demo_open_snapshot after_echo_frame waiting_account_def[THEN arg_cong[of _ _ cs_Token]] fresh_account_def, simp_all add: after_echo_def after_rollback_def waiting_account_def demo_snapshot_def)
  then show ?thesis by (simp add: waiting_account_def demo_snapshot_def)
qed


text \<open>Edits of the waiting device, acknowledged by the echo of its pending upload.\<close>

theorem dirty_cleared_only_by_acknowledgement_witness:
  "blob_holds demo_primitives (vr_master demo_random) (sp_Blob (cs_Base (fst (snd after_echo)))) (va_Data (fst (snd (snd after_echo))))"
proof -
  obtain e s1 v1 dk1 where y: "after_echo = (e, s1, v1, dk1)" using prod_cases4 by blast
  have "\<not> cs_Dirty s1"
    using after_echo_saved[OF y] save_vault_frame by fastforce
  then show ?thesis
    using dirty_cleared_only_by_acknowledgement[OF y[unfolded after_echo_def]] after_echo_frame demo_primitives_ok
    unfolding y by (simp add: demo_sync_env_def waiting_account_def)
qed

definition protected_account :: State where
  "protected_account = fresh_account\<lparr>cs_TokenRef := ''cloud/00/token/00''\<rparr>"

lemma demo_ls_codecs: "codecs_ok demo_ls"
  by (auto simp: codecs_ok_def demo_ls_def nonce_size_def)

lemma demo_saved:
  "saveWithStore demo_sync_env fresh_account demo_disk =
    (None, protected_account, \<lparr>dk_file = Some ''st'', dk_store = \<lparr>st_file = Some ''p1'', st_locked = False\<rparr>\<rparr>)"
proof -
  have "hex_encode [CHR 0x00] = ''00''" by code_simp
  then have p: "AccountSecretPrefix demo_sync_env s = ''cloud/00/''" "secretDigest demo_sync_env x = ''00''" for s x
    by (simp_all add: AccountSecretPrefix_def secretDigest_def demo_sync_env_def)
  have set: "SetSecret demo_ls ''cloud/00/token/00'' ''T'' \<lparr>st_file = Some ''p0'', st_locked = False\<rparr> = (None, \<lparr>st_file = Some ''p1'', st_locked = False\<rparr>)"
    by (simp add: SetSecret_def secret_ok_def Store_Update_def open_or_create_def read_def CheckLocked_def readPrivate_def maxStoreSize_def demo_ls_def
        nonce_size_def staged_SetSecret_def seal_envelope_def writePrivate_def empty_data_def)
  have e: "se_store demo_sync_env c = demo_ls" "se_read_fails demo_sync_env = False" for c by (simp_all add: demo_sync_env_def)
  have pt: "protect_token demo_sync_env fresh_account demo_disk = (Inr ((new_state ''u'' ''alice'' ''d'')\<lparr>cs_TokenRef := ''cloud/00/token/00''\<rparr>), \<lparr>st_file = Some ''p1'', st_locked = False\<rparr>)"
    using set e by (simp add: protect_token_def store_token_def store_migration_def p demo_disk_def fresh_account_def new_state_def Enabled_def Let_def)
  have m: "se_marshal_state demo_sync_env ((new_state ''u'' ''alice'' ''d'')\<lparr>cs_TokenRef := ''cloud/00/token/00''\<rparr>) = Some ''st''"
    "WritePrivate demo_sync_env b f = (None, Some b)" for b f
    by (simp_all add: demo_sync_env_def WritePrivate_def)
  show ?thesis by (simp add: saveWithStore_def pt m) (simp add: protected_account_def fresh_account_def new_state_def)
qed

theorem saved_token_is_protected_witness:
  "loadStateWithStore demo_sync_env \<lparr>dk_file = Some ''st'', dk_store = \<lparr>st_file = Some ''p1'', st_locked = False\<rparr>\<rparr> = Inr protected_account"
proof (rule saved_token_is_protected[OF demo_saved, THEN conjunct1])
  show "ValidAccount (cs_Username fresh_account)" by code_simp
  show "codecs_ok (se_store demo_sync_env TokenCall)" using demo_ls_codecs by (simp add: demo_sync_env_def)
  show "se_unmarshal_state demo_sync_env b = Some x \<and> length b \<le> 10 * MaxBlob" if "se_marshal_state demo_sync_env x = Some b" for x b
    using that by (simp add: demo_sync_env_def MaxBlob_def split: if_splits)
qed (simp_all add: demo_sync_env_def demo_disk_def fresh_account_def Enabled_def maxStoreSize_def demo_ls_def)

theorem sync_retry_ends_witness:
  "snd (SyncRetry (\<lambda>_. demo_sync_env) (\<lambda>_. False) fresh_account demo_vault plain_disk) \<le> 5"
  using sync_retry_ends[of "\<lambda>_. demo_sync_env" "\<lambda>_. False" fresh_account demo_vault plain_disk] by auto


end
