(* ===== verification/Cloud_Jobs.thy ===== *)
theory Cloud_Jobs
  imports Cloud_Sync
begin

text \<open>
  \<open>internal/cloudsync/jobs.go\<close>: signed jobs of the account and the receipt journal that keeps a job
  from running twice. One call of \<open>ProcessJobs\<close> is the list of its effects in their order (writing the journal,
  claiming, executing, reporting); a crash is a prefix of that list, and \<open>jobs_step\<close> composes calls that may
  each be cut anywhere. The journal codec, the digest of the journal key, the replies to claims and reports, and the
  operation that executes a job are parameters.
\<close>

section \<open>Jobs\<close>

record Job =
  jb_ID :: string
  jb_Device :: string
  jb_Action :: string
  jb_Version :: string
  jb_Expires :: int
  jb_Signature :: string
  jb_Status :: string

record JobResult =
  jr_Claim :: string
  jr_Status :: string
  jr_Code :: string
  jr_Count :: int
  jr_Receipt :: string

record jobRecord =
  jc_Result :: JobResult
  jc_Expires :: int

type_synonym journal = "(string, jobRecord) gomap"

text \<open>\<open>jobID\<close> is the pattern of \<open>validID\<close>; \<open>jobVersion\<close> is \<open>^[A-Za-z0-9.+_-]{1,80}$\<close>.\<close>

definition jobVersion :: "string \<Rightarrow> bool" where
  "jobVersion s \<longleftrightarrow> 1 \<le> length s \<and> length s \<le> 80 \<and> list_all (\<lambda>c. is_lower c \<or> is_upper c \<or> is_digit c \<or> c \<in> set ''.+_-'') s"

definition Job_Message :: "string \<Rightarrow> Job \<Rightarrow> string" where
  "Job_Message user j = ''sshm-job-v1'' @ [newline] @ user @ [newline] @ jb_ID j @ [newline] @ jb_Device j @ [newline] @
     jb_Action j @ [newline] @ jb_Version j @ [newline] @ Itoa (jb_Expires j)"

definition action_ok :: "Job \<Rightarrow> bool" where
  "action_ok j \<longleftrightarrow> (if jb_Action j = ''sync'' \<or> jb_Action j = ''inspect'' then jb_Version j = []
     else if jb_Action j = ''update'' then jobVersion (jb_Version j) else False)"

definition day_ms :: int where "day_ms = 24 * 60 * 60 * 1000"

definition VerifyJob :: "primitives \<Rightarrow> int \<Rightarrow> bytes \<Rightarrow> Job \<Rightarrow> string \<Rightarrow> string \<Rightarrow> bool" where
  "VerifyJob cy now master j user device =
    (if \<not> validID (jb_ID j) \<or> jb_Device j \<noteq> device \<or> \<not> validID device \<or> jb_Expires j \<le> now \<or> now + day_ms < jb_Expires j then False
     else if \<not> action_ok j then False
     else case DecodeString (jb_Signature j) of None \<Rightarrow> False | Some sig \<Rightarrow>
       cy_verify cy (case DecodeString (Public cy master) of None \<Rightarrow> [] | Some p \<Rightarrow> p) (Job_Message user j) sig)"

definition JobResult_Message :: "string \<Rightarrow> Job \<Rightarrow> JobResult \<Rightarrow> string" where
  "JobResult_Message user j r = ''sshm-job-result-v1'' @ [newline] @ user @ [newline] @ jb_ID j @ [newline] @ jb_Device j @ [newline] @
     jr_Status r @ [newline] @ jr_Code r @ [newline] @ Itoa (jr_Count r)"

definition SignJobResult :: "primitives \<Rightarrow> bytes \<Rightarrow> string \<Rightarrow> Job \<Rightarrow> JobResult \<Rightarrow> JobResult" where
  "SignJobResult cy master user j r =
    r\<lparr>jr_Receipt := EncodeToString (cy_sign cy (vault_private cy master) (JobResult_Message user j r))\<rparr>"

section \<open>Processing\<close>

datatype job_effect = Saved bytes | Claimed Job string | Executed Job | Reported Job JobResult

datatype job_error = JobCloud cloud_error | InvalidQueue | InvalidJournal | JournalUnreadable | JournalWrite

record job_env =
  je_cy :: primitives
  je_now :: int
  je_poll :: "cloud_error + Job list" \<comment> \<open>the reply to the poll\<close>
  je_claim :: "nat \<Rightarrow> cloud_error option" \<comment> \<open>the reply to the claim of the job at a position of the queue\<close>
  je_report :: "nat \<Rightarrow> cloud_error option"
  je_execute :: "Job \<Rightarrow> JobResult"
  je_random :: "nat \<Rightarrow> string"
  je_key :: "string \<times> string \<times> string \<Rightarrow> string" \<comment> \<open>digest of user, device and signature\<close>
  je_marshal :: "journal \<Rightarrow> bytes option"
  je_unmarshal :: "bytes \<Rightarrow> journal option"
  je_read_fails :: bool
  je_write_fails :: "nat \<Rightarrow> bool"

definition prune :: "int \<Rightarrow> journal \<Rightarrow> journal" where
  "prune now m = gm_filter (\<lambda>_ r. \<not> jc_Expires r < now - 7 * day_ms) m"

definition load_journal :: "job_env \<Rightarrow> bytes option \<Rightarrow> job_error + journal" where
  "load_journal env file =
    (if je_read_fails env then Inl JournalUnreadable
     else case file of None \<Rightarrow> Inr gm_empty | Some b \<Rightarrow>
       if 2 * 1024 * 1024 < length b then Inl InvalidJournal
       else (case je_unmarshal env b of None \<Rightarrow> Inl InvalidJournal | Some m \<Rightarrow> Inr m))"

text \<open>Writes are numbered by twice the position of the job, the second write of a job is the odd one.\<close>

definition save_journal :: "job_env \<Rightarrow> nat \<Rightarrow> journal \<Rightarrow> job_error + bytes" where
  "save_journal env n m =
    (case je_marshal env m of None \<Rightarrow> Inl JournalWrite | Some b \<Rightarrow> if je_write_fails env n then Inl JournalWrite else Inr b)"

definition interrupted :: "string \<Rightarrow> JobResult" where
  "interrupted claim = \<lparr>jr_Claim = claim, jr_Status = ''failed'', jr_Code = ''interrupted'', jr_Count = 0, jr_Receipt = []\<rparr>"

text \<open>After the receipt is known: claim, execute a new job, sign, save, report.\<close>

definition finish_job :: "job_env \<Rightarrow> bytes \<Rightarrow> string \<Rightarrow> nat \<Rightarrow> Job \<Rightarrow> string \<Rightarrow> bool \<Rightarrow> jobRecord \<Rightarrow> journal \<Rightarrow>
    job_effect list \<times> (job_error + journal)" where
  "finish_job env master user n j key known rec m =
    (case je_claim env n of Some e \<Rightarrow> ([Claimed j (jr_Claim (jc_Result rec))], Inl (JobCloud e)) | None \<Rightarrow>
     let ran = (if known then [] else [Executed j]);
         result = (if known then jc_Result rec else (je_execute env j)\<lparr>jr_Claim := jr_Claim (jc_Result rec)\<rparr>);
         rec = rec\<lparr>jc_Result := SignJobResult (je_cy env) master user j result\<rparr>;
         m = gm_update key rec m in
     case save_journal env (Suc (2 * n)) m of
       Inl e \<Rightarrow> (Claimed j (jr_Claim (jc_Result rec)) # ran, Inl e)
     | Inr b \<Rightarrow>
         (Claimed j (jr_Claim (jc_Result rec)) # ran @ [Saved b, Reported j (jc_Result rec)],
          case je_report env n of Some e \<Rightarrow> Inl (JobCloud e) | None \<Rightarrow> Inr m))"

definition process_job :: "job_env \<Rightarrow> bytes \<Rightarrow> string \<Rightarrow> string \<Rightarrow> nat \<Rightarrow> Job \<Rightarrow> journal \<Rightarrow> job_effect list \<times> (job_error + journal)" where
  "process_job env master user device n j m =
    (if \<not> VerifyJob (je_cy env) (je_now env) master j user device then ([], Inr m)
     else let key = je_key env (user, device, jb_Signature j) in
     case gm_lookup m key of
       Some rec \<Rightarrow> finish_job env master user n j key True rec m
     | None \<Rightarrow>
         let rec = \<lparr>jc_Result = interrupted (je_random env n), jc_Expires = jb_Expires j\<rparr>; m = gm_update key rec m in
         (case save_journal env (2 * n) m of Inl e \<Rightarrow> ([], Inl e) | Inr b \<Rightarrow>
          if jb_Status j = ''running'' then ([Saved b], Inr m)
          else (case finish_job env master user n j key False rec m of (ev, r) \<Rightarrow> (Saved b # ev, r))))"

fun process_queue :: "job_env \<Rightarrow> bytes \<Rightarrow> string \<Rightarrow> string \<Rightarrow> nat \<Rightarrow> Job list \<Rightarrow> journal \<Rightarrow> job_effect list \<times> job_error option" where
  "process_queue env master user device n [] m = ([], None)"
| "process_queue env master user device n (j # js) m =
    (case process_job env master user device n j m of
       (ev, Inl e) \<Rightarrow> (ev, Some e)
     | (ev, Inr m') \<Rightarrow> (case process_queue env master user device (Suc n) js m' of (ev', e) \<Rightarrow> (ev @ ev', e)))"

definition ProcessJobs :: "job_env \<Rightarrow> bytes \<Rightarrow> string \<Rightarrow> string \<Rightarrow> bytes option \<Rightarrow> job_effect list \<times> job_error option" where
  "ProcessJobs env master user device file =
    (case je_poll env of Inl e \<Rightarrow> ([], Some (JobCloud e)) | Inr jobs \<Rightarrow>
     if 4 < length jobs then ([], Some InvalidQueue)
     else if jobs = [] then ([], None)
     else case load_journal env file of Inl e \<Rightarrow> ([], Some e) | Inr m \<Rightarrow>
       process_queue env master user device 0 jobs (prune (je_now env) m))"

section \<open>Calls that may crash\<close>

record job_world =
  jw_time :: int
  jw_file :: "bytes option"
  jw_executed :: "Job list"

fun job_apply :: "job_effect \<Rightarrow> job_world \<Rightarrow> job_world" where
  "job_apply (Saved b) w = w\<lparr>jw_file := Some b\<rparr>"
| "job_apply (Executed j) w = w\<lparr>jw_executed := jw_executed w @ [j]\<rparr>"
| "job_apply _ w = w"

inductive jobs_step :: "bytes \<Rightarrow> string \<Rightarrow> string \<Rightarrow> (job_env \<Rightarrow> bool) \<Rightarrow> job_world \<Rightarrow> job_world \<Rightarrow> bool" for master user device envs where
  run: "envs env \<Longrightarrow> jw_time w \<le> je_now env \<Longrightarrow> ProcessJobs env master user device (jw_file w) = (ev, e) \<Longrightarrow>
    jobs_step master user device envs w (fold job_apply (take k ev) (w\<lparr>jw_time := je_now env\<rparr>))"

inductive_cases jobs_stepE: "jobs_step master user device envs w w'"

inductive jobs_reach :: "bytes \<Rightarrow> string \<Rightarrow> string \<Rightarrow> (job_env \<Rightarrow> bool) \<Rightarrow> job_world \<Rightarrow> bool" for master user device envs where
  start: "jobs_reach master user device envs \<lparr>jw_time = t, jw_file = None, jw_executed = []\<rparr>"
| step: "jobs_reach master user device envs w \<Longrightarrow> jobs_step master user device envs w w' \<Longrightarrow> jobs_reach master user device envs w'"

section \<open>Laws\<close>

text \<open>The environments of the calls of one device: the same vault, digest and journal codec. A signature of the vault's key
  verifies one message only, and the digest separates signatures.\<close>

record device_laws =
  dl_cy :: primitives
  dl_key :: "string \<times> string \<times> string \<Rightarrow> string"
  dl_unmarshal :: "bytes \<Rightarrow> journal option"

definition same_device :: "device_laws \<Rightarrow> job_env \<Rightarrow> bool" where
  "same_device dl env \<longleftrightarrow> je_cy env = dl_cy dl \<and> je_key env = dl_key dl \<and> je_unmarshal env = dl_unmarshal dl \<and>
    (\<forall>m b. je_marshal env m = Some b \<longrightarrow> dl_unmarshal dl b = Some m) \<and> 0 \<le> je_now env"

definition separating :: "device_laws \<Rightarrow> bytes \<Rightarrow> string \<Rightarrow> string \<Rightarrow> bool" where
  "separating dl master user device \<longleftrightarrow>
    (\<forall>x y. dl_key dl (user, device, x) = dl_key dl (user, device, y) \<longrightarrow> x = y) \<and>
    (\<forall>m m' sig. cy_verify (dl_cy dl) (cy_public (dl_cy dl) (vault_private (dl_cy dl) master)) m sig \<and>
       cy_verify (dl_cy dl) (cy_public (dl_cy dl) (vault_private (dl_cy dl) master)) m' sig \<longrightarrow> m = m')"

definition genuine :: "device_laws \<Rightarrow> bytes \<Rightarrow> string \<Rightarrow> Job \<Rightarrow> bool" where
  "genuine dl master user j \<longleftrightarrow> 0 \<le> jb_Expires j \<and> (\<exists>sig. DecodeString (jb_Signature j) = Some sig \<and>
     cy_verify (dl_cy dl) (cy_public (dl_cy dl) (vault_private (dl_cy dl) master)) (Job_Message user j) sig)"

text \<open>A job is in a journal under its key, with its own expiry.\<close>

definition receipt :: "device_laws \<Rightarrow> string \<Rightarrow> string \<Rightarrow> journal \<Rightarrow> Job \<Rightarrow> bool" where
  "receipt dl user device m j \<longleftrightarrow> (\<exists>r. gm_lookup m (dl_key dl (user, device, jb_Signature j)) = Some r \<and> jc_Expires r = jb_Expires j)"

definition file_receipt :: "device_laws \<Rightarrow> string \<Rightarrow> string \<Rightarrow> bytes option \<Rightarrow> Job \<Rightarrow> bool" where
  "file_receipt dl user device file j \<longleftrightarrow> (\<exists>b m. file = Some b \<and> dl_unmarshal dl b = Some m \<and> receipt dl user device m j)"

definition job_inv :: "device_laws \<Rightarrow> bytes \<Rightarrow> string \<Rightarrow> string \<Rightarrow> job_world \<Rightarrow> bool" where
  "job_inv dl master user device w \<longleftrightarrow> distinct (map jb_Signature (jw_executed w)) \<and>
    (\<forall>j \<in> set (jw_executed w). genuine dl master user j \<and> (file_receipt dl user device (jw_file w) j \<or> jb_Expires j < jw_time w))"

definition memory_ok :: "device_laws \<Rightarrow> string \<Rightarrow> string \<Rightarrow> journal \<Rightarrow> job_world \<Rightarrow> bool" where
  "memory_ok dl user device m w \<longleftrightarrow> (\<forall>j \<in> set (jw_executed w). receipt dl user device m j \<or> jb_Expires j < jw_time w)"

lemma expiry_of_message: "Job_Message user j = Job_Message user j' \<Longrightarrow> 0 \<le> jb_Expires j \<Longrightarrow> 0 \<le> jb_Expires j' \<Longrightarrow> jb_Expires j = jb_Expires j'"
proof -
  assume m: "Job_Message user j = Job_Message user j'" and nn: "0 \<le> jb_Expires j" "0 \<le> jb_Expires j'"
  define head where "head x = ''sshm-job-v1'' @ [newline] @ user @ [newline] @ jb_ID x @ [newline] @ jb_Device x @ [newline] @
     jb_Action x @ [newline] @ jb_Version x" for x :: Job
  have "rev (Itoa (jb_Expires j)) @ newline # rev (head j) = rev (Itoa (jb_Expires j')) @ newline # rev (head j')"
    using arg_cong[OF m, of rev] by (simp add: Job_Message_def head_def)
  from line_prefix[OF this] have "rev (Itoa (jb_Expires j)) = rev (Itoa (jb_Expires j'))" using Itoa_no_newline by auto
  then show ?thesis using nn Itoa_inj by simp
qed

lemma VerifyJob_genuine:
  assumes "VerifyJob (dl_cy dl) now master j user device" "0 \<le> now"
  shows "genuine dl master user j" "now < jb_Expires j"
  using assms by (auto simp: VerifyJob_def genuine_def public_decoded split: if_splits option.splits)

lemma same_signature_expiry:
  assumes "separating dl master user device" "genuine dl master user j" "genuine dl master user j'" "jb_Signature j = jb_Signature j'"
  shows "jb_Expires j = jb_Expires j'"
proof -
  from assms(2-4) obtain sig where "0 \<le> jb_Expires j" "0 \<le> jb_Expires j'"
    "cy_verify (dl_cy dl) (cy_public (dl_cy dl) (vault_private (dl_cy dl) master)) (Job_Message user j) sig"
    "cy_verify (dl_cy dl) (cy_public (dl_cy dl) (vault_private (dl_cy dl) master)) (Job_Message user j') sig"
    unfolding genuine_def by auto
  moreover from this have "Job_Message user j = Job_Message user j'" using assms(1) unfolding separating_def by blast
  ultimately show ?thesis by (intro expiry_of_message)
qed

lemma receipt_update:
  "separating dl master user device \<Longrightarrow>
   receipt dl user device (gm_update (dl_key dl (user, device, jb_Signature j)) r m) j' \<longleftrightarrow>
     (if jb_Signature j' = jb_Signature j then jc_Expires r = jb_Expires j' else receipt dl user device m j')"
  by (auto simp: receipt_def separating_def gm.lookup_update)

text \<open>Effects that execute nothing, and the write of a journal that is right.\<close>

lemma apply_frame [simp]: "jw_time (job_apply x w) = jw_time w" "jw_time (fold job_apply ev w) = jw_time w"
proof -
  show "jw_time (job_apply x w) = jw_time w" for x w by (cases x) auto
  then show "jw_time (fold job_apply ev w) = jw_time w" by (induction ev arbitrary: w) auto
qed

lemma job_inv_saved: "job_inv dl master user device w \<Longrightarrow> memory_ok dl user device m w \<Longrightarrow> dl_unmarshal dl b = Some m \<Longrightarrow>
    job_inv dl master user device (w\<lparr>jw_file := Some b\<rparr>)"
  by (auto simp: job_inv_def memory_ok_def file_receipt_def)

lemma memory_ok_file [simp]: "memory_ok dl user device m (w\<lparr>jw_file := f\<rparr>) = memory_ok dl user device m w"
  by (simp add: memory_ok_def)

fun holds_along :: "(job_world \<Rightarrow> bool) \<Rightarrow> job_effect list \<Rightarrow> job_world \<Rightarrow> bool" where
  "holds_along P [] w \<longleftrightarrow> P w"
| "holds_along P (x # ev) w \<longleftrightarrow> P w \<and> holds_along P ev (job_apply x w)"

lemma holds_along_append [simp]: "holds_along P (a @ b) w \<longleftrightarrow> holds_along P a w \<and> holds_along P b (fold job_apply a w)"
proof (induction a arbitrary: w)
  case Nil
  then show ?case by (cases b) auto
qed auto

lemma holds_along_cut: "holds_along P ev w \<Longrightarrow> P (fold job_apply (take k ev) w)"
proof (induction ev arbitrary: w k)
  case (Cons x ev)
  then show ?case by (cases k) auto
qed simp

lemma save_journal_unmarshal: "same_device dl env \<Longrightarrow> save_journal env n m = Inr b \<Longrightarrow> dl_unmarshal dl b = Some m"
  by (auto simp: save_journal_def same_device_def split: option.splits if_splits)

lemma executed_inv:
  assumes "job_inv dl master user device w" "genuine dl master user j" "file_receipt dl user device (jw_file w) j"
    "jb_Signature j \<notin> jb_Signature ` set (jw_executed w)"
  shows "job_inv dl master user device (w\<lparr>jw_executed := jw_executed w @ [j]\<rparr>)"
  using assms by (auto simp: job_inv_def)

lemma finish_job_inv:
  assumes laws: "same_device dl env" "separating dl master user device"
    and inv: "job_inv dl master user device w" "memory_ok dl user device m w"
    and j: "genuine dl master user j" "gm_lookup m (dl_key dl (user, device, jb_Signature j)) = Some rec"
    and new: "\<not> known \<Longrightarrow> jc_Expires rec = jb_Expires j \<and> file_receipt dl user device (jw_file w) j \<and> jb_Signature j \<notin> jb_Signature ` set (jw_executed w)"
    and fin: "finish_job env master user n j (dl_key dl (user, device, jb_Signature j)) known rec m = (ev, r)"
  shows "holds_along (job_inv dl master user device) ev w \<and> (\<forall>m'. r = Inr m' \<longrightarrow> memory_ok dl user device m' (fold job_apply ev w))"
proof (cases "je_claim env n")
  case (Some e)
  then show ?thesis using fin inv by (auto simp: finish_job_def)
next
  case None
  define w' where "w' = (if known then w else w\<lparr>jw_executed := jw_executed w @ [j]\<rparr>)"
  define rec' where "rec' = rec\<lparr>jc_Result := SignJobResult (je_cy env) master user j
     (if known then jc_Result rec else (je_execute env j)\<lparr>jr_Claim := jr_Claim (jc_Result rec)\<rparr>)\<rparr>"
  define m1 where "m1 = gm_update (dl_key dl (user, device, jb_Signature j)) rec' m"
  define ran where "ran = (if known then [] else [Executed j])"
  have w': "job_inv dl master user device w'" using executed_inv[OF inv(1) j(1)] new inv(1) by (auto simp: w'_def)
  have "receipt dl user device m1 x" if "receipt dl user device m x" for x
    using that j(2) by (auto simp: m1_def receipt_update[OF laws(2)] rec'_def receipt_def)
  moreover have "receipt dl user device m1 j" if "\<not> known" using new[OF that] by (simp add: m1_def receipt_update[OF laws(2)] rec'_def)
  ultimately have mem: "memory_ok dl user device m1 w'" using inv(2) by (auto simp: memory_ok_def w'_def)
  have ran: "fold job_apply ran w = w'" "holds_along (job_inv dl master user device) ran w"
    using inv(1) w' by (auto simp: ran_def w'_def)
  have f: "finish_job env master user n j (dl_key dl (user, device, jb_Signature j)) known rec m =
     (case save_journal env (Suc (2 * n)) m1 of Inl e \<Rightarrow> (Claimed j (jr_Claim (jc_Result rec')) # ran, Inl e)
      | Inr b \<Rightarrow> (Claimed j (jr_Claim (jc_Result rec')) # ran @ [Saved b, Reported j (jc_Result rec')],
          case je_report env n of Some e \<Rightarrow> Inl (JobCloud e) | None \<Rightarrow> Inr m1))"
    unfolding finish_job_def None Let_def m1_def rec'_def ran_def option.case by (rule refl)
  show ?thesis
  proof (cases "save_journal env (Suc (2 * n)) m1")
    case (Inl e)
    then show ?thesis using fin f inv(1) ran by auto
  next
    case (Inr b)
    have "job_inv dl master user device (w'\<lparr>jw_file := Some b\<rparr>)"
      using job_inv_saved[OF w' mem save_journal_unmarshal[OF laws(1) Inr]] .
    then show ?thesis using fin f Inr inv(1) ran w' mem by (auto split: option.splits)
  qed
qed

lemma process_job_unverified: "\<not> VerifyJob (je_cy env) (je_now env) master j user device \<Longrightarrow> process_job env master user device n j m = ([], Inr m)"
  by (simp add: process_job_def)

lemma process_job_known:
  assumes "VerifyJob (je_cy env) (je_now env) master j user device" "gm_lookup m (je_key env (user, device, jb_Signature j)) = Some rec"
  shows "process_job env master user device n j m = finish_job env master user n j (je_key env (user, device, jb_Signature j)) True rec m"
  using assms by (simp add: process_job_def Let_def)

lemma process_job_new:
  assumes "VerifyJob (je_cy env) (je_now env) master j user device" "gm_lookup m (je_key env (user, device, jb_Signature j)) = None"
    "rec = \<lparr>jc_Result = interrupted (je_random env n), jc_Expires = jb_Expires j\<rparr>" "m1 = gm_update (je_key env (user, device, jb_Signature j)) rec m"
  shows "process_job env master user device n j m =
    (case save_journal env (2 * n) m1 of Inl e \<Rightarrow> ([], Inl e) | Inr b \<Rightarrow>
        if jb_Status j = ''running'' then ([Saved b], Inr m1)
        else (case finish_job env master user n j (je_key env (user, device, jb_Signature j)) False rec m1 of (ev, r) \<Rightarrow> (Saved b # ev, r)))"
  unfolding assms(3,4) process_job_def Let_def using assms(1,2) by simp

lemma process_job_inv:
  assumes laws: "same_device dl env" "separating dl master user device" "jw_time w = je_now env"
    and inv: "job_inv dl master user device w" "memory_ok dl user device m w"
    and p: "process_job env master user device n j m = (ev, r)"
  shows "holds_along (job_inv dl master user device) ev w \<and> (\<forall>m'. r = Inr m' \<longrightarrow> memory_ok dl user device m' (fold job_apply ev w))"
proof (cases "VerifyJob (dl_cy dl) (je_now env) master j user device")
  case False
  moreover have "je_cy env = dl_cy dl" using laws(1) by (simp add: same_device_def)
  ultimately have "ev = []" "r = Inr m" using p process_job_unverified[of env master j user device n m] by simp_all
  then show ?thesis using inv by simp
next
  case True
  note g = VerifyJob_genuine[OF True]
  have now: "0 \<le> je_now env" and cy: "je_cy env = dl_cy dl" "je_key env = dl_key dl" using laws(1) by (auto simp: same_device_def)
  let ?k = "dl_key dl (user, device, jb_Signature j)"
  show ?thesis
  proof (cases "gm_lookup m ?k")
    case (Some rec)
    then have "finish_job env master user n j ?k True rec m = (ev, r)" using p True process_job_known[of env master j user device m rec n] by (simp add: cy)
    from finish_job_inv[OF laws(1,2) inv g(1)[OF now] Some _ this] show ?thesis by simp
  next
    case None
    define rec where "rec = \<lparr>jc_Result = interrupted (je_random env n), jc_Expires = jb_Expires j\<rparr>"
    define m1 where "m1 = gm_update ?k rec m"
    have fresh: "jb_Signature j \<notin> jb_Signature ` set (jw_executed w)"
    proof
      assume "jb_Signature j \<in> jb_Signature ` set (jw_executed w)"
      then obtain x where x: "x \<in> set (jw_executed w)" "jb_Signature j = jb_Signature x" by blast
      then have "jb_Expires j = jb_Expires x" using same_signature_expiry[OF laws(2) g(1)[OF now] _ x(2)] inv(1) by (simp add: job_inv_def)
      then have "receipt dl user device m x" using inv(2) x(1) g(2)[OF now] laws(3) by (auto simp: memory_ok_def)
      then show False using None x(2) by (simp add: receipt_def)
    qed
    have mem: "memory_ok dl user device m1 w"
    proof -
      have "jb_Signature x \<noteq> jb_Signature j" if "x \<in> set (jw_executed w)" for x using fresh that by (metis imageI)
      then show ?thesis using inv(2) by (simp add: memory_ok_def m1_def receipt_update[OF laws(2)])
    qed
    have p': "(case save_journal env (2 * n) m1 of Inl e \<Rightarrow> ([], Inl e) | Inr b \<Rightarrow>
        if jb_Status j = ''running'' then ([Saved b], Inr m1)
        else (case finish_job env master user n j ?k False rec m1 of (ev, r) \<Rightarrow> (Saved b # ev, r))) = (ev, r)"
      using p process_job_new[of env master j user device m rec n m1, unfolded cy, OF True None rec_def m1_def] by simp
    show ?thesis
    proof (cases "save_journal env (2 * n) m1")
      case (Inl e)
      then show ?thesis using p' inv by auto
    next
      case (Inr b)
      let ?w = "w\<lparr>jw_file := Some b\<rparr>"
      have saved: "job_inv dl master user device ?w" "memory_ok dl user device m1 ?w"
        using job_inv_saved[OF inv(1) mem save_journal_unmarshal[OF laws(1) Inr]] mem by simp_all
      show ?thesis
      proof (cases "jb_Status j = ''running''")
        case True
        then show ?thesis using p' Inr inv(1) saved mem by auto
      next
        case False
        obtain ev1 where ev1: "finish_job env master user n j ?k False rec m1 = (ev1, r)" "ev = Saved b # ev1"
          using p' Inr False by (auto split: prod.splits)
        have "file_receipt dl user device (jw_file ?w) j"
          using save_journal_unmarshal[OF laws(1) Inr] by (auto simp: file_receipt_def m1_def receipt_update[OF laws(2)] rec_def)
        then have new: "jc_Expires rec = jb_Expires j \<and> file_receipt dl user device (jw_file ?w) j \<and> jb_Signature j \<notin> jb_Signature ` set (jw_executed ?w)"
          using fresh by (simp add: rec_def)
        have "gm_lookup m1 ?k = Some rec" by (simp add: m1_def gm.lookup_update)
        from finish_job_inv[OF laws(1,2) saved g(1)[OF now] this new ev1(1)] show ?thesis using inv(1) ev1(2) by simp
      qed
    qed
  qed
qed

lemma process_queue_inv:
  assumes "same_device dl env" "separating dl master user device" "jw_time w = je_now env"
    "job_inv dl master user device w" "memory_ok dl user device m w"
    "process_queue env master user device n js m = (ev, e)"
  shows "holds_along (job_inv dl master user device) ev w"
  using assms(3-6)
proof (induction js arbitrary: n m w ev e)
  case (Cons j js)
  obtain ev1 r where p: "process_job env master user device n j m = (ev1, r)" by (rule prod.exhaust)
  note i = process_job_inv[OF assms(1,2) Cons.prems(1-3) p]
  show ?case
  proof (cases r)
    case (Inr m')
    obtain ev2 e' where q: "process_queue env master user device (Suc n) js m' = (ev2, e')" by (rule prod.exhaust)
    have "holds_along (job_inv dl master user device) ev2 (fold job_apply ev1 w)"
    proof (rule Cons.IH[OF _ _ _ q])
      show "job_inv dl master user device (fold job_apply ev1 w)" using holds_along_cut[of _ ev1 w "length ev1"] i by auto
    qed (use Cons.prems i Inr in auto)
    then show ?thesis using Cons.prems p q Inr i by auto
  qed (use Cons.prems p i in auto)
qed simp

lemma ProcessJobs_inv:
  assumes "same_device dl env" "separating dl master user device" "jw_time w \<le> je_now env" "job_inv dl master user device w"
    "ProcessJobs env master user device (jw_file w) = (ev, e)"
  shows "holds_along (job_inv dl master user device) ev (w\<lparr>jw_time := je_now env\<rparr>)"
proof -
  let ?w = "w\<lparr>jw_time := je_now env\<rparr>"
  have inv: "job_inv dl master user device ?w" using assms(3,4) by (fastforce simp: job_inv_def)
  consider "ev = []" | jobs m where "load_journal env (jw_file w) = Inr m" "process_queue env master user device 0 jobs (prune (je_now env) m) = (ev, e)"
    using assms(5) by (auto simp: ProcessJobs_def split: sum.splits if_splits)
  then show ?thesis
  proof cases
    case 2
    have "memory_ok dl user device (prune (je_now env) m) ?w"
      unfolding memory_ok_def
    proof
      fix j
      assume "j \<in> set (jw_executed ?w)"
      then have "file_receipt dl user device (jw_file w) j \<or> jb_Expires j < je_now env" using inv by (simp add: job_inv_def)
      moreover have "receipt dl user device (prune (je_now env) m) j \<or> jb_Expires j < je_now env" if "file_receipt dl user device (jw_file w) j"
        using that 2(1) assms(1) by (auto simp: file_receipt_def load_journal_def same_device_def receipt_def prune_def gm_lookup_filter day_ms_def
            split: if_splits option.splits)
      ultimately show "receipt dl user device (prune (je_now env) m) j \<or> jb_Expires j < jw_time ?w" by auto
    qed
    then show ?thesis using process_queue_inv[OF assms(1,2) _ inv _ 2(2)] by simp
  qed (use inv in simp)
qed

lemma jobs_reach_inv: "jobs_reach master user device (same_device dl) w \<Longrightarrow> separating dl master user device \<Longrightarrow> job_inv dl master user device w"
proof (induction rule: jobs_reach.induct)
  case (start t)
  then show ?case by (simp add: job_inv_def)
next
  case (step w w')
  from step.hyps(2) show ?case
    by (cases rule: jobs_step.cases) (use step ProcessJobs_inv holds_along_cut in blast)
qed

section \<open>Properties\<close>


text \<open>A running job of another process is skipped only once. The first call that sees it writes a receipt for it; the next call
  finds that receipt, claims the job, and when the service refuses the claim it stops, so that the jobs behind
  it in the queue are not processed.\<close>

theorem foreign_running_job_blocks_queue:
  assumes "same_device dl env" "same_device dl env'" "je_poll env = Inr [j]" "je_poll env' = Inr (j # rest)" "length rest \<le> 3"
    "jb_Status j = ''running''" "VerifyJob (dl_cy dl) (je_now env) master j user device" "VerifyJob (dl_cy dl) (je_now env') master j user device"
    "\<not> je_read_fails env" "\<not> je_read_fails env'" "je_claim env' 0 = Some e" "length b \<le> 2 * 1024 * 1024"
    "save_journal env 0 (gm_update (dl_key dl (user, device, jb_Signature j)) \<lparr>jc_Result = interrupted (je_random env 0), jc_Expires = jb_Expires j\<rparr> gm_empty) = Inr b"
  shows "ProcessJobs env master user device None = ([Saved b], None) \<and>
    ProcessJobs env' master user device (Some b) = ([Claimed j (je_random env 0)], Some (JobCloud e))"
proof -
  let ?k = "dl_key dl (user, device, jb_Signature j)"
  define rec where "rec = \<lparr>jc_Result = interrupted (je_random env 0), jc_Expires = jb_Expires j\<rparr>"
  define m1 where "m1 = gm_update ?k rec gm_empty"
  have cy: "je_cy env = dl_cy dl" "je_key env = dl_key dl" "je_cy env' = dl_cy dl" "je_key env' = dl_key dl" "je_unmarshal env' = dl_unmarshal dl"
    using assms(1,2) by (simp_all add: same_device_def)
  have e: "prune now gm_empty = gm_empty" for now by (rule gm_eqI) (simp add: prune_def gm_lookup_filter)
  have "process_job env master user device 0 j gm_empty = ([Saved b], Inr m1)"
    using process_job_new[of env master j user device gm_empty rec 0 m1, unfolded cy, OF assms(7) _ rec_def m1_def] assms(6,13)
    by (simp add: m1_def rec_def)
  then have one: "ProcessJobs env master user device None = ([Saved b], None)"
    using assms(3,9) by (simp add: ProcessJobs_def load_journal_def e)
  have "dl_unmarshal dl b = Some m1" using save_journal_unmarshal[OF assms(1,13)] by (simp add: m1_def rec_def)
  then have l: "load_journal env' (Some b) = Inr m1" using assms(10,12) cy by (simp add: load_journal_def)
  have "je_now env' < jb_Expires j" using VerifyJob_genuine(2)[OF assms(8)] assms(2) by (simp add: same_device_def)
  then have "gm_lookup (prune (je_now env') m1) ?k = Some rec"
    by (simp add: m1_def prune_def gm_lookup_filter gm.lookup_update rec_def day_ms_def)
  from process_job_known[of env' master j user device "prune (je_now env') m1" rec 0, unfolded cy, OF assms(8) this]
  have "process_job env' master user device 0 j (prune (je_now env') m1) = ([Claimed j (je_random env 0)], Inl (JobCloud e))"
    using assms(11) by (simp add: finish_job_def rec_def interrupted_def)
  then have "ProcessJobs env' master user device (Some b) = ([Claimed j (je_random env 0)], Some (JobCloud e))"
    using assms(4,5) by (simp add: ProcessJobs_def l)
  then show ?thesis using one by simp
qed

text \<open>A job of the vault of \<open>Cloud_Vault\<close>, and the two journals its processing writes.\<close>

definition demo_master :: bytes where "demo_master = vr_master demo_random"

definition demo_job :: "string \<Rightarrow> Job" where
  "demo_job status = (let j = \<lparr>jb_ID = ''job-0001'', jb_Device = ''device-1'', jb_Action = ''sync'', jb_Version = [], jb_Expires = 10,
     jb_Signature = [], jb_Status = status\<rparr> in j\<lparr>jb_Signature := EncodeToString (Job_Message ''alice'' j)\<rparr>)"

definition demo_receipts :: "string \<Rightarrow> journal" where
  "demo_receipts status = gm_update (jb_Signature (demo_job status)) \<lparr>jc_Result = interrupted ''claim'', jc_Expires = 10\<rparr> gm_empty"

definition demo_result :: JobResult where
  "demo_result = \<lparr>jr_Claim = ''claim'', jr_Status = ''done'', jr_Code = ''ok'', jr_Count = 1, jr_Receipt = []\<rparr>"

definition demo_done :: journal where
  "demo_done = gm_update (jb_Signature (demo_job ''queued''))
     \<lparr>jc_Result = SignJobResult demo_primitives demo_master ''alice'' (demo_job ''queued'') demo_result, jc_Expires = 10\<rparr> (demo_receipts ''queued'')"

definition demo_journal_codec :: "bytes \<Rightarrow> journal option" where
  "demo_journal_codec b = (if b = ''1'' then Some (demo_receipts ''queued'') else if b = ''2'' then Some demo_done else None)"

definition demo_laws :: device_laws where
  "demo_laws = \<lparr>dl_cy = demo_primitives, dl_key = (\<lambda>(u, d, s). s), dl_unmarshal = demo_journal_codec\<rparr>"

definition demo_job_env :: "string \<Rightarrow> job_env" where
  "demo_job_env status = \<lparr>je_cy = demo_primitives, je_now = 0, je_poll = Inr [demo_job status], je_claim = (\<lambda>_. if status = ''queued'' then None else Some ErrNetwork),
     je_report = (\<lambda>_. None), je_execute = (\<lambda>_. demo_result), je_random = (\<lambda>_. ''claim''), je_key = (\<lambda>(u, d, s). s),
     je_marshal = (\<lambda>m. if m = demo_receipts ''queued'' then Some ''1'' else if m = demo_done then Some ''2'' else None),
     je_unmarshal = demo_journal_codec, je_read_fails = False, je_write_fails = (\<lambda>_. False)\<rparr>"

lemma demo_job_simps:
  "jb_Signature (demo_job st) = jb_Signature (demo_job ''queued'')" "jb_Expires (demo_job st) = 10" "jb_Status (demo_job st) = st"
  "DecodeString (jb_Signature (demo_job st)) = Some (Job_Message ''alice'' (demo_job st))"
  by (simp_all add: demo_job_def Let_def Job_Message_def)

lemma demo_verified: "VerifyJob demo_primitives 0 demo_master (demo_job st) ''alice'' ''device-1''"
proof -
  have "validID ''job-0001''" "validID ''device-1''" by code_simp+
  then show ?thesis using demo_job_simps[of st]
    by (simp add: VerifyJob_def action_ok_def day_ms_def) (simp add: demo_job_def demo_primitives_def Let_def)
qed

lemma demo_separating: "separating demo_laws demo_master ''alice'' ''device-1''"
  by (simp add: separating_def demo_laws_def demo_primitives_def)

lemma demo_same_device: "same_device demo_laws (demo_job_env st)"
  by (auto simp: same_device_def demo_laws_def demo_job_env_def demo_journal_codec_def split: if_splits)

lemma demo_journals_differ: "demo_done \<noteq> demo_receipts ''queued''"
proof
  assume "demo_done = demo_receipts ''queued''"
  then have "gm_lookup demo_done (jb_Signature (demo_job ''queued'')) = gm_lookup (demo_receipts ''queued'') (jb_Signature (demo_job ''queued''))" by simp
  then show False by (simp add: demo_done_def demo_receipts_def gm.lookup_update SignJobResult_def demo_result_def interrupted_def)
qed

lemma finish_new:
  assumes "je_claim env n = None" "je_report env n = None" "save_journal env (Suc (2 * n)) (gm_update key rec' m) = Inr b"
    "rec' = rec\<lparr>jc_Result := SignJobResult (je_cy env) master user j ((je_execute env j)\<lparr>jr_Claim := jr_Claim (jc_Result rec)\<rparr>)\<rparr>"
  shows "finish_job env master user n j key False rec m =
    ([Claimed j (jr_Claim (jc_Result rec')), Executed j, Saved b, Reported j (jc_Result rec')], Inr (gm_update key rec' m))"
  using assms(1-3) unfolding assms(4) finish_job_def by simp

lemma run_new:
  assumes "je_poll env = Inr [j]" "\<not> je_read_fails env" "VerifyJob (je_cy env) (je_now env) master j user device" "jb_Status j \<noteq> ''running''"
    "rec = \<lparr>jc_Result = interrupted (je_random env 0), jc_Expires = jb_Expires j\<rparr>" "key = je_key env (user, device, jb_Signature j)"
    "save_journal env 0 (gm_update key rec gm_empty) = Inr b" "finish_job env master user 0 j key False rec (gm_update key rec gm_empty) = (ev, r)"
  shows "fst (ProcessJobs env master user device None) = Saved b # ev"
proof -
  have e: "prune now gm_empty = gm_empty" for now by (rule gm_eqI) (simp add: prune_def gm_lookup_filter)
  have "process_job env master user device 0 j gm_empty = (Saved b # ev, r)"
    using process_job_new[of env master j user device gm_empty rec 0 "gm_update key rec gm_empty"] assms by simp
  then show ?thesis using assms(1,2) by (cases r) (simp_all add: ProcessJobs_def load_journal_def e)
qed

definition demo_effects :: "job_effect list" where
  "demo_effects = [Saved ''1'', Claimed (demo_job ''queued'') ''claim'', Executed (demo_job ''queued''), Saved ''2'',
     Reported (demo_job ''queued'') (SignJobResult demo_primitives demo_master ''alice'' (demo_job ''queued'') demo_result)]"

lemma demo_saves: "save_journal (demo_job_env st) n (demo_receipts ''queued'') = Inr ''1''" "save_journal (demo_job_env st) n demo_done = Inr ''2''"
  using demo_journals_differ by (simp_all add: save_journal_def demo_job_env_def)

lemma demo_run: "fst (ProcessJobs (demo_job_env ''queued'') demo_master ''alice'' ''device-1'' None) = demo_effects"
proof -
  let ?e = "demo_job_env ''queued''"
  let ?r = "\<lparr>jc_Result = interrupted ''claim'', jc_Expires = 10\<rparr>"
  let ?r' = "\<lparr>jc_Result = SignJobResult demo_primitives demo_master ''alice'' (demo_job ''queued'') demo_result, jc_Expires = 10\<rparr>"
  let ?k = "jb_Signature (demo_job ''queued'')"
  have d: "demo_result\<lparr>jr_Claim := ''claim''\<rparr> = demo_result" by (simp add: demo_result_def)
  have r': "?r' = ?r\<lparr>jc_Result := SignJobResult (je_cy ?e) demo_master ''alice'' (demo_job ''queued'')
      ((je_execute ?e (demo_job ''queued''))\<lparr>jr_Claim := jr_Claim (jc_Result ?r)\<rparr>)\<rparr>"
    by (simp add: demo_job_env_def interrupted_def d)
  have c: "je_claim ?e 0 = None" "je_report ?e 0 = None" by (simp_all add: demo_job_env_def)
  have f: "finish_job ?e demo_master ''alice'' 0 (demo_job ''queued'') ?k False ?r (demo_receipts ''queued'') =
     ([Claimed (demo_job ''queued'') (jr_Claim (jc_Result ?r')), Executed (demo_job ''queued''), Saved ''2'', Reported (demo_job ''queued'') (jc_Result ?r')],
      Inr (gm_update ?k ?r' (demo_receipts ''queued'')))"
    using demo_saves(2) by (intro finish_new[OF c _ r']) (simp add: demo_done_def)
  have cl: "jr_Claim (SignJobResult demo_primitives demo_master ''alice'' (demo_job ''queued'') demo_result) = ''claim''" by (simp add: SignJobResult_def demo_result_def)
  have fields: "je_poll ?e = Inr [demo_job ''queued'']" "\<not> je_read_fails ?e" "VerifyJob (je_cy ?e) (je_now ?e) demo_master (demo_job ''queued'') ''alice'' ''device-1''"
    "jb_Status (demo_job ''queued'') \<noteq> ''running''" "?r = \<lparr>jc_Result = interrupted (je_random ?e 0), jc_Expires = jb_Expires (demo_job ''queued'')\<rparr>"
    "?k = je_key ?e (''alice'', ''device-1'', ?k)"
    using demo_verified[of "''queued''"] by (simp_all only: demo_job_env_def job_env.select_convs demo_job_simps(2,3) prod.case) simp_all
  from run_new[OF fields demo_saves(1)[unfolded demo_receipts_def] f[unfolded demo_receipts_def]] show ?thesis
    by (simp only: demo_effects_def cl jobRecord.select_convs)
qed


definition refused_env :: job_env where
  "refused_env = (demo_job_env ''queued'')\<lparr>je_poll := Inr [demo_job ''running''], je_claim := (\<lambda>_. Some ErrNetwork)\<rparr>"

theorem foreign_running_job_blocks_queue_witness:
  "ProcessJobs refused_env demo_master ''alice'' ''device-1'' (Some ''1'') = ([Claimed (demo_job ''running'') ''claim''], Some (JobCloud ErrNetwork))"
proof -
  have "same_device demo_laws refused_env" using demo_same_device[of "''queued''"] by (simp add: same_device_def refused_env_def)
  moreover have "gm_update (jb_Signature (demo_job ''running'')) \<lparr>jc_Result = interrupted ''claim'', jc_Expires = 10\<rparr> gm_empty = demo_receipts ''queued''"
    by (simp only: demo_receipts_def demo_job_simps(1)[of "''running''"])
  ultimately show ?thesis
    using foreign_running_job_blocks_queue[of demo_laws refused_env refused_env "demo_job ''running''" "[]" demo_master "''alice''" "''device-1''" ErrNetwork "''1''"]
      demo_verified[of "''running''"] demo_saves(1)[of "''queued''" 0]
    by (simp add: refused_env_def demo_job_env_def demo_laws_def demo_job_simps(2,3) save_journal_def)
qed

end
