(* ===== verification/Shell_Cipher.thy ===== *)
theory Shell_Cipher
  imports Cloud_Vault
begin

text \<open>
  \<open>internal/cloudsync/shell.go\<close>: the signed request that opens a terminal, and the encrypted frames of its two directions. A cipher
  is its key, session, direction and 64-bit counter; the counter is the nonce and is bound into the associated
  data. The JSON codec of the payload is a parameter, the other primitives are those of the vault.
\<close>

section \<open>Opening a terminal\<close>

record ShellOpen =
  so_Lifetime :: string
  so_Mode :: string
  so_OpenType :: string
  so_OpenDevice :: string
  so_Epoch :: string
  so_Session :: string
  so_Expires :: int
  so_Signature :: string

definition shell_lines :: "string list \<Rightarrow> string" where
  "shell_lines ls = Join ls [newline]"

definition ShellOpen_Message :: "string \<Rightarrow> ShellOpen \<Rightarrow> string" where
  "ShellOpen_Message user r =
    (if so_Lifetime r = ''connection'' then
       shell_lines [''sshm-shell-v3'', user, so_OpenDevice r, so_Epoch r, so_Session r, Itoa (so_Expires r), so_Mode r, ''connection'']
     else if so_Mode r = ''ssh'' then
       shell_lines [''sshm-shell-v2'', user, so_OpenDevice r, so_Epoch r, so_Session r, Itoa (so_Expires r), ''ssh'']
     else shell_lines [''sshm-shell-v1'', user, so_OpenDevice r, so_Epoch r, so_Session r, Itoa (so_Expires r)])"

text \<open>The clock is read twice: \<open>now\<close> for the expiry, \<open>later\<close> for its bound.\<close>

definition VerifyShell :: "primitives \<Rightarrow> int \<Rightarrow> int \<Rightarrow> bytes \<Rightarrow> ShellOpen \<Rightarrow> string \<Rightarrow> string \<Rightarrow> string \<Rightarrow> bool" where
  "VerifyShell cy now later master r user device epoch =
    (if so_Lifetime r \<noteq> [] \<and> so_Lifetime r \<noteq> ''connection'' \<or> so_Mode r \<noteq> [] \<and> so_Mode r \<noteq> ''ssh'' \<or> so_OpenDevice r \<noteq> device \<or>
        so_Epoch r \<noteq> epoch \<or> so_Expires r \<le> now \<or> later + 15 * 60 * 1000 < so_Expires r \<or> length (so_Session r) < 8 \<or> 100 < length (so_Session r)
     then False
     else case DecodeString (so_Signature r) of None \<Rightarrow> False | Some sig \<Rightarrow>
       cy_verify cy (case DecodeString (Public cy master) of None \<Rightarrow> [] | Some p \<Rightarrow> p) (ShellOpen_Message user r) sig)"

section \<open>Frames\<close>

record ShellFrame =
  sf_Type :: string
  sf_Session :: string
  sf_Seq :: "64 word"
  sf_Ciphertext :: string

record TerminalDiagnostics =
  td_Stage :: string
  td_ReasonCode :: string
  td_SSHAuthenticated :: bool
  td_PTYRequested :: bool
  td_PTYGranted :: bool
  td_SuggestedAction :: string

record ShellPayload =
  py_Diagnostics :: "TerminalDiagnostics option"
  py_Target :: string
  py_Credential :: string
  py_Type :: string
  py_Data :: string
  py_Cols :: int
  py_Rows :: int

record ShellCipher =
  sc_key :: bytes
  sc_session :: string
  sc_direction :: string
  sc_seq :: "64 word"

record payload_codec =
  pc_marshal :: "ShellPayload \<Rightarrow> bytes option"
  pc_unmarshal :: "bytes \<Rightarrow> ShellPayload option"

datatype shell_error = InvalidShellKey | SequenceExhausted | PayloadTooLarge | InvalidSequence | BadEncoding | ShellAuthentication | InvalidPayload

definition NewShellCipher :: "primitives \<Rightarrow> bytes \<Rightarrow> string \<Rightarrow> string \<Rightarrow> string \<Rightarrow> string \<Rightarrow> string \<Rightarrow> shell_error + ShellCipher" where
  "NewShellCipher cy master user device epoch session direction =
    (if length master \<noteq> 32 \<or> direction \<noteq> ''c2a'' \<and> direction \<noteq> ''a2c'' then Inl InvalidShellKey
     else let k = derive cy master (''shell/'' @ user @ ''/'' @ device @ ''/'' @ epoch @ ''/'' @ session @ ''/'' @ direction) in
     if \<not> aes_key k then Inl InvalidShellKey
     else Inr \<lparr>sc_key = k, sc_session = session, sc_direction = direction, sc_seq = 0\<rparr>)"

text \<open>The nonce is four zero bytes and the counter in big-endian order.\<close>

definition big_endian :: "64 word \<Rightarrow> bytes" where
  "big_endian w = map (\<lambda>i. char_of (unat (drop_bit (8 * i) w))) (rev [0..<8])"

definition shell_nonce :: "64 word \<Rightarrow> bytes" where
  "shell_nonce seq = replicate 4 (CHR 0x00) @ big_endian seq"

definition shell_aad :: "ShellCipher \<Rightarrow> string" where
  "shell_aad c = shell_lines [''sshm-shell-frame-v1'', sc_session c, sc_direction c, Itoa (uint (sc_seq c))]"

definition seq_limit :: "64 word" where "seq_limit = 2 ^ 32"

definition Seal :: "primitives \<Rightarrow> payload_codec \<Rightarrow> ShellPayload \<Rightarrow> ShellCipher \<Rightarrow> (shell_error + ShellFrame) \<times> ShellCipher" where
  "Seal cy pc p c =
    (if seq_limit \<le> sc_seq c then (Inl SequenceExhausted, c)
     else case pc_marshal pc p of None \<Rightarrow> (Inl PayloadTooLarge, c) | Some b \<Rightarrow>
     if 32768 < length b then (Inl PayloadTooLarge, c)
     else (Inr \<lparr>sf_Type = ''frame'', sf_Session = sc_session c, sf_Seq = sc_seq c,
             sf_Ciphertext = EncodeToString (cy_gcm_seal cy (sc_key c) (shell_nonce (sc_seq c)) b (shell_aad c))\<rparr>,
           c\<lparr>sc_seq := sc_seq c + 1\<rparr>))"

definition Open :: "primitives \<Rightarrow> payload_codec \<Rightarrow> ShellFrame \<Rightarrow> ShellCipher \<Rightarrow> (shell_error + ShellPayload) \<times> ShellCipher" where
  "Open cy pc f c =
    (if sf_Type f \<noteq> ''frame'' \<or> sf_Session f \<noteq> sc_session c \<or> sf_Seq f \<noteq> sc_seq c \<or> seq_limit \<le> sf_Seq f \<or> 60000 < length (sf_Ciphertext f)
     then (Inl InvalidSequence, c)
     else case DecodeString (sf_Ciphertext f) of None \<Rightarrow> (Inl BadEncoding, c) | Some b \<Rightarrow>
     case cy_gcm_open cy (sc_key c) (shell_nonce (sc_seq c)) b (shell_aad c) of None \<Rightarrow> (Inl ShellAuthentication, c) | Some plain \<Rightarrow>
     if 32768 < length plain then (Inl InvalidPayload, c)
     else case pc_unmarshal pc plain of None \<Rightarrow> (Inl InvalidPayload, c) | Some p \<Rightarrow> (Inr p, c\<lparr>sc_seq := sc_seq c + 1\<rparr>))"

section \<open>Streams\<close>

text \<open>Payloads sealed one after the other, and the frames a receiver accepts of a stream that anyone may have changed. A
  frame that is not accepted does not advance the receiver.\<close>

fun seal_all :: "primitives \<Rightarrow> payload_codec \<Rightarrow> ShellPayload list \<Rightarrow> ShellCipher \<Rightarrow> ShellFrame list" where
  "seal_all cy pc [] c = []"
| "seal_all cy pc (p # ps) c = (case Seal cy pc p c of (Inl _, c') \<Rightarrow> seal_all cy pc ps c' | (Inr f, c') \<Rightarrow> f # seal_all cy pc ps c')"

fun open_all :: "primitives \<Rightarrow> payload_codec \<Rightarrow> ShellFrame list \<Rightarrow> ShellCipher \<Rightarrow> ShellPayload list" where
  "open_all cy pc [] c = []"
| "open_all cy pc (f # fs) c = (case Open cy pc f c of (Inl _, c') \<Rightarrow> open_all cy pc fs c' | (Inr p, c') \<Rightarrow> p # open_all cy pc fs c')"

section \<open>Laws\<close>

text \<open>What the stream relies on: the primitives' promises, ciphertexts 16 bytes longer than the text, and a codec that reads back
  what it wrote.\<close>

definition stream_laws :: "primitives \<Rightarrow> payload_codec \<Rightarrow> bool" where
  "stream_laws cy pc \<longleftrightarrow> primitives_ok cy \<and> (\<forall>k n p a. length (cy_gcm_seal cy k n p a) = length p + 16) \<and>
    (\<forall>p b. pc_marshal pc p = Some b \<longrightarrow> pc_unmarshal pc b = Some p)"

lemma b64_split_short: "3 * length (b64_split b) \<le> 4 * length b + 8"
  by (induction b rule: b64_split.induct) auto

lemma EncodeToString_short: "3 * length (EncodeToString b) \<le> 4 * length b + 8"
  using b64_split_short[of "map of_char b"] by (simp add: EncodeToString_def)

lemma shell_nonce_length: "length (shell_nonce s) = 12"
  by (simp add: shell_nonce_def big_endian_def)

lemma seq_limit_unat: "s < seq_limit \<longleftrightarrow> unat s < 2 ^ 32"
  by (simp add: seq_limit_def word_less_nat_alt)

lemma seq_Suc: "s < seq_limit \<Longrightarrow> unat (s + 1) = Suc (unat s)"
proof -
  assume "s < seq_limit"
  then have "Suc (unat s) < 2 ^ 64" by (simp add: seq_limit_unat)
  then show ?thesis by (simp add: unat_word_ariths)
qed

lemma Open_Seal:
  assumes "stream_laws cy pc" "length (sc_key c) = 32" "Seal cy pc p c = (Inr f, c')"
  shows "Open cy pc f c = (Inr p, c')"
proof -
  from assms(3) obtain b where b: "sc_seq c < seq_limit" "pc_marshal pc p = Some b" "length b \<le> 32768"
    "f = \<lparr>sf_Type = ''frame'', sf_Session = sc_session c, sf_Seq = sc_seq c,
       sf_Ciphertext = EncodeToString (cy_gcm_seal cy (sc_key c) (shell_nonce (sc_seq c)) b (shell_aad c))\<rparr>" "c' = c\<lparr>sc_seq := sc_seq c + 1\<rparr>"
    by (auto simp: Seal_def not_le not_less split: if_splits option.splits)
  have "length (cy_gcm_seal cy (sc_key c) (shell_nonce (sc_seq c)) b (shell_aad c)) = length b + 16" using assms(1) by (simp add: stream_laws_def)
  then have "3 * length (sf_Ciphertext f) \<le> 4 * (length b + 16) + 8" using EncodeToString_short b(4) by (metis ShellFrame.select_convs(4))
  then have size: "length (sf_Ciphertext f) \<le> 60000" using b(3) by simp
  have "cy_gcm_open cy (sc_key c) (shell_nonce (sc_seq c)) (cy_gcm_seal cy (sc_key c) (shell_nonce (sc_seq c)) b (shell_aad c)) (shell_aad c) = Some b"
    using assms(1,2) shell_nonce_length by (simp add: stream_laws_def primitives_ok_def)
  moreover have "pc_unmarshal pc b = Some p" using assms(1) b(2) by (simp add: stream_laws_def)
  ultimately show ?thesis using b size by (simp add: Open_def not_le)
qed

lemma Open_accepts:
  assumes "Open cy pc f c = (r, c')"
  shows "(\<exists>p b plain. r = Inr p \<and> sc_seq c < seq_limit \<and> cy_gcm_open cy (sc_key c) (shell_nonce (sc_seq c)) b (shell_aad c) = Some plain \<and>
      pc_unmarshal pc plain = Some p \<and> sf_Seq f = sc_seq c \<and> c' = c\<lparr>sc_seq := sc_seq c + 1\<rparr>) \<or> (\<exists>e. r = Inl e \<and> c' = c)"
  using assms by (auto simp: Open_def not_le split: if_splits option.splits)

text \<open>The nonce determines the counter.\<close>

lemma byte_bits:
  assumes "char_of a = (char_of b :: char)" "k < 8"
  shows "bit (a :: nat) k = bit (b :: nat) k"
proof -
  have "(of_char (char_of a :: char) :: nat) = of_char (char_of b :: char)" using assms(1) by simp
  then have "take_bit 8 a = take_bit 8 b" by (simp add: take_bit_eq_mod)
  then show ?thesis using assms(2) by (metis bit_take_bit_iff)
qed

lemma big_endian_inj: "big_endian v = big_endian w \<Longrightarrow> v = w"
proof (rule bit_word_eqI)
  fix n
  assume eq: "big_endian v = big_endian w" and n: "n < LENGTH(64)"
  define i where "i = n div 8"
  have i: "i < 8" "n = 8 * i + n mod 8" using n by (auto simp: i_def)
  have "\<forall>i \<in> set (rev [0..<8]). (char_of (unat (drop_bit (8 * i) v)) :: char) = char_of (unat (drop_bit (8 * i) w))"
    using eq by (simp only: big_endian_def map_eq_conv)
  then have "(char_of (unat (drop_bit (8 * i) v)) :: char) = char_of (unat (drop_bit (8 * i) w))" using i(1) by simp
  from byte_bits[OF this, of "n mod 8"] have "bit (drop_bit (8 * i) v) (n mod 8) = bit (drop_bit (8 * i) w) (n mod 8)"
    by (simp add: bit_unsigned_iff)
  then show "bit v n = bit w n" using i(2) by (simp add: bit_drop_bit_eq)
qed

lemma shell_nonce_inj: "shell_nonce v = shell_nonce w \<longleftrightarrow> v = w"
  by (auto simp: shell_nonce_def dest: big_endian_inj)

lemma Seal_cases:
  "Seal cy pc p c = (r, c') \<Longrightarrow> (\<exists>e. r = Inl e \<and> c' = c) \<or>
     (\<exists>f. r = Inr f \<and> sf_Seq f = sc_seq c \<and> c' = c\<lparr>sc_seq := sc_seq c + 1\<rparr> \<and> sc_seq c < seq_limit)"
  by (auto simp: Seal_def not_le split: if_splits option.splits)

lemma seal_all_seqs:
  "unat (sc_seq c) \<le> 2 ^ 32 \<Longrightarrow> map (unat \<circ> sf_Seq) (seal_all cy pc ps c) = [unat (sc_seq c)..<unat (sc_seq c) + length (seal_all cy pc ps c)]"
proof (induction ps arbitrary: c)
  case (Cons p ps)
  show ?case
  proof (cases "Seal cy pc p c")
    case (Pair r c')
    from Seal_cases[OF Pair] consider e where "r = Inl e" "c' = c"
      | f where "r = Inr f" "sf_Seq f = sc_seq c" "c' = c\<lparr>sc_seq := sc_seq c + 1\<rparr>" "sc_seq c < seq_limit" by blast
    then show ?thesis
    proof cases
      case 1
      then show ?thesis using Cons Pair by simp
    next
      case 2
      then have u: "unat (sc_seq c') = Suc (unat (sc_seq c))" "unat (sc_seq c') \<le> 2 ^ 32" using seq_Suc seq_limit_unat by auto
      have "[unat (sc_seq c)..<unat (sc_seq c) + Suc n] = unat (sc_seq c) # [Suc (unat (sc_seq c))..<Suc (unat (sc_seq c)) + n]" for n
        by (subst upt_conv_Cons) simp_all
      then show ?thesis using Cons.IH[OF u(2)] 2 Pair u(1) by (simp del: upt_Suc)
    qed
  qed
qed simp

section \<open>Properties\<close>

text \<open>Payloads that fit, sealed one after the other by a fresh cipher, are read back in their order and completely by the cipher of the
  other end, up to the limit of the counter.\<close>

theorem shell_stream_roundtrip:
  assumes "stream_laws cy pc" "length (sc_key c) = 32" "unat (sc_seq c) + length ps \<le> 2 ^ 32"
    "\<forall>p \<in> set ps. \<exists>b. pc_marshal pc p = Some b \<and> length b \<le> 32768"
  shows "open_all cy pc (seal_all cy pc ps c) c = ps"
  using assms(2-4)
proof (induction ps arbitrary: c)
  case (Cons p ps)
  then obtain b where b: "pc_marshal pc p = Some b" "length b \<le> 32768" by auto
  have lim: "sc_seq c < seq_limit" using Cons.prems(2) by (simp add: seq_limit_unat)
  then obtain f where f: "Seal cy pc p c = (Inr f, c\<lparr>sc_seq := sc_seq c + 1\<rparr>)" using b by (simp add: Seal_def not_le)
  have "open_all cy pc (seal_all cy pc ps (c\<lparr>sc_seq := sc_seq c + 1\<rparr>)) (c\<lparr>sc_seq := sc_seq c + 1\<rparr>) = ps"
    using Cons.prems seq_Suc[OF lim] by (intro Cons.IH) simp_all
  then show ?case using f Open_Seal[OF assms(1) Cons.prems(1) f] by simp
qed simp

definition demo_cipher :: ShellCipher where
  "demo_cipher = \<lparr>sc_key = replicate 32 (CHR ''h''), sc_session = ''session1'', sc_direction = ''c2a'', sc_seq = 0\<rparr>"

definition demo_payload :: "string \<Rightarrow> ShellPayload" where
  "demo_payload d = \<lparr>py_Diagnostics = None, py_Target = [], py_Credential = [], py_Type = ''input'', py_Data = d, py_Cols = 0, py_Rows = 0\<rparr>"

definition demo_codec :: payload_codec where
  "demo_codec = \<lparr>pc_marshal = (\<lambda>p. if p = demo_payload (py_Data p) then Some (py_Data p) else None), pc_unmarshal = (\<lambda>b. Some (demo_payload b))\<rparr>"

lemma demo_stream_laws: "stream_laws demo_primitives demo_codec"
  by (simp add: stream_laws_def demo_primitives_ok demo_codec_def) (simp add: demo_primitives_def)

lemma demo_payload_data [simp]: "py_Data (demo_payload d) = d"
  by (simp add: demo_payload_def)

theorem shell_stream_roundtrip_witness:
  "open_all demo_primitives demo_codec (seal_all demo_primitives demo_codec [demo_payload ''bHM'', demo_payload ''DQ''] demo_cipher) demo_cipher =
     [demo_payload ''bHM'', demo_payload ''DQ'']"
  by (rule shell_stream_roundtrip[OF demo_stream_laws]) (simp_all add: demo_cipher_def demo_codec_def)


text \<open>Primitives under which only the frame the sender sealed opens: its text is ''bHM'', under the counter 0.\<close>

definition one_frame :: primitives where
  "one_frame = demo_primitives\<lparr>cy_gcm_open := (\<lambda>k n c a. if n = shell_nonce 0 \<and> c = replicate 16 (CHR ''t'') @ ''bHM'' then Some ''bHM'' else None)\<rparr>"

definition demo_frame :: ShellFrame where
  "demo_frame = \<lparr>sf_Type = ''frame'', sf_Session = ''session1'', sf_Seq = 0, sf_Ciphertext = EncodeToString (replicate 16 (CHR ''t'') @ ''bHM'')\<rparr>"


text \<open>No two frames of a cipher are sealed under the same nonce.\<close>

theorem shell_nonces_distinct:
  assumes "unat (sc_seq c) \<le> 2 ^ 32"
  shows "distinct (map (shell_nonce \<circ> sf_Seq) (seal_all cy pc ps c))"
proof -
  have "distinct (map (unat \<circ> sf_Seq) (seal_all cy pc ps c))" by (simp add: seal_all_seqs[OF assms])
  then show ?thesis by (simp add: distinct_map inj_on_def shell_nonce_inj)
qed

theorem shell_nonces_distinct_witness:
  "distinct (map (shell_nonce \<circ> sf_Seq) (seal_all demo_primitives demo_codec [demo_payload ''bHM'', demo_payload ''bHM''] demo_cipher))"
  by (rule shell_nonces_distinct) (simp add: demo_cipher_def)

end
