(* ===== verification/Agent_Target.thy ===== *)
theory Agent_Target
  imports Cloud_Sync Shell_Cipher Ssh_Transport
begin

text \<open>
  \<open>internal/cloudagent/target.go\<close> and \<open>terminal_error.go\<close>: how the agent turns the target a browser names into a
  connection, and which errors it sends back; with \<open>OpenTerminal\<close> (\<open>ssh/stream.go\<close>), the errors of a session
  (\<open>ssh/session_error.go\<close>) and the category of a failed dial (\<open>ssh/failure.go\<close>). The service's replies and the
  cryptography come from the environment of the synchronisation, the dial from the transport. The key parser is a
  parameter; a signer is an opaque value.
\<close>

section \<open>Errors\<close>

text \<open>What the code reads of an error: whether it wraps a local authentication error, a cancellation or a deadline, and its text.\<close>

record error_view =
  ev_local :: "string option"
  ev_canceled :: bool
  ev_deadline :: bool \<comment> \<open>a deadline, or a network error that is a timeout\<close>
  ev_text :: string

definition FailureCategory :: "error_view option \<Rightarrow> string" where
  "FailureCategory err =
    (case err of None \<Rightarrow> [] | Some v \<Rightarrow>
     case ev_local v of Some code \<Rightarrow> code | None \<Rightarrow>
     if ev_deadline v then ''timeout''
     else let s = ToLower (ev_text v) in
       if Contains s ''host key'' \<or> Contains s ''knownhosts'' then ''host_key''
       else if Contains s ''unable to authenticate'' \<or> Contains s ''permission denied'' then ''authentication''
       else if Contains s ''passphrase'' \<or> Contains s ''private key'' \<or> Contains s ''agent'' \<or> Contains s ''key file'' then ''credential''
       else if Contains s ''connection refused'' then ''refused''
       else if Contains s ''no such host'' then ''dns''
       else ''connection'')"

record SessionError =
  er_Stage :: string
  er_Code :: string

definition sessionError :: "string \<Rightarrow> error_view \<Rightarrow> SessionError" where
  "sessionError stage cause =
    \<lparr>er_Stage = stage, er_Code =
       (if ev_canceled cause then ''cancelled''
        else if ev_deadline cause then ''timeout''
        else if stage = ''pty_request'' \<and> ev_text cause = ''ssh: pty-req failed'' then ''pty_denied''
        else stage @ ''_failed'')\<rparr>"

datatype agent_error = SessionFailure SessionError | PlainFailure string

definition target_codes :: "string list" where
  "target_codes = [''invalid_target'', ''vault_unavailable'', ''target_removed'', ''target_conflict'', ''source_device_required'', ''choose_credential'',
     ''invalid_credential'', ''key_locked'', ''password_unavailable'', ''pty_unavailable'', ''ssh_credential'', ''ssh_authentication'', ''ssh_timeout'',
     ''ssh_host_key'', ''ssh_connection'', ''ssh_refused'', ''ssh_dns'', ''ssh_unknown'']"

fun targetError :: "agent_error \<Rightarrow> string" where
  "targetError (SessionFailure _) = ''pty_unavailable''"
| "targetError (PlainFailure text) = (if text \<in> set target_codes then text else ''connection_failed'')"

definition error_payload :: "string \<Rightarrow> ShellPayload" where
  "error_payload code = \<lparr>py_Diagnostics = None, py_Target = [], py_Credential = [], py_Type = ''error'', py_Data = code, py_Cols = 0, py_Rows = 0\<rparr>"

definition zero_diagnostics :: TerminalDiagnostics where
  "zero_diagnostics = \<lparr>td_Stage = [], td_ReasonCode = [], td_SSHAuthenticated = False, td_PTYRequested = False, td_PTYGranted = False, td_SuggestedAction = []\<rparr>"

definition session_diagnostics :: "SessionError \<Rightarrow> TerminalDiagnostics option" where
  "session_diagnostics e =
    (let stage = er_Stage e; code = er_Code e; d = zero_diagnostics\<lparr>td_SSHAuthenticated := True\<rparr> in
     Option.bind
       (if stage = ''terminal_size'' \<or> stage = ''session_open'' then Some d
        else if stage = ''pty_request'' then Some (d\<lparr>td_PTYRequested := True\<rparr>)
        else if stage = ''stdin_pipe'' \<or> stage = ''shell_start'' \<or> stage = ''command_start'' then Some (d\<lparr>td_PTYRequested := True, td_PTYGranted := True\<rparr>)
        else None)
       (\<lambda>d1. let d2 = d1\<lparr>td_Stage := stage\<rparr> in
         if code = stage @ ''_failed'' \<or> code = ''cancelled'' \<or> code = ''timeout'' then Some (d2\<lparr>td_ReasonCode := code\<rparr>)
         else if code = ''pty_denied'' then
           (if stage \<noteq> ''pty_request'' then None else Some (d2\<lparr>td_ReasonCode := ''pty_denied'', td_SuggestedAction := ''explicit_exec''\<rparr>))
         else None))"

definition targetErrorPayload :: "agent_error \<Rightarrow> ShellPayload" where
  "targetErrorPayload err =
    (let p = error_payload (targetError err) in
     case err of
       SessionFailure e \<Rightarrow> p\<lparr>py_Diagnostics := session_diagnostics e\<rparr>
     | PlainFailure _ \<Rightarrow>
         if py_Data p = ''ssh_authentication''
         then p\<lparr>py_Diagnostics := Some (zero_diagnostics\<lparr>td_Stage := ''authentication'', td_ReasonCode := ''authentication_failed''\<rparr>)\<rparr>
         else p)"

section \<open>Opening a terminal on a connection\<close>

definition validSize :: "int \<Rightarrow> int \<Rightarrow> bool" where
  "validSize cols rows \<longleftrightarrow> 20 \<le> cols \<and> cols \<le> 300 \<and> 5 \<le> rows \<and> rows \<le> 150"

datatype term_step = NewSession | RequestPty | StdinPipe | StartShell

datatype ctx_point = AfterDial | BeforeSession | AtStep term_step

type_synonym signer = string

record target_env =
  tn_sync :: sync_env
  tn_config :: "Config option" \<comment> \<open>\<open>config.Load\<close>, nil when it fails\<close>
  tn_order :: "string list" \<comment> \<open>the visiting order of its servers\<close>
  tn_path :: string
  tn_parse :: "bytes \<Rightarrow> signer option"
  tn_parse_pass :: "bytes \<Rightarrow> bytes \<Rightarrow> signer option"
  tn_ssh :: "signer list \<Rightarrow> ssh_env" \<comment> \<open>the network, and whether a client can be built with these signers\<close>
  tn_dial_view :: "dial_error \<Rightarrow> error_view"
  tn_ctx :: "ctx_point \<Rightarrow> error_view option" \<comment> \<open>\<open>ctx.Err()\<close>\<close>
  tn_step :: "conn \<Rightarrow> term_step \<Rightarrow> error_view option"

text \<open>\<open>errors.Join\<close> wraps both errors and joins their texts with a newline.\<close>

definition errors_Join :: "error_view \<Rightarrow> error_view \<Rightarrow> error_view" where
  "errors_Join a b = \<lparr>ev_local = (case ev_local a of None \<Rightarrow> ev_local b | Some c \<Rightarrow> Some c), ev_canceled = (ev_canceled a \<or> ev_canceled b),
     ev_deadline = (ev_deadline a \<or> ev_deadline b), ev_text = ev_text a @ [newline] @ ev_text b\<rparr>"

definition wrap :: "target_env \<Rightarrow> term_step \<Rightarrow> string \<Rightarrow> error_view \<Rightarrow> SessionError" where
  "wrap env step stage err = sessionError stage (case tn_ctx env (AtStep step) of None \<Rightarrow> err | Some c \<Rightarrow> errors_Join err c)"

fun stage_of :: "term_step \<Rightarrow> string" where
  "stage_of NewSession = ''session_open''"
| "stage_of RequestPty = ''pty_request''"
| "stage_of StdinPipe = ''stdin_pipe''"
| "stage_of StartShell = ''shell_start''"

fun run_steps :: "target_env \<Rightarrow> conn \<Rightarrow> term_step list \<Rightarrow> SessionError option" where
  "run_steps env c [] = None"
| "run_steps env c (x # xs) = (case tn_step env c x of Some err \<Rightarrow> Some (wrap env x (stage_of x) err) | None \<Rightarrow> run_steps env c xs)"

definition plain_view :: "string \<Rightarrow> error_view" where
  "plain_view text = \<lparr>ev_local = None, ev_canceled = False, ev_deadline = False, ev_text = text\<rparr>"

definition OpenTerminal :: "target_env \<Rightarrow> conn \<Rightarrow> int \<Rightarrow> int \<Rightarrow> SessionError option" where
  "OpenTerminal env c cols rows =
    (if cols < 20 \<or> 300 < cols \<or> rows < 5 \<or> 150 < rows then Some (sessionError ''terminal_size'' (plain_view ''invalid terminal size''))
     else case tn_ctx env BeforeSession of Some err \<Rightarrow> Some (sessionError ''session_open'' err) | None \<Rightarrow>
     run_steps env c [NewSession, RequestPty, StdinPipe, StartShell])"

section \<open>From a vault entry to a connection\<close>

text \<open>The first server of the visit whose identity is the entry's gives its key path and its alias.\<close>

fun local_match :: "digests \<Rightarrow> string \<Rightarrow> server_map \<Rightarrow> string list \<Rightarrow> (string \<times> Server) option" where
  "local_match dg i m [] = None"
| "local_match dg i m (al # als) =
    (case server_at m al of
       Some s \<Rightarrow> if EntryID dg s = i then Some (al, s) else local_match dg i m als
     | None \<Rightarrow> local_match dg i m als)"

definition parse_signer :: "target_env \<Rightarrow> cl_Credential \<Rightarrow> signer option" where
  "parse_signer env c =
    (case tn_parse env (cc_Key c) of Some s \<Rightarrow> Some s
     | None \<Rightarrow> if cc_Passphrase c \<noteq> [] then tn_parse_pass env (cc_Key c) (cc_Passphrase c) else None)"

definition zero_credential :: cl_Credential where
  "zero_credential = \<lparr>cc_Kind = [], cc_Key = [], cc_Passphrase = [], cc_Password = [], cc_Fingerprint = []\<rparr>"

text \<open>The credentials in the entry's order: whether one was chosen, the password and the signers so far; \<open>None\<close> is \<open>choose_credential\<close>.\<close>

fun choose_credentials :: "target_env \<Rightarrow> string \<Rightarrow> (string, cl_Credential) gomap \<Rightarrow> string \<Rightarrow> string list \<Rightarrow> bool \<times> string \<times> signer list \<Rightarrow>
    (bool \<times> string \<times> signer list) option" where
  "choose_credentials env auth creds credential [] acc = Some acc"
| "choose_credentials env auth creds credential (i # is) (matched, password, signers) =
    (if credential \<noteq> [] \<and> credential \<noteq> i then choose_credentials env auth creds credential is (matched, password, signers)
     else let c = (case gm_lookup creds i of None \<Rightarrow> zero_credential | Some c \<Rightarrow> c) in
       if auth = AuthPassword \<and> cc_Kind c = ''password'' \<and> password \<noteq> [] \<and> password \<noteq> cc_Password c then None
       else choose_credentials env auth creds credential is
         (True, if auth = AuthPassword \<and> cc_Kind c = ''password'' then cc_Password c else password,
          if auth = AuthKey \<and> cc_Kind c = ''key'' then signers @ (case parse_signer env c of None \<Rightarrow> [] | Some s \<Rightarrow> [s]) else signers))"

definition target_base :: "target_env \<Rightarrow> cl_Entry \<Rightarrow> Server \<times> BuildOpts" where
  "target_base env entry =
    (let target = et_Server entry; opts = zero_opts\<lparr>bo_ConfigPath := tn_path env, bo_ProbeOnly := True\<rparr> in
     case Option.bind (tn_config env) (\<lambda>cfg. local_match (se_dg (tn_sync env)) (et_ID entry) (cf_Servers cfg) (tn_order env)) of
       None \<Rightarrow> (target, opts)
     | Some (al, s) \<Rightarrow> (target\<lparr>sv_KeyPath := sv_KeyPath s\<rparr>, opts\<lparr>bo_Alias := al\<rparr>))"

definition targetOptions :: "target_env \<Rightarrow> cl_Data \<Rightarrow> cl_Entry \<Rightarrow> string \<Rightarrow> agent_error + (Server \<times> BuildOpts \<times> signer list)" where
  "targetOptions env data entry credential =
    (let (target0, opts) = target_base env entry in
     if (sv_ProxyCommand target0 \<noteq> [] \<or> sv_ProxyJump target0 \<noteq> [] \<or> sv_Proxy target0 \<noteq> [] \<or> sv_Forwards target0 \<noteq> []) \<and> bo_Alias opts = []
     then Inl (PlainFailure ''source_device_required'')
     else let target = target0\<lparr>sv_Forwards := []\<rparr> in
     case choose_credentials env (sv_Auth target) (vd_Credentials data) credential (et_CredentialIDs entry) (credential = [], bo_Password opts, []) of
       None \<Rightarrow> Inl (PlainFailure ''choose_credential'')
     | Some (matched, password, signers) \<Rightarrow>
         if \<not> matched then Inl (PlainFailure ''invalid_credential'')
         else if sv_Auth target = AuthKey \<and> signers = [] \<and> (sv_KeyPath target = [] \<or> credential \<noteq> []) then Inl (PlainFailure ''key_locked'')
         else if sv_Auth target = AuthPassword \<and> password = [] then Inl (PlainFailure ''password_unavailable'')
         else Inr (target, opts\<lparr>bo_Password := password\<rparr>, signers))"

text \<open>The connection with the events of the dial; recording the use of a local alias is the event \<open>UsedAlias\<close>.\<close>

definition openTarget :: "target_env \<Rightarrow> State \<Rightarrow> bytes \<Rightarrow> ShellPayload \<Rightarrow> (agent_error + conn) \<times> ssh_event list" where
  "openTarget env state master p =
    (if length (py_Target p) \<noteq> 64 \<or> 100 < length (py_Credential p) \<or> \<not> validSize (py_Cols p) (py_Rows p) then (Inl (PlainFailure ''invalid_target''), [])
     else case get_vault (tn_sync env) 0 state of Inl _ \<Rightarrow> (Inl (PlainFailure ''vault_unavailable''), []) | Inr snap \<Rightarrow>
     case UnlockMaster (se_cy (tn_sync env)) (se_now (tn_sync env)) (cs_Username state) snap master of
       Inl _ \<Rightarrow> (Inl (PlainFailure ''vault_unavailable''), [])
     | Inr v \<Rightarrow>
     case gm_lookup (vd_Entries (va_Data v)) (py_Target p) of None \<Rightarrow> (Inl (PlainFailure ''target_removed''), []) | Some entry \<Rightarrow>
     if gm_lookup (vd_Deleted (va_Data v)) (py_Target p) = Some True then (Inl (PlainFailure ''target_removed''), [])
     else if gm_lookup (vd_Conflicts (va_Data v)) (py_Target p) \<noteq> None then (Inl (PlainFailure ''target_conflict''), [])
     else case targetOptions env (va_Data v) entry (py_Credential p) of Inl e \<Rightarrow> (Inl e, []) | Inr (target, opts, signers) \<Rightarrow>
     case Dial (tn_ssh env signers) (Some target) opts of
       (Inl e, ev) \<Rightarrow> (Inl (PlainFailure (''ssh_'' @ FailureCategory (Some (tn_dial_view env e)))), ev)
     | (Inr (c, _), ev) \<Rightarrow>
         case tn_ctx env AfterDial of Some err \<Rightarrow> (Inl (PlainFailure (ev_text err)), ev) | None \<Rightarrow>
         case OpenTerminal env c (py_Cols p) (py_Rows p) of Some err \<Rightarrow> (Inl (SessionFailure err), ev) | None \<Rightarrow>
         (Inr c, if bo_Alias opts \<noteq> [] then ev @ [UsedAlias (bo_Alias opts)] else ev))"

section \<open>Laws\<close>

lemma target_base_server:
  "target_base env entry = (target, opts) \<Longrightarrow>
     target = (et_Server entry)\<lparr>sv_KeyPath := sv_KeyPath target\<rparr> \<and> opts = zero_opts\<lparr>bo_ConfigPath := tn_path env, bo_ProbeOnly := True, bo_Alias := bo_Alias opts\<rparr>"
  by (auto simp: target_base_def zero_opts_def Let_def split: option.splits prod.splits)

text \<open>A password that is chosen is one of the entry's own.\<close>

definition own_password :: "string \<Rightarrow> (string, cl_Credential) gomap \<Rightarrow> string list \<Rightarrow> string \<Rightarrow> bool" where
  "own_password credential creds is pw \<longleftrightarrow> (\<exists>i \<in> set is. \<exists>c. (credential = [] \<or> credential = i) \<and> gm_lookup creds i = Some c \<and>
     cc_Kind c = ''password'' \<and> cc_Password c = pw)"

lemma choose_credentials_password:
  "choose_credentials env auth creds credential is (m, pw, sg) = Some (m', pw', sg') \<Longrightarrow> pw' = pw \<or> own_password credential creds is pw'"
proof (induction "is" arbitrary: m pw sg)
  case (Cons i "is")
  define c where "c = (case gm_lookup creds i of None \<Rightarrow> zero_credential | Some c \<Rightarrow> c)"
  show ?case
  proof (cases "credential \<noteq> [] \<and> credential \<noteq> i")
    case True
    then show ?thesis using Cons by (auto simp: own_password_def)
  next
    case False
    let ?pw = "if auth = AuthPassword \<and> cc_Kind c = ''password'' then cc_Password c else pw"
    from Cons.prems False have "\<exists>m sg. choose_credentials env auth creds credential is (m, ?pw, sg) = Some (m', pw', sg')"
      by (auto simp: Let_def c_def[symmetric] split: if_splits)
    then have "pw' = ?pw \<or> own_password credential creds is pw'" using Cons.IH by blast
    moreover have "own_password credential creds (i # is) (cc_Password c)" if "cc_Kind c = ''password''"
      using that False by (auto simp: own_password_def c_def zero_credential_def split: option.splits)
    ultimately show ?thesis by (auto simp: own_password_def split: if_splits)
  qed
qed simp

lemma targetOptions_Inr:
  assumes "targetOptions env data entry credential = Inr (target, opts, signers)"
  shows "target = (et_Server entry)\<lparr>sv_KeyPath := sv_KeyPath target, sv_Forwards := []\<rparr>"
    "\<not> bo_ResolveJump opts" "\<not> bo_ResolveCloud opts" "bo_ProbeOnly opts"
    "bo_Password opts = [] \<or> own_password credential (vd_Credentials data) (et_CredentialIDs entry) (bo_Password opts)"
proof -
  obtain t0 o0 where b: "target_base env entry = (t0, o0)" by (rule prod.exhaust)
  from assms b obtain m pw where c: "choose_credentials env (sv_Auth t0) (vd_Credentials data) credential (et_CredentialIDs entry)
      (credential = [], bo_Password o0, []) = Some (m, pw, signers)" "target = t0\<lparr>sv_Forwards := []\<rparr>" "opts = o0\<lparr>bo_Password := pw\<rparr>"
    by (auto simp: targetOptions_def Let_def split: if_splits option.splits)
  note t = target_base_server[OF b]
  then show "target = (et_Server entry)\<lparr>sv_KeyPath := sv_KeyPath target, sv_Forwards := []\<rparr>" using c(2) by (metis Server.select_convs(11) Server.surjective Server.update_convs(11,31))
  have "bo_Password o0 = []" using t by (metis BuildOpts.select_convs(4) BuildOpts.surjective BuildOpts.update_convs(5,6,8) zero_opts_def)
  then show "bo_Password opts = [] \<or> own_password credential (vd_Credentials data) (et_CredentialIDs entry) (bo_Password opts)"
    using choose_credentials_password[OF c(1)] c(3) by simp
  have "o0 = zero_opts\<lparr>bo_ConfigPath := tn_path env, bo_ProbeOnly := True, bo_Alias := bo_Alias o0\<rparr>" using t by blast
  then obtain al where "o0 = zero_opts\<lparr>bo_ConfigPath := tn_path env, bo_ProbeOnly := True, bo_Alias := al\<rparr>" by blast
  then show "\<not> bo_ResolveJump opts" "\<not> bo_ResolveCloud opts" "bo_ProbeOnly opts" using c(3) by (simp_all add: zero_opts_def)
qed

text \<open>The vault, its entry and the options behind every network event of \<open>openTarget\<close>.\<close>

lemma openTarget_events:
  assumes "openTarget env state master p = (r, ev)" "ev \<noteq> []"
  obtains snap v entry target opts signers where
    "get_vault (tn_sync env) 0 state = Inr snap"
    "UnlockMaster (se_cy (tn_sync env)) (se_now (tn_sync env)) (cs_Username state) snap master = Inr v"
    "gm_lookup (vd_Entries (va_Data v)) (py_Target p) = Some entry" "gm_lookup (vd_Deleted (va_Data v)) (py_Target p) \<noteq> Some True"
    "gm_lookup (vd_Conflicts (va_Data v)) (py_Target p) = None" "targetOptions env (va_Data v) entry (py_Credential p) = Inr (target, opts, signers)"
    "ev = snd (Dial (tn_ssh env signers) (Some target) opts) \<or> ev = snd (Dial (tn_ssh env signers) (Some target) opts) @ [UsedAlias (bo_Alias opts)]"
  using assms by (auto simp: openTarget_def split: if_splits sum.splits option.splits prod.splits)

lemma local_identity_not_cleaned:
  assumes "inj (dg_entry dg)" "sv_Host s \<noteq> ToLower (TrimSpace (sv_Host s))"
  shows "EntryID dg s \<noteq> EntryID dg (cleanServer s)"
  using assms by (auto simp: EntryID_def cleanServer_def inj_eq)

section \<open>Properties\<close>


definition entry_id :: string where "entry_id = replicate 64 (CHR ''a'')"

definition one_entry :: cl_Data where
  "one_entry = NewData\<lparr>vd_Entries := gm_of_list [(entry_id, \<lparr>et_ID = entry_id, et_Aliases = [''web''],
       et_Server = example_target\<lparr>sv_Port := 22, sv_Auth := AuthPassword\<rparr>, et_CredentialIDs = [''cred0001''], et_Sources = gm_empty\<rparr>)],
     vd_Credentials := gm_of_list [(''cred0001'', zero_credential\<lparr>cc_Kind := ''password'', cc_Password := ''pw''\<rparr>)]\<rparr>"

definition demo_target_env :: target_env where
  "demo_target_env = \<lparr>tn_sync = demo_sync_env\<lparr>se_cy := demo_primitives\<lparr>cy_unmarshal_data := \<lambda>_. Some one_entry\<rparr>\<rparr>, tn_config = None, tn_order = [], tn_path = [],
     tn_parse = \<lambda>_. None, tn_parse_pass = \<lambda>_ _. None, tn_ssh = \<lambda>_. example_env, tn_dial_view = \<lambda>_. plain_view [], tn_ctx = \<lambda>_. None, tn_step = \<lambda>_ _. None\<rparr>"

definition demo_connect :: ShellPayload where
  "demo_connect = \<lparr>py_Diagnostics = None, py_Target = entry_id, py_Credential = [], py_Type = ''connect'', py_Data = [], py_Cols = 80, py_Rows = 24\<rparr>"

definition target_primitives :: primitives where
  "target_primitives = demo_primitives\<lparr>cy_unmarshal_data := \<lambda>_. Some one_entry\<rparr>"

lemma one_key: "gm_keys (gm_of_list [(k, v)]) = [k]" "gm_lookup (gm_of_list [(k, v)]) k = Some v"
  by (simp_all add: gm_of_list_def gm_keys_update)

lemma one_entry_valid: "Data_Validate 0 one_entry = None"
proof -
  have "validID entry_id" "validID ''cred0001''" by code_simp+
  moreover have "ValidateServerMetadataBounds metadata_names [] [] [] [] [] = None" "alias_ok ''web''" "TrimSpace ''root'' = ''root''"
    "ContainsAny ''10.0.0.5root'' NUL_CR_LF = False" by code_simp+
  ultimately show ?thesis
    by (simp add: Data_Validate_def check_map_def one_entry_def NewData_def one_key gm_len_def entry_ok_def credential_ok_def zero_credential_def
        example_target_def zero_server_def AuthPassword_def AuthKey_def AuthAgent_def)
qed

lemma target_unlock: "UnlockMaster target_primitives 0 ''alice'' demo_snapshot (vr_master demo_random) =
    Inr \<lparr>va_Envelope = Cloud_Vault.demo_envelope, va_Master = vr_master demo_random, va_Data = one_entry\<rparr>"
proof -
  have "parseEnvelope target_primitives ''alice'' demo_snapshot = Some Cloud_Vault.demo_envelope"
    by (simp add: parseEnvelope_def demo_snapshot_def MaxBlob_def target_primitives_def demo_primitives_def)
      (simp add: Cloud_Vault.demo_envelope_def demo_random_def validID_random)
  moreover have "unseal target_primitives (replicate 32 (CHR ''h'')) (en_Nonce Cloud_Vault.demo_envelope) (en_Ciphertext Cloud_Vault.demo_envelope)
      (aad Cloud_Vault.demo_envelope ''data'') = Some ''D''"
    by (simp add: unseal_def Cloud_Vault.demo_envelope_def aes_key_def target_primitives_def demo_primitives_def)
  moreover have "cy_unmarshal_data target_primitives ''D'' = Some one_entry" "cy_hkdf target_primitives k i = replicate 32 (CHR ''h'')" for k i
    by (simp_all add: target_primitives_def demo_primitives_def)
  ultimately show ?thesis
    unfolding UnlockMaster_Inr
    by (simp add: demo_snapshot_def one_entry_valid demo_random_def Public_def vault_private_def derive_def)
      (simp add: target_primitives_def demo_primitives_def)
qed

lemma demo_get: "get_vault (tn_sync demo_target_env) 0 fresh_account = Inr demo_snapshot" "se_now (tn_sync demo_target_env) = 0"
    "cs_Username fresh_account = ''alice''" "py_Target demo_connect = entry_id" "se_cy (tn_sync demo_target_env) = target_primitives"
  by (simp_all add: get_vault_def Request_def ValidateURL_def demo_target_env_def demo_sync_env_def MaxBlob_def fresh_account_def new_state_def
      demo_connect_def target_primitives_def)

lemma demo_options:
  "gm_lookup (vd_Entries one_entry) entry_id = Some entry \<Longrightarrow> targetOptions demo_target_env one_entry entry [] =
     Inr (example_target\<lparr>sv_Port := 22, sv_Auth := AuthPassword\<rparr>, zero_opts\<lparr>bo_ProbeOnly := True, bo_Password := ''pw''\<rparr>, [])"
  by (auto simp: one_entry_def NewData_def one_key targetOptions_def target_base_def demo_target_env_def example_target_def zero_server_def zero_opts_def
      zero_credential_def AuthPassword_def AuthKey_def Let_def)

lemma demo_dial:
  "Dial example_env (Some (example_target\<lparr>sv_Port := 22, sv_Auth := AuthPassword\<rparr>)) (zero_opts\<lparr>bo_ProbeOnly := True, bo_Password := ''pw''\<rparr>) =
    (Inr (DirectConn ''10.0.0.5:22'', kindDirect),
     [Contact (SocksConn ''10.0.0.9:1080'' ''10.0.0.5:22''), Contact (DirectConn ''10.0.0.5:22''), Authenticate ''10.0.0.5:22'' ''pw'' False])"
  by code_simp

lemma demo_opened: "openTarget demo_target_env fresh_account (vr_master demo_random) demo_connect = (Inr (DirectConn ''10.0.0.5:22''),
    [Contact (SocksConn ''10.0.0.9:1080'' ''10.0.0.5:22''), Contact (DirectConn ''10.0.0.5:22''), Authenticate ''10.0.0.5:22'' ''pw'' False])"
proof -
  obtain entry where e: "gm_lookup (vd_Entries one_entry) entry_id = Some entry" by (simp add: one_entry_def gm_lookup_of_list)
  have "gm_lookup (vd_Deleted one_entry) entry_id = None" "gm_lookup (vd_Conflicts one_entry) entry_id = None" by (simp_all add: one_entry_def NewData_def)
  moreover have "tn_ssh demo_target_env [] = example_env" "tn_ctx demo_target_env x = None" "tn_step demo_target_env c y = None" for x c y
    by (simp_all add: demo_target_env_def)
  moreover have "length (py_Target demo_connect) = 64" "py_Credential demo_connect = []" "validSize (py_Cols demo_connect) (py_Rows demo_connect)"
    "py_Cols demo_connect = 80" "py_Rows demo_connect = 24"
    by (simp_all add: demo_connect_def entry_id_def validSize_def)
  ultimately show ?thesis using e demo_options[OF e] demo_dial
    by (simp add: openTarget_def demo_get target_unlock OpenTerminal_def) (simp add: zero_opts_def)
qed


text \<open>C31: an error that is sent to the browser is one of the fixed codes, whatever text the failure had; its diagnostics, if
  any, are made of fixed stages and reasons, and claim a granted terminal only when one was requested on an authenticated session.\<close>

theorem target_errors_are_codes:
  "py_Data (targetErrorPayload err) \<in> set (''connection_failed'' # target_codes) \<and> py_Type (targetErrorPayload err) = ''error'' \<and>
   py_Target (targetErrorPayload err) = [] \<and> py_Credential (targetErrorPayload err) = [] \<and>
   (case py_Diagnostics (targetErrorPayload err) of None \<Rightarrow> True | Some d \<Rightarrow>
      td_Stage d \<in> {''terminal_size'', ''session_open'', ''pty_request'', ''stdin_pipe'', ''shell_start'', ''command_start'', ''authentication''} \<and>
      td_ReasonCode d \<in> {td_Stage d @ ''_failed'', ''cancelled'', ''timeout'', ''pty_denied''} \<and>
      td_SuggestedAction d \<in> {[], ''explicit_exec''} \<and> td_PTYGranted d \<le> td_PTYRequested d \<and> td_PTYRequested d \<le> td_SSHAuthenticated d \<and>
      (td_ReasonCode d = ''pty_denied'') = (td_SuggestedAction d = ''explicit_exec''))"
proof (cases err)
  case (SessionFailure e)
  have "''pty_unavailable'' \<in> set target_codes" by (simp add: target_codes_def)
  then show ?thesis using SessionFailure
    by (auto simp: targetErrorPayload_def error_payload_def session_diagnostics_def zero_diagnostics_def Let_def split: if_splits option.splits)
next
  case (PlainFailure t)
  then show ?thesis
    by (auto simp: targetErrorPayload_def error_payload_def zero_diagnostics_def Let_def split: if_splits)
qed

end
