(* ===== verification/Agent_Relay.thy ===== *)
theory Agent_Relay
  imports Agent_Target
begin

text \<open>
  \<open>internal/cloudagent/agent.go\<close>: the agent that serves terminals over an outbound relay connection. The state of one connection
  is the two maps of \<open>connectPath\<close>, every session object it made (the maps and the goroutines refer to a session by its position in
  \<open>rl_store\<close>), the goroutines that are opening a terminal, and what was sent. The read loop handles one message at a time; each goroutine
  acts in steps of its own between messages. A critical section and the \<open>close\<close> that follows it are one step: only the read
  loop adds sessions, so a session removed between two sections of a message could as well have been removed before or after it.
  Decoding of messages, the clock readings and the outcome of writes are inputs.
\<close>

section \<open>State\<close>

record agent_session =
  as_open :: ShellOpen \<comment> \<open>the request, captured by the goroutines\<close>
  as_deadline :: "int option" \<comment> \<open>of its context\<close>
  as_recv :: ShellCipher
  as_send :: ShellCipher
  as_pty :: bool
  as_started :: bool
  as_closed :: bool
  as_input :: "ShellPayload list"

datatype start = LocalTerminal | RemoteTarget ShellPayload

datatype outgoing = SentClose string | SentFrame ShellFrame

record relay =
  rl_sessions :: "(string, nat) gomap"
  rl_seen :: "(string, int) gomap"
  rl_store :: "agent_session list"
  rl_opening :: "(nat \<times> start) list"
  rl_started :: "(nat \<times> start) list" \<comment> \<open>every goroutine that was started to open a terminal\<close>
  rl_sent :: "outgoing list"
  rl_clock :: int \<comment> \<open>the last reading of the clock\<close>

record relay_env =
  re_cy :: primitives
  re_pc :: payload_codec
  re_user :: string
  re_device :: string
  re_epoch :: string
  re_master :: bytes
  re_state :: State \<comment> \<open>the account, for the requests of \<open>openTarget\<close>\<close>

definition new_relay :: "int \<Rightarrow> relay" where
  "new_relay now = \<lparr>rl_sessions = gm_empty, rl_seen = gm_empty, rl_store = [], rl_opening = [], rl_started = [], rl_sent = [], rl_clock = now\<rparr>"

abbreviation session_id :: "agent_session \<Rightarrow> string" where
  "session_id x \<equiv> so_Session (as_open x)"

section \<open>Sessions\<close>

definition on_session :: "nat \<Rightarrow> (agent_session \<Rightarrow> agent_session) \<Rightarrow> relay \<Rightarrow> relay" where
  "on_session a f st = st\<lparr>rl_store := (rl_store st)[a := f (rl_store st ! a)]\<rparr>"

definition session_close :: "agent_session \<Rightarrow> agent_session" where
  "session_close x = x\<lparr>as_closed := True\<rparr>"

definition closeSession :: "string \<Rightarrow> relay \<Rightarrow> relay" where
  "closeSession i st =
    (case gm_lookup (rl_sessions st) i of
       None \<Rightarrow> st
     | Some a \<Rightarrow> on_session a session_close (st\<lparr>rl_sessions := gm_delete i (rl_sessions st)\<rparr>))"

definition relay_send :: "outgoing \<Rightarrow> bool \<Rightarrow> relay \<Rightarrow> relay" where
  "relay_send m written st = (if written then st\<lparr>rl_sent := rl_sent st @ [m]\<rparr> else st)"

text \<open>\<open>payload\<close>: whether the payload was sealed and written. The counter moves on when it was sealed, written or not.\<close>

definition session_payload :: "relay_env \<Rightarrow> nat \<Rightarrow> ShellPayload \<Rightarrow> bool \<Rightarrow> relay \<Rightarrow> bool \<times> relay" where
  "session_payload env a p written st =
    (case Seal (re_cy env) (re_pc env) p (as_send (rl_store st ! a)) of
       (Inl _, _) \<Rightarrow> (False, st)
     | (Inr f, c) \<Rightarrow> (written, relay_send (SentFrame f) written (on_session a (\<lambda>x. x\<lparr>as_send := c\<rparr>) st)))"

definition session_attach :: "nat \<Rightarrow> relay \<Rightarrow> bool \<times> relay" where
  "session_attach a st = (if as_closed (rl_store st ! a) then (False, st) else (True, on_session a (\<lambda>x. x\<lparr>as_pty := True\<rparr>) st))"

definition terminalContext :: "ShellOpen \<Rightarrow> int option" where
  "terminalContext r = (if so_Lifetime r = ''connection'' then None else Some (so_Expires r))"

definition typed_payload :: "string \<Rightarrow> ShellPayload" where
  "typed_payload t = \<lparr>py_Diagnostics = None, py_Target = [], py_Credential = [], py_Type = t, py_Data = [], py_Cols = 0, py_Rows = 0\<rparr>"

section \<open>Messages\<close>

text \<open>A message after its type was read; \<open>None\<close> is one that does not decode as its type demands.\<close>

datatype relay_message = Pong | OpenRequest "ShellOpen option" | Frame "ShellFrame option" | CloseRequest string | UnknownMessage

datatype relay_error = InvalidRelayMessage | InvalidFrame

text \<open>The clock readings of one message: by \<open>VerifyShell\<close> twice, and for each entry of \<open>seen\<close> that is visited.\<close>

record readings =
  rd_now :: int
  rd_later :: int
  rd_tick :: "string \<Rightarrow> int"

definition prune_seen :: "(string \<Rightarrow> int) \<Rightarrow> (string, int) gomap \<Rightarrow> (string, int) gomap" where
  "prune_seen tick seen = gm_filter (\<lambda>i expires. \<not> expires \<le> tick i) seen"

definition relay_busy :: "ShellOpen \<Rightarrow> relay \<Rightarrow> bool" where
  "relay_busy r st \<longleftrightarrow> 2 \<le> gm_len (rl_sessions st) \<or> gm_lookup (rl_sessions st) (so_Session r) \<noteq> None \<or>
    (case gm_lookup (rl_seen st) (so_Session r) of None \<Rightarrow> 0 | Some e \<Rightarrow> e) \<noteq> 0 \<or> 256 \<le> gm_len (rl_seen st)"

definition new_cipher :: "relay_env \<Rightarrow> string \<Rightarrow> string \<Rightarrow> ShellCipher option" where
  "new_cipher env i direction =
    (case NewShellCipher (re_cy env) (re_master env) (re_user env) (re_device env) (re_epoch env) i direction of Inl _ \<Rightarrow> None | Inr c \<Rightarrow> Some c)"

text \<open>The agent's vault is open, so its master key has 32 bytes and both ciphers exist; with another key the code would go on with a nil
  cipher, here the request is dropped.\<close>

definition admit :: "relay_env \<Rightarrow> ShellOpen \<Rightarrow> bool \<Rightarrow> relay \<Rightarrow> relay" where
  "admit env r written st =
    (case (new_cipher env (so_Session r) ''c2a'', new_cipher env (so_Session r) ''a2c'') of
       (Some recv, Some out) \<Rightarrow>
         (let a = length (rl_store st);
              x = \<lparr>as_open = r, as_deadline = terminalContext r, as_recv = recv, as_send = out, as_pty = False,
                   as_started = (so_Mode r \<noteq> ''ssh''), as_closed = False, as_input = []\<rparr>;
              st1 = st\<lparr>rl_seen := gm_update (so_Session r) (so_Expires r) (rl_seen st),
                       rl_sessions := gm_update (so_Session r) a (rl_sessions st), rl_store := rl_store st @ [x]\<rparr> in
          if so_Mode r = ''ssh''
          then (case session_payload env a (typed_payload ''select'') written st1 of
                  (True, st2) \<Rightarrow> st2 | (False, st2) \<Rightarrow> closeSession (so_Session r) st2)
          else st1\<lparr>rl_opening := rl_opening st1 @ [(a, LocalTerminal)], rl_started := rl_started st1 @ [(a, LocalTerminal)]\<rparr>)
     | _ \<Rightarrow> st)"

definition on_open :: "relay_env \<Rightarrow> readings \<Rightarrow> bool \<Rightarrow> ShellOpen option \<Rightarrow> relay \<Rightarrow> relay" where
  "on_open env rd written ro st =
    (case ro of None \<Rightarrow> st | Some r \<Rightarrow>
     if \<not> VerifyShell (re_cy env) (rd_now rd) (rd_later rd) (re_master env) r (re_user env) (re_device env) (re_epoch env) then st
     else let st1 = st\<lparr>rl_seen := prune_seen (rd_tick rd) (rl_seen st)\<rparr> in
       if relay_busy r st1 then relay_send (SentClose (so_Session r)) written st1
       else admit env r written st1)"

definition on_connect :: "nat \<Rightarrow> string \<Rightarrow> ShellPayload \<Rightarrow> relay \<Rightarrow> relay" where
  "on_connect a i p st =
    (let x = rl_store st ! a; allowed = (\<not> as_started x \<and> \<not> as_closed x); st1 = on_session a (\<lambda>x. x\<lparr>as_started := True\<rparr>) st in
     if \<not> allowed then closeSession i st1
     else st1\<lparr>rl_opening := rl_opening st1 @ [(a, RemoteTarget p)], rl_started := rl_started st1 @ [(a, RemoteTarget p)]\<rparr>)"

definition on_input :: "nat \<Rightarrow> string \<Rightarrow> ShellPayload \<Rightarrow> relay \<Rightarrow> relay" where
  "on_input a i p st =
    (if \<not> as_pty (rl_store st ! a) then closeSession i st
     else if length (as_input (rl_store st ! a)) < 32 then on_session a (\<lambda>x. x\<lparr>as_input := as_input x @ [p]\<rparr>) st
     else closeSession i st)"

definition on_frame :: "relay_env \<Rightarrow> ShellFrame \<Rightarrow> relay \<Rightarrow> relay" where
  "on_frame env f st =
    (case gm_lookup (rl_sessions st) (sf_Session f) of None \<Rightarrow> st | Some a \<Rightarrow>
     case Open (re_cy env) (re_pc env) f (as_recv (rl_store st ! a)) of
       (Inl _, _) \<Rightarrow> closeSession (sf_Session f) st
     | (Inr p, c) \<Rightarrow>
         (let st1 = on_session a (\<lambda>x. x\<lparr>as_recv := c\<rparr>) st in
          if py_Type p = ''connect'' then on_connect a (sf_Session f) p st1 else on_input a (sf_Session f) p st1))"

fun handle_message :: "relay_env \<Rightarrow> readings \<Rightarrow> bool \<Rightarrow> relay_message \<Rightarrow> relay \<Rightarrow> relay_error + relay" where
  "handle_message env rd written Pong st = Inr st"
| "handle_message env rd written (OpenRequest ro) st = Inr (on_open env rd written ro st)"
| "handle_message env rd written (Frame None) st = Inl InvalidFrame"
| "handle_message env rd written (Frame (Some f)) st = Inr (on_frame env f st)"
| "handle_message env rd written (CloseRequest i) st = Inr (closeSession i st)"
| "handle_message env rd written UnknownMessage st = Inl InvalidRelayMessage"

section \<open>Goroutines\<close>

text \<open>The end of \<open>runTerminal\<close>: the close message and then the session. \<open>announced\<close> is whether it was written.\<close>

definition end_terminal :: "string \<Rightarrow> bool \<Rightarrow> relay \<Rightarrow> relay" where
  "end_terminal i announced st = closeSession i (relay_send (SentClose i) announced st)"

text \<open>A terminal was opened: \<open>runTerminal\<close> attaches it and reports that it is ready.\<close>

definition terminal_opened :: "relay_env \<Rightarrow> nat \<Rightarrow> bool \<Rightarrow> bool \<Rightarrow> relay \<Rightarrow> relay" where
  "terminal_opened env a written announced st =
    (let i = session_id (rl_store st ! a) in
     case session_attach a st of (False, st1) \<Rightarrow> st1 | (True, st1) \<Rightarrow>
     case session_payload env a (typed_payload ''ready'') written st1 of (True, st2) \<Rightarrow> st2 | (False, st2) \<Rightarrow> end_terminal i announced st2)"

text \<open>It could not be opened: a remote target's error is reported first.\<close>

definition terminal_failed :: "relay_env \<Rightarrow> nat \<Rightarrow> start \<Rightarrow> agent_error \<Rightarrow> bool \<Rightarrow> bool \<Rightarrow> relay \<Rightarrow> relay" where
  "terminal_failed env a k err written announced st =
    (let i = session_id (rl_store st ! a);
         st1 = (case k of LocalTerminal \<Rightarrow> st | RemoteTarget _ \<Rightarrow> snd (session_payload env a (targetErrorPayload err) written st)) in
     relay_send (SentClose i) announced (closeSession i st1))"

datatype tty_action = TtyWrite bytes | TtyResize int int

definition terminal_input :: "ShellPayload \<Rightarrow> tty_action option" where
  "terminal_input p =
    (if py_Type p = ''input'' then
       (case DecodeString (py_Data p) of Some raw \<Rightarrow> if length raw \<le> 8192 then Some (TtyWrite raw) else None | None \<Rightarrow> None)
     else if py_Type p = ''resize'' then (if validSize (py_Cols p) (py_Rows p) then Some (TtyResize (py_Cols p) (py_Rows p)) else None)
     else None)"

text \<open>The input goroutine takes one payload of the queue; \<open>ok\<close> is whether the terminal accepted the action.\<close>

definition take_input :: "nat \<Rightarrow> ShellPayload \<Rightarrow> bool \<Rightarrow> relay \<Rightarrow> relay" where
  "take_input a p ok st =
    (let st1 = on_session a (\<lambda>x. x\<lparr>as_input := tl (as_input x)\<rparr>) st in
     if terminal_input p \<noteq> None \<and> ok then st1 else closeSession (session_id (rl_store st ! a)) st1)"

definition terminal_output :: "relay_env \<Rightarrow> nat \<Rightarrow> bytes \<Rightarrow> bool \<Rightarrow> bool \<Rightarrow> relay \<Rightarrow> relay" where
  "terminal_output env a b written announced st =
    (case session_payload env a ((typed_payload ''output'')\<lparr>py_Data := EncodeToString b\<rparr>) written st of
       (True, st1) \<Rightarrow> st1 | (False, st1) \<Rightarrow> end_terminal (session_id (rl_store st ! a)) announced st1)"

section \<open>Steps\<close>

definition readings_ok :: "int \<Rightarrow> readings \<Rightarrow> int \<Rightarrow> bool" where
  "readings_ok before rd after \<longleftrightarrow> before \<le> rd_now rd \<and> rd_now rd \<le> rd_later rd \<and> (\<forall>i. rd_later rd \<le> rd_tick rd i \<and> rd_tick rd i \<le> after)"

text \<open>How a goroutine that opens a terminal may end: a remote target with what \<open>openTarget\<close> says under the agent's cryptography, in whatever
  state the service, the network and the configuration are; \<open>None\<close> is an open terminal.\<close>

fun start_outcome :: "relay_env \<Rightarrow> start \<Rightarrow> agent_error option \<Rightarrow> bool" where
  "start_outcome env LocalTerminal res \<longleftrightarrow> True"
| "start_outcome env (RemoteTarget p) res \<longleftrightarrow> (\<exists>tenv. se_cy (tn_sync tenv) = re_cy env \<and>
     res = (case fst (openTarget tenv (re_state env) (re_master env) p) of Inl e \<Rightarrow> Some e | Inr _ \<Rightarrow> None))"

inductive relay_step :: "relay_env \<Rightarrow> relay \<Rightarrow> relay \<Rightarrow> bool" for env where
  handled: "readings_ok (rl_clock st) rd after \<Longrightarrow> handle_message env rd written m st = Inr st' \<Longrightarrow> relay_step env st (st'\<lparr>rl_clock := after\<rparr>)"
| expired: "a < length (rl_store st) \<Longrightarrow> rl_clock st \<le> after \<Longrightarrow> as_closed (rl_store st ! a) \<or> as_deadline (rl_store st ! a) = Some d \<and> d \<le> after \<Longrightarrow>
    relay_step env st (closeSession (session_id (rl_store st ! a)) (st\<lparr>rl_clock := after\<rparr>))"
| never_ready: "a < length (rl_store st) \<Longrightarrow> \<not> as_pty (rl_store st ! a) \<Longrightarrow> relay_step env st (closeSession (session_id (rl_store st ! a)) st)"
| opened: "(a, k) \<in> set (rl_opening st) \<Longrightarrow> start_outcome env k None \<Longrightarrow>
    relay_step env st (terminal_opened env a written announced (st\<lparr>rl_opening := remove1 (a, k) (rl_opening st)\<rparr>))"
| failed: "(a, k) \<in> set (rl_opening st) \<Longrightarrow> start_outcome env k (Some err) \<Longrightarrow>
    relay_step env st (terminal_failed env a k err written announced (st\<lparr>rl_opening := remove1 (a, k) (rl_opening st)\<rparr>))"
| took: "a < length (rl_store st) \<Longrightarrow> as_input (rl_store st ! a) = p # ps \<Longrightarrow> relay_step env st (take_input a p ok st)"
| wrote: "a < length (rl_store st) \<Longrightarrow> as_pty (rl_store st ! a) \<Longrightarrow> length b \<le> 8192 \<Longrightarrow> relay_step env st (terminal_output env a b written announced st)"
| finished: "a < length (rl_store st) \<Longrightarrow> as_pty (rl_store st ! a) \<Longrightarrow>
    relay_step env st (end_terminal (session_id (rl_store st ! a)) announced st)"

inductive relay_reach :: "relay_env \<Rightarrow> relay \<Rightarrow> bool" for env where
  start: "0 \<le> now \<Longrightarrow> relay_reach env (new_relay now)"
| step: "relay_reach env st \<Longrightarrow> relay_step env st st' \<Longrightarrow> relay_reach env st'"

section \<open>Reconnecting\<close>

text \<open>How one connection ended: the status of the service when it refused the dial (any other error is \<open>None\<close>), whether the context was
  cancelled by then, and whether it was cancelled during the wait.\<close>

record attempt =
  at_refused :: "int option"
  at_cancelled :: bool
  at_cancelled_waiting :: bool

datatype serve_result = BadEndpoint cloud_error | ServeRefused int | Stopped

definition attempt_result :: "attempt \<Rightarrow> serve_result option" where
  "attempt_result x =
    (if at_cancelled x then Some Stopped
     else case at_refused x of
       Some status \<Rightarrow> if status = 401 \<or> status = 403 then Some (ServeRefused status) else if at_cancelled_waiting x then Some Stopped else None
     | None \<Rightarrow> if at_cancelled_waiting x then Some Stopped else None)"

text \<open>The loop may run forever; \<open>None\<close> is that it does.\<close>

partial_function (option) serve_from :: "(nat \<Rightarrow> attempt) \<Rightarrow> nat \<Rightarrow> serve_result option" where
  "serve_from attempts n = (case attempt_result (attempts n) of Some r \<Rightarrow> Some r | None \<Rightarrow> serve_from attempts (Suc n))"

definition servePath :: "sync_env \<Rightarrow> State \<Rightarrow> (nat \<Rightarrow> attempt) \<Rightarrow> serve_result option" where
  "servePath env s attempts = (case ValidateURL env (cs_URL s) of Some e \<Rightarrow> Some (BadEndpoint e) | None \<Rightarrow> serve_from attempts 0)"

section \<open>The invariant\<close>

text \<open>What holds of one session: its request was signed by the owner for this device and connection, its queue is bounded, and one that
  did not ask to choose a target counts as started.\<close>

definition session_ok :: "relay_env \<Rightarrow> agent_session \<Rightarrow> bool" where
  "session_ok env x \<longleftrightarrow> length (as_input x) \<le> 32 \<and> (so_Mode (as_open x) \<noteq> ''ssh'' \<longrightarrow> as_started x) \<and> so_OpenDevice (as_open x) = re_device env \<and> so_Epoch (as_open x) = re_epoch env \<and>
    (\<exists>sig. DecodeString (so_Signature (as_open x)) = Some sig \<and>
       cy_verify (re_cy env) (cy_public (re_cy env) (vault_private (re_cy env) (re_master env))) (ShellOpen_Message (re_user env) (as_open x)) sig)"

definition maps_ok :: "relay \<Rightarrow> bool" where
  "maps_ok st \<longleftrightarrow> gm_len (rl_sessions st) \<le> 2 \<and> gm_len (rl_seen st) \<le> 256 \<and>
    (\<forall>i a. gm_lookup (rl_sessions st) i = Some a \<longleftrightarrow> a < length (rl_store st) \<and> session_id (rl_store st ! a) = i \<and> \<not> as_closed (rl_store st ! a))"

text \<open>What was started: at most one terminal for each session, and an attached terminal is one that could be opened.\<close>

definition opened_for :: "relay_env \<Rightarrow> nat \<Rightarrow> relay \<Rightarrow> bool" where
  "opened_for env a st \<longleftrightarrow> (\<exists>k. (a, k) \<in> set (rl_started st) \<and> start_outcome env k None)"

definition starts_ok :: "relay_env \<Rightarrow> relay \<Rightarrow> bool" where
  "starts_ok env st \<longleftrightarrow> (\<forall>a < length (rl_store st). as_pty (rl_store st ! a) \<longrightarrow> opened_for env a st) \<and> distinct (map fst (rl_started st)) \<and> set (rl_opening st) \<subseteq> set (rl_started st) \<and>
    (\<forall>a k. (a, k) \<in> set (rl_started st) \<longrightarrow> a < length (rl_store st) \<and> as_started (rl_store st ! a) \<and>
       (k = LocalTerminal \<longleftrightarrow> so_Mode (as_open (rl_store st ! a)) \<noteq> ''ssh''))"

definition seen_ok :: "relay \<Rightarrow> bool" where
  "seen_ok st \<longleftrightarrow> 0 \<le> rl_clock st \<and> (\<forall>x \<in> set (rl_store st). 0 < so_Expires (as_open x) \<and>
     (so_Expires (as_open x) \<le> rl_clock st \<or> gm_lookup (rl_seen st) (session_id x) = Some (so_Expires (as_open x))))"

definition relay_inv :: "relay_env \<Rightarrow> relay \<Rightarrow> bool" where
  "relay_inv env st \<longleftrightarrow> maps_ok st \<and> starts_ok env st \<and> seen_ok st \<and> (\<forall>x \<in> set (rl_store st). session_ok env x)"

lemmas relay_inv_defs = relay_inv_def maps_ok_def starts_ok_def opened_for_def seen_ok_def

lemma gm_len_delete_le: "gm_len (gm_delete k m) \<le> gm_len m"
  by (simp add: gm_len_def gm_keys_delete length_remove1)

lemma gm_len_filter_le: "gm_len (gm_filter P m) \<le> gm_len m"
proof -
  have "set (gm_keys (gm_filter P m)) \<subseteq> set (gm_keys m)" by (auto simp: in_gm_keys split: option.splits)
  then have "card (set (gm_keys (gm_filter P m))) \<le> card (set (gm_keys m))" by (intro card_mono) simp_all
  then show ?thesis by (simp add: gm_len_def distinct_card)
qed

text \<open>What the log of requests says depends on the requests of the store only.\<close>

lemma seen_ok_same_requests:
  "seen_ok st \<Longrightarrow> rl_clock st' = rl_clock st \<Longrightarrow> rl_seen st' = rl_seen st \<Longrightarrow> as_open ` set (rl_store st') \<subseteq> as_open ` set (rl_store st) \<Longrightarrow> seen_ok st'"
  unfolding seen_ok_def by (simp add: image_subset_iff image_iff) metis

lemma starts_ok_mono:
  "starts_ok env st \<Longrightarrow> rl_started st' = rl_started st \<Longrightarrow> rl_opening st' = rl_opening st \<Longrightarrow> length (rl_store st') = length (rl_store st) \<Longrightarrow>
   (\<And>a. a < length (rl_store st) \<Longrightarrow> as_open (rl_store st' ! a) = as_open (rl_store st ! a) \<and> (as_started (rl_store st ! a) \<longrightarrow> as_started (rl_store st' ! a)) \<and>
      (as_pty (rl_store st' ! a) \<longrightarrow> as_pty (rl_store st ! a) \<or> opened_for env a st)) \<Longrightarrow>
   starts_ok env st'"
  unfolding starts_ok_def opened_for_def by simp blast

lemma update_requests: "as_open y = as_open (xs ! a) \<Longrightarrow> a < length xs \<Longrightarrow> as_open ` set (xs[a := y]) \<subseteq> as_open ` set xs"
  using set_update_subset_insert[of xs a y] by (metis image_eqI image_mono image_insert insert_absorb nth_mem order_trans)

lemma update_sessions: "\<forall>x \<in> set xs. session_ok env x \<Longrightarrow> session_ok env y \<Longrightarrow> \<forall>x \<in> set (xs[a := y]). session_ok env x"
  using set_update_subset_insert[of xs a y] by blast

text \<open>A change of one session that keeps its request and whether it is closed.\<close>

lemma inv_on_session:
  assumes inv: "relay_inv env st" and a: "a < length (rl_store st)"
    and f: "as_open (f (rl_store st ! a)) = as_open (rl_store st ! a)" "as_closed (f (rl_store st ! a)) = as_closed (rl_store st ! a)"
    "as_started (rl_store st ! a) \<Longrightarrow> as_started (f (rl_store st ! a))" "length (as_input (f (rl_store st ! a))) \<le> 32"
    "as_pty (f (rl_store st ! a)) \<Longrightarrow> as_pty (rl_store st ! a) \<or> opened_for env a st"
  shows "relay_inv env (on_session a f st)"
proof -
  have "maps_ok (on_session a f st)" using inv a f unfolding relay_inv_def maps_ok_def on_session_def by (simp add: nth_list_update)
  moreover have "starts_ok env (on_session a f st)"
    by (rule starts_ok_mono[of env st]) (use inv a f in \<open>auto simp: relay_inv_def on_session_def nth_list_update\<close>)
  moreover have "seen_ok (on_session a f st)"
    by (rule seen_ok_same_requests[of st]) (use inv update_requests[OF f(1) a] in \<open>auto simp: relay_inv_def on_session_def\<close>)
  moreover have "session_ok env (f (rl_store st ! a))" using inv f a nth_mem[OF a] unfolding relay_inv_def session_ok_def by metis
  ultimately show ?thesis using inv update_sessions[of "rl_store st" env "f (rl_store st ! a)" a] unfolding relay_inv_def on_session_def by simp
qed

lemma session_close_sel [simp]:
  "as_open (session_close x) = as_open x" "as_closed (session_close x)" "as_started (session_close x) = as_started x" "as_input (session_close x) = as_input x"
  "as_pty (session_close x) = as_pty x"
  by (simp_all add: session_close_def)

lemma inv_closeSession:
  assumes inv: "relay_inv env st" shows "relay_inv env (closeSession i st)"
proof (cases "gm_lookup (rl_sessions st) i")
  case (Some a)
  let ?x = "rl_store st ! a" and ?st = "closeSession i st"
  have st: "?st = st\<lparr>rl_sessions := gm_delete i (rl_sessions st), rl_store := (rl_store st)[a := session_close ?x]\<rparr>"
    using Some by (simp add: closeSession_def on_session_def)
  have m: "gm_lookup (rl_sessions st) j = Some b \<longleftrightarrow> b < length (rl_store st) \<and> session_id (rl_store st ! b) = j \<and> \<not> as_closed (rl_store st ! b)" for j b
    using inv unfolding relay_inv_def maps_ok_def by blast
  have a: "a < length (rl_store st)" "session_id ?x = i" using m Some by auto
  have "gm_lookup (rl_sessions ?st) j = Some b \<longleftrightarrow> b < length (rl_store ?st) \<and> session_id (rl_store ?st ! b) = j \<and> \<not> as_closed (rl_store ?st ! b)" for j b
    using m[of j b] m[of i b] Some a unfolding st by (cases "b = a") auto
  then have "maps_ok ?st" using inv gm_len_delete_le[of i "rl_sessions st"] unfolding relay_inv_def maps_ok_def st by auto
  moreover have "starts_ok env ?st" by (rule starts_ok_mono[of env st]) (use inv a in \<open>auto simp: relay_inv_def st nth_list_update\<close>)
  moreover have "seen_ok ?st" by (rule seen_ok_same_requests[of st]) (use inv update_requests[OF session_close_sel(1) a(1)] in \<open>auto simp: relay_inv_def st\<close>)
  moreover have "session_ok env (session_close ?x)" using inv a unfolding relay_inv_def session_ok_def by simp
  ultimately show ?thesis using inv update_sessions[of "rl_store st" env "session_close ?x" a] unfolding relay_inv_def st by simp
qed (use inv in \<open>simp add: closeSession_def\<close>)

lemma inv_frame:
  "relay_inv env st \<Longrightarrow> relay_inv env (relay_send m w st)"
  "relay_inv env st \<Longrightarrow> relay_inv env (st\<lparr>rl_opening := remove1 x (rl_opening st)\<rparr>)"
  "relay_inv env st \<Longrightarrow> rl_clock st \<le> now \<Longrightarrow> relay_inv env (st\<lparr>rl_clock := now\<rparr>)"
  using set_remove1_subset[of x "rl_opening st"]
  by (auto simp: relay_inv_defs relay_send_def split: if_splits)

lemma inv_session_payload:
  assumes "relay_inv env st" "a < length (rl_store st)"
  shows "relay_inv env (snd (session_payload env a p w st))"
proof -
  have "length (as_input (rl_store st ! a)) \<le> 32" using assms unfolding relay_inv_def session_ok_def by auto
  then show ?thesis using assms by (auto simp: session_payload_def split: prod.splits sum.splits intro!: inv_frame inv_on_session)
qed

lemma session_queue: "relay_inv env st \<Longrightarrow> a < length (rl_store st) \<Longrightarrow> length (as_input (rl_store st ! a)) \<le> 32"
  unfolding relay_inv_def session_ok_def by simp

lemma on_session_length [simp]: "length (rl_store (on_session a f st)) = length (rl_store st)"
  by (simp add: on_session_def)

lemma closeSession_length [simp]: "length (rl_store (closeSession i st)) = length (rl_store st)"
  by (simp add: closeSession_def split: option.splits)

lemma session_payload_length [simp]: "length (rl_store (snd (session_payload env a p w st))) = length (rl_store st)"
  by (auto simp: session_payload_def relay_send_def split: prod.splits sum.splits)

lemma inv_starts:
  assumes "relay_inv env st" "a < length (rl_store st)" "as_started (rl_store st ! a)" "a \<notin> fst ` set (rl_started st)"
    "k = LocalTerminal \<longleftrightarrow> so_Mode (as_open (rl_store st ! a)) \<noteq> ''ssh''"
  shows "relay_inv env (st\<lparr>rl_opening := rl_opening st @ [(a, k)], rl_started := rl_started st @ [(a, k)]\<rparr>)"
  using assms unfolding relay_inv_def maps_ok_def starts_ok_def opened_for_def seen_ok_def by auto

lemma starts_started: "relay_inv env st \<Longrightarrow> a \<in> fst ` set (rl_started st) \<Longrightarrow> a < length (rl_store st) \<and> as_started (rl_store st ! a)"
  unfolding relay_inv_def starts_ok_def by force

lemma inv_on_connect:
  assumes inv: "relay_inv env st" and a: "gm_lookup (rl_sessions st) i = Some a"
  shows "relay_inv env (on_connect a i p st)"
proof -
  have len: "a < length (rl_store st)" using inv a unfolding relay_inv_def maps_ok_def by blast
  define st1 where "st1 = on_session a (\<lambda>x. x\<lparr>as_started := True\<rparr>) st"
  have i1: "relay_inv env st1" unfolding st1_def by (rule inv_on_session[OF inv len]) (use session_queue[OF inv len] in simp_all)
  have x1: "rl_store st1 ! a = (rl_store st ! a)\<lparr>as_started := True\<rparr>" "rl_started st1 = rl_started st" using len by (simp_all add: st1_def on_session_def)
  show ?thesis
  proof (cases "as_started (rl_store st ! a) \<or> as_closed (rl_store st ! a)")
    case True
    then show ?thesis using inv_closeSession[OF i1, of i] by (simp add: on_connect_def st1_def[symmetric])
  next
    case False
    then have "a \<notin> fst ` set (rl_started st)" using starts_started[OF inv] by blast
    moreover have "so_Mode (as_open (rl_store st ! a)) = ''ssh''" using False inv len unfolding relay_inv_def by (auto simp: session_ok_def)
    ultimately have "relay_inv env (st1\<lparr>rl_opening := rl_opening st1 @ [(a, RemoteTarget p)], rl_started := rl_started st1 @ [(a, RemoteTarget p)]\<rparr>)"
      using len x1 by (intro inv_starts[OF i1]) (simp_all add: st1_def)
    then show ?thesis using False by (simp add: on_connect_def st1_def[symmetric])
  qed
qed

lemma inv_on_input:
  assumes inv: "relay_inv env st" and len: "a < length (rl_store st)"
  shows "relay_inv env (on_input a i p st)"
  using inv_closeSession[OF inv, of i] by (auto simp: on_input_def intro!: inv_on_session[OF inv len])

lemma inv_on_frame:
  assumes inv: "relay_inv env st"
  shows "relay_inv env (on_frame env f st)"
proof (cases "gm_lookup (rl_sessions st) (sf_Session f)")
  case (Some a)
  then have len: "a < length (rl_store st)" using inv unfolding relay_inv_def maps_ok_def by blast
  obtain r c where o: "Open (re_cy env) (re_pc env) f (as_recv (rl_store st ! a)) = (r, c)" by (rule prod.exhaust)
  have i1: "relay_inv env (on_session a (\<lambda>x. x\<lparr>as_recv := c\<rparr>) st)" by (rule inv_on_session[OF inv len]) (use session_queue[OF inv len] in simp_all)
  have "gm_lookup (rl_sessions (on_session a (\<lambda>x. x\<lparr>as_recv := c\<rparr>) st)) (sf_Session f) = Some a" using Some by (simp add: on_session_def)
  then show ?thesis using Some o inv_closeSession[OF inv] inv_on_connect[OF i1] inv_on_input[OF i1] len
    by (simp add: on_frame_def Let_def split: sum.splits)
qed (simp add: on_frame_def inv)

text \<open>A verified request that is not refused.\<close>

lemma VerifyShell_ok:
  assumes "VerifyShell (re_cy env) now later (re_master env) r (re_user env) (re_device env) (re_epoch env)"
  shows "now < so_Expires r" "x = \<lparr>as_open = r, as_deadline = d, as_recv = c1, as_send = c2, as_pty = False, as_started = (so_Mode r \<noteq> ''ssh''),
     as_closed = False, as_input = []\<rparr> \<Longrightarrow> session_ok env x"
  using assms by (auto simp: VerifyShell_def session_ok_def public_decoded split: if_splits option.splits)

lemma inv_new_session:
  assumes inv: "relay_inv env st" and idle: "\<not> relay_busy r st" and r: "0 < so_Expires r" "session_ok env x" "as_open x = r" "\<not> as_closed x" "\<not> as_pty x"
  shows "relay_inv env (st\<lparr>rl_seen := gm_update (so_Session r) (so_Expires r) (rl_seen st),
     rl_sessions := gm_update (so_Session r) (length (rl_store st)) (rl_sessions st), rl_store := rl_store st @ [x]\<rparr>)" (is "relay_inv env ?st")
proof -
  have m: "gm_lookup (rl_sessions st) j = Some b \<longleftrightarrow> b < length (rl_store st) \<and> session_id (rl_store st ! b) = j \<and> \<not> as_closed (rl_store st ! b)" for j b
    using inv unfolding relay_inv_def maps_ok_def by blast
  have new: "gm_lookup (rl_sessions st) (so_Session r) = None" "gm_lookup (rl_seen st) (so_Session r) \<in> {None, Some 0}"
    "gm_len (rl_sessions st) < 2" "gm_len (rl_seen st) < 256" using idle unfolding relay_busy_def by (auto split: option.splits)
  have "gm_lookup (rl_sessions ?st) j = Some b \<longleftrightarrow> b < length (rl_store ?st) \<and> session_id (rl_store ?st ! b) = j \<and> \<not> as_closed (rl_store ?st ! b)" for j b
    using m[of j b] new(1) r(3,4) by (cases "b = length (rl_store st)") (auto simp: nth_append)
  then have "maps_ok ?st" using new unfolding maps_ok_def by (auto simp: gm_len_update)
  moreover have "starts_ok env ?st" using inv r(5) unfolding relay_inv_def starts_ok_def opened_for_def by (auto simp: nth_append intro: less_SucI)
  moreover have "seen_ok ?st" using inv new(2) r(1,3) unfolding relay_inv_def seen_ok_def by auto
  moreover have "\<forall>x \<in> set (rl_store ?st). session_ok env x" using inv r(2) unfolding relay_inv_def by simp
  ultimately show ?thesis unfolding relay_inv_def by blast
qed

lemma inv_admit:
  assumes inv: "relay_inv env st" and idle: "\<not> relay_busy r st" and r: "0 < so_Expires r"
    and v: "VerifyShell (re_cy env) now later (re_master env) r (re_user env) (re_device env) (re_epoch env)"
  shows "relay_inv env (admit env r w st)"
proof (cases "new_cipher env (so_Session r) ''c2a'' = None \<or> new_cipher env (so_Session r) ''a2c'' = None")
  case False
  then obtain c1 c2 where c: "new_cipher env (so_Session r) ''c2a'' = Some c1" "new_cipher env (so_Session r) ''a2c'' = Some c2" by auto
  define a where "a = length (rl_store st)"
  define x where "x = \<lparr>as_open = r, as_deadline = terminalContext r, as_recv = c1, as_send = c2, as_pty = False,
     as_started = (so_Mode r \<noteq> ''ssh''), as_closed = False, as_input = []\<rparr>"
  define st1 where "st1 = st\<lparr>rl_seen := gm_update (so_Session r) (so_Expires r) (rl_seen st),
     rl_sessions := gm_update (so_Session r) a (rl_sessions st), rl_store := rl_store st @ [x]\<rparr>"
  have i1: "relay_inv env st1" unfolding st1_def a_def by (rule inv_new_session[OF inv idle r VerifyShell_ok(2)[OF v x_def]]) (simp_all add: x_def)
  have a1: "a < length (rl_store st1)" "rl_store st1 ! a = x" by (simp_all add: st1_def a_def)
  have fresh: "a \<notin> fst ` set (rl_started st1)" using starts_started[OF inv, of a] by (auto simp: st1_def a_def)
  have body: "admit env r w st = (if so_Mode r = ''ssh''
      then (case session_payload env a (typed_payload ''select'') w st1 of (True, st2) \<Rightarrow> st2 | (False, st2) \<Rightarrow> closeSession (so_Session r) st2)
      else st1\<lparr>rl_opening := rl_opening st1 @ [(a, LocalTerminal)], rl_started := rl_started st1 @ [(a, LocalTerminal)]\<rparr>)"
    unfolding admit_def Let_def c a_def st1_def x_def by simp
  show ?thesis
  proof (cases "so_Mode r = ''ssh''")
    case True
    obtain ok st2 where p: "session_payload env a (typed_payload ''select'') w st1 = (ok, st2)" by (rule prod.exhaust)
    have "relay_inv env st2" using inv_session_payload[OF i1 a1(1), of "typed_payload ''select''" w] p by simp
    then show ?thesis using True p inv_closeSession by (cases ok) (simp_all add: body)
  next
    case False
    then show ?thesis using inv_starts[OF i1 a1(1) _ fresh, of LocalTerminal] by (simp add: body a1(2)) (simp add: x_def)
  qed
qed (use inv in \<open>auto simp: admit_def split: option.splits\<close>)

text \<open>The clock is read before the sessions are touched, so recording its reading first or last is the same.\<close>

lemma clock_commutes:
  "closeSession i (st\<lparr>rl_clock := t\<rparr>) = (closeSession i st)\<lparr>rl_clock := t\<rparr>"
  "relay_send m w (st\<lparr>rl_clock := t\<rparr>) = (relay_send m w st)\<lparr>rl_clock := t\<rparr>"
  "relay_busy r (st\<lparr>rl_clock := t\<rparr>) = relay_busy r st"
  "session_payload env a p w (st\<lparr>rl_clock := t\<rparr>) = (fst (session_payload env a p w st), (snd (session_payload env a p w st))\<lparr>rl_clock := t\<rparr>)"
  by (auto simp: closeSession_def relay_send_def relay_busy_def session_payload_def on_session_def split: option.splits sum.splits prod.splits)

lemma admit_clock: "admit env r w (st\<lparr>rl_clock := t\<rparr>) = (admit env r w st)\<lparr>rl_clock := t\<rparr>"
proof -
  define st1 where "st1 x = st\<lparr>rl_seen := gm_update (so_Session r) (so_Expires r) (rl_seen st),
     rl_sessions := gm_update (so_Session r) (length (rl_store st)) (rl_sessions st), rl_store := rl_store st @ [x]\<rparr>" for x
  have "(st\<lparr>rl_clock := t\<rparr>)\<lparr>rl_seen := gm_update (so_Session r) (so_Expires r) (rl_seen st),
     rl_sessions := gm_update (so_Session r) (length (rl_store st)) (rl_sessions st), rl_store := rl_store st @ [x]\<rparr> = (st1 x)\<lparr>rl_clock := t\<rparr>" for x
    by (simp add: st1_def)
  then show ?thesis unfolding admit_def Let_def
    by (auto simp: st1_def[symmetric] clock_commutes split: option.splits prod.splits bool.splits)
qed

lemma inv_pruned:
  assumes "relay_inv env st" "readings_ok (rl_clock st) rd after"
  shows "relay_inv env (st\<lparr>rl_seen := prune_seen (rd_tick rd) (rl_seen st), rl_clock := after\<rparr>)"
proof -
  have r: "rl_clock st \<le> after" "\<And>i. rd_tick rd i \<le> after" using assms(2) unfolding readings_ok_def by (meson order_trans)+
  have "0 \<le> rl_clock st" "e \<le> rl_clock st \<or> gm_lookup (rl_seen st) i = Some e \<Longrightarrow> e \<le> after \<or> gm_lookup (prune_seen (rd_tick rd) (rl_seen st)) i = Some e" for e i
    using assms(1) r(1) r(2)[of i] unfolding relay_inv_def seen_ok_def prune_seen_def by (auto split: option.splits)
  then have "seen_ok (st\<lparr>rl_seen := prune_seen (rd_tick rd) (rl_seen st), rl_clock := after\<rparr>)"
    using assms(1) r(1) unfolding relay_inv_def seen_ok_def by auto
  moreover have "gm_len (prune_seen (rd_tick rd) (rl_seen st)) \<le> gm_len (rl_seen st)" unfolding prune_seen_def by (rule gm_len_filter_le)
  ultimately show ?thesis using assms(1) unfolding relay_inv_def maps_ok_def starts_ok_def opened_for_def by simp
qed

lemma inv_on_open:
  assumes inv: "relay_inv env st" and rd: "readings_ok (rl_clock st) rd after"
  shows "relay_inv env ((on_open env rd w ro st)\<lparr>rl_clock := after\<rparr>)"
proof -
  define st1 where "st1 = st\<lparr>rl_seen := prune_seen (rd_tick rd) (rl_seen st)\<rparr>"
  have le: "rl_clock st \<le> after" using rd unfolding readings_ok_def by (meson order_trans)
  have keep: "relay_inv env (st\<lparr>rl_clock := after\<rparr>)" by (rule inv_frame(3)[OF inv le])
  have i1: "relay_inv env (st1\<lparr>rl_clock := after\<rparr>)" using inv_pruned[OF inv rd] by (simp add: st1_def)
  show ?thesis
  proof (cases ro)
    case (Some r)
    show ?thesis
    proof (cases "VerifyShell (re_cy env) (rd_now rd) (rd_later rd) (re_master env) r (re_user env) (re_device env) (re_epoch env)")
      case True
      have "0 \<le> rl_clock st" "rl_clock st \<le> rd_now rd" using inv rd unfolding relay_inv_def seen_ok_def readings_ok_def by auto
      then have "0 < so_Expires r" using VerifyShell_ok(1)[OF True] by linarith
      then show ?thesis using True Some inv_frame(1)[OF i1] inv_admit[OF i1 _ _ True]
        by (simp add: on_open_def Let_def st1_def[symmetric] clock_commutes admit_clock)
    qed (simp add: on_open_def Some keep)
  qed (simp add: on_open_def keep)
qed

lemma inv_payload_end:
  assumes inv: "relay_inv env st" and len: "a < length (rl_store st)"
  shows "relay_inv env (case session_payload env a p w st of (True, st2) \<Rightarrow> st2 | (False, st2) \<Rightarrow> end_terminal i announced st2)"
proof -
  obtain ok st2 where p: "session_payload env a p w st = (ok, st2)" by (rule prod.exhaust)
  have "relay_inv env st2" using inv_session_payload[OF inv len, of p w] p by simp
  then show ?thesis using p inv_closeSession inv_frame(1) by (cases ok) (simp_all add: end_terminal_def)
qed

lemma inv_step: "relay_step env st st' \<Longrightarrow> relay_inv env st \<Longrightarrow> relay_inv env st'"
proof (induction rule: relay_step.induct)
  case (handled st rd after written m st')
  have "rl_clock st \<le> after" using handled(1) unfolding readings_ok_def by (meson order_trans)
  then have keep: "relay_inv env x \<Longrightarrow> rl_clock x = rl_clock st \<Longrightarrow> relay_inv env (x\<lparr>rl_clock := after\<rparr>)" for x using inv_frame(3) by simp
  have clock: "rl_clock (on_session a f x) = rl_clock x" "rl_clock (closeSession i x) = rl_clock x" for a f x i
    by (simp_all add: on_session_def closeSession_def split: option.splits)
  have "rl_clock (on_frame env f st) = rl_clock st" for f
    by (simp add: on_frame_def on_connect_def on_input_def Let_def clock split: option.splits prod.splits sum.splits)
  then show ?case using handled keep inv_on_open[OF handled(3,1)] inv_on_frame[OF handled(3)] inv_closeSession[OF handled(3)] clock(2)
    by (cases "(env, rd, written, m, st)" rule: handle_message.cases) auto
next
  case (expired a st after d)
  then show ?case by (intro inv_closeSession inv_frame(3))
next
  case (never_ready a st)
  then show ?case by (intro inv_closeSession)
next
  case (opened a k st written announced)
  let ?st = "st\<lparr>rl_opening := remove1 (a, k) (rl_opening st)\<rparr>"
  have inv: "relay_inv env ?st" by (rule inv_frame(2)[OF opened(3)])
  have len: "a < length (rl_store ?st)" using opened unfolding relay_inv_def starts_ok_def by auto
  have "opened_for env a ?st" using opened unfolding opened_for_def relay_inv_def starts_ok_def by auto
  then have "relay_inv env (on_session a (\<lambda>x. x\<lparr>as_pty := True\<rparr>) ?st)" by (intro inv_on_session[OF inv len]) (use session_queue[OF inv len] in simp_all)
  from inv_payload_end[OF this] show ?case using inv len by (simp add: terminal_opened_def session_attach_def Let_def)
next
  case (failed a k st err written announced)
  let ?st = "st\<lparr>rl_opening := remove1 (a, k) (rl_opening st)\<rparr>"
  have inv: "relay_inv env ?st" by (rule inv_frame(2)[OF failed(3)])
  have len: "a < length (rl_store ?st)" using failed unfolding relay_inv_def starts_ok_def by auto
  show ?case unfolding terminal_failed_def Let_def
    by (intro inv_frame(1) inv_closeSession) (use inv inv_session_payload[OF inv len] in \<open>auto split: start.splits\<close>)
next
  case (took a st p ps ok)
  have "length (as_input (rl_store st ! a)) \<le> 32" using session_queue took by blast
  then have "relay_inv env (on_session a (\<lambda>x. x\<lparr>as_input := tl (as_input x)\<rparr>) st)" using took by (intro inv_on_session) auto
  then show ?case using inv_closeSession by (simp add: take_input_def Let_def)
next
  case (wrote a st b written announced)
  then show ?case unfolding terminal_output_def by (intro inv_payload_end)
next
  case (finished a st announced)
  then show ?case unfolding end_terminal_def by (intro inv_closeSession inv_frame(1))
qed

lemma relay_invariant: "relay_reach env st \<Longrightarrow> relay_inv env st"
proof (induction rule: relay_reach.induct)
  case (start now)
  then show ?case unfolding relay_inv_def maps_ok_def starts_ok_def seen_ok_def new_relay_def by simp
qed (rule inv_step)

lemma admit_length:
  assumes "new_cipher env (so_Session r) ''c2a'' \<noteq> None" "new_cipher env (so_Session r) ''a2c'' \<noteq> None"
  shows "length (rl_store (admit env r w st)) = Suc (length (rl_store st))"
proof -
  have "length (rl_store (case session_payload env a p w st1 of (True, st2) \<Rightarrow> st2 | (False, st2) \<Rightarrow> closeSession i st2)) = length (rl_store st1)" for a p i st1
    using session_payload_length[of env a p w st1] by (cases "session_payload env a p w st1") (simp split: bool.splits)
  then show ?thesis using assms by (auto simp: admit_def Let_def)
qed

lemma live_sessions:
  assumes "maps_ok st"
  shows "card {a. a < length (rl_store st) \<and> \<not> as_closed (rl_store st ! a)} \<le> 2"
proof -
  let ?A = "{a. a < length (rl_store st) \<and> \<not> as_closed (rl_store st ! a)}" and ?f = "\<lambda>a. session_id (rl_store st ! a)"
  have m: "gm_lookup (rl_sessions st) (?f a) = Some a" if "a \<in> ?A" for a using assms that unfolding maps_ok_def by blast
  have "inj_on ?f ?A" using m by (metis (mono_tags, lifting) inj_onI option.inject)
  moreover have "?f ` ?A \<subseteq> set (gm_keys (rl_sessions st))" using m by (fastforce simp: in_gm_keys)
  ultimately have "card ?A \<le> card (set (gm_keys (rl_sessions st)))" by (intro card_inj_on_le) simp_all
  also have "\<dots> = gm_len (rl_sessions st)" by (simp add: gm_len_def distinct_card)
  finally show ?thesis using assms unfolding maps_ok_def by simp
qed

lemma openTarget_succeeds:
  assumes "openTarget tenv state master p = (Inr c, ev)"
  shows "\<exists>now snap v entry. UnlockMaster (se_cy (tn_sync tenv)) now (cs_Username state) snap master = Inr v \<and>
    gm_lookup (vd_Entries (va_Data v)) (py_Target p) = Some entry \<and> gm_lookup (vd_Deleted (va_Data v)) (py_Target p) \<noteq> Some True \<and>
    gm_lookup (vd_Conflicts (va_Data v)) (py_Target p) = None"
  using assms by (auto simp: openTarget_def split: if_splits sum.splits option.splits prod.splits)

text \<open>The first attempt that decides, from the \<open>n\<close>-th on.\<close>

definition decides :: "(nat \<Rightarrow> attempt) \<Rightarrow> nat \<Rightarrow> nat \<Rightarrow> serve_result \<Rightarrow> bool" where
  "decides attempts n k r \<longleftrightarrow> n \<le> k \<and> (\<forall>j. n \<le> j \<longrightarrow> j < k \<longrightarrow> attempt_result (attempts j) = None) \<and> attempt_result (attempts k) = Some r"

lemma decides_later: "attempt_result (attempts n) = None \<Longrightarrow> decides attempts (Suc n) k r \<Longrightarrow> decides attempts n k r"
  unfolding decides_def by (metis Suc_leD le_antisym not_less_eq_eq)

lemma serve_from_result: "serve_from attempts n = Some r \<Longrightarrow> \<exists>k. decides attempts n k r"
proof (induction rule: serve_from.raw_induct[rotated, consumes 1, case_names again])
  case (again loop attempts n r)
  show ?case
  proof (cases "attempt_result (attempts n)")
    case None
    with again have "\<exists>k. decides attempts (Suc n) k r" by simp
    then show ?thesis using decides_later[of attempts n] None by blast
  next
    case (Some q)
    with again have "attempt_result (attempts n) = Some r" by simp
    then have "decides attempts n n r" by (simp add: decides_def)
    then show ?thesis by blast
  qed
qed

lemma serve_from_stops:
  "(\<forall>j. n \<le> j \<and> j < n + d \<longrightarrow> attempt_result (attempts j) = None) \<Longrightarrow> attempt_result (attempts (n + d)) = Some r \<Longrightarrow> serve_from attempts n = Some r"
proof (induction d arbitrary: n)
  case 0
  then show ?case by (subst serve_from.simps) simp
next
  case (Suc d)
  have "attempt_result (attempts n) = None" using Suc.prems(1) by simp
  moreover have "serve_from attempts (Suc n) = Some r" using Suc.prems by (intro Suc.IH) auto
  ultimately show ?case by (subst serve_from.simps) simp
qed

lemma attached_target:
  assumes inv: "relay_inv env st" and a: "a < length (rl_store st)" "as_pty (rl_store st ! a)" "so_Mode (as_open (rl_store st ! a)) = ''ssh''"
  shows "\<exists>p now snap v entry. (a, RemoteTarget p) \<in> set (rl_started st) \<and>
    UnlockMaster (re_cy env) now (cs_Username (re_state env)) snap (re_master env) = Inr v \<and>
    gm_lookup (vd_Entries (va_Data v)) (py_Target p) = Some entry \<and> gm_lookup (vd_Deleted (va_Data v)) (py_Target p) \<noteq> Some True \<and>
    gm_lookup (vd_Conflicts (va_Data v)) (py_Target p) = None"
proof -
  from a obtain k where k: "(a, k) \<in> set (rl_started st)" "start_outcome env k None" using inv unfolding relay_inv_def starts_ok_def opened_for_def by blast
  moreover have "k \<noteq> LocalTerminal" using inv k(1) a(3) unfolding relay_inv_def starts_ok_def by blast
  ultimately obtain p where p: "k = RemoteTarget p" by (cases k) auto
  with k(2) obtain tenv where t: "se_cy (tn_sync tenv) = re_cy env"
    "None = (case fst (openTarget tenv (re_state env) (re_master env) p) of Inl e \<Rightarrow> Some e | Inr _ \<Rightarrow> None)" by auto
  obtain res ev where o: "openTarget tenv (re_state env) (re_master env) p = (res, ev)" by (rule prod.exhaust)
  with t(2) obtain c where c: "openTarget tenv (re_state env) (re_master env) p = (Inr c, ev)" by (cases res) auto
  from openTarget_succeeds[OF c] k(1) show ?thesis unfolding t(1) p by blast
qed

section \<open>Properties\<close>

text \<open>C9: in every state the agent can reach, whatever the relay sends and however the goroutines interleave: at most two sessions are
  live; every session was requested with a signature of the vault's owner for this device and this connection; for each session at most one
  terminal was ever started, a local one exactly when no target was to be chosen; input queues hold at most 32
  payloads; and a terminal attached to a session with a target reached an entry of a verified vault that is neither deleted nor in conflict.\<close>

theorem relay_terminals_are_authorised:
  assumes "relay_reach env st"
  shows "card {a. a < length (rl_store st) \<and> \<not> as_closed (rl_store st ! a)} \<le> 2 \<and> distinct (map fst (rl_started st)) \<and>
    (\<forall>x \<in> set (rl_store st). length (as_input x) \<le> 32 \<and> so_OpenDevice (as_open x) = re_device env \<and> so_Epoch (as_open x) = re_epoch env \<and>
       (\<exists>sig. DecodeString (so_Signature (as_open x)) = Some sig \<and>
         cy_verify (re_cy env) (cy_public (re_cy env) (vault_private (re_cy env) (re_master env))) (ShellOpen_Message (re_user env) (as_open x)) sig)) \<and>
    (\<forall>a k. (a, k) \<in> set (rl_started st) \<longrightarrow> a < length (rl_store st) \<and> (k = LocalTerminal \<longleftrightarrow> so_Mode (as_open (rl_store st ! a)) \<noteq> ''ssh'')) \<and>
    (\<forall>a < length (rl_store st). as_pty (rl_store st ! a) \<and> so_Mode (as_open (rl_store st ! a)) = ''ssh'' \<longrightarrow>
       (\<exists>p now snap v entry. (a, RemoteTarget p) \<in> set (rl_started st) \<and>
         UnlockMaster (re_cy env) now (cs_Username (re_state env)) snap (re_master env) = Inr v \<and>
         gm_lookup (vd_Entries (va_Data v)) (py_Target p) = Some entry \<and> gm_lookup (vd_Deleted (va_Data v)) (py_Target p) \<noteq> Some True \<and>
         gm_lookup (vd_Conflicts (va_Data v)) (py_Target p) = None))"
proof -
  have inv: "relay_inv env st" by (rule relay_invariant[OF assms])
  then have "card {a. a < length (rl_store st) \<and> \<not> as_closed (rl_store st ! a)} \<le> 2" using live_sessions unfolding relay_inv_def by blast
  moreover have "distinct (map fst (rl_started st))" using inv unfolding relay_inv_def starts_ok_def by blast
  moreover have st: "\<forall>a k. (a, k) \<in> set (rl_started st) \<longrightarrow> a < length (rl_store st) \<and> (k = LocalTerminal \<longleftrightarrow> so_Mode (as_open (rl_store st ! a)) \<noteq> ''ssh'')"
    using inv unfolding relay_inv_def starts_ok_def by blast
  moreover have "\<forall>x \<in> set (rl_store st). session_ok env x" using inv unfolding relay_inv_def by blast
  moreover have "\<exists>p now snap v entry. (a, RemoteTarget p) \<in> set (rl_started st) \<and>
         UnlockMaster (re_cy env) now (cs_Username (re_state env)) snap (re_master env) = Inr v \<and>
         gm_lookup (vd_Entries (va_Data v)) (py_Target p) = Some entry \<and> gm_lookup (vd_Deleted (va_Data v)) (py_Target p) \<noteq> Some True \<and>
         gm_lookup (vd_Conflicts (va_Data v)) (py_Target p) = None"
    if a: "a < length (rl_store st)" "as_pty (rl_store st ! a)" "so_Mode (as_open (rl_store st ! a)) = ''ssh''" for a
    using attached_target[OF inv a] .
  ultimately show ?thesis unfolding session_ok_def by blast
qed

definition demo_relay_env :: relay_env where
  "demo_relay_env = \<lparr>re_cy = demo_primitives, re_pc = demo_codec, re_user = ''alice'', re_device = ''device01'', re_epoch = ''epoch001'',
     re_master = vr_master demo_random, re_state = fresh_account\<rparr>"

definition unsigned_open :: ShellOpen where
  "unsigned_open = \<lparr>so_Lifetime = ''connection'', so_Mode = [], so_OpenType = ''open'', so_OpenDevice = ''device01'', so_Epoch = ''epoch001'',
     so_Session = ''session1'', so_Expires = 1000, so_Signature = []\<rparr>"

definition demo_open :: ShellOpen where
  "demo_open = unsigned_open\<lparr>so_Signature := EncodeToString (ShellOpen_Message ''alice'' unsigned_open)\<rparr>"

definition first_readings :: readings where "first_readings = \<lparr>rd_now = 10, rd_later = 10, rd_tick = \<lambda>_. 10\<rparr>"

definition relay_one :: relay where
  "relay_one = (on_open demo_relay_env first_readings True (Some demo_open) (new_relay 0))\<lparr>rl_clock := 10\<rparr>"

lemma demo_open_verified: "now < 1000 \<Longrightarrow> 0 \<le> later \<Longrightarrow> VerifyShell demo_primitives now later (vr_master demo_random) demo_open ''alice'' ''device01'' ''epoch001''"
proof -
  have "ShellOpen_Message ''alice'' demo_open = ShellOpen_Message ''alice'' unsigned_open" by (simp add: demo_open_def ShellOpen_Message_def)
  then show "now < 1000 \<Longrightarrow> 0 \<le> later \<Longrightarrow> VerifyShell demo_primitives now later (vr_master demo_random) demo_open ''alice'' ''device01'' ''epoch001''"
    by (simp add: VerifyShell_def) (simp add: demo_open_def unsigned_open_def demo_primitives_def)
qed

lemma demo_new_cipher: "new_cipher demo_relay_env i d = (if d = ''c2a'' \<or> d = ''a2c'' then Some \<lparr>sc_key = replicate 32 (CHR ''h''), sc_session = i, sc_direction = d, sc_seq = 0\<rparr> else None)"
  by (simp add: new_cipher_def NewShellCipher_def Let_def demo_relay_env_def demo_random_def derive_def aes_key_def) (simp add: demo_primitives_def)

lemma relay_one_eq: "relay_one = \<lparr>rl_sessions = gm_update ''session1'' 0 gm_empty, rl_seen = gm_update ''session1'' 1000 gm_empty,
    rl_store = [\<lparr>as_open = demo_open, as_deadline = None, as_recv = demo_cipher, as_send = demo_cipher\<lparr>sc_direction := ''a2c''\<rparr>, as_pty = False, as_started = True,
      as_closed = False, as_input = []\<rparr>], rl_opening = [(0, LocalTerminal)], rl_started = [(0, LocalTerminal)], rl_sent = [], rl_clock = 10\<rparr>"
proof -
  have p: "prune_seen t gm_empty = gm_empty" for t by (rule gm_eqI) (simp add: prune_seen_def)
  have v: "VerifyShell (re_cy demo_relay_env) (rd_now first_readings) (rd_later first_readings) (re_master demo_relay_env) demo_open (re_user demo_relay_env)
      (re_device demo_relay_env) (re_epoch demo_relay_env)"
    using demo_open_verified[of 10 10] by (simp add: demo_relay_env_def first_readings_def)
  have f: "so_Session demo_open = ''session1''" "so_Expires demo_open = 1000" "so_Mode demo_open = []" "terminalContext demo_open = None"
    by (simp_all add: demo_open_def unsigned_open_def terminalContext_def)
  show ?thesis unfolding relay_one_def on_open_def
    by (simp add: v new_relay_def p relay_busy_def f admit_def demo_new_cipher) (simp add: demo_cipher_def)
qed

lemma relay_one_reached: "relay_reach demo_relay_env relay_one"
proof -
  have "relay_reach demo_relay_env (new_relay 0)" by (rule relay_reach.start) simp
  moreover have "readings_ok (rl_clock (new_relay 0)) first_readings 10" by (simp add: readings_ok_def new_relay_def first_readings_def)
  then have "relay_step demo_relay_env (new_relay 0) relay_one"
    unfolding relay_one_def by (rule relay_step.handled) (rule handle_message.simps(2))
  ultimately show ?thesis by (rule relay_reach.step)
qed

theorem relay_terminals_are_authorised_witness:
  "so_OpenDevice demo_open = re_device demo_relay_env \<and> card {a. a < length (rl_store relay_one) \<and> \<not> as_closed (rl_store relay_one ! a)} \<le> 2"
  using relay_terminals_are_authorised[OF relay_one_reached] by (simp add: relay_one_eq)

text \<open>C32: a signed request that was admitted once is admitted again, while it still verifies, exactly when its expiry falls between the reading of
  the clock that verifies it and the later one that clears the log of admitted requests (and there is room for it). Away from that instant a
  replay is always refused.\<close>

theorem replay_admitted_iff_expiring:
  assumes "relay_reach env st" "readings_ok (rl_clock st) rd after" "x \<in> set (rl_store st)" "as_open x = r"
    "VerifyShell (re_cy env) (rd_now rd) (rd_later rd) (re_master env) r (re_user env) (re_device env) (re_epoch env)"
    "new_cipher env (so_Session r) ''c2a'' \<noteq> None" "new_cipher env (so_Session r) ''a2c'' \<noteq> None"
  shows "length (rl_store st) < length (rl_store (on_open env rd written (Some r) st)) \<longleftrightarrow>
    so_Expires r \<le> rd_tick rd (so_Session r) \<and> gm_lookup (rl_sessions st) (so_Session r) = None \<and> gm_len (rl_sessions st) < 2 \<and>
    gm_len (prune_seen (rd_tick rd) (rl_seen st)) < 256"
proof -
  define st1 where "st1 = st\<lparr>rl_seen := prune_seen (rd_tick rd) (rl_seen st)\<rparr>"
  have "seen_ok st" using relay_invariant[OF assms(1)] unfolding relay_inv_def by blast
  moreover have "rl_clock st < so_Expires r" using assms(2) VerifyShell_ok(1)[OF assms(5)] unfolding readings_ok_def by linarith
  ultimately have seen: "gm_lookup (rl_seen st) (so_Session r) = Some (so_Expires r)" "0 < so_Expires r" using assms(3,4) unfolding seen_ok_def by auto
  then have busy: "relay_busy r st1 \<longleftrightarrow> \<not> (so_Expires r \<le> rd_tick rd (so_Session r) \<and> gm_lookup (rl_sessions st) (so_Session r) = None \<and>
      gm_len (rl_sessions st) < 2 \<and> gm_len (prune_seen (rd_tick rd) (rl_seen st)) < 256)"
    by (auto simp: relay_busy_def st1_def prune_seen_def split: if_splits)
  have "length (rl_store (admit env r written st1)) = Suc (length (rl_store st))" using admit_length[OF assms(6,7), of written st1] by (simp add: st1_def)
  then show ?thesis using assms(5) busy by (simp add: on_open_def st1_def[symmetric] relay_send_def) (simp add: st1_def)
qed

text \<open>The request of \<open>relay_one\<close> after its session ended, replayed while the clock passes its expiry: verified at 999, cleared from the log at
  1000, and admitted again.\<close>

definition late_readings :: readings where "late_readings = \<lparr>rd_now = 999, rd_later = 999, rd_tick = \<lambda>_. 1000\<rparr>"

definition relay_ended :: relay where "relay_ended = closeSession ''session1'' relay_one"

lemma relay_ended_reached: "relay_reach demo_relay_env relay_ended"
proof -
  have "relay_step demo_relay_env relay_one (closeSession (session_id (rl_store relay_one ! 0)) relay_one)"
    by (rule relay_step.never_ready) (simp_all add: relay_one_eq)
  then show ?thesis using relay_one_reached relay_reach.step by (simp add: relay_ended_def relay_one_eq demo_open_def unsigned_open_def)
qed

theorem replay_admitted_iff_expiring_witness:
  "length (rl_store relay_ended) < length (rl_store (on_open demo_relay_env late_readings True (Some demo_open) relay_ended))"
proof -
  let ?x = "session_close (rl_store relay_one ! 0)"
  have e: "rl_store relay_ended = [?x]" "gm_lookup (rl_sessions relay_ended) ''session1'' = None" "gm_len (rl_sessions relay_ended) = 0"
    "rl_seen relay_ended = gm_update ''session1'' 1000 gm_empty" "rl_clock relay_ended = 10"
    by (simp_all add: relay_ended_def closeSession_def on_session_def relay_one_eq gm_len_def gm_keys_delete gm_keys_update)
  have "prune_seen (\<lambda>_. 1000) (gm_update ''session1'' 1000 gm_empty) = gm_empty" by (rule gm_eqI) (simp add: prune_seen_def)
  moreover have "as_open ?x = demo_open" by (simp add: relay_one_eq)
  moreover have "so_Session demo_open = ''session1''" "so_Expires demo_open = 1000" by (simp_all add: demo_open_def unsigned_open_def)
  moreover have "readings_ok (rl_clock relay_ended) late_readings 1000" by (simp add: readings_ok_def e late_readings_def)
  moreover have "VerifyShell (re_cy demo_relay_env) (rd_now late_readings) (rd_later late_readings) (re_master demo_relay_env) demo_open (re_user demo_relay_env)
      (re_device demo_relay_env) (re_epoch demo_relay_env)"
    using demo_open_verified[of 999 999] by (simp add: demo_relay_env_def late_readings_def)
  ultimately show ?thesis using replay_admitted_iff_expiring[OF relay_ended_reached, of late_readings 1000 ?x demo_open True]
    by (simp add: e demo_new_cipher) (simp add: late_readings_def)
qed


definition demo_attempts :: "nat \<Rightarrow> attempt" where
  "demo_attempts n = \<lparr>at_refused = (if n < 2 then None else Some 401), at_cancelled = False, at_cancelled_waiting = False\<rparr>"


end
