(* ===== verification/Cloud_Inventory.thy ===== *)
theory Cloud_Inventory
  imports Cloud_Sync Config_Store
begin

text \<open>
  \<open>internal/cloudsync/local_inventory.go\<close> and \<open>inventory_summary.go\<close>: publishing the entries of an unlocked vault as records of the local
  configuration, as the callback of a locked configuration update. The three loops over maps take their visiting orders as
  arguments; the digest of the identity, the configuration file and the write of the backup are parameters.
\<close>

section \<open>Names and routes\<close>

record inventory_env =
  iv_dg :: digests
  iv_identity :: "string \<Rightarrow> string \<Rightarrow> string \<Rightarrow> string" \<comment> \<open>the digest of three strings\<close>
  iv_now :: int
  iv_backup_fails :: bool
  iv_bindings_fail :: bool
  iv_summary_fails :: bool
  iv_config :: config_env

definition InventoryIdentity :: "inventory_env \<Rightarrow> State \<Rightarrow> string" where
  "InventoryIdentity env s = iv_identity env (cs_URL s) (cs_Username s) (sp_RootPublic (cs_Base s))"

definition sameCloudRoute :: "inventory_env \<Rightarrow> Server \<Rightarrow> Server \<Rightarrow> bool" where
  "sameCloudRoute env a b \<longleftrightarrow> EntryID (iv_dg env) (a\<lparr>sv_Auth := []\<rparr>) = EntryID (iv_dg env) (b\<lparr>sv_Auth := []\<rparr>)"

definition short_id :: "string \<Rightarrow> string" where
  "short_id i = take 8 i"

definition generatedCloudAlias :: "string \<Rightarrow> cl_Entry \<Rightarrow> bool" where
  "generatedCloudAlias al entry \<longleftrightarrow> list_ex (\<lambda>name.
     let pre = name @ ''~'' @ short_id (et_ID entry) in
     al = pre \<or> HasPrefix al (pre @ ''-'') \<and> (let suffix = drop (length (pre @ ''-'')) al in suffix \<noteq> [] \<and> list_all is_digit suffix)) (et_Aliases entry)"

section \<open>Bindings that were lost\<close>

definition legacy_candidates :: "inventory_env \<Rightarrow> cl_Data \<Rightarrow> string \<Rightarrow> Server \<Rightarrow> string list" where
  "legacy_candidates env data al server =
    filter (\<lambda>i. case gm_lookup (vd_Entries data) i of None \<Rightarrow> False | Some entry \<Rightarrow>
        gm_lookup (vd_Deleted data) i \<noteq> Some True \<and> sameCloudRoute env server (et_Server entry) \<and>
        (generatedCloudAlias al entry \<or> al \<in> set (et_Aliases entry)))
      (gm_keys (vd_Entries data))"

text \<open>Only the number of candidates matters, so their order does not; each server is changed by itself.\<close>

definition restore_one :: "inventory_env \<Rightarrow> cl_Data \<Rightarrow> string \<Rightarrow> string \<Rightarrow> Server \<Rightarrow> Server" where
  "restore_one env data owner al server =
    (if sv_Auth server \<noteq> AuthCloud \<or> sv_CloudEntry server \<noteq> [] \<or> sv_CloudVault server \<noteq> [] then server
     else case legacy_candidates env data al server of
       [i] \<Rightarrow> server\<lparr>sv_CloudEntry := i, sv_CloudVault := owner\<rparr>
     | _ \<Rightarrow> server)"

definition restoreLegacyBindings :: "inventory_env \<Rightarrow> cl_Data \<Rightarrow> string \<Rightarrow> Config \<Rightarrow> Config" where
  "restoreLegacyBindings env data owner cfg = cfg\<lparr>cf_Servers := gm_map (\<lambda>al. map_option (restore_one env data owner al)) (cf_Servers cfg)\<rparr>"

section \<open>Publishing\<close>

record InventoryReport =
  ir_Cloud :: int
  ir_Local :: int
  ir_Conflicts :: int
  ir_Removed :: int
  ir_Protected :: int
  ir_Backup :: bool \<comment> \<open>a backup was named\<close>

record publish_state =
  pu_cfg :: Config
  pu_report :: InventoryReport
  pu_removals :: "string list"
  pu_refs :: "(string, string) gomap"
  pu_native :: "string list"

definition zero_inventory_report :: InventoryReport where
  "zero_inventory_report = \<lparr>ir_Cloud = 0, ir_Local = 0, ir_Conflicts = 0, ir_Removed = 0, ir_Protected = 0, ir_Backup = False\<rparr>"

definition put_server :: "string \<Rightarrow> Server \<Rightarrow> Config \<Rightarrow> Config" where
  "put_server al s cfg = cfg\<lparr>cf_Servers := gm_update al (Some s) (cf_Servers cfg)\<rparr>"

definition drop_server :: "string \<Rightarrow> Config \<Rightarrow> Config" where
  "drop_server al cfg = cfg\<lparr>cf_Servers := gm_delete al (cf_Servers cfg)\<rparr>"

definition remove_counted :: "string \<Rightarrow> publish_state \<Rightarrow> publish_state" where
  "remove_counted al st = st\<lparr>pu_cfg := drop_server al (pu_cfg st), pu_report := (pu_report st)\<lparr>ir_Removed := ir_Removed (pu_report st) + 1\<rparr>\<rparr>"

definition protect_counted :: "publish_state \<Rightarrow> publish_state" where
  "protect_counted st = st\<lparr>pu_report := (pu_report st)\<lparr>ir_Protected := ir_Protected (pu_report st) + 1\<rparr>\<rparr>"

definition has_entry :: "cl_Data \<Rightarrow> string \<Rightarrow> bool" where
  "has_entry data i \<longleftrightarrow> gm_lookup (vd_Entries data) i \<noteq> None"

definition is_tombstone :: "cl_Data \<Rightarrow> string \<Rightarrow> bool" where
  "is_tombstone data i \<longleftrightarrow> gm_lookup (vd_Deleted data) i = Some True"

definition has_conflict :: "cl_Data \<Rightarrow> string \<Rightarrow> bool" where
  "has_conflict data i \<longleftrightarrow> gm_lookup (vd_Conflicts data) i \<noteq> None"

text \<open>A record of this device's own.\<close>

definition visit_native :: "inventory_env \<Rightarrow> cl_Data \<Rightarrow> string \<Rightarrow> string \<Rightarrow> Server \<Rightarrow> publish_state \<Rightarrow> publish_state" where
  "visit_native env data owner al server st =
    (let i = EntryID (iv_dg env) (cleanServer server) in
     if sv_CloudVault server = owner \<and> is_tombstone data i then
       (if CleanupProtectionReasons (pu_cfg st) al = [] then st\<lparr>pu_removals := pu_removals st @ [al]\<rparr> else protect_counted st)
     else let st1 = (if has_entry data i \<and> (sv_CloudVault server = [] \<or> sv_CloudVault server = owner)
                     then st\<lparr>pu_cfg := put_server al (server\<lparr>sv_CloudVault := owner\<rparr>) (pu_cfg st)\<rparr> else st) in
       st1\<lparr>pu_native := i # pu_native st1\<rparr>)"

text \<open>A record published before.\<close>

definition visit_cloud :: "cl_Data \<Rightarrow> string \<Rightarrow> string \<Rightarrow> Server \<Rightarrow> publish_state \<Rightarrow> publish_state" where
  "visit_cloud data owner al server st =
    (let i = sv_CloudEntry server in
     if sv_CloudVault server \<noteq> owner then st
     else if has_conflict data i \<and> \<not> is_tombstone data i then st
     else if \<not> has_entry data i \<or> is_tombstone data i then
       (if CleanupProtectionReasons (pu_cfg st) al = [] then remove_counted al st else protect_counted st)
     else case gm_lookup (pu_refs st) i of
       None \<Rightarrow> st\<lparr>pu_refs := gm_update i al (pu_refs st)\<rparr>
     | Some previous \<Rightarrow> if previous = [] \<or> al < previous then st\<lparr>pu_refs := gm_update i al (pu_refs st)\<rparr> else st)"

definition visit_server :: "inventory_env \<Rightarrow> cl_Data \<Rightarrow> string \<Rightarrow> string \<Rightarrow> publish_state \<Rightarrow> publish_state" where
  "visit_server env data owner al st =
    (case server_at (cf_Servers (pu_cfg st)) al of None \<Rightarrow> st | Some server \<Rightarrow>
     if sv_CloudEntry server = [] then visit_native env data owner al server st else visit_cloud data owner al server st)"

text \<open>Aliases that an earlier synchronisation generated beside the canonical one.\<close>

definition collapse_one :: "inventory_env \<Rightarrow> cl_Data \<Rightarrow> string \<Rightarrow> string \<Rightarrow> publish_state \<Rightarrow> publish_state" where
  "collapse_one env data owner al st =
    (case server_at (cf_Servers (pu_cfg st)) al of None \<Rightarrow> st | Some server \<Rightarrow>
     if sv_CloudEntry server = [] \<or> sv_CloudVault server \<noteq> owner then st
     else let canonical = (case gm_lookup (pu_refs st) (sv_CloudEntry server) of None \<Rightarrow> [] | Some c \<Rightarrow> c) in
     case gm_lookup (vd_Entries data) (sv_CloudEntry server) of None \<Rightarrow> st | Some entry \<Rightarrow>
     if canonical = [] \<or> canonical = al \<or> \<not> generatedCloudAlias al entry then st
     else if CleanupProtectionReasons (pu_cfg st) al \<noteq> [] then st
     else if sameCloudRoute env server (et_Server entry) then remove_counted al st else st)"

definition remove_natives :: "inventory_env \<Rightarrow> publish_state \<Rightarrow> (unit + publish_state)" where
  "remove_natives env st =
    (if pu_removals st = [] then Inr st
     else if iv_backup_fails env then Inl ()
     else Inr (fold remove_counted (pu_removals st) (st\<lparr>pu_report := (pu_report st)\<lparr>ir_Backup := True\<rparr>\<rparr>)))"

lemma Itoa_nat_inj: "Itoa (int a) = Itoa (int b) \<Longrightarrow> a = b"
proof -
  assume "Itoa (int a) = Itoa (int b)"
  then have "digits_of a = digits_of b" by (simp add: Itoa_def)
  then show "a = b" using decimal_digits_of[of a] decimal_digits_of[of b] by metis
qed

text \<open>The names \<open>base-2\<close>, \<open>base-3\<close>, ... until one is free.\<close>

function numbered_alias :: "server_map \<Rightarrow> string \<Rightarrow> nat \<Rightarrow> string" where
  "numbered_alias m base n =
    (let al = base @ ''-'' @ Itoa (int n) in if server_at m al = None then al else numbered_alias m base (Suc n))"
  by auto

termination
proof (relation "measure (\<lambda>(m, base, n). card {j. n \<le> j \<and> server_at m (base @ ''-'' @ Itoa (int j)) \<noteq> None})")
  fix m :: server_map and base :: string and n al
  assume al: "al = base @ ''-'' @ Itoa (int n)" "server_at m al \<noteq> None"
  let ?used = "\<lambda>n. {j. n \<le> j \<and> server_at m (base @ ''-'' @ Itoa (int j)) \<noteq> None}"
  have "inj_on (\<lambda>j. base @ ''-'' @ Itoa (int j)) (?used n)" using Itoa_nat_inj by (auto simp: inj_on_def)
  moreover have "(\<lambda>j. base @ ''-'' @ Itoa (int j)) ` ?used n \<subseteq> set (gm_keys m)" by (auto simp: in_gm_keys server_at_def split: option.splits)
  then have "finite ((\<lambda>j. base @ ''-'' @ Itoa (int j)) ` ?used n)" using finite_subset by blast
  ultimately have "finite (?used n)" by (rule finite_imageD[rotated])
  moreover have "n \<in> ?used n" "n \<notin> ?used (Suc n)" "?used (Suc n) \<subseteq> ?used n" using al by auto
  then have "?used (Suc n) \<subset> ?used n" by blast
  ultimately have "card (?used (Suc n)) < card (?used n)" by (rule psubset_card_mono)
  then show "((m, base, Suc n), m, base, n) \<in> measure (\<lambda>(m, base, n). card {j. n \<le> j \<and> server_at m (base @ ''-'' @ Itoa (int j)) \<noteq> None})" by simp
qed simp

declare numbered_alias.simps [simp del]

definition free_alias :: "server_map \<Rightarrow> cl_Entry \<Rightarrow> string \<Rightarrow> string" where
  "free_alias m entry i =
    (let al = TrimSpace (hd (sort (et_Aliases entry)));
         base = (if gm_lookup m al \<noteq> None then al @ ''~'' @ short_id i else al) in
     if server_at m base = None then base else numbered_alias m base 2)"

definition from_milli :: "int \<Rightarrow> gotime" where
  "from_milli ms = unix_epoch + ms * 1000000"

definition same_login :: "string \<Rightarrow> string \<Rightarrow> Server \<Rightarrow> Server \<Rightarrow> bool" where
  "same_login i owner old server \<longleftrightarrow> sv_CloudEntry old = i \<and> sv_CloudVault old = owner \<and> sv_Host old = sv_Host server \<and> sv_User old = sv_User server \<and>
    (sv_Port old = sv_Port server \<or> sv_Port old = 0 \<and> sv_Port server = 22)"

definition observed :: "Activity \<Rightarrow> Server option \<Rightarrow> string \<Rightarrow> Server \<Rightarrow> Server" where
  "observed a old i s =
    (let used = (if 0 < ay_LastConnected a then from_milli (ay_LastConnected a) else sv_LastUsed s) in
     s\<lparr>sv_LastUsed := (case old of Some x \<Rightarrow> if sv_CloudEntry x = i \<and> used < sv_LastUsed x then sv_LastUsed x else used | None \<Rightarrow> used),
       sv_LastSeen := (if 0 < ay_LastSeen a then from_milli (ay_LastSeen a) else sv_LastSeen s),
       sv_LastChecked := (if 0 < ay_CheckedAt a then from_milli (ay_CheckedAt a) else sv_LastChecked s),
       sv_LastSSHChecked := (if 0 < ay_SSHCheckedAt a then from_milli (ay_SSHCheckedAt a) else sv_LastSSHChecked s),
       sv_SSHMCheckedAt := (if 0 < ay_SSHMCheckedAt a then from_milli (ay_SSHMCheckedAt a) else sv_SSHMCheckedAt s),
       sv_LastStatus := ay_Status a, sv_LastSSHError := ay_SSHError a, sv_Platform := ay_Platform a, sv_Hardware := ay_Hardware a,
       sv_SSHMStatus := ay_SSHMStatus a, sv_SSHMVersion := ay_SSHMVersion a\<rparr>)"

definition published_server :: "cl_Data \<Rightarrow> string \<Rightarrow> string \<Rightarrow> Server option \<Rightarrow> Server \<Rightarrow> Server" where
  "published_server data owner i old s0 =
    (let s1 = s0\<lparr>sv_KeyPath := [], sv_Auth := AuthCloud, sv_CloudEntry := i, sv_CloudVault := owner\<rparr>;
         s2 = (case old of None \<Rightarrow> s1 | Some x \<Rightarrow>
           if same_login i owner x s1
           then s1\<lparr>sv_Proxy := sv_Proxy x, sv_ProxyJump := sv_ProxyJump x, sv_ProxyCommand := sv_ProxyCommand x, sv_Forwards := sv_Forwards x\<rparr> else s1) in
     observed (case gm_lookup (vd_Activity data) i of None \<Rightarrow> zero_activity | Some a \<Rightarrow> a) old i s2)"

definition publish_entry :: "cl_Data \<Rightarrow> string \<Rightarrow> string \<Rightarrow> publish_state \<Rightarrow> publish_state" where
  "publish_entry data owner i st =
    (case gm_lookup (vd_Entries data) i of None \<Rightarrow> st | Some entry \<Rightarrow>
     if has_conflict data i \<or> is_tombstone data i then st
     else if i \<in> set (pu_native st) then st\<lparr>pu_report := (pu_report st)\<lparr>ir_Local := ir_Local (pu_report st) + 1\<rparr>\<rparr>
     else let ref = (case gm_lookup (pu_refs st) i of None \<Rightarrow> [] | Some r \<Rightarrow> r);
              m = cf_Servers (pu_cfg st);
              al = (if ref = [] then free_alias m entry i else ref) in
       st\<lparr>pu_cfg := put_server al (published_server data owner i (server_at m al) (et_Server entry)) (pu_cfg st),
          pu_report := (pu_report st)\<lparr>ir_Cloud := ir_Cloud (pu_report st) + 1\<rparr>\<rparr>)"

text \<open>The callback. The visiting orders of the first two loops are functions of the map they range over.\<close>

definition publish_callback :: "inventory_env \<Rightarrow> (server_map \<Rightarrow> string list) \<Rightarrow> (server_map \<Rightarrow> string list) \<Rightarrow> cl_Data \<Rightarrow> string \<Rightarrow> Config \<Rightarrow>
    unit + (Config \<times> InventoryReport)" where
  "publish_callback env ord1 ord2 data owner cfg0 =
    (let cfg = restoreLegacyBindings env data owner cfg0;
         st0 = \<lparr>pu_cfg = cfg, pu_report = zero_inventory_report, pu_removals = [], pu_refs = gm_empty, pu_native = []\<rparr>;
         st1 = fold (visit_server env data owner) (ord1 (cf_Servers cfg)) st0;
         st2 = fold (collapse_one env data owner) (ord2 (cf_Servers (pu_cfg st1))) st1 in
     case remove_natives env st2 of Inl e \<Rightarrow> Inl e | Inr st3 \<Rightarrow>
     let st4 = st3\<lparr>pu_report := (pu_report st3)\<lparr>ir_Conflicts := int (gm_len (vd_Conflicts data))\<rparr>\<rparr>;
         st5 = fold (publish_entry data owner) (gm_keys (vd_Entries data)) st4 in
     Inr (pu_cfg st5, pu_report st5))"

record InventorySummary =
  is_Identity :: string
  is_Revision :: int
  is_Count :: int
  is_Synced :: int

definition inventory_summary :: "inventory_env \<Rightarrow> State \<Rightarrow> cl_Data \<Rightarrow> InventorySummary" where
  "inventory_summary env s data = \<lparr>is_Identity = InventoryIdentity env s, is_Revision = sp_Revision (cs_Base s),
     is_Count = int (length (filter (\<lambda>i. \<not> is_tombstone data i) (gm_keys (vd_Entries data)))), is_Synced = iv_now env\<rparr>"

definition ReadInventorySummary :: "inventory_env \<Rightarrow> State \<Rightarrow> InventorySummary option \<Rightarrow> InventorySummary option" where
  "ReadInventorySummary env s file =
    (case file of None \<Rightarrow> None | Some v \<Rightarrow>
     if is_Identity v = InventoryIdentity env s \<and> is_Revision v = sp_Revision (cs_Base s) \<and> 0 \<le> is_Count v then Some v else None)"

datatype publish_error = PublishInvalid vault_error | PublishUpdate "unit store_error" | PublishBindings | PublishSummary

record inventory_files =
  vf_config :: "bytes option"
  vf_bindings :: "(string, cloudBinding) gomap option"
  vf_summary :: "InventorySummary option"

text \<open>The configuration that was published is the callback's result; the bindings index and the summary follow a successful update.\<close>

definition PublishInventory :: "inventory_env \<Rightarrow> (server_map \<Rightarrow> string list) \<Rightarrow> (server_map \<Rightarrow> string list) \<Rightarrow> State \<Rightarrow> cl_Data \<Rightarrow> bytes option \<Rightarrow> inventory_files \<Rightarrow>
    publish_error option \<times> inventory_files" where
  "PublishInventory env ord1 ord2 s data file fs =
    (case Data_Validate (iv_now env) data of Some e \<Rightarrow> (Some (PublishInvalid e), fs) | None \<Rightarrow>
     let callback = (\<lambda>cfg. case publish_callback env ord1 ord2 data (InventoryIdentity env s) cfg of Inl e \<Rightarrow> Inl e | Inr (cfg', _) \<Rightarrow> Inr cfg') in
     case UpdateWithSource (iv_config env) (vf_config fs) (\<lambda>cfg _. callback cfg) file of
       (Some e, after) \<Rightarrow> (Some (PublishUpdate e), fs\<lparr>vf_config := after\<rparr>)
     | (None, after) \<Rightarrow>
         if iv_bindings_fail env then (Some PublishBindings, fs\<lparr>vf_config := after\<rparr>)
         else let cfg0 = (case file of None \<Rightarrow> New | Some b \<Rightarrow> (case decodeConfig (iv_config env) b of Inr c \<Rightarrow> c | Inl (_ :: unit store_error) \<Rightarrow> New));
                  published = (case callback (applyCloudBindings (iv_config env) cfg0) of Inr c \<Rightarrow> c | Inl _ \<Rightarrow> cfg0);
                  fs1 = fs\<lparr>vf_config := after, vf_bindings := Some (SaveCloudBindings (iv_config env) published)\<rparr> in
         if iv_summary_fails env then (Some PublishSummary, fs1)
         else (None, fs1\<lparr>vf_summary := Some (inventory_summary env s data)\<rparr>))"

section \<open>Laws\<close>

abbreviation srv :: "publish_state \<Rightarrow> string \<Rightarrow> Server option" where
  "srv st \<equiv> server_at (cf_Servers (pu_cfg st))"

declare server_at_update [simp] server_at_delete [simp]

lemma server_at_map [simp]: "server_at (gm_map (\<lambda>al. map_option (f al)) m) al = map_option (f al) (server_at m al)"
  by (simp add: server_at_def split: option.splits)

lemma put_drop_sel [simp]:
  "cf_Servers (put_server al s cfg) = gm_update al (Some s) (cf_Servers cfg)" "cf_Servers (drop_server al cfg) = gm_delete al (cf_Servers cfg)"
  "cf_Default (put_server al s cfg) = cf_Default cfg" "cf_Default (drop_server al cfg) = cf_Default cfg"
  "cf_Projects (put_server al s cfg) = cf_Projects cfg" "cf_Projects (drop_server al cfg) = cf_Projects cfg"
  by (simp_all add: put_server_def drop_server_def)

lemma counted_sel [simp]:
  "pu_cfg (remove_counted al st) = drop_server al (pu_cfg st)" "pu_removals (remove_counted al st) = pu_removals st"
  "pu_refs (remove_counted al st) = pu_refs st" "pu_native (remove_counted al st) = pu_native st"
  "pu_cfg (protect_counted st) = pu_cfg st" "pu_removals (protect_counted st) = pu_removals st"
  "pu_refs (protect_counted st) = pu_refs st" "pu_native (protect_counted st) = pu_native st"
  by (simp_all add: remove_counted_def protect_counted_def)

lemma numbered_alias_free: "server_at m (numbered_alias m base n) = None"
  by (induction m base n rule: numbered_alias.induct) (subst numbered_alias.simps, simp add: Let_def)

lemma free_alias_free: "server_at m (free_alias m entry i) = None"
  by (simp add: free_alias_def Let_def numbered_alias_free)

text \<open>Every step leaves the default, the projects and the other aliases alone, and adds its own alias to the lists at most.\<close>

definition touches_only :: "string \<Rightarrow> publish_state \<Rightarrow> publish_state \<Rightarrow> bool" where
  "touches_only al st st' \<longleftrightarrow> cf_Default (pu_cfg st') = cf_Default (pu_cfg st) \<and> cf_Projects (pu_cfg st') = cf_Projects (pu_cfg st) \<and>
    (\<forall>a. a \<noteq> al \<longrightarrow> srv st' a = srv st a) \<and> set (pu_removals st') \<subseteq> insert al (set (pu_removals st)) \<and>
    (\<forall>i a. gm_lookup (pu_refs st') i = Some a \<longrightarrow> a = al \<or> gm_lookup (pu_refs st) i = Some a)"

lemma visit_touches: "touches_only al st (visit_server env data owner al st)"
  by (auto simp: touches_only_def visit_server_def visit_native_def visit_cloud_def Let_def split: option.splits if_splits)

lemma collapse_touches: "touches_only al st (collapse_one env data owner al st)"
  by (auto simp: touches_only_def collapse_one_def Let_def split: option.splits if_splits)

lemma remove_touches: "touches_only al st (remove_counted al st)"
  by (auto simp: touches_only_def)

lemma publish_entry_touches: "\<exists>al. touches_only al st (publish_entry data owner i st) \<and> (srv st al = None \<or> gm_lookup (pu_refs st) i = Some al)"
proof (cases "gm_lookup (vd_Entries data) i")
  case (Some entry)
  show ?thesis
  proof (cases "gm_lookup (pu_refs st) i \<in> {None, Some []}")
    case True
    then show ?thesis using Some free_alias_free[of "cf_Servers (pu_cfg st)" entry i]
      by (intro exI[of _ "free_alias (cf_Servers (pu_cfg st)) entry i"]) (auto simp: touches_only_def publish_entry_def Let_def)
  next
    case False
    then obtain al where "gm_lookup (pu_refs st) i = Some al" "al \<noteq> []" by auto
    then show ?thesis using Some by (intro exI[of _ al]) (auto simp: touches_only_def publish_entry_def Let_def)
  qed
next
  case None
  then show ?thesis using numbered_alias_free[of "cf_Servers (pu_cfg st)" "[]" 0]
    by (intro exI[of _ "numbered_alias (cf_Servers (pu_cfg st)) [] 0"]) (auto simp: touches_only_def publish_entry_def None)
qed

subsection \<open>Records that stay\<close>

definition stays :: "string \<Rightarrow> Server \<Rightarrow> publish_state \<Rightarrow> bool" where
  "stays al s st \<longleftrightarrow> srv st al = Some s \<and> al \<notin> set (pu_removals st) \<and> (\<forall>i. gm_lookup (pu_refs st) i \<noteq> Some al)"

lemma stays_other: "touches_only a st st' \<Longrightarrow> a \<noteq> al \<Longrightarrow> stays al s st \<Longrightarrow> stays al s st'"
proof -
  assume t: "touches_only a st st'" "a \<noteq> al" and st: "stays al s st"
  have "gm_lookup (pu_refs st') i \<noteq> Some al" for i using t st unfolding stays_def touches_only_def by metis
  moreover have "srv st' al = Some s" "al \<notin> set (pu_removals st')" using t st unfolding stays_def touches_only_def by auto
  ultimately show "stays al s st'" unfolding stays_def by simp
qed

lemma stays_fold_other:
  assumes f: "\<And>a st. touches_only a st (f a st)" and "al \<notin> set xs" "stays al s st"
  shows "stays al s (fold f xs st)"
  using assms(2,3)
proof (induction xs arbitrary: st)
  case (Cons a xs)
  then have "stays al s (f a st)" using stays_other[OF f, of a al s st] by auto
  then show ?case using Cons by simp
qed simp

lemma visits_other: "al \<notin> set xs \<Longrightarrow> stays al s st \<Longrightarrow> stays al s (fold (visit_server env data owner) xs st)"
  by (rule stays_fold_other) (rule visit_touches)

text \<open>Records of this device, of another account, or with an open conflict.\<close>

definition foreign_to :: "inventory_env \<Rightarrow> cl_Data \<Rightarrow> string \<Rightarrow> Server \<Rightarrow> bool" where
  "foreign_to env data owner s \<longleftrightarrow>
    (if sv_CloudEntry s = [] then \<not> (sv_CloudVault s = owner \<and> is_tombstone data (EntryID (iv_dg env) (cleanServer s)))
     else sv_CloudVault s \<noteq> owner \<or> has_conflict data (sv_CloudEntry s) \<and> \<not> is_tombstone data (sv_CloudEntry s))"

definition same_or_claimed :: "string \<Rightarrow> Server \<Rightarrow> Server \<Rightarrow> bool" where
  "same_or_claimed owner s s' \<longleftrightarrow> s' = s \<or> sv_CloudEntry s = [] \<and> sv_CloudVault s = [] \<and> s' = s\<lparr>sv_CloudVault := owner\<rparr>"

lemma claim_same: "sv_CloudVault s = owner \<Longrightarrow> s\<lparr>sv_CloudVault := owner\<rparr> = s"
  by simp

lemma visit_own:
  assumes "stays al s st" "foreign_to env data owner s"
  shows "\<exists>s'. stays al s' (visit_server env data owner al st) \<and> same_or_claimed owner s s'"
  using assms unfolding stays_def foreign_to_def same_or_claimed_def
  by (auto simp: visit_server_def visit_native_def visit_cloud_def Let_def split: if_splits)

lemma visits_keep:
  assumes "stays al s st" "foreign_to env data owner s" "distinct xs"
  shows "\<exists>s'. stays al s' (fold (visit_server env data owner) xs st) \<and> same_or_claimed owner s s'"
proof (cases "al \<in> set xs")
  case True
  then obtain ys zs where xs: "xs = ys @ al # zs" by (meson split_list)
  then have "al \<notin> set ys" "al \<notin> set zs" using assms(3) by auto
  then have "stays al s (fold (visit_server env data owner) ys st)" using assms(1) by (intro visits_other)
  from visit_own[OF this assms(2)] show ?thesis using visits_other[OF \<open>al \<notin> set zs\<close>] by (simp add: xs) blast
next
  case False
  then show ?thesis using visits_other[OF False assms(1)] by (auto simp: same_or_claimed_def)
qed

text \<open>No entry in conflict gets a canonical alias.\<close>

definition refs_clear :: "cl_Data \<Rightarrow> publish_state \<Rightarrow> bool" where
  "refs_clear data st \<longleftrightarrow> (\<forall>i. has_conflict data i \<and> \<not> is_tombstone data i \<longrightarrow> gm_lookup (pu_refs st) i = None)"

lemma visit_refs_clear: "refs_clear data st \<Longrightarrow> refs_clear data (fold (visit_server env data owner) xs st)"
  by (induction xs arbitrary: st) (auto simp: refs_clear_def visit_server_def visit_native_def visit_cloud_def Let_def split: option.splits if_splits)

lemma claimed_not_collapsed:
  assumes "same_or_claimed owner s s'" "foreign_to env data owner s" "refs_clear data st"
  shows "sv_CloudEntry s' = [] \<or> sv_CloudVault s' \<noteq> owner \<or> gm_lookup (pu_refs st) (sv_CloudEntry s') = None"
proof (cases "s' = s")
  case False
  then have "s' = s\<lparr>sv_CloudVault := owner\<rparr>" "sv_CloudEntry s = []" using assms(1) by (auto simp: same_or_claimed_def)
  then show ?thesis by simp
qed (use assms in \<open>auto simp: foreign_to_def refs_clear_def split: if_splits\<close>)

lemma collapse_refs: "pu_refs (fold (collapse_one env data owner) xs st) = pu_refs st" "pu_removals (fold (collapse_one env data owner) xs st) = pu_removals st"
  "pu_native (fold (collapse_one env data owner) xs st) = pu_native st"
  by (induction xs arbitrary: st) (auto simp: collapse_one_def Let_def split: option.splits)

lemma collapse_keeps:
  assumes "stays al s st" "sv_CloudEntry s = [] \<or> sv_CloudVault s \<noteq> owner \<or> gm_lookup (pu_refs st) (sv_CloudEntry s) = None"
  shows "stays al s (fold (collapse_one env data owner) xs st)"
  using assms
proof (induction xs arbitrary: st)
  case (Cons a xs)
  have "pu_refs (collapse_one env data owner a st) = pu_refs st" using collapse_refs(1)[of env data owner "[a]" st] by simp
  moreover have "stays al s (collapse_one env data owner a st)"
  proof (cases "a = al")
    case True
    then have "collapse_one env data owner a st = st" using Cons.prems unfolding stays_def by (auto simp: collapse_one_def Let_def split: option.splits)
    then show ?thesis using Cons.prems by simp
  next
    case False
    then show ?thesis using stays_other[OF collapse_touches] Cons.prems by blast
  qed
  ultimately show ?case using Cons by simp
qed simp

lemma natives_keep: "stays al s st \<Longrightarrow> remove_natives env st = Inr st' \<Longrightarrow> stays al s st'"
proof -
  assume st: "stays al s st" and r: "remove_natives env st = Inr st'"
  let ?st = "st\<lparr>pu_report := (pu_report st)\<lparr>ir_Backup := True\<rparr>\<rparr>"
  have "stays al s ?st" "al \<notin> set (pu_removals st)" using st by (simp_all add: stays_def)
  then have "stays al s (fold remove_counted (pu_removals st) ?st)" by (intro stays_fold_other remove_touches)
  then show "stays al s st'" using st r by (auto simp: remove_natives_def split: if_splits)
qed

lemma publish_keeps: "stays al s st \<Longrightarrow> stays al s (fold (publish_entry data owner) xs st)"
proof (induction xs arbitrary: st)
  case (Cons i xs)
  obtain a where a: "touches_only a st (publish_entry data owner i st)" "srv st a = None \<or> gm_lookup (pu_refs st) i = Some a"
    using publish_entry_touches by blast
  then have "a \<noteq> al" using Cons.prems unfolding stays_def by auto
  then show ?case using stays_other[OF a(1)] Cons by simp
qed simp

text \<open>The callback is its five phases.\<close>

definition start_publish :: "inventory_env \<Rightarrow> cl_Data \<Rightarrow> string \<Rightarrow> Config \<Rightarrow> publish_state" where
  "start_publish env data owner cfg =
    \<lparr>pu_cfg = restoreLegacyBindings env data owner cfg, pu_report = zero_inventory_report, pu_removals = [], pu_refs = gm_empty, pu_native = []\<rparr>"

definition after_visits :: "inventory_env \<Rightarrow> (server_map \<Rightarrow> string list) \<Rightarrow> cl_Data \<Rightarrow> string \<Rightarrow> Config \<Rightarrow> publish_state" where
  "after_visits env ord1 data owner cfg =
    fold (visit_server env data owner) (ord1 (cf_Servers (restoreLegacyBindings env data owner cfg))) (start_publish env data owner cfg)"

definition after_collapse :: "inventory_env \<Rightarrow> (server_map \<Rightarrow> string list) \<Rightarrow> (server_map \<Rightarrow> string list) \<Rightarrow> cl_Data \<Rightarrow> string \<Rightarrow> Config \<Rightarrow> publish_state" where
  "after_collapse env ord1 ord2 data owner cfg =
    (let st = after_visits env ord1 data owner cfg in fold (collapse_one env data owner) (ord2 (cf_Servers (pu_cfg st))) st)"

lemma publish_callback_phases:
  "publish_callback env ord1 ord2 data owner cfg = Inr (cfg', report) \<longleftrightarrow>
    (\<exists>st3. remove_natives env (after_collapse env ord1 ord2 data owner cfg) = Inr st3 \<and>
      (let st5 = fold (publish_entry data owner) (gm_keys (vd_Entries data)) (st3\<lparr>pu_report := (pu_report st3)\<lparr>ir_Conflicts := int (gm_len (vd_Conflicts data))\<rparr>\<rparr>)
       in cfg' = pu_cfg st5 \<and> report = pu_report st5))"
  unfolding publish_callback_def after_collapse_def after_visits_def start_publish_def Let_def
  by (simp split: sum.split) blast

subsection \<open>References\<close>

definition referenced :: "Config \<Rightarrow> string \<Rightarrow> bool" where
  "referenced cfg al \<longleftrightarrow> cf_Default cfg = al \<or> (\<exists>name p. project_at (cf_Projects cfg) name = Some p \<and> pj_Server p = al)"

lemma referenced_protected: "referenced cfg al \<Longrightarrow> server_at (cf_Servers cfg) al \<noteq> None \<Longrightarrow> CleanupProtectionReasons cfg al \<noteq> []"
proof -
  assume r: "referenced cfg al" and s: "server_at (cf_Servers cfg) al \<noteq> None"
  have "projects_using cfg al \<noteq> []" if "project_at (cf_Projects cfg) name = Some p" "pj_Server p = al" for name p
  proof -
    have "name \<in> set (gm_keys (cf_Projects cfg))" using that(1) by (auto simp: in_gm_keys project_at_def split: option.splits)
    then have "name \<in> set (projects_using cfg al)" using that by (simp add: ProjectsUsingServer_def)
    then show ?thesis by (metis empty_iff list.set(1))
  qed
  then show "CleanupProtectionReasons cfg al \<noteq> []" using r s by (auto simp: referenced_def CleanupProtectionReasons_def Let_def)
qed

definition resolves :: "string \<Rightarrow> publish_state \<Rightarrow> bool" where
  "resolves al st \<longleftrightarrow> srv st al \<noteq> None \<and> al \<notin> set (pu_removals st) \<and> referenced (pu_cfg st) al"

lemma resolves_reasons: "resolves al st \<Longrightarrow> CleanupProtectionReasons (pu_cfg st) al \<noteq> []"
  unfolding resolves_def by (intro referenced_protected) simp_all

lemma resolves_step:
  assumes "touches_only a st st'" "resolves al st" "a = al \<Longrightarrow> srv st' al \<noteq> None \<and> pu_removals st' = pu_removals st"
  shows "resolves al st'"
  using assms unfolding resolves_def touches_only_def referenced_def by (cases "a = al") auto

lemma resolves_visit: "resolves al st \<Longrightarrow> resolves al (visit_server env data owner a st)"
proof (rule resolves_step[OF visit_touches])
  assume r: "resolves al st" and a: "a = al"
  then show "srv (visit_server env data owner a st) al \<noteq> None \<and> pu_removals (visit_server env data owner a st) = pu_removals st"
    using resolves_reasons[OF r] by (auto simp: resolves_def visit_server_def visit_native_def visit_cloud_def Let_def split: option.splits)
qed

lemma resolves_collapse: "resolves al st \<Longrightarrow> resolves al (collapse_one env data owner a st)"
proof (rule resolves_step[OF collapse_touches])
  assume r: "resolves al st" and a: "a = al"
  then show "srv (collapse_one env data owner a st) al \<noteq> None \<and> pu_removals (collapse_one env data owner a st) = pu_removals st"
    using resolves_reasons[OF r] by (auto simp: resolves_def collapse_one_def Let_def split: option.splits)
qed

lemma publish_entry_present: "srv st al \<noteq> None \<Longrightarrow> srv (publish_entry data owner i st) al \<noteq> None"
  by (auto simp: publish_entry_def Let_def split: option.splits)

lemma publish_entry_frame [simp]: "pu_removals (publish_entry data owner i st) = pu_removals st" "pu_refs (publish_entry data owner i st) = pu_refs st"
  "pu_native (publish_entry data owner i st) = pu_native st"
  by (auto simp: publish_entry_def Let_def split: option.splits)

lemma resolves_publish: "resolves al st \<Longrightarrow> resolves al (publish_entry data owner i st)"
proof -
  assume r: "resolves al st"
  obtain a where a: "touches_only a st (publish_entry data owner i st)" using publish_entry_touches by blast
  then show ?thesis by (rule resolves_step[OF _ r]) (use r publish_entry_present[of st al data owner i] in \<open>simp add: resolves_def\<close>)
qed

lemma fold_invariant: "(\<And>x st. P st \<Longrightarrow> P (f x st)) \<Longrightarrow> P st \<Longrightarrow> P (fold f xs st)"
  by (induction xs arbitrary: st) simp_all

lemma resolves_natives:
  assumes r: "resolves al st" and n: "remove_natives env st = Inr st'"
  shows "resolves al st'"
proof -
  have "al \<notin> set xs \<Longrightarrow> resolves al s \<Longrightarrow> resolves al (fold remove_counted xs s)" for xs s
  proof (induction xs arbitrary: s)
    case (Cons a xs)
    then have "resolves al (remove_counted a s)" by (intro resolves_step[OF remove_touches]) auto
    then show ?case using Cons by simp
  qed simp
  moreover have "resolves al (st\<lparr>pu_report := rep\<rparr>)" "al \<notin> set (pu_removals st)" for rep using r by (simp_all add: resolves_def)
  ultimately show ?thesis using r n unfolding remove_natives_def by (auto split: if_splits)
qed

subsection \<open>Entries that are published\<close>

definition refs_ok :: "cl_Data \<Rightarrow> publish_state \<Rightarrow> bool" where
  "refs_ok data st \<longleftrightarrow> (\<forall>i a. gm_lookup (pu_refs st) i = Some a \<longrightarrow>
     i \<noteq> [] \<and> has_entry data i \<and> \<not> is_tombstone data i \<and> a \<notin> set (pu_removals st) \<and> (\<exists>s. srv st a = Some s \<and> sv_CloudEntry s = i))"

definition native_for :: "inventory_env \<Rightarrow> string \<Rightarrow> publish_state \<Rightarrow> bool" where
  "native_for env i st \<longleftrightarrow> (\<exists>al s. srv st al = Some s \<and> sv_CloudEntry s = [] \<and> EntryID (iv_dg env) (cleanServer s) = i \<and> al \<notin> set (pu_removals st))"

definition published_for :: "string \<Rightarrow> Server \<Rightarrow> string \<Rightarrow> publish_state \<Rightarrow> bool" where
  "published_for owner e i st \<longleftrightarrow> (\<exists>al s. srv st al = Some s \<and> sv_CloudEntry s = i \<and> sv_CloudVault s = owner \<and> sv_Auth s = AuthCloud \<and> sv_KeyPath s = [] \<and>
     sv_Host s = sv_Host e \<and> sv_Port s = sv_Port e \<and> sv_User s = sv_User e)"

lemma published_server_sel:
  "sv_CloudEntry (published_server data owner i old s) = i" "sv_CloudVault (published_server data owner i old s) = owner"
  "sv_Auth (published_server data owner i old s) = AuthCloud" "sv_KeyPath (published_server data owner i old s) = []"
  "sv_Host (published_server data owner i old s) = sv_Host s" "sv_Port (published_server data owner i old s) = sv_Port s"
  "sv_User (published_server data owner i old s) = sv_User s"
  by (simp_all add: published_server_def observed_def Let_def split: option.splits)

lemma clean_claimed: "cleanServer (s\<lparr>sv_CloudVault := owner\<rparr>) = cleanServer s"
  by (simp add: cleanServer_def)

lemma visit_native_for: "native_for env i st \<Longrightarrow> \<not> is_tombstone data i \<Longrightarrow> native_for env i (visit_server env data owner a st)"
proof -
  assume n: "native_for env i st" and t: "\<not> is_tombstone data i"
  then obtain al s where al: "srv st al = Some s" "sv_CloudEntry s = []" "EntryID (iv_dg env) (cleanServer s) = i" "al \<notin> set (pu_removals st)"
    unfolding native_for_def by blast
  show ?thesis
  proof (cases "a = al")
    case True
    then show ?thesis using al t unfolding native_for_def
      by (intro exI[of _ al]) (auto simp: visit_server_def visit_native_def Let_def clean_claimed)
  next
    case False
    then have "srv (visit_server env data owner a st) al = Some s" "al \<notin> set (pu_removals (visit_server env data owner a st))"
      using al visit_touches[of a st env data owner] unfolding touches_only_def by auto
    then show ?thesis using al unfolding native_for_def by blast
  qed
qed

definition natives_ok :: "inventory_env \<Rightarrow> cl_Data \<Rightarrow> publish_state \<Rightarrow> bool" where
  "natives_ok env data st \<longleftrightarrow> (\<forall>i \<in> set (pu_native st). \<not> is_tombstone data i \<longrightarrow> native_for env i st)"

definition removals_ok :: "inventory_env \<Rightarrow> cl_Data \<Rightarrow> publish_state \<Rightarrow> bool" where
  "removals_ok env data st \<longleftrightarrow> (\<forall>a \<in> set (pu_removals st). \<exists>s. srv st a = Some s \<and> sv_CloudEntry s = [] \<and> is_tombstone data (EntryID (iv_dg env) (cleanServer s)))"

lemma removals_ok_visit: "removals_ok env data st \<Longrightarrow> removals_ok env data (visit_server env data owner a st)"
proof (cases "srv st a")
  case (Some s)
  assume r: "removals_ok env data st"
  have others: "\<exists>s. srv (visit_server env data owner a st) b = Some s \<and> sv_CloudEntry s = [] \<and> is_tombstone data (EntryID (iv_dg env) (cleanServer s))"
    if "b \<in> set (pu_removals st)" "b \<noteq> a" for b
    using that r visit_touches[of a st env data owner] unfolding removals_ok_def touches_only_def by simp
  have own: "\<exists>s. srv (visit_server env data owner a st) a = Some s \<and> sv_CloudEntry s = [] \<and> is_tombstone data (EntryID (iv_dg env) (cleanServer s))"
    if "a \<in> set (pu_removals (visit_server env data owner a st))"
  proof (cases "sv_CloudEntry s = []")
    case True
    then show ?thesis using that r Some unfolding removals_ok_def by (auto simp: visit_server_def visit_native_def Let_def clean_claimed split: if_splits)
  next
    case False
    then have "a \<notin> set (pu_removals st)" using r Some unfolding removals_ok_def by auto
    then show ?thesis using that Some False by (auto simp: visit_server_def visit_cloud_def Let_def split: if_splits option.splits)
  qed
  show ?thesis unfolding removals_ok_def
  proof
    fix b
    assume b: "b \<in> set (pu_removals (visit_server env data owner a st))"
    then show "\<exists>s. srv (visit_server env data owner a st) b = Some s \<and> sv_CloudEntry s = [] \<and> is_tombstone data (EntryID (iv_dg env) (cleanServer s))"
      using own others[of b] visit_touches[of a st env data owner] unfolding touches_only_def by (cases "b = a") auto
  qed
qed (simp add: visit_server_def)

lemma natives_ok_visit: "natives_ok env data st \<Longrightarrow> removals_ok env data st \<Longrightarrow> natives_ok env data (visit_server env data owner a st)"
proof -
  assume n: "natives_ok env data st" and r: "removals_ok env data st"
  have "native_for env i (visit_server env data owner a st)"
    if i: "i \<in> set (pu_native (visit_server env data owner a st))" "\<not> is_tombstone data i" "i \<notin> set (pu_native st)" for i
  proof -
    obtain s where s: "srv st a = Some s" "sv_CloudEntry s = []" using i(1,3)
      by (auto simp: visit_server_def visit_cloud_def Let_def split: option.splits if_splits)
    then have "i = EntryID (iv_dg env) (cleanServer s)" using i(1,3) by (auto simp: visit_server_def visit_native_def Let_def split: if_splits)
    moreover have "a \<notin> set (pu_removals st)" using r s i(2) calculation unfolding removals_ok_def by auto
    ultimately show ?thesis using s i(2) unfolding native_for_def
      by (intro exI[of _ a]) (auto simp: visit_server_def visit_native_def Let_def clean_claimed)
  qed
  then show ?thesis using n visit_native_for unfolding natives_ok_def by blast
qed

lemma refs_ok_step:
  assumes "refs_ok data st" "touches_only al st st'" "pu_refs st' = pu_refs st" "pu_removals st' = pu_removals st"
    "\<And>i. gm_lookup (pu_refs st) i = Some al \<Longrightarrow> \<exists>s. srv st' al = Some s \<and> sv_CloudEntry s = i"
  shows "refs_ok data st'"
  unfolding refs_ok_def
proof (intro allI impI)
  fix i a
  assume "gm_lookup (pu_refs st') i = Some a"
  then have r: "gm_lookup (pu_refs st) i = Some a" using assms(3) by simp
  then have "\<exists>s. srv st' a = Some s \<and> sv_CloudEntry s = i" using assms(1,2,5) unfolding refs_ok_def touches_only_def by (cases "a = al") auto
  then show "i \<noteq> [] \<and> has_entry data i \<and> \<not> is_tombstone data i \<and> a \<notin> set (pu_removals st') \<and> (\<exists>s. srv st' a = Some s \<and> sv_CloudEntry s = i)"
    using assms(1,4) r unfolding refs_ok_def by auto
qed

lemma refs_ok_collapse: "refs_ok data st \<Longrightarrow> refs_ok data (collapse_one env data owner a st)"
proof (rule refs_ok_step[OF _ collapse_touches])
  show "pu_refs (collapse_one env data owner a st) = pu_refs st" "pu_removals (collapse_one env data owner a st) = pu_removals st"
    using collapse_refs[of env data owner "[a]" st] by simp_all
  show "\<exists>s. srv (collapse_one env data owner a st) a = Some s \<and> sv_CloudEntry s = i" if "refs_ok data st" "gm_lookup (pu_refs st) i = Some a" for i
    using that unfolding refs_ok_def by (force simp: collapse_one_def Let_def split: option.splits)
qed

lemma refs_ok_visit: "refs_ok data st \<Longrightarrow> removals_ok env data st \<Longrightarrow> refs_ok data (visit_server env data owner a st)"
proof (cases "srv st a")
  case (Some s)
  assume r: "refs_ok data st" and rem: "removals_ok env data st"
  have mine: "gm_lookup (pu_refs st) i = Some a \<Longrightarrow> sv_CloudEntry s = i \<and> i \<noteq> [] \<and> has_entry data i \<and> \<not> is_tombstone data i" for i
    using r Some unfolding refs_ok_def by force
  show ?thesis
  proof (cases "sv_CloudEntry s = []")
    case True
    then have v: "visit_server env data owner a st = visit_native env data owner a s st" using Some by (simp add: visit_server_def)
    have "gm_lookup (pu_refs st) i \<noteq> Some a" for i using mine True by blast
    then show ?thesis using r unfolding v refs_ok_def visit_native_def Let_def by (auto split: if_splits)
  next
    case False
    then have v: "visit_server env data owner a st = visit_cloud data owner a s st" using Some by (simp add: visit_server_def)
    have "a \<notin> set (pu_removals st)" using rem Some False unfolding removals_ok_def by auto
    then show ?thesis using r Some False mine unfolding v refs_ok_def visit_cloud_def Let_def by (auto split: if_splits option.splits)
  qed
qed (simp add: visit_server_def)

lemma publish_entry_at:
  assumes "gm_lookup (vd_Entries data) i = Some entry" "\<not> has_conflict data i" "\<not> is_tombstone data i" "i \<notin> set (pu_native st)"
  shows "published_for owner (et_Server entry) i (publish_entry data owner i st)"
proof -
  define ref where "ref = (case gm_lookup (pu_refs st) i of None \<Rightarrow> [] | Some r \<Rightarrow> r)"
  define al where "al = (if ref = [] then free_alias (cf_Servers (pu_cfg st)) entry i else ref)"
  have "srv (publish_entry data owner i st) al = Some (published_server data owner i (srv st al) (et_Server entry))"
    using assms by (simp add: publish_entry_def Let_def ref_def[symmetric] al_def[symmetric])
  then show ?thesis unfolding published_for_def by (auto simp: published_server_sel intro!: exI[of _ al])
qed

text \<open>Publishing one entry writes a free alias or the entry's own, so it keeps every record of another entry and of the device.\<close>

lemma publish_entry_keeps:
  assumes "refs_ok data st" "srv st al = Some s" "sv_CloudEntry s \<noteq> j"
  shows "srv (publish_entry data owner j st) al = Some s"
proof -
  obtain a where a: "touches_only a st (publish_entry data owner j st)" "srv st a = None \<or> gm_lookup (pu_refs st) j = Some a"
    using publish_entry_touches by blast
  have "a \<noteq> al" using a(2) assms unfolding refs_ok_def by fastforce
  then show ?thesis using a(1) assms(2) unfolding touches_only_def by simp
qed

lemma publish_entry_own: "srv st al = Some s \<Longrightarrow> sv_CloudEntry s = j \<Longrightarrow> \<exists>s'. srv (publish_entry data owner j st) al = Some s' \<and> sv_CloudEntry s' = j"
  by (auto simp: publish_entry_def Let_def published_server_sel split: option.splits)

lemma refs_ok_publish: "refs_ok data st \<Longrightarrow> refs_ok data (publish_entry data owner j st)"
proof -
  assume r: "refs_ok data st"
  show ?thesis unfolding refs_ok_def
  proof (intro allI impI)
    fix i a
    assume "gm_lookup (pu_refs (publish_entry data owner j st)) i = Some a"
    then have i: "gm_lookup (pu_refs st) i = Some a" by simp
    then obtain s where s: "srv st a = Some s" "sv_CloudEntry s = i" using r unfolding refs_ok_def by blast
    then have "\<exists>s. srv (publish_entry data owner j st) a = Some s \<and> sv_CloudEntry s = i"
      using publish_entry_keeps[OF r s(1), of j] publish_entry_own[OF s(1)] by (cases "i = j") auto
    then show "i \<noteq> [] \<and> has_entry data i \<and> \<not> is_tombstone data i \<and> a \<notin> set (pu_removals (publish_entry data owner j st)) \<and>
        (\<exists>s. srv (publish_entry data owner j st) a = Some s \<and> sv_CloudEntry s = i)"
      using r i unfolding refs_ok_def by simp
  qed
qed

lemma published_for_keeps:
  assumes "refs_ok data st" "published_for owner e i st" "i \<noteq> j" shows "published_for owner e i (publish_entry data owner j st)"
  using assms publish_entry_keeps[OF assms(1)] unfolding published_for_def by metis

lemma native_for_keeps:
  assumes "refs_ok data st" "native_for env i st" "j \<noteq> []" shows "native_for env i (publish_entry data owner j st)"
  using assms publish_entry_keeps[OF assms(1)] unfolding native_for_def by (metis publish_entry_frame(1))

lemma publish_all:
  assumes e: "gm_lookup (vd_Entries data) i = Some entry" "\<not> has_conflict data i" "\<not> is_tombstone data i"
    and "distinct xs" "[] \<notin> set xs" "i \<in> set xs \<or> published_for owner (et_Server entry) i st \<or> native_for env i st"
    and "refs_ok data st" "natives_ok env data st"
  shows "published_for owner (et_Server entry) i (fold (publish_entry data owner) xs st) \<or> native_for env i (fold (publish_entry data owner) xs st)"
  using assms(4-)
proof (induction xs arbitrary: st)
  case (Cons j xs)
  let ?st = "publish_entry data owner j st"
  have j: "j \<noteq> []" using Cons.prems(2) by auto
  have "natives_ok env data ?st" using Cons.prems(5) native_for_keeps[OF Cons.prems(4) _ j] unfolding natives_ok_def by auto
  moreover have "i \<in> set xs \<or> published_for owner (et_Server entry) i ?st \<or> native_for env i ?st"
  proof (cases "i = j")
    case True
    then show ?thesis using publish_entry_at[OF e, of st owner] native_for_keeps[OF Cons.prems(4) _ j] Cons.prems(5) e(3) unfolding natives_ok_def by blast
  next
    case False
    then show ?thesis using Cons.prems(3) published_for_keeps[OF Cons.prems(4) _ False] native_for_keeps[OF Cons.prems(4) _ j] by auto
  qed
  ultimately show ?case using Cons.IH[of ?st] Cons.prems refs_ok_publish by auto
qed auto

text \<open>The three facts hold when the publishing loop starts.\<close>

lemma fold_remove_srv: "srv (fold remove_counted xs st) a = (if a \<in> set xs then None else srv st a)" "pu_refs (fold remove_counted xs st) = pu_refs st"
  "pu_removals (fold remove_counted xs st) = pu_removals st" "pu_native (fold remove_counted xs st) = pu_native st"
  by (induction xs arbitrary: st) auto

lemma natives_phase:
  assumes "refs_ok data st" "natives_ok env data st" "remove_natives env st = Inr st'"
  shows "refs_ok data st' \<and> natives_ok env data st'"
proof (cases "pu_removals st = []")
  case True
  then show ?thesis using assms by (simp add: remove_natives_def)
next
  case False
  then have st': "st' = fold remove_counted (pu_removals st) (st\<lparr>pu_report := (pu_report st)\<lparr>ir_Backup := True\<rparr>\<rparr>)"
    using assms(3) by (auto simp: remove_natives_def split: if_splits)
  have keep: "srv st' a = srv st a" if "a \<notin> set (pu_removals st)" for a using that by (simp add: st' fold_remove_srv)
  have same: "pu_refs st' = pu_refs st" "pu_removals st' = pu_removals st" "pu_native st' = pu_native st" by (simp_all add: st' fold_remove_srv)
  have "refs_ok data st'" using assms(1) keep unfolding refs_ok_def same by simp
  moreover have "native_for env i st'" if "native_for env i st" for i using that keep unfolding native_for_def same by metis
  then have "natives_ok env data st'" using assms(2) unfolding natives_ok_def same by blast
  ultimately show ?thesis by blast
qed

lemma natives_ok_collapse: "natives_ok env data st \<Longrightarrow> natives_ok env data (collapse_one env data owner a st)"
proof -
  assume n: "natives_ok env data st"
  have f: "pu_native (collapse_one env data owner a st) = pu_native st" "pu_removals (collapse_one env data owner a st) = pu_removals st"
    using collapse_refs[of env data owner "[a]" st] by simp_all
  have "srv (collapse_one env data owner a st) al = Some s" if "srv st al = Some s" "sv_CloudEntry s = []" for al s
    using that by (auto simp: collapse_one_def Let_def split: option.splits)
  then have "native_for env i (collapse_one env data owner a st)" if "native_for env i st" for i using that f(2) unfolding native_for_def by metis
  then show ?thesis using n unfolding natives_ok_def f(1) by blast
qed

lemma phases_ok: "refs_ok data (after_collapse env ord1 ord2 data owner cfg) \<and> natives_ok env data (after_collapse env ord1 ord2 data owner cfg)"
proof -
  let ?P = "\<lambda>st. refs_ok data st \<and> natives_ok env data st \<and> removals_ok env data st"
  have "?P (start_publish env data owner cfg)" by (simp add: start_publish_def refs_ok_def natives_ok_def removals_ok_def)
  then have "?P (after_visits env ord1 data owner cfg)" unfolding after_visits_def
    by (intro fold_invariant[where P = ?P]) (auto intro: refs_ok_visit natives_ok_visit removals_ok_visit)
  then show ?thesis unfolding after_collapse_def Let_def
    by (intro fold_invariant[where P = "\<lambda>st. refs_ok data st \<and> natives_ok env data st"]) (auto intro: refs_ok_collapse natives_ok_collapse)
qed

section \<open>Properties\<close>


text \<open>After publishing, every entry of the vault that is neither deleted nor in conflict can be addressed on this device: by a record of
  the device's own with the same login identity, or by a published record, which names the entry and the account, has the entry's host, port and
  user, asks the vault for its credentials and carries no key path.\<close>

theorem every_entry_is_addressable:
  assumes "publish_callback env ord1 ord2 data owner cfg = Inr (cfg', report)" "gm_lookup (vd_Entries data) i = Some entry"
    "gm_lookup (vd_Conflicts data) i = None" "gm_lookup (vd_Deleted data) i \<noteq> Some True" "gm_lookup (vd_Entries data) [] = None"
  shows "\<exists>al s. server_at (cf_Servers cfg') al = Some s \<and>
    (sv_CloudEntry s = [] \<and> EntryID (iv_dg env) (cleanServer s) = i \<or>
     sv_CloudEntry s = i \<and> sv_CloudVault s = owner \<and> sv_Auth s = AuthCloud \<and> sv_KeyPath s = [] \<and>
     sv_Host s = sv_Host (et_Server entry) \<and> sv_Port s = sv_Port (et_Server entry) \<and> sv_User s = sv_User (et_Server entry))"
proof -
  obtain st3 where st3: "remove_natives env (after_collapse env ord1 ord2 data owner cfg) = Inr st3"
    and cfg': "cfg' = pu_cfg (fold (publish_entry data owner) (gm_keys (vd_Entries data)) (st3\<lparr>pu_report := (pu_report st3)\<lparr>ir_Conflicts := int (gm_len (vd_Conflicts data))\<rparr>\<rparr>))"
    using assms(1) unfolding publish_callback_phases Let_def by blast
  let ?st = "st3\<lparr>pu_report := (pu_report st3)\<lparr>ir_Conflicts := int (gm_len (vd_Conflicts data))\<rparr>\<rparr>"
  have "refs_ok data st3" "natives_ok env data st3" using natives_phase[OF _ _ st3] phases_ok by blast+
  then have ok: "refs_ok data ?st" "natives_ok env data ?st" by (simp_all add: refs_ok_def natives_ok_def native_for_def)
  have "[] \<notin> set (gm_keys (vd_Entries data))" "i \<in> set (gm_keys (vd_Entries data))" using assms(2,5) by (simp_all add: in_gm_keys)
  then have "published_for owner (et_Server entry) i (fold (publish_entry data owner) (gm_keys (vd_Entries data)) ?st) \<or>
      native_for env i (fold (publish_entry data owner) (gm_keys (vd_Entries data)) ?st)"
    using assms(3,4) ok by (intro publish_all[OF assms(2)]) (simp_all add: has_conflict_def is_tombstone_def)
  then show ?thesis unfolding cfg' published_for_def native_for_def by blast
qed

text \<open>Publishing leaves the default and the projects alone, and every alias they refer to that had a record still has one, whatever the
  visiting orders and whatever the vault deletes.\<close>

theorem publish_keeps_references:
  assumes "publish_callback env ord1 ord2 data owner cfg = Inr (cfg', report)" "referenced cfg al" "server_at (cf_Servers cfg) al \<noteq> None"
  shows "referenced cfg' al \<and> server_at (cf_Servers cfg') al \<noteq> None"
proof -
  obtain st3 where st3: "remove_natives env (after_collapse env ord1 ord2 data owner cfg) = Inr st3"
    and cfg': "cfg' = pu_cfg (fold (publish_entry data owner) (gm_keys (vd_Entries data)) (st3\<lparr>pu_report := (pu_report st3)\<lparr>ir_Conflicts := int (gm_len (vd_Conflicts data))\<rparr>\<rparr>))"
    using assms(1) unfolding publish_callback_phases Let_def by blast
  have "resolves al (start_publish env data owner cfg)" using assms(2,3) by (simp add: resolves_def start_publish_def restoreLegacyBindings_def referenced_def)
  then have "resolves al (after_collapse env ord1 ord2 data owner cfg)" unfolding after_collapse_def after_visits_def Let_def
    by (intro fold_invariant[where P = "resolves al"] resolves_visit resolves_collapse)
  from resolves_natives[OF this st3] have "resolves al (st3\<lparr>pu_report := rep\<rparr>)" for rep by (simp add: resolves_def)
  then have "resolves al (fold (publish_entry data owner) xs (st3\<lparr>pu_report := rep\<rparr>))" for xs rep
    by (intro fold_invariant[where P = "resolves al"] resolves_publish)
  then show ?thesis unfolding cfg' resolves_def by blast
qed

section \<open>Witnesses\<close>

text \<open>A device with a record of its own, and two published records of deleted entries, of which one is the other's jump host.\<close>

definition demo_inventory :: inventory_env where
  "demo_inventory = \<lparr>iv_dg = \<lparr>dg_entry = (\<lambda>(h, _). ''entry-'' @ h), dg_pair = \<lambda>_ _. [], dg_source = \<lambda>_. [], dg_credential = \<lambda>_. []\<rparr>,
     iv_identity = \<lambda>_ _ _. ''owner'', iv_now = 0, iv_backup_fails = False, iv_bindings_fail = False, iv_summary_fails = False, iv_config = one_doc_env\<rparr>"

definition native_record :: Server where
  "native_record = zero_server\<lparr>sv_Host := ''a'', sv_User := ''root'', sv_Auth := AuthKey, sv_KeyPath := ''k''\<rparr>"

definition cloud_record :: "string \<Rightarrow> string \<Rightarrow> Server" where
  "cloud_record i jump = zero_server\<lparr>sv_Host := i, sv_User := ''root'', sv_Auth := AuthCloud, sv_CloudEntry := i, sv_CloudVault := ''owner'', sv_ProxyJump := jump\<rparr>"

definition demo_config :: Config where
  "demo_config = New\<lparr>cf_Default := ''gate'', cf_Servers := gm_of_list [(''gate'', Some native_record)]\<rparr>"

definition web_entry :: cl_Entry where
  "web_entry = \<lparr>et_ID = ''webwebweb'', et_Aliases = [''gate''], et_Server = zero_server\<lparr>sv_Host := ''w'', sv_User := ''root'', sv_Port := 22, sv_Auth := AuthKey\<rparr>,
     et_CredentialIDs = [], et_Sources = gm_empty\<rparr>"

definition web_vault :: cl_Data where
  "web_vault = NewData\<lparr>vd_Entries := gm_of_list [(''webwebweb'', web_entry)]\<rparr>"

definition web_result :: "unit + (Config \<times> InventoryReport)" where
  "web_result = publish_callback demo_inventory gm_keys gm_keys web_vault ''owner'' demo_config"

definition jump_config :: Config where
  "jump_config = New\<lparr>cf_Servers := gm_of_list [(''app'', Some (cloud_record ''app-entry'' ''hop'')), (''hop'', Some (cloud_record ''hop-entry'' []))]\<rparr>"

lemma web_result_ok: "web_result = Inr (fst (projr web_result), snd (projr web_result))"
proof -
  have "isl web_result = False" by code_simp
  then show ?thesis by (metis prod.collapse sum.collapse(2))
qed

lemma gate_record: "server_at (cf_Servers demo_config) ''gate'' = Some native_record"
  by (simp add: demo_config_def server_at_def gm_lookup_of_list)


theorem every_entry_is_addressable_witness:
  "\<exists>al s. server_at (cf_Servers (fst (projr web_result))) al = Some s \<and>
    (sv_CloudEntry s = [] \<and> EntryID (iv_dg demo_inventory) (cleanServer s) = ''webwebweb'' \<or>
     sv_CloudEntry s = ''webwebweb'' \<and> sv_CloudVault s = ''owner'' \<and> sv_Auth s = AuthCloud \<and> sv_KeyPath s = [] \<and>
     sv_Host s = sv_Host (et_Server web_entry) \<and> sv_Port s = sv_Port (et_Server web_entry) \<and> sv_User s = sv_User (et_Server web_entry))"
proof (rule every_entry_is_addressable)
  show "publish_callback demo_inventory gm_keys gm_keys web_vault ''owner'' demo_config = Inr (fst (projr web_result), snd (projr web_result))"
    using web_result_ok by (simp add: web_result_def)
qed (simp_all add: web_vault_def NewData_def gm_lookup_of_list)

theorem publish_keeps_references_witness:
  "referenced (fst (projr web_result)) ''gate'' \<and> server_at (cf_Servers (fst (projr web_result))) ''gate'' \<noteq> None"
proof (rule publish_keeps_references)
  show "publish_callback demo_inventory gm_keys gm_keys web_vault ''owner'' demo_config = Inr (fst (projr web_result), snd (projr web_result))"
    using web_result_ok by (simp add: web_result_def)
  show "referenced demo_config ''gate''" by (simp add: referenced_def demo_config_def)
qed (simp add: gate_record)

text \<open>Which published records of deleted entries go depends on the order in which the runtime visits the map: a jump host whose only user is
  deleted too stays if it is visited first and goes if it is visited last.\<close>

theorem removal_depends_on_visiting_order:
  "range_order (cf_Servers jump_config) [''app'', ''hop''] \<and> range_order (cf_Servers jump_config) [''hop'', ''app''] \<and>
   map_sum id (gm_keys \<circ> cf_Servers \<circ> fst) (publish_callback demo_inventory (\<lambda>_. [''app'', ''hop'']) gm_keys NewData ''owner'' jump_config) = Inr [] \<and>
   map_sum id (gm_keys \<circ> cf_Servers \<circ> fst) (publish_callback demo_inventory (\<lambda>_. [''hop'', ''app'']) gm_keys NewData ''owner'' jump_config) = Inr [''hop'']"
proof (intro conjI)
  show "range_order (cf_Servers jump_config) [''app'', ''hop'']" "range_order (cf_Servers jump_config) [''hop'', ''app'']"
    by (auto simp: gm.legal_order_def jump_config_def gm_keys_of_list)
  show "map_sum id (gm_keys \<circ> cf_Servers \<circ> fst) (publish_callback demo_inventory (\<lambda>_. [''app'', ''hop'']) gm_keys NewData ''owner'' jump_config) = Inr []"
    by code_simp
  show "map_sum id (gm_keys \<circ> cf_Servers \<circ> fst) (publish_callback demo_inventory (\<lambda>_. [''hop'', ''app'']) gm_keys NewData ''owner'' jump_config) = Inr [''hop'']"
    by code_simp
qed

end
