(* ===== verification/Mcp_Exec.thy ===== *)
theory Mcp_Exec
  imports Safety_Filter Safety_Mask Ssh_Transport Go_Encoding "HOL-Library.AList" Complex_Main
begin

text \<open>
  \<open>internal/mcp/tools_exec.go\<close> with \<open>result.go\<close>, \<open>powershell.go\<close> and the argument helpers of \<open>tools_write.go\<close>: running commands for an assistant.
  A tool call returns a JSON value and the list of what it did, in order: the events of its dial, the commands it ran and the audit
  records. The configuration, the network and the outcome of each remote command are parameters. The arguments and results are JSON values; an object
  is the list of its members in the order they are visited.
\<close>

section \<open>Values and arguments\<close>

datatype json = JNull | JBool bool | JNum rat | JStr string | JArr "json list" | JObj "(string \<times> json) list"

type_synonym json_args = "(string \<times> json) list"

definition strArg :: "json_args \<Rightarrow> string \<Rightarrow> string" where
  "strArg args key = (case map_of args key of Some (JStr s) \<Rightarrow> s | _ \<Rightarrow> [])"

definition boolArg :: "json_args \<Rightarrow> string \<Rightarrow> bool" where
  "boolArg args key = (case map_of args key of Some (JBool b) \<Rightarrow> b | _ \<Rightarrow> False)"

definition requireReason :: "json_args \<Rightarrow> string option" where
  "requireReason args = (let r = strArg args ''reason'' in if r = [] then None else Some r)"

definition errResult :: "string \<Rightarrow> string \<Rightarrow> json" where
  "errResult kind msg = JObj [(''error'', JObj [(''kind'', JStr kind), (''message'', JStr msg)])]"

text \<open>Every string and every key is masked. Keys that become equal are assigned one after the other.\<close>

fun maskResultStrings :: "json \<Rightarrow> json" where
  "maskResultStrings (JStr s) = JStr (MaskSecrets s)"
| "maskResultStrings (JArr xs) = JArr (map maskResultStrings xs)"
| "maskResultStrings (JObj ms) = JObj (fold (\<lambda>(k, v). AList.update (MaskSecrets k) v) (map (\<lambda>(k, v). (k, maskResultStrings v)) ms) [])"
| "maskResultStrings v = v"

section \<open>Timeouts\<close>

text \<open>A JSON number is a \<open>float64\<close>; its conversion to a duration truncates, and the multiplication by a second
  wraps at 64 bits. (Beyond the range of \<open>int64\<close> the conversion is left to the implementation; \<open>beyond\<close> is what it gives.)\<close>

definition second :: int where "second = 1000000000"

definition defaultExecTimeout :: int where "defaultExecTimeout = 60 * second"

definition truncate_rat :: "rat \<Rightarrow> int" where
  "truncate_rat v = (if 0 \<le> v then floor v else ceiling v)"

definition wrap64 :: "int \<Rightarrow> int" where
  "wrap64 i = sint (word_of_int i :: 64 word)"

definition execTimeout :: "(rat \<Rightarrow> int) \<Rightarrow> json_args \<Rightarrow> int" where
  "execTimeout beyond args =
    (case map_of args ''timeout_seconds'' of
       Some (JNum v) \<Rightarrow>
         if v < 0 then defaultExecTimeout
         else wrap64 ((if v < 9223372036854775808 then truncate_rat v else beyond v) * second)
     | _ \<Rightarrow> defaultExecTimeout)"

text \<open>\<open>Duration.String\<close>: the fraction has no trailing zeros, units above the largest that is needed are left out.\<close>

definition fraction_text :: "nat \<Rightarrow> nat \<Rightarrow> string" where
  "fraction_text v prec =
    (let ds = digits_of (v mod 10 ^ prec); padded = replicate (prec - length ds) (CHR ''0'') @ ds;
         kept = rev (dropWhile (\<lambda>c. c = CHR ''0'') (rev padded)) in
     if kept = [] then [] else CHR ''.'' # kept)"

definition duration_String :: "int \<Rightarrow> string" where
  "duration_String d =
    (let u = nat \<bar>d\<bar>; sign = (if d < 0 then ''-'' else []) in
     if u = 0 then ''0s''
     else if u < 1000 then sign @ digits_of u @ ''ns''
     else if u < 1000000 then sign @ digits_of (u div 1000) @ fraction_text u 3 @ [CHR 0xC2, CHR 0xB5, CHR ''s'']
     else if u < 1000000000 then sign @ digits_of (u div 1000000) @ fraction_text u 6 @ ''ms''
     else let secs = u div 1000000000; mins = secs div 60; hours = mins div 60 in
       sign @ (if 0 < hours then digits_of hours @ ''h'' else []) @ (if 0 < mins then digits_of (mins mod 60) @ ''m'' else []) @
       digits_of (secs mod 60) @ fraction_text u 9 @ ''s'')"

definition whole_seconds :: "int \<Rightarrow> int" where
  "whole_seconds d = (if 0 \<le> d then d div second else - ((- d) div second))"

text \<open>The verb \<open>%q\<close>; a multi-byte rune is carried through.\<close>

definition quote_byte :: "char \<Rightarrow> string" where
  "quote_byte c =
    (if c = CHR 0x22 \<or> c = CHR 0x5C then [CHR 0x5C, c]
     else if c = CHR 0x07 then [CHR 0x5C, CHR ''a''] else if c = CHR 0x08 then [CHR 0x5C, CHR ''b''] else if c = CHR 0x09 then [CHR 0x5C, CHR ''t'']
     else if c = CHR 0x0A then [CHR 0x5C, CHR ''n''] else if c = CHR 0x0B then [CHR 0x5C, CHR ''v''] else if c = CHR 0x0C then [CHR 0x5C, CHR ''f'']
     else if c = CHR 0x0D then [CHR 0x5C, CHR ''r'']
     else if (of_char c :: nat) < 0x20 \<or> c = CHR 0x7F then [CHR 0x5C, CHR ''x'', hex_digit (of_char c div 16), hex_digit (of_char c mod 16)]
     else [c])"

definition quoted :: "string \<Rightarrow> string" where
  "quoted s = [CHR 0x22] @ concat (map quote_byte s) @ [CHR 0x22]"

section \<open>Background commands\<close>

fun decode_runes :: "nat list \<Rightarrow> nat list" where
  "decode_runes [] = []"
| "decode_runes (a # r) =
    (if a < 0x80 then a # decode_runes r
     else if 0xC2 \<le> a \<and> a \<le> 0xDF then
       (case r of b # r' \<Rightarrow> if continuation b then ((a - 0xC0) * 64 + (b - 0x80)) # decode_runes r' else 0xFFFD # decode_runes r
        | [] \<Rightarrow> 0xFFFD # decode_runes r)
     else if 0xE0 \<le> a \<and> a \<le> 0xEF then
       (case r of b # c # r' \<Rightarrow> if second_ok a b \<and> continuation c
          then ((a - 0xE0) * 4096 + (b - 0x80) * 64 + (c - 0x80)) # decode_runes r' else 0xFFFD # decode_runes r
        | _ \<Rightarrow> 0xFFFD # decode_runes r)
     else if 0xF0 \<le> a \<and> a \<le> 0xF4 then
       (case r of b # c # d # r' \<Rightarrow> if second_ok a b \<and> continuation c \<and> continuation d
          then ((a - 0xF0) * 262144 + (b - 0x80) * 4096 + (c - 0x80) * 64 + (d - 0x80)) # decode_runes r' else 0xFFFD # decode_runes r
        | _ \<Rightarrow> 0xFFFD # decode_runes r)
     else 0xFFFD # decode_runes r)"

definition utf16_words :: "nat \<Rightarrow> nat list" where
  "utf16_words r = (if r < 0x10000 then [r] else [0xD800 + (r - 0x10000) div 1024, 0xDC00 + (r - 0x10000) mod 1024])"

definition utf16LE :: "string \<Rightarrow> bytes" where
  "utf16LE s = concat (map (\<lambda>w. [char_of (w mod 256), char_of (w div 256)]) (concat (map utf16_words (decode_runes (map of_char s)))))"

definition std_char :: "nat \<Rightarrow> char" where
  "std_char n = (if n = 62 then CHR ''+'' else if n = 63 then CHR ''/'' else b64_char n)"

definition StdEncode :: "bytes \<Rightarrow> string" where
  "StdEncode b = map std_char (b64_split (map of_char b)) @ replicate ((3 - length b mod 3) mod 3) (CHR ''='')"

definition powershellEncodedCommand :: "string \<Rightarrow> string" where
  "powershellEncodedCommand script = ''powershell.exe -NoProfile -NonInteractive -EncodedCommand '' @ StdEncode (utf16LE script)"

definition powershellSingleQuote :: "string \<Rightarrow> string" where
  "powershellSingleQuote s = [CHR 0x27] @ ReplaceAll s [CHR 0x27] [CHR 0x27, CHR 0x27] @ [CHR 0x27]"

definition shellQuoteArg :: "string \<Rightarrow> string" where
  "shellQuoteArg s = [CHR 0x27] @ ReplaceAll s [CHR 0x27] [CHR 0x27, CHR 0x5C, CHR 0x27, CHR 0x27] @ [CHR 0x27]"

record detachLauncher =
  dl_Platform :: string
  dl_Command :: string
  dl_LogPath :: string

definition quote_text :: "string \<Rightarrow> string" where
  "quote_text s = ReplaceAll s ''`'' [CHR 0x27]"

definition windows_wrapper :: "string \<Rightarrow> string \<Rightarrow> string" where
  "windows_wrapper logExpr child =
    quote_text ''$ErrorActionPreference=`Stop`; try { $log='' @ logExpr @ ''; $childEncoded='' @ child @
    quote_text (''; $p=Start-Process -FilePath `powershell.exe` -ArgumentList @(`-NoProfile`,`-NonInteractive`,`-ExecutionPolicy`,`Bypass`,`-EncodedCommand`,$childEncoded)'' @
      '' -WindowStyle Hidden -PassThru -ErrorAction Stop; if ($null -eq $p -or $p.Id -le 0) { throw `child process did not return a valid PID` };'' @
      '' Write-Output (`pid=` + $p.Id); Write-Output (`log=` + $log) } catch'' @
      '' { [Console]::Error.WriteLine(`sshm detach launch failed: ` + $_.Exception.Message); exit 1 }'')"

definition buildDetachLauncher :: "string \<Rightarrow> string \<Rightarrow> int \<Rightarrow> detachLauncher" where
  "buildDetachLauncher platform command nonce =
    (if EqualFold platform ''windows'' then
       (let logName = ''sshm-detach-'' @ Itoa nonce @ ''.log'';
            logExpr = ''(Join-Path $env:TEMP '' @ powershellSingleQuote logName @ '')'';
            normalized = ReplaceAll command [CHR 0x0D, CHR 0x0A] [CHR 0x0A];
            body = ''& {'' @ [newline] @ normalized @ [newline] @ ''} *> '' @ logExpr;
            child = powershellSingleQuote (StdEncode (utf16LE body)) in
        \<lparr>dl_Platform = ''windows'', dl_Command = powershellEncodedCommand (windows_wrapper logExpr child), dl_LogPath = ''$env:TEMP'' @ [CHR 0x5C] @ logName\<rparr>)
     else
       (let logPath = ''/tmp/sshm-detach-'' @ Itoa nonce @ ''.log''; inner = shellQuoteArg command in
        \<lparr>dl_Platform = ''posix'',
         dl_Command = ''if command -v setsid >/dev/null 2>&1; then nohup setsid sh -c '' @ inner @ '' </dev/null >'' @ shellQuoteArg logPath @
           '' 2>&1 & else nohup sh -c '' @ inner @ '' </dev/null >'' @ shellQuoteArg logPath @ '' 2>&1 & fi'',
         dl_LogPath = logPath\<rparr>))"

definition detectDetachPlatform :: "string \<Rightarrow> string \<Rightarrow> string" where
  "detectDetachPlatform stdout stderr =
    (let raw = ToLower (stdout @ [newline] @ stderr) in
     if Contains raw ''microsoft windows'' \<or> Contains raw ''windows [version'' then ''windows'' else ''posix'')"

definition metadata_line :: "string \<Rightarrow> int \<times> string \<Rightarrow> int \<times> string" where
  "metadata_line rawLine = (\<lambda>(pid, logPath).
    (let line = TrimSpace rawLine in
     if HasPrefix line ''pid='' then (let (n, ok) = Atoi (TrimSpace (drop 4 line)) in (if ok then n else pid, logPath))
     else if HasPrefix line ''log='' then (pid, TrimSpace (drop 4 line))
     else (pid, logPath)))"

definition parseDetachMetadata :: "string \<Rightarrow> int \<times> string" where
  "parseDetachMetadata stdout = fold metadata_line (Split_byte stdout newline) (0, [])"

definition json_int :: "int \<Rightarrow> json" where
  "json_int i = JNum (of_int i)"

definition buildDetachedResult :: "string \<Rightarrow> detachLauncher \<Rightarrow> string \<Rightarrow> json_args" where
  "buildDetachedResult alias launcher stdout =
    (let windows = (dl_Platform launcher = ''windows'');
         (pid, logPath) = (if windows then parseDetachMetadata stdout else (0, dl_LogPath launcher));
         metadataError = (if \<not> windows then [] else if pid \<le> 0 then ''Windows detach launcher did not return a confirmed process ID''
           else if logPath = [] then ''Windows detach launcher did not return readable log metadata'' else []);
         withPid = (if 0 < pid then [(''pid'', json_int pid)] else []) in
     if metadataError \<noteq> [] then
       [(''error'', JObj [(''kind'', JStr ''exec''), (''message'', JStr metadataError)]), (''alias'', JStr alias), (''detached'', JBool True),
        (''platform'', JStr (dl_Platform launcher)), (''stdout'', JStr (MaskSecrets stdout))] @ withPid
     else
       [(''alias'', JStr alias), (''detached'', JBool True), (''platform'', JStr (dl_Platform launcher)), (''log_path'', JStr logPath),
        (''stdout'', JStr (MaskSecrets stdout)), (''note'', JStr ''running in background; poll with tail_logs on log_path'')] @ withPid)"

section \<open>Running a command\<close>

datatype run_error = DeadlineExceeded | Canceled | RunFailed string

record ExecResult =
  xr_Stdout :: string
  xr_Stderr :: string
  xr_ExitCode :: int
  xr_Truncated :: bool

datatype tool_event = Net ssh_event | Ran string bool \<comment> \<open>the command, and whether in the raw environment\<close> | Audited Entry

record exec_env =
  xe_config :: "string + Config" \<comment> \<open>\<open>config.Load\<close>\<close>
  xe_path :: string
  xe_cloud :: bool \<comment> \<open>a browser session was supplied\<close>
  xe_ssh :: ssh_env
  xe_dial_text :: "dial_error \<Rightarrow> string"
  xe_run :: "string \<Rightarrow> run_error option \<times> ExecResult"
  xe_nonce :: int
  xe_beyond :: "rat \<Rightarrow> int"

definition audit_entry :: "string \<Rightarrow> string \<Rightarrow> string \<Rightarrow> tool_event" where
  "audit_entry alias reason result = Audited \<lparr>en_Time = [], en_Tool = ''exec'', en_Alias = alias, en_Reason = reason, en_Result = result\<rparr>"

definition sshOptions :: "exec_env \<Rightarrow> BuildOpts \<Rightarrow> BuildOpts" where
  "sshOptions env opts = (if xe_cloud env then opts\<lparr>bo_StrictRoute := True, bo_ResolveCloud := True\<rparr> else opts)"

definition bypassed :: "bool \<Rightarrow> string" where
  "bypassed unsafe = (if unsafe then '' (unsafe=true '' @ [CHR 0xE2, CHR 0x80, CHR 0x94] @ '' filter bypassed)'' else [])"

definition finishDetachedLaunch :: "string \<Rightarrow> string \<Rightarrow> bool \<Rightarrow> detachLauncher \<Rightarrow> string \<Rightarrow> json \<times> tool_event list" where
  "finishDetachedLaunch alias reason unsafe launcher stdout =
    (let out = buildDetachedResult alias launcher stdout;
         result = (if map_of out ''error'' \<noteq> None then ''detached (launch metadata unavailable)'' else ''detached'') @ bypassed unsafe in
     (JObj out, [audit_entry alias reason result]))"

definition detectRemoteDetachPlatform :: "exec_env \<Rightarrow> string" where
  "detectRemoteDetachPlatform env =
    (case xe_run env ''cmd /c ver'' of (Some _, _) \<Rightarrow> ''posix'' | (None, res) \<Rightarrow> detectDetachPlatform (xr_Stdout res) (xr_Stderr res))"

definition runDetached :: "exec_env \<Rightarrow> string \<Rightarrow> string \<Rightarrow> string \<Rightarrow> bool \<Rightarrow> string \<Rightarrow> json \<times> tool_event list" where
  "runDetached env alias command reason unsafe platform0 =
    (let detect = (TrimSpace platform0 = [] \<or> EqualFold platform0 ''auto'');
         probe = (if detect then [Ran ''cmd /c ver'' False] else []);
         platform = (if detect then detectRemoteDetachPlatform env else platform0);
         launcher = buildDetachLauncher platform command (xe_nonce env);
         did = probe @ [Ran (dl_Command launcher) False] in
     case xe_run env (dl_Command launcher) of
       (Some (RunFailed text), _) \<Rightarrow> (errResult ''exec'' (MaskSecrets text), did @ [audit_entry alias reason ''detach launcher failed''])
     | (Some _, _) \<Rightarrow> (errResult ''exec'' ''detach launcher timed out before the command could be started'', did @ [audit_entry alias reason ''detach launcher timed out''])
     | (None, res) \<Rightarrow>
         if xr_ExitCode res \<noteq> 0 then
           (errResult ''exec'' (MaskSecrets (''detach launcher exited '' @ Itoa (xr_ExitCode res) @ '': '' @ xr_Stderr res)),
            did @ [audit_entry alias reason (''detach launcher exit '' @ Itoa (xr_ExitCode res))])
         else (case finishDetachedLaunch alias reason unsafe launcher (xr_Stdout res) of (out, ev) \<Rightarrow> (out, did @ ev)))"

definition output_members :: "string \<Rightarrow> int \<Rightarrow> ExecResult \<Rightarrow> json_args" where
  "output_members alias exit res =
    [(''alias'', JStr alias), (''exit'', json_int exit), (''stdout'', JStr (MaskSecrets (xr_Stdout res))), (''stderr'', JStr (MaskSecrets (xr_Stderr res)))]"

definition run_foreground :: "exec_env \<Rightarrow> string \<Rightarrow> string \<Rightarrow> string \<Rightarrow> bool \<Rightarrow> bool \<Rightarrow> int \<Rightarrow> json \<times> tool_event list" where
  "run_foreground env alias command reason unsafe raw timeout =
    (let did = [Ran command raw];
         truncated = (\<lambda>res. if xr_Truncated res then [(''truncated'', JBool True)] else []);
         timed_out = (\<lambda>res more. (JObj (output_members alias (-1) res @
             [(''error'', JStr (''command timed out after '' @ Itoa (whole_seconds timeout) @ ''s; raise timeout_seconds or use detach:true''))] @ more @ truncated res),
           did @ [audit_entry alias reason (''timed out after '' @ duration_String timeout)])) in
     case xe_run env command of
       (Some DeadlineExceeded, res) \<Rightarrow> timed_out res [(''timed_out'', JBool True)]
     | (Some Canceled, res) \<Rightarrow> timed_out res []
     | (Some (RunFailed text), _) \<Rightarrow> (errResult ''exec'' (MaskSecrets text), did @ [audit_entry alias reason ''exec failed''])
     | (None, res) \<Rightarrow> (JObj (output_members alias (xr_ExitCode res) res @ truncated res),
           did @ [audit_entry alias reason (''exit '' @ Itoa (xr_ExitCode res) @ bypassed unsafe)]))"

definition handleExec :: "exec_env \<Rightarrow> json_args \<Rightarrow> json \<times> tool_event list" where
  "handleExec env args =
    (case requireReason args of None \<Rightarrow> (errResult ''bad_request'' (''a non-empty '' @ quoted ''reason'' @ '' argument is required for write operations''), []) | Some reason \<Rightarrow>
     let alias = strArg args ''alias''; command = strArg args ''command'';
         unsafe = boolArg args ''unsafe''; detach = boolArg args ''detach''; raw = boolArg args ''raw_environment'' in
     if command = [] then (errResult ''bad_request'' ''command is required'', [])
     else if detach \<and> raw then (errResult ''bad_request'' ''raw_environment is not supported with detach'', [])
     else case (if unsafe then None else IsDangerous command) of
       Some why \<Rightarrow> (errResult ''dangerous'' (''dangerous command blocked ('' @ why @ ''); pass unsafe=true to override''),
           [audit_entry alias reason ''blocked: dangerous command''])
     | None \<Rightarrow>
         case xe_config env of Inl text \<Rightarrow> (errResult ''config'' text, []) | Inr cfg \<Rightarrow>
         case gm_lookup (cf_Servers cfg) alias of None \<Rightarrow> (errResult ''not_found'' (''unknown server '' @ quoted alias), []) | Some s \<Rightarrow>
         case Dial (xe_ssh env) s (sshOptions env (zero_opts\<lparr>bo_ConfigPath := xe_path env, bo_Alias := alias\<rparr>)) of
           (Inl e, ev) \<Rightarrow> (errResult ''ssh'' (MaskSecrets (xe_dial_text env e)), map Net ev @ [audit_entry alias reason ''ssh failed''])
         | (Inr _, ev) \<Rightarrow>
             (case (if detach then runDetached env alias command reason unsafe (strArg args ''platform'')
                    else run_foreground env alias command reason unsafe raw (execTimeout (xe_beyond env) args)) of
                (out, did) \<Rightarrow> (out, map Net ev @ did)))"

section \<open>Several servers\<close>

definition execOutcome :: "json \<Rightarrow> bool \<times> string" where
  "execOutcome single =
    (case single of
       JObj ms \<Rightarrow>
         (case map_of ms ''error'' of
            Some (JObj e) \<Rightarrow> (False, strArg e ''kind'' @ '': '' @ strArg e ''message'')
          | _ \<Rightarrow>
              (case map_of ms ''exit'' of
                 Some (JNum x) \<Rightarrow> if x = 0 then (True, []) else if boolArg ms ''timed_out'' then (False, ''timed out'') else (False, ''exit '' @ Itoa (floor x))
               | _ \<Rightarrow> (False, ''no exit code'')))
     | _ \<Rightarrow> (False, ''unexpected result''))"

record multi_result =
  mr_results :: json_args
  mr_succeeded :: "string list"
  mr_failed :: json_args

text \<open>Entries that are not a non-empty string are recorded at once, under their text or their position.\<close>

fun invalid_entries :: "nat \<Rightarrow> json list \<Rightarrow> json_args \<Rightarrow> json_args" where
  "invalid_entries i [] failed = failed"
| "invalid_entries i (ra # ras) failed =
    (let (alias, ok) = (case ra of JStr a \<Rightarrow> (a, True) | _ \<Rightarrow> ([], False)) in
     if \<not> ok \<or> TrimSpace alias = []
     then invalid_entries (Suc i) ras (AList.update (if alias = [] then ''<invalid #'' @ Itoa (int i) @ ''>'' else alias)
            (JStr ''invalid alias entry (must be a non-empty string)'') failed)
     else invalid_entries (Suc i) ras failed)"

definition valid_aliases :: "json list \<Rightarrow> string list" where
  "valid_aliases ras = concat (map (\<lambda>ra. case ra of JStr a \<Rightarrow> if TrimSpace a = [] then [] else [a] | _ \<Rightarrow> []) ras)"

definition forwarded :: "string \<Rightarrow> json_args \<Rightarrow> json option \<Rightarrow> json_args" where
  "forwarded key rest v = (case v of None \<Rightarrow> (key, JNull) # rest | Some x \<Rightarrow> (key, x) # rest)"

definition single_args :: "json_args \<Rightarrow> string \<Rightarrow> string \<Rightarrow> string \<Rightarrow> json_args" where
  "single_args args command reason alias =
    [(''alias'', JStr alias), (''command'', JStr command), (''reason'', JStr reason)] @
    forwarded ''unsafe'' (forwarded ''timeout_seconds'' (forwarded ''raw_environment'' [] (map_of args ''raw_environment'')) (map_of args ''timeout_seconds'')) (map_of args ''unsafe'')"

definition record_single :: "string \<times> json \<Rightarrow> multi_result \<Rightarrow> multi_result" where
  "record_single p mr =
    (let (alias, single) = p; (ok, why) = execOutcome single; mr1 = mr\<lparr>mr_results := AList.update alias single (mr_results mr)\<rparr> in
     if ok then mr1\<lparr>mr_succeeded := mr_succeeded mr1 @ [alias]\<rparr> else mr1\<lparr>mr_failed := AList.update alias (JStr why) (mr_failed mr1)\<rparr>)"

text \<open>\<open>env i\<close> is the environment the goroutine of the \<open>i\<close>-th valid alias meets, \<open>finish\<close> the order in which the goroutines take the lock. The events are
  listed by goroutine; how those of different goroutines interleave does not matter here.\<close>

definition handleExecMulti :: "(nat \<Rightarrow> exec_env) \<Rightarrow> (nat list \<Rightarrow> nat list) \<Rightarrow> json_args \<Rightarrow> json \<times> tool_event list" where
  "handleExecMulti env finish args =
    (case requireReason args of None \<Rightarrow> (errResult ''bad_request'' (''a non-empty '' @ quoted ''reason'' @ '' argument is required for write operations''), []) | Some reason \<Rightarrow>
     let command = strArg args ''command''; ras = (case map_of args ''aliases'' of Some (JArr xs) \<Rightarrow> xs | _ \<Rightarrow> []) in
     if command = [] \<or> ras = [] then (errResult ''bad_request'' ''aliases (array) and command are required'', [])
     else
       (let aliases = valid_aliases ras;
            runs = map (\<lambda>i. (aliases ! i, handleExec (env i) (single_args args command reason (aliases ! i)))) [0..<length aliases];
            mr = fold record_single (map (\<lambda>i. (fst (runs ! i), fst (snd (runs ! i)))) (finish [0..<length aliases]))
              \<lparr>mr_results = [], mr_succeeded = [], mr_failed = invalid_entries 0 ras []\<rparr> in
        (JObj [(''results'', JObj (mr_results mr)), (''succeeded'', JArr (map JStr (mr_succeeded mr))), (''failed'', JObj (mr_failed mr))],
         concat (map (snd \<circ> snd) runs))))"

section \<open>Laws\<close>

fun is_audit :: "tool_event \<Rightarrow> bool" where
  "is_audit (Audited e) \<longleftrightarrow> True"
| "is_audit _ \<longleftrightarrow> False"

abbreviation audits :: "tool_event list \<Rightarrow> tool_event list" where
  "audits \<equiv> filter is_audit"

text \<open>What a call may run for a command: the command itself, or in the background the platform probe and the launcher that carries the command.\<close>

definition runs_of :: "exec_env \<Rightarrow> bool \<Rightarrow> string \<Rightarrow> string set" where
  "runs_of env detach command =
    (if detach then insert ''cmd /c ver'' (range (\<lambda>platform. dl_Command (buildDetachLauncher platform command (xe_nonce env)))) else {command})"

lemma audit_entry_audits [simp]: "audits [audit_entry a r x] = [audit_entry a r x]" "audits (map Net ev) = []"
  by (simp_all add: audit_entry_def filter_empty_conv)

lemma runDetached_events:
  assumes "runDetached env alias command reason unsafe platform = (out, ev)"
  shows "(\<exists>x. audits ev = [audit_entry alias reason x]) \<and> (\<forall>c raw. Ran c raw \<in> set ev \<longrightarrow> c \<in> runs_of env True command) \<and> (\<forall>n. Net n \<notin> set ev)"
proof -
  define probe where "probe = (if TrimSpace platform = [] \<or> EqualFold platform ''auto'' then [Ran ''cmd /c ver'' False] else [])"
  define pl where "pl = (if TrimSpace platform = [] \<or> EqualFold platform ''auto'' then detectRemoteDetachPlatform env else platform)"
  define l where "l = buildDetachLauncher pl command (xe_nonce env)"
  have "\<exists>x. ev = probe @ [Ran (dl_Command l) False, audit_entry alias reason x]"
    using assms unfolding runDetached_def Let_def probe_def[symmetric] pl_def[symmetric] l_def[symmetric]
    by (auto simp: finishDetachedLaunch_def Let_def split: prod.splits option.splits run_error.splits if_splits)
  then obtain x where ev: "ev = probe @ [Ran (dl_Command l) False, audit_entry alias reason x]" by blast
  have "audits probe = []" "\<And>c raw. Ran c raw \<in> set probe \<Longrightarrow> c = ''cmd /c ver''" "\<And>n. Net n \<notin> set probe" by (auto simp: probe_def)
  then show ?thesis unfolding ev by (auto simp: audit_entry_def runs_of_def l_def)
qed

lemma run_foreground_events:
  assumes "run_foreground env alias command reason unsafe raw timeout = (out, ev)"
  shows "\<exists>x. ev = [Ran command raw, audit_entry alias reason x]"
  using assms by (auto simp: run_foreground_def Let_def split: prod.splits option.splits run_error.splits)

text \<open>A call that did anything was asked to with a reason, let the filter decide unless told not to, and left one audit record.\<close>

definition vetted :: "exec_env \<Rightarrow> json_args \<Rightarrow> tool_event list \<Rightarrow> bool" where
  "vetted env args ev \<longleftrightarrow>
    (ev \<noteq> [] \<longrightarrow> strArg args ''reason'' \<noteq> [] \<and> (\<exists>x. audits ev = [audit_entry (strArg args ''alias'') (strArg args ''reason'') x])) \<and>
    (\<forall>n. Net n \<in> set ev \<longrightarrow> boolArg args ''unsafe'' \<or> IsDangerous (strArg args ''command'') = None) \<and>
    (\<forall>c raw. Ran c raw \<in> set ev \<longrightarrow>
       (boolArg args ''unsafe'' \<or> IsDangerous (strArg args ''command'') = None) \<and> strArg args ''command'' \<noteq> [] \<and>
       c \<in> runs_of env (boolArg args ''detach'') (strArg args ''command'') \<and>
       (\<exists>cfg. xe_config env = Inr cfg \<and> gm_lookup (cf_Servers cfg) (strArg args ''alias'') \<noteq> None))"

lemma handleExec_dials:
  assumes "handleExec env args = (out, ev)"
  shows "ev = [] \<or>
    strArg args ''reason'' \<noteq> [] \<and> (\<exists>x. ev = [audit_entry (strArg args ''alias'') (strArg args ''reason'') x]) \<or>
    strArg args ''reason'' \<noteq> [] \<and> strArg args ''command'' \<noteq> [] \<and> (boolArg args ''unsafe'' \<or> IsDangerous (strArg args ''command'') = None) \<and>
      (\<exists>cfg. xe_config env = Inr cfg \<and> gm_lookup (cf_Servers cfg) (strArg args ''alias'') \<noteq> None) \<and>
      (\<exists>nev did. ev = map Net nev @ did \<and>
        ((\<exists>x. did = [audit_entry (strArg args ''alias'') (strArg args ''reason'') x]) \<or>
         did = snd (if boolArg args ''detach''
           then runDetached env (strArg args ''alias'') (strArg args ''command'') (strArg args ''reason'') (boolArg args ''unsafe'') (strArg args ''platform'')
           else run_foreground env (strArg args ''alias'') (strArg args ''command'') (strArg args ''reason'') (boolArg args ''unsafe'')
             (boolArg args ''raw_environment'') (execTimeout (xe_beyond env) args))))"
  using assms unfolding handleExec_def requireReason_def Let_def
  by (auto split: if_splits option.splits sum.splits prod.splits)

lemma handleExec_vetted:
  assumes "handleExec env args = (out, ev)"
  shows "vetted env args ev"
proof -
  consider "ev = []" | x where "strArg args ''reason'' \<noteq> []" "ev = [audit_entry (strArg args ''alias'') (strArg args ''reason'') x]"
    | nev did where "strArg args ''reason'' \<noteq> []" "strArg args ''command'' \<noteq> []" "boolArg args ''unsafe'' \<or> IsDangerous (strArg args ''command'') = None"
      "\<exists>cfg. xe_config env = Inr cfg \<and> gm_lookup (cf_Servers cfg) (strArg args ''alias'') \<noteq> None" "ev = map Net nev @ did"
      "(\<exists>x. did = [audit_entry (strArg args ''alias'') (strArg args ''reason'') x]) \<or>
         did = snd (if boolArg args ''detach''
           then runDetached env (strArg args ''alias'') (strArg args ''command'') (strArg args ''reason'') (boolArg args ''unsafe'') (strArg args ''platform'')
           else run_foreground env (strArg args ''alias'') (strArg args ''command'') (strArg args ''reason'') (boolArg args ''unsafe'')
             (boolArg args ''raw_environment'') (execTimeout (xe_beyond env) args))"
    using handleExec_dials[OF assms] by blast
  then show ?thesis
  proof cases
    case (3 nev did)
    have did: "(\<exists>x. audits did = [audit_entry (strArg args ''alias'') (strArg args ''reason'') x]) \<and>
        (\<forall>c raw. Ran c raw \<in> set did \<longrightarrow> c \<in> runs_of env (boolArg args ''detach'') (strArg args ''command''))"
      using 3(6)
    proof
      assume "\<exists>x. did = [audit_entry (strArg args ''alias'') (strArg args ''reason'') x]"
      then show ?thesis by (auto simp: audit_entry_def)
    next
      assume d: "did = snd (if boolArg args ''detach''
           then runDetached env (strArg args ''alias'') (strArg args ''command'') (strArg args ''reason'') (boolArg args ''unsafe'') (strArg args ''platform'')
           else run_foreground env (strArg args ''alias'') (strArg args ''command'') (strArg args ''reason'') (boolArg args ''unsafe'')
             (boolArg args ''raw_environment'') (execTimeout (xe_beyond env) args))"
      show ?thesis
      proof (cases "boolArg args ''detach''")
        case True
        then show ?thesis using d runDetached_events[OF surjective_pairing] by simp
      next
        case False
        then show ?thesis using d run_foreground_events[OF surjective_pairing, of env "strArg args ''alias''" "strArg args ''command''" "strArg args ''reason''"
              "boolArg args ''unsafe''" "boolArg args ''raw_environment''" "execTimeout (xe_beyond env) args"]
          by (auto simp: audit_entry_def runs_of_def)
      qed
    qed
    then have "audits ev = audits did" using 3(5) by simp
    then show ?thesis using 3 did unfolding vetted_def by auto
  qed (auto simp: vetted_def audit_entry_def)
qed

lemma single_args_sel:
  "strArg (single_args args command reason alias) ''command'' = command" "boolArg (single_args args command reason alias) ''detach'' = False"
  "boolArg (single_args args command reason alias) ''unsafe'' = boolArg args ''unsafe''"
  by (auto simp: single_args_def forwarded_def strArg_def boolArg_def split: option.splits json.splits)

text \<open>The tool for several servers runs the command itself only, and under the same conditions.\<close>

lemma multi_runs_vetted:
  assumes "Ran c raw \<in> set (snd (handleExecMulti env finish args))"
  shows "c = strArg args ''command'' \<and> (boolArg args ''unsafe'' \<or> IsDangerous (strArg args ''command'') = None)"
proof -
  obtain reason i al where "Ran c raw \<in> set (snd (handleExec (env i) (single_args args (strArg args ''command'') reason al)))"
    using assms by (auto simp: handleExecMulti_def Let_def split: option.splits if_splits)
  then show ?thesis using handleExec_vetted[OF surjective_pairing, of "env i" "single_args args (strArg args ''command'') reason al"]
    by (auto simp: vetted_def single_args_sel runs_of_def)
qed

lemma wrap64_in_range: "- (2 ^ 63) \<le> i \<Longrightarrow> i < 2 ^ 63 \<Longrightarrow> wrap64 i = i"
  by (simp add: wrap64_def signed_of_int signed_take_bit_int_eq_self)

subsection \<open>Masked results\<close>

lemma update_member: "map_of (AList.update k v ms) k' = (if k' = k then Some v else map_of ms k')"
  by (simp add: update_conv)

text \<open>A POSIX shell reading a word of single-quoted pieces and escaped characters.\<close>

fun sh_read :: "bool \<Rightarrow> string \<Rightarrow> string \<times> string" where
  "sh_read q [] = ([], [])"
| "sh_read True (c # s) = (if c = CHR 0x27 then sh_read False s else (case sh_read True s of (w, r) \<Rightarrow> (c # w, r)))"
| "sh_read False (c # s) =
    (if c = CHR 0x27 then sh_read True s
     else if c = CHR 0x5C then (case s of [] \<Rightarrow> ([], []) | d # s' \<Rightarrow> (case sh_read False s' of (w, r) \<Rightarrow> (d # w, r)))
     else if is_space c then ([], c # s)
     else (case sh_read False s of (w, r) \<Rightarrow> (c # w, r)))"

lemma sh_read_quoted: "sh_read True (ReplaceAll s [CHR 0x27] [CHR 0x27, CHR 0x5C, CHR 0x27, CHR 0x27] @ [CHR 0x27, CHR '' ''] @ rest) = (s, CHR '' '' # rest)"
  by (induction s) (simp_all add: ReplaceAll_byte is_space_def)

lemma shellQuoteArg_read: "sh_read False (shellQuoteArg s @ CHR '' '' # rest) = (s, CHR '' '' # rest)"
  using sh_read_quoted[of s rest] by (simp add: shellQuoteArg_def)

section \<open>Properties\<close>

text \<open>C5: a command reaches a server through the exec tool only with a reason, for a configured alias, and when the filter does not refuse it or the caller
  explicitly bypassed it: what runs is the command itself, or in the background the platform probe and the launcher that carries the command. Whatever
  happened, a dial included, the call leaves exactly one audit record with the alias and the reason; a refused command leaves
  that record and touches no server.\<close>

theorem exec_runs_only_vetted_commands:
  assumes "handleExec env args = (out, ev)"
  shows "(ev \<noteq> [] \<longrightarrow> strArg args ''reason'' \<noteq> [] \<and> (\<exists>x. audits ev = [audit_entry (strArg args ''alias'') (strArg args ''reason'') x])) \<and>
    (\<forall>c raw. Ran c raw \<in> set ev \<longrightarrow> (boolArg args ''unsafe'' \<or> IsDangerous (strArg args ''command'') = None) \<and>
       c \<in> runs_of env (boolArg args ''detach'') (strArg args ''command'') \<and>
       (\<exists>cfg. xe_config env = Inr cfg \<and> gm_lookup (cf_Servers cfg) (strArg args ''alias'') \<noteq> None)) \<and>
    (\<not> boolArg args ''unsafe'' \<and> IsDangerous (strArg args ''command'') \<noteq> None \<longrightarrow> (\<forall>e \<in> set ev. is_audit e))"
proof -
  have v: "vetted env args ev" by (rule handleExec_vetted[OF assms])
  moreover have "is_audit e" if "\<not> boolArg args ''unsafe''" "IsDangerous (strArg args ''command'') \<noteq> None" "e \<in> set ev" for e
    using that v unfolding vetted_def by (cases e) auto
  ultimately show ?thesis unfolding vetted_def by (intro conjI impI ballI) auto
qed

definition safe_args :: json_args where
  "safe_args = [(''reason'', JStr ''check''), (''alias'', JStr ''web''), (''command'', JStr ''uptime'')]"

definition exec_demo :: exec_env where
  "exec_demo = \<lparr>xe_config = Inr (New\<lparr>cf_Servers := gm_of_list [(''web'', Some example_target)]\<rparr>), xe_path = [], xe_cloud = False, xe_ssh = example_env,
     xe_dial_text = \<lambda>_. [], xe_run = \<lambda>_. (None, \<lparr>xr_Stdout = ''up'', xr_Stderr = [], xr_ExitCode = 0, xr_Truncated = False\<rparr>), xe_nonce = 1, xe_beyond = \<lambda>_. 0\<rparr>"

lemma exec_demo_events: "snd (handleExec exec_demo safe_args) =
  [Net (Contact (SocksConn ''10.0.0.9:1080'' ''10.0.0.5:22'')), Net (Contact (DirectConn ''10.0.0.5:22'')), Net (Authenticate ''10.0.0.5:22'' [] False),
   Net (UsedAlias ''web''), Ran ''uptime'' False, audit_entry ''web'' ''check'' ''exit 0'']"
proof -
  have "IsDangerous ''uptime'' = None" by code_simp
  moreover have "Dial example_env (Some example_target) (zero_opts\<lparr>bo_Alias := ''web''\<rparr>) = (Inr (DirectConn ''10.0.0.5:22'', kindDirect),
      [Contact (SocksConn ''10.0.0.9:1080'' ''10.0.0.5:22''), Contact (DirectConn ''10.0.0.5:22''), Authenticate ''10.0.0.5:22'' [] False, UsedAlias ''web''])"
    by code_simp
  moreover have "zero_opts\<lparr>bo_ConfigPath := [], bo_Alias := ''web''\<rparr> = zero_opts\<lparr>bo_Alias := ''web''\<rparr>" by (simp add: zero_opts_def)
  moreover have "Itoa 0 = ''0''" by code_simp
  ultimately show ?thesis
    by (simp add: handleExec_def safe_args_def exec_demo_def requireReason_def strArg_def boolArg_def gm_lookup_of_list sshOptions_def run_foreground_def bypassed_def Let_def)
qed

theorem exec_runs_only_vetted_commands_witness: "IsDangerous ''uptime'' = None \<and> Ran ''uptime'' False \<in> set (snd (handleExec exec_demo safe_args))"
proof -
  have r: "Ran ''uptime'' False \<in> set (snd (handleExec exec_demo safe_args))" unfolding exec_demo_events by simp
  moreover have "\<not> boolArg safe_args ''unsafe''" "strArg safe_args ''command'' = ''uptime''" by (simp_all add: safe_args_def boolArg_def strArg_def)
  ultimately show ?thesis using exec_runs_only_vetted_commands[of exec_demo safe_args "fst (handleExec exec_demo safe_args)" "snd (handleExec exec_demo safe_args)"] by auto
qed



text \<open>Masking the keys of a result can merge its members: of the results of two servers whose aliases are addresses that are masked alike, only the
  one visited last is returned.\<close>

theorem masked_results_collide:
  "maskResultStrings (JObj [(''10.0.0.5'', a), (''10.0.0.6'', b)]) = JObj [(''10.0.*.*'', maskResultStrings b)]"
proof -
  have "MaskSecrets ''10.0.0.5'' = ''10.0.*.*''" "MaskSecrets ''10.0.0.6'' = ''10.0.*.*''" by code_simp+
  then show ?thesis by simp
qed

end
