(* ===== verification/Mcp_Write.thy ===== *)
theory Mcp_Write
  imports Mcp_Exec Config_Store
begin

text \<open>
  \<open>internal/mcp/tools_write.go\<close> with the validators of \<open>internal/wizard/add.go\<close>: adding, editing and removing a server for an
  assistant. A call returns its JSON result, the audit records it wrote and the bytes of the configuration file afterwards; the
  file is changed only through the locked \<open>Update\<close> of \<open>Config_Store\<close>, with the bytes found when it looks again as \<open>we_seen\<close>.
\<close>

section \<open>Environment and errors\<close>

datatype write_error = AliasExists | UnknownServer | Removal ServerRemovalError | Rejected string string

record write_env =
  we_config :: config_env
  we_seen :: "bytes option"
  we_text :: "write_error store_error \<Rightarrow> string"
  we_order :: "string list" \<comment> \<open>the order in which the bounded fields are visited\<close>
  we_now :: gotime
  we_int :: "rat \<Rightarrow> int" \<comment> \<open>\<open>int(p)\<close> for a number outside the range of \<open>int\<close>\<close>

type_synonym write_result = "json \<times> Entry list \<times> bytes option"

definition write_audit :: "string \<Rightarrow> string \<Rightarrow> string \<Rightarrow> string \<Rightarrow> Entry" where
  "write_audit tool alias reason result = \<lparr>en_Time = [], en_Tool = tool, en_Alias = alias, en_Reason = reason, en_Result = result\<rparr>"

definition reason_required :: string where
  "reason_required = ''a non-empty '' @ quoted ''reason'' @ '' argument is required for write operations''"

text \<open>\<open>ServerRemovalError.Error\<close>.\<close>

fun removal_text :: "ServerRemovalError \<Rightarrow> string" where
  "removal_text (RemovalNotFound a) = ''unknown server '' @ quoted a"
| "removal_text (RemovalProxyJump a us) =
    ''server '' @ quoted a @ '' cannot be removed; servers using it as ProxyJump: '' @ Join us '', '' @ ''; update those references first''"

section \<open>Validators\<close>

definition aliasRE :: re where
  "aliasRE = seqs [TextStart, Cls (\<lambda>c. is_lower c \<or> is_digit c), many (Cls (\<lambda>c. is_lower c \<or> is_digit c \<or> c \<in> set ''._-'')), TextEnd]"

definition ValidateAlias :: "string \<Rightarrow> string option" where
  "ValidateAlias a =
    (if a = [] then Some ''alias cannot be empty''
     else if \<not> MatchString aliasRE a
     then Some (quote_text ''alias must be lowercase letters, digits, `-`, `_` or `.` (must start alnum)'')
     else None)"

definition ValidateHost :: "string \<Rightarrow> string option" where
  "ValidateHost h =
    (if TrimSpace h = [] then Some ''host cannot be empty''
     else if ContainsAny h NUL_CR_LF then Some ''host must be a single line''
     else None)"

fun metadata_text :: "metadata_error \<Rightarrow> string" where
  "metadata_text DescriptionLines = ''description must be a single line''"
| "metadata_text DescriptionLength = ''description must be at most 500 characters''"
| "metadata_text (FieldNUL n) = n @ '' must not contain NUL''"
| "metadata_text (FieldLines n) = n @ '' must be a single line''"
| "metadata_text (FieldLength n) = n @ '' must be at most '' @ (if n = ''notes'' then ''4000'' else ''100'') @ '' characters''"
| "metadata_text TooManyTags = ''tags must contain at most 32 values''"
| "metadata_text BadTag = ''tags must contain non-empty single-line values''"
| "metadata_text TagLength = ''each tag must be at most 64 characters''"

fun slice_values :: "string \<Rightarrow> json list \<Rightarrow> string + string list" where
  "slice_values key [] = Inr []"
| "slice_values key (v # vs) =
    (case v of
       JStr s \<Rightarrow> if TrimSpace s = [] then Inl (key @ '' must contain non-empty strings'')
                 else bind_result (slice_values key vs) (\<lambda>rest. Inr (TrimSpace s # rest))
     | _ \<Rightarrow> Inl (key @ '' must contain non-empty strings''))"

text \<open>The result with the flag that says the argument is there.\<close>

definition stringSliceArg :: "json_args \<Rightarrow> string \<Rightarrow> string + string list \<times> bool" where
  "stringSliceArg args key =
    (case map_of args key of
       None \<Rightarrow> Inr ([], False)
     | Some (JArr vs) \<Rightarrow> bind_result (slice_values key vs) (\<lambda>result. Inr (result, True))
     | Some _ \<Rightarrow> Inl (key @ '' must be an array of strings''))"

definition description_error :: "json_args \<Rightarrow> string option" where
  "description_error args =
    (case map_of args ''description'' of
       None \<Rightarrow> None
     | Some (JStr d) \<Rightarrow>
         (case ValidateDescription d of Some e \<Rightarrow> Some (metadata_text e)
          | None \<Rightarrow> if ContainsCredentialMaterial d then Some ''description must not contain credential material'' else None)
     | Some _ \<Rightarrow> Some ''description must be a string'')"

definition metadata_field_error :: "string \<Rightarrow> string option" where
  "metadata_field_error field =
    (if ContainsAny field NUL_CR_LF then Some ''server metadata must not contain control characters''
     else if ContainsCredentialMaterial field then Some ''server metadata must not contain credential material''
     else None)"

definition validateServerMetadata :: "string list \<Rightarrow> json_args \<Rightarrow> string + string list \<times> bool" where
  "validateServerMetadata ord args =
    (case description_error args of Some e \<Rightarrow> Inl e | None \<Rightarrow>
     case stringSliceArg args ''tags'' of Inl e \<Rightarrow> Inl e | Inr (tags, present) \<Rightarrow>
     case ValidateServerMetadataBounds ord (strArg args ''label'') (strArg args ''description'') tags (strArg args ''group'') [] of
       Some e \<Rightarrow> Inl (metadata_text e)
     | None \<Rightarrow>
         case first_error metadata_field_error ([strArg args ''label'', strArg args ''group''] @ tags) of
           Some e \<Rightarrow> Inl e | None \<Rightarrow> Inr (tags, present))"

definition validAuth :: "string \<Rightarrow> bool" where
  "validAuth v \<longleftrightarrow> v = AuthKey \<or> v = AuthPassword \<or> v = AuthAgent"

definition requiresConnectionConfirmation :: "json_args \<Rightarrow> bool" where
  "requiresConnectionConfirmation args \<longleftrightarrow>
    (\<exists>field \<in> set [''host'', ''port'', ''user'', ''auth'', ''key_path'', ''proxy'', ''proxy_jump'', ''proxy_command'']. map_of args field \<noteq> None)"

definition connection_field_error :: "json_args \<Rightarrow> string \<Rightarrow> string option" where
  "connection_field_error args field =
    (case map_of args field of
       Some (JStr value) \<Rightarrow>
         if ContainsAny value NUL_CR_LF then Some (field @ '' must be a single line'')
         else if (field = ''proxy'' \<or> field = ''proxy_jump'' \<or> field = ''proxy_command'') \<and> ContainsCredentialMaterial value
         then Some (field @ '' must not persist credential material; use an agent or environment reference'')
         else None
     | _ \<Rightarrow> None)"

definition string_given :: "json_args \<Rightarrow> string \<Rightarrow> bool" where
  "string_given args key = (case map_of args key of Some (JStr _) \<Rightarrow> True | _ \<Rightarrow> False)"

definition validateConnectionMetadata :: "json_args \<Rightarrow> bool \<Rightarrow> string option" where
  "validateConnectionMetadata args requireHost =
    (case (if requireHost \<or> string_given args ''host'' then ValidateHost (strArg args ''host'') else None) of
       Some e \<Rightarrow> Some e
     | None \<Rightarrow> first_error (connection_field_error args) [''user'', ''key_path'', ''proxy'', ''proxy_jump'', ''proxy_command''])"

definition portArg :: "(rat \<Rightarrow> int) \<Rightarrow> json_args \<Rightarrow> int option" where
  "portArg beyond args =
    (case map_of args ''port'' of
       Some (JNum p) \<Rightarrow>
         (let n = (if \<bar>p\<bar> < 9223372036854775808 then truncate_rat p else beyond p) in
          if n < 1 \<or> 65535 < n then None else Some n)
     | _ \<Rightarrow> None)"

definition assignString :: "json_args \<Rightarrow> string \<Rightarrow> string \<Rightarrow> string" where
  "assignString args key dst = (case map_of args key of Some (JStr v) \<Rightarrow> v | _ \<Rightarrow> dst)"

section \<open>Adding\<close>

definition inferred_auth :: "json_args \<Rightarrow> string" where
  "inferred_auth args =
    (if strArg args ''auth'' \<noteq> [] then strArg args ''auth'' else if strArg args ''key_path'' \<noteq> [] then AuthKey else AuthAgent)"

definition new_server :: "gotime \<Rightarrow> json_args \<Rightarrow> string list \<Rightarrow> string \<Rightarrow> int \<Rightarrow> Server" where
  "new_server now args tags platform port = zero_server\<lparr>
     sv_Host := strArg args ''host'', sv_Port := port, sv_User := strArg args ''user'',
     sv_Auth := inferred_auth args, sv_KeyPath := strArg args ''key_path'',
     sv_Label := strArg args ''label'', sv_Description := strArg args ''description'',
     sv_Tags := tags, sv_Group := strArg args ''group'', sv_Platform := platform, sv_CreatedAt := now,
     sv_Proxy := strArg args ''proxy'', sv_ProxyJump := strArg args ''proxy_jump'', sv_ProxyCommand := strArg args ''proxy_command''\<rparr>"

definition add_callback :: "string \<Rightarrow> Server \<Rightarrow> Config \<Rightarrow> write_error + Config" where
  "add_callback alias s cfg =
    (if gm_lookup (cf_Servers cfg) alias \<noteq> None then Inl AliasExists
     else Inr (cfg\<lparr>cf_Servers := gm_update alias (Some s) (cf_Servers cfg)\<rparr>))"

definition bad_request :: "write_env \<Rightarrow> string \<Rightarrow> write_result" where
  "bad_request env msg = (errResult ''bad_request'' msg, [], we_seen env)"

definition port_message :: string where "port_message = ''port must be an integer in 1..65535''"

definition auth_message :: "string \<Rightarrow> string" where
  "auth_message v = ''auth '' @ quoted v @ '' must be key, password, or agent''"

definition platform_message :: string where "platform_message = ''platform must be windows, linux, macos, or unknown''"

type_synonym update_result = "write_error store_error option \<times> bytes option"

definition add_reply :: "write_env \<Rightarrow> string \<Rightarrow> string \<Rightarrow> update_result \<Rightarrow> write_result" where
  "add_reply env alias reason r =
    (case r of
       (Some e, file') \<Rightarrow>
         ((if e = Callback AliasExists then errResult ''conflict'' (''alias '' @ quoted alias @ '' already exists'')
           else errResult ''config'' (we_text env e)), [], file')
     | (None, file') \<Rightarrow>
         (JObj [(''alias'', JStr alias), (''added'', JBool True)], [write_audit ''add_server'' alias reason ''ok''], file'))"

definition handleAddServer :: "write_env \<Rightarrow> json_args \<Rightarrow> bytes option \<Rightarrow> write_result" where
  "handleAddServer env args file =
    (case requireReason args of None \<Rightarrow> bad_request env reason_required | Some reason \<Rightarrow>
     let alias = strArg args ''alias'' in
     if alias = [] then bad_request env ''alias is required''
     else case ValidateAlias alias of Some e \<Rightarrow> bad_request env e | None \<Rightarrow>
     if strArg args ''host'' = [] then bad_request env ''host is required''
     else case validateConnectionMetadata args True of Some e \<Rightarrow> bad_request env e | None \<Rightarrow>
     if \<not> validAuth (inferred_auth args) then bad_request env (auth_message (inferred_auth args))
     else case validateServerMetadata (we_order env) args of Inl e \<Rightarrow> bad_request env e | Inr (tags, _) \<Rightarrow>
     case NormalizePlatform (strArg args ''platform'') of None \<Rightarrow> bad_request env platform_message | Some platform \<Rightarrow>
     case (if map_of args ''port'' = None then Some 22 else portArg (we_int env) args) of None \<Rightarrow> bad_request env port_message | Some port \<Rightarrow>
     add_reply env alias reason
       (Update (we_config env) (we_seen env) (add_callback alias (new_server (we_now env) args tags platform port)) file))"

section \<open>Editing\<close>

definition given :: "json_args \<Rightarrow> string \<Rightarrow> string \<Rightarrow> string" where
  "given args key old = (if strArg args key \<noteq> [] then strArg args key else old)"

definition edited_fields :: "(rat \<Rightarrow> int) \<Rightarrow> json_args \<Rightarrow> string \<Rightarrow> string list \<times> bool \<Rightarrow> Server \<Rightarrow> Server" where
  "edited_fields beyond args platform tags s = s\<lparr>
     sv_Host := given args ''host'' (sv_Host s), sv_User := given args ''user'' (sv_User s),
     sv_Auth := given args ''auth'' (sv_Auth s), sv_KeyPath := given args ''key_path'' (sv_KeyPath s),
     sv_Port := (case portArg beyond args of Some p \<Rightarrow> p | None \<Rightarrow> sv_Port s),
     sv_Platform := (if map_of args ''platform'' \<noteq> None then platform else sv_Platform s),
     sv_Proxy := given args ''proxy'' (sv_Proxy s), sv_ProxyJump := given args ''proxy_jump'' (sv_ProxyJump s),
     sv_ProxyCommand := given args ''proxy_command'' (sv_ProxyCommand s),
     sv_Label := assignString args ''label'' (sv_Label s), sv_Description := assignString args ''description'' (sv_Description s),
     sv_Group := assignString args ''group'' (sv_Group s), sv_Tags := (if snd tags then fst tags else sv_Tags s)\<rparr>"

definition edit_server :: "(rat \<Rightarrow> int) \<Rightarrow> gotime \<Rightarrow> json_args \<Rightarrow> string \<Rightarrow> string list \<times> bool \<Rightarrow> Server \<Rightarrow> Server" where
  "edit_server beyond now args platform tags s =
    (let s' = edited_fields beyond args platform tags s in
     if sv_Host s' \<noteq> sv_Host s \<or> sv_Port s' \<noteq> sv_Port s \<or> sv_User s' \<noteq> sv_User s then ClearServerActivity now now s' else s')"

definition edit_callback :: "string \<Rightarrow> (Server \<Rightarrow> Server) \<Rightarrow> Config \<Rightarrow> write_error + Config" where
  "edit_callback alias f cfg =
    (case server_at (cf_Servers cfg) alias of None \<Rightarrow> Inl UnknownServer
     | Some s \<Rightarrow> Inr (cfg\<lparr>cf_Servers := gm_update alias (Some (f s)) (cf_Servers cfg)\<rparr>))"

definition edit_reply :: "write_env \<Rightarrow> string \<Rightarrow> string \<Rightarrow> update_result \<Rightarrow> write_result" where
  "edit_reply env alias reason r =
    (case r of
       (Some e, file') \<Rightarrow>
         ((if e = Callback UnknownServer then errResult ''not_found'' (''unknown server '' @ quoted alias)
           else errResult ''config'' (we_text env e)), [], file')
     | (None, file') \<Rightarrow>
         (JObj [(''alias'', JStr alias), (''updated'', JBool True)], [write_audit ''edit_server'' alias reason ''ok''], file'))"

definition handleEditServer :: "write_env \<Rightarrow> json_args \<Rightarrow> bytes option \<Rightarrow> write_result" where
  "handleEditServer env args file =
    (case requireReason args of None \<Rightarrow> bad_request env reason_required | Some reason \<Rightarrow>
     let alias = strArg args ''alias'' in
     if alias = [] then bad_request env ''alias is required''
     else if requiresConnectionConfirmation args \<and> strArg args ''confirm_alias'' \<noteq> alias
     then (errResult ''confirmation_required'' ''confirm_alias must exactly match alias before changing connection or authentication fields'', [], we_seen env)
     else case validateConnectionMetadata args False of Some e \<Rightarrow> bad_request env e | None \<Rightarrow>
     if strArg args ''auth'' \<noteq> [] \<and> \<not> validAuth (strArg args ''auth'') then bad_request env (auth_message (strArg args ''auth''))
     else if map_of args ''port'' \<noteq> None \<and> portArg (we_int env) args = None then bad_request env port_message
     else case NormalizePlatform (strArg args ''platform'') of None \<Rightarrow> bad_request env platform_message | Some platform \<Rightarrow>
     case validateServerMetadata (we_order env) args of Inl e \<Rightarrow> bad_request env e | Inr tags \<Rightarrow>
     edit_reply env alias reason
       (Update (we_config env) (we_seen env) (edit_callback alias (edit_server (we_int env) (we_now env) args platform tags)) file))"

section \<open>Removing\<close>

definition remove_callback :: "string \<Rightarrow> Config \<Rightarrow> write_error + Config" where
  "remove_callback alias cfg = map_sum Removal id (RemoveServer cfg alias)"

definition remove_reply :: "write_env \<Rightarrow> string \<Rightarrow> string \<Rightarrow> update_result \<Rightarrow> write_result" where
  "remove_reply env alias reason r =
    (case r of
       (Some e, file') \<Rightarrow>
         ((case e of
             Callback (Removal (RemovalNotFound a)) \<Rightarrow> errResult ''not_found'' (removal_text (RemovalNotFound a))
           | Callback (Removal (RemovalProxyJump a us)) \<Rightarrow> errResult ''conflict'' (removal_text (RemovalProxyJump a us))
           | _ \<Rightarrow> errResult ''config'' (we_text env e)), [], file')
     | (None, file') \<Rightarrow>
         (JObj [(''alias'', JStr alias), (''removed'', JBool True)], [write_audit ''remove_server'' alias reason ''ok''], file'))"

definition handleRemoveServer :: "write_env \<Rightarrow> json_args \<Rightarrow> bytes option \<Rightarrow> write_result" where
  "handleRemoveServer env args file =
    (case requireReason args of None \<Rightarrow> bad_request env reason_required | Some reason \<Rightarrow>
     let alias = strArg args ''alias'' in
     if strArg args ''confirm_alias'' \<noteq> alias \<or> alias = []
     then (errResult ''confirmation_required'' ''confirm_alias must exactly match alias before removal'', [], we_seen env)
     else remove_reply env alias reason (Update (we_config env) (we_seen env) (remove_callback alias) file))"

section \<open>What a tool may write\<close>

text \<open>A record as the tools accept it.\<close>

definition discreet :: "string \<Rightarrow> bool" where
  "discreet v \<longleftrightarrow> one_line v \<and> \<not> ContainsCredentialMaterial v"

definition server_sound :: "Server \<Rightarrow> bool" where
  "server_sound s \<longleftrightarrow>
    TrimSpace (sv_Host s) \<noteq> [] \<and> one_line (sv_Host s) \<and> 1 \<le> sv_Port s \<and> sv_Port s \<le> 65535 \<and>
    (validAuth (sv_Auth s) \<or> sv_Auth s = AuthCloud) \<and> sv_Platform s \<in> {[], ''windows'', ''linux'', ''macos''} \<and>
    one_line (sv_User s) \<and> one_line (sv_KeyPath s) \<and>
    discreet (sv_Proxy s) \<and> discreet (sv_ProxyJump s) \<and> discreet (sv_ProxyCommand s) \<and>
    discreet (sv_Description s) \<and> RuneCountInString (sv_Description s) \<le> 500 \<and>
    discreet (sv_Label s) \<and> RuneCountInString (sv_Label s) \<le> 100 \<and>
    discreet (sv_Group s) \<and> RuneCountInString (sv_Group s) \<le> 100 \<and>
    length (sv_Tags s) \<le> 32 \<and> (\<forall>t \<in> set (sv_Tags s). TrimSpace t \<noteq> [] \<and> discreet t \<and> RuneCountInString t \<le> 64)"

definition inventory_sound :: "Config \<Rightarrow> bool" where
  "inventory_sound cfg \<longleftrightarrow> (\<forall>al s. server_at (cf_Servers cfg) al = Some s \<longrightarrow> server_sound s)"

subsection \<open>What the validators establish\<close>

lemma discreet_Nil [simp]: "discreet []"
proof -
  have "\<not> ContainsCredentialMaterial []" by code_simp
  then show ?thesis by (simp add: discreet_def one_line_def)
qed

lemma one_line_Nil [simp]: "one_line []" by (simp add: one_line_def)

lemma ValidateHost_None [guards]: "ValidateHost h = None \<longleftrightarrow> TrimSpace h \<noteq> [] \<and> one_line h"
  by (simp add: ValidateHost_def ContainsAny_NUL_CR_LF)

lemma strArg_Some: "map_of args f = Some (JStr v) \<Longrightarrow> strArg args f = v" by (simp add: strArg_def)

lemma strArg_cases:
  obtains (is_str) v where "map_of args f = Some (JStr v)" "strArg args f = v" | (other) "strArg args f = []" "\<And>v. map_of args f \<noteq> Some (JStr v)"
proof (cases "map_of args f")
  case (Some j)
  then show thesis using that by (cases j) (simp_all add: strArg_def)
qed (simp add: strArg_def that)

lemma connection_field_None:
  assumes "connection_field_error args f = None"
  shows "one_line (strArg args f)" "f = ''proxy'' \<or> f = ''proxy_jump'' \<or> f = ''proxy_command'' \<Longrightarrow> discreet (strArg args f)"
proof -
  have "one_line (strArg args f) \<and> (f = ''proxy'' \<or> f = ''proxy_jump'' \<or> f = ''proxy_command'' \<longrightarrow> discreet (strArg args f))"
  proof (cases rule: strArg_cases[of args f])
    case (is_str v)
    then have "\<not> ContainsAny v NUL_CR_LF"
      "\<not> ((f = ''proxy'' \<or> f = ''proxy_jump'' \<or> f = ''proxy_command'') \<and> ContainsCredentialMaterial v)"
      using assms unfolding connection_field_error_def by (simp_all only: option.case json.case split: if_splits) simp_all
    then show ?thesis using is_str by (simp only: ContainsAny_NUL_CR_LF discreet_def) blast
  qed simp
  then show "one_line (strArg args f)" "f = ''proxy'' \<or> f = ''proxy_jump'' \<or> f = ''proxy_command'' \<Longrightarrow> discreet (strArg args f)" by auto
qed

lemma connection_metadata_sound:
  assumes "validateConnectionMetadata args req = None"
  shows "one_line (strArg args ''user'')" "one_line (strArg args ''key_path'')" "discreet (strArg args ''proxy'')"
    "discreet (strArg args ''proxy_jump'')" "discreet (strArg args ''proxy_command'')"
    "strArg args ''host'' \<noteq> [] \<Longrightarrow> TrimSpace (strArg args ''host'') \<noteq> [] \<and> one_line (strArg args ''host'')"
proof -
  have f: "connection_field_error args x = None" if "x \<in> {''user'', ''key_path'', ''proxy'', ''proxy_jump'', ''proxy_command''}" for x
    using assms that unfolding validateConnectionMetadata_def by (auto simp: first_error_None split: option.splits)
  show "one_line (strArg args ''user'')" "one_line (strArg args ''key_path'')" using connection_field_None(1)[OF f] by simp_all
  show "discreet (strArg args ''proxy'')" "discreet (strArg args ''proxy_jump'')" "discreet (strArg args ''proxy_command'')"
    using connection_field_None(2)[OF f] by simp_all
  assume "strArg args ''host'' \<noteq> []"
  then have "string_given args ''host''" by (cases rule: strArg_cases[of args "''host''"]) (simp_all add: string_given_def)
  then show "TrimSpace (strArg args ''host'') \<noteq> [] \<and> one_line (strArg args ''host'')"
    using assms unfolding validateConnectionMetadata_def by (auto simp: ValidateHost_None split: option.splits)
qed

lemma NormalizePlatform_range: "NormalizePlatform v = Some p \<Longrightarrow> p \<in> {[], ''windows'', ''linux'', ''macos''}"
  by (auto simp: NormalizePlatform_def Let_def split: if_splits)

lemma portArg_range: "portArg beyond args = Some p \<Longrightarrow> 1 \<le> p \<and> p \<le> 65535"
  by (auto simp: portArg_def Let_def split: option.splits json.splits if_splits)

text \<open>The visiting order is that of the three bounded fields.\<close>

definition field_order :: "string list \<Rightarrow> bool" where
  "field_order ord \<longleftrightarrow> distinct ord \<and> set ord = {''label'', ''group'', ''notes''}"

lemma field_order_range: "field_order ord \<Longrightarrow> range_order (bounded_fields l g n) ord"
  by (auto simp: field_order_def gm.legal_order_def bounded_fields_def gm_keys_of_list)

lemma description_sound:
  assumes "description_error args = None"
  shows "discreet (strArg args ''description'')"
  using assms unfolding description_error_def strArg_def
  by (auto simp: discreet_def[symmetric] ValidateDescription_None split: option.splits json.splits if_splits)
     (simp add: discreet_def)

lemma server_metadata_sound:
  assumes "validateServerMetadata ord args = Inr (tags, present)" "field_order ord"
  shows "discreet (strArg args ''description'')" "RuneCountInString (strArg args ''description'') \<le> 500"
    "discreet (strArg args ''label'')" "RuneCountInString (strArg args ''label'') \<le> 100"
    "discreet (strArg args ''group'')" "RuneCountInString (strArg args ''group'') \<le> 100"
    "length tags \<le> 32" "\<forall>t \<in> set tags. TrimSpace t \<noteq> [] \<and> discreet t \<and> RuneCountInString t \<le> 64"
proof -
  have v: "description_error args = None"
    "ValidateServerMetadataBounds ord (strArg args ''label'') (strArg args ''description'') tags (strArg args ''group'') [] = None"
    "first_error metadata_field_error ([strArg args ''label'', strArg args ''group''] @ tags) = None"
    using assms(1) unfolding validateServerMetadata_def by (auto split: option.splits sum.splits)
  have "discreet f" if "f \<in> set ([strArg args ''label'', strArg args ''group''] @ tags)" for f
    using v(3) that unfolding first_error_None
    by (auto simp: metadata_field_error_def ContainsAny_NUL_CR_LF discreet_def split: if_splits)
  note fields = this
  note bounds = metadata_bounds_hold[OF field_order_range[OF assms(2)] v(2)]
  show "discreet (strArg args ''description'')" by (rule description_sound[OF v(1)])
  show "discreet (strArg args ''label'')" "discreet (strArg args ''group'')" using fields by auto
  show "RuneCountInString (strArg args ''description'') \<le> 500" "RuneCountInString (strArg args ''label'') \<le> 100"
    "RuneCountInString (strArg args ''group'') \<le> 100" "length tags \<le> 32"
    "\<forall>t \<in> set tags. TrimSpace t \<noteq> [] \<and> discreet t \<and> RuneCountInString t \<le> 64"
    using bounds fields by auto
qed

subsection \<open>The written record\<close>

lemma new_server_sound:
  assumes "strArg args ''host'' \<noteq> []" "validateConnectionMetadata args True = None" "validAuth (inferred_auth args)"
    "validateServerMetadata ord args = Inr (tags, present)" "field_order ord"
    "NormalizePlatform (strArg args ''platform'') = Some platform" "1 \<le> port" "port \<le> 65535"
  shows "server_sound (new_server now args tags platform port)"
  using connection_metadata_sound[OF assms(2)] server_metadata_sound[OF assms(4,5)] NormalizePlatform_range[OF assms(6)] assms(1,3,7,8)
  by (simp add: server_sound_def new_server_def zero_server_def)

lemma assignString_is: "assignString args k old = strArg args k \<or> assignString args k old = old"
  by (cases rule: strArg_cases[of args k]) (auto simp: assignString_def split: option.split json.split)

lemma edited_fields:
  "sv_Host (edited_fields beyond args platform tags s) = given args ''host'' (sv_Host s)"
  "sv_User (edited_fields beyond args platform tags s) = given args ''user'' (sv_User s)"
  "sv_Auth (edited_fields beyond args platform tags s) = given args ''auth'' (sv_Auth s)"
  "sv_KeyPath (edited_fields beyond args platform tags s) = given args ''key_path'' (sv_KeyPath s)"
  "sv_Port (edited_fields beyond args platform tags s) = (case portArg beyond args of Some p \<Rightarrow> p | None \<Rightarrow> sv_Port s)"
  "sv_Platform (edited_fields beyond args platform tags s) = (if map_of args ''platform'' \<noteq> None then platform else sv_Platform s)"
  "sv_Proxy (edited_fields beyond args platform tags s) = given args ''proxy'' (sv_Proxy s)"
  "sv_ProxyJump (edited_fields beyond args platform tags s) = given args ''proxy_jump'' (sv_ProxyJump s)"
  "sv_ProxyCommand (edited_fields beyond args platform tags s) = given args ''proxy_command'' (sv_ProxyCommand s)"
  "sv_Label (edited_fields beyond args platform tags s) = assignString args ''label'' (sv_Label s)"
  "sv_Description (edited_fields beyond args platform tags s) = assignString args ''description'' (sv_Description s)"
  "sv_Group (edited_fields beyond args platform tags s) = assignString args ''group'' (sv_Group s)"
  "sv_Tags (edited_fields beyond args platform tags s) = (if snd tags then fst tags else sv_Tags s)"
  by (simp_all add: edited_fields_def)

lemma edited_fields_sound:
  assumes "server_sound s" "validateConnectionMetadata args req = None"
    "strArg args ''auth'' \<noteq> [] \<Longrightarrow> validAuth (strArg args ''auth'')" "validateServerMetadata ord args = Inr tags" "field_order ord"
    "NormalizePlatform (strArg args ''platform'') = Some platform"
  shows "server_sound (edited_fields beyond args platform tags s)"
proof -
  obtain ts present where tags: "tags = (ts, present)" by (cases tags)
  note c = connection_metadata_sound[OF assms(2)] and m = server_metadata_sound[OF assms(4)[unfolded tags] assms(5)]
  note old = assms(1)[unfolded server_sound_def]
  have host: "TrimSpace (given args ''host'' (sv_Host s)) \<noteq> []" "one_line (given args ''host'' (sv_Host s))"
    using c(6) old by (simp_all add: given_def)
  have auth: "validAuth (given args ''auth'' (sv_Auth s)) \<or> given args ''auth'' (sv_Auth s) = AuthCloud"
    using assms(3) old by (simp add: given_def)
  have lines: "one_line (given args ''user'' (sv_User s))" "one_line (given args ''key_path'' (sv_KeyPath s))"
    "discreet (given args ''proxy'' (sv_Proxy s))" "discreet (given args ''proxy_jump'' (sv_ProxyJump s))"
    "discreet (given args ''proxy_command'' (sv_ProxyCommand s))"
    using c(1-5) old by (simp_all add: given_def)
  have descr: "discreet (assignString args ''description'' (sv_Description s))" "RuneCountInString (assignString args ''description'' (sv_Description s)) \<le> 500"
    using assignString_is[of args "''description''" "sv_Description s"] m(1,2) old by metis+
  have lab: "discreet (assignString args ''label'' (sv_Label s))" "RuneCountInString (assignString args ''label'' (sv_Label s)) \<le> 100"
    using assignString_is[of args "''label''" "sv_Label s"] m(3,4) old by metis+
  have grp: "discreet (assignString args ''group'' (sv_Group s))" "RuneCountInString (assignString args ''group'' (sv_Group s)) \<le> 100"
    using assignString_is[of args "''group''" "sv_Group s"] m(5,6) old by metis+
  have port: "1 \<le> q \<and> q \<le> 65535" if "q = (case portArg beyond args of Some p \<Rightarrow> p | None \<Rightarrow> sv_Port s)" for q
    using portArg_range[of beyond args] old that by (auto split: option.splits)
  have plat: "(if map_of args ''platform'' \<noteq> None then platform else sv_Platform s) \<in> {[], ''windows'', ''linux'', ''macos''}"
    using NormalizePlatform_range[OF assms(6)] old by simp
  have tg: "length (if present then ts else sv_Tags s) \<le> 32 \<and>
    (\<forall>t \<in> set (if present then ts else sv_Tags s). TrimSpace t \<noteq> [] \<and> discreet t \<and> RuneCountInString t \<le> 64)"
    using m(7,8) old by simp
  show ?thesis
    unfolding server_sound_def edited_fields tags fst_conv snd_conv
    by (intro conjI host auth lines descr lab grp plat) (use port[OF refl] tg in blast)+
qed

lemma clear_activity_sound [simp]: "server_sound (ClearServerActivity now changed s) = server_sound s"
  by (simp add: server_sound_def ClearServerActivity_def)

lemma edit_server_sound:
  assumes "server_sound s" "validateConnectionMetadata args req = None"
    "strArg args ''auth'' \<noteq> [] \<Longrightarrow> validAuth (strArg args ''auth'')" "validateServerMetadata ord args = Inr tags" "field_order ord"
    "NormalizePlatform (strArg args ''platform'') = Some platform"
  shows "server_sound (edit_server beyond now args platform tags s)"
  using edited_fields_sound[OF assms] by (simp add: edit_server_def Let_def)

section \<open>The tools\<close>

datatype write_tool = AddServer | EditServer | DropServer

fun call_tool :: "write_tool \<Rightarrow> write_env \<Rightarrow> json_args \<Rightarrow> bytes option \<Rightarrow> write_result" where
  "call_tool AddServer = handleAddServer"
| "call_tool EditServer = handleEditServer"
| "call_tool DropServer = handleRemoveServer"

text \<open>The document an update works on, and what it means that one was saved.\<close>

definition opened :: "config_env \<Rightarrow> bytes option \<Rightarrow> Config \<Rightarrow> bool" where
  "opened env file cfg \<longleftrightarrow>
    (\<exists>c. cfg = applyCloudBindings env c \<and>
      (case file of None \<Rightarrow> c = New | Some b \<Rightarrow> decodeConfig env b = (Inr c :: write_error store_error + Config)))"

definition saved :: "write_env \<Rightarrow> (Config \<Rightarrow> write_error + Config) \<Rightarrow> bytes option \<Rightarrow> bytes option \<Rightarrow> bool" where
  "saved env fn file file' \<longleftrightarrow>
    (\<exists>cfg cfg'. opened (we_config env) file cfg \<and> fn cfg = Inr cfg' \<and> file' \<noteq> None \<and> file' = ce_encode (we_config env) (bump_version cfg'))"

lemma Update_outcome:
  assumes "Update (we_config env) (we_seen env) fn file = (err, file')"
  shows "err \<noteq> None \<and> file' = we_seen env \<or> err = None \<and> saved env fn file file'"
proof (cases err)
  case None
  with Update_result[OF assms] obtain c cfg' where "case file of None \<Rightarrow> c = New | Some b \<Rightarrow> decodeConfig (we_config env) b = (Inr c :: write_error store_error + Config)"
    "fn (applyCloudBindings (we_config env) c) = Inr cfg'" "file' \<noteq> None" "file' = ce_encode (we_config env) (bump_version cfg')" by auto
  then show ?thesis using None unfolding saved_def opened_def by blast
next
  case (Some e)
  then show ?thesis using Update_result[OF assms] by simp
qed

text \<open>The callback that a call runs, once its arguments are accepted.\<close>

inductive accepted :: "write_env \<Rightarrow> json_args \<Rightarrow> write_tool \<Rightarrow> (Config \<Rightarrow> write_error + Config) \<Rightarrow> bool" for env args where
  add: "strArg args ''host'' \<noteq> [] \<Longrightarrow> validateConnectionMetadata args True = None \<Longrightarrow> validAuth (inferred_auth args) \<Longrightarrow>
    validateServerMetadata (we_order env) args = Inr (tags, present) \<Longrightarrow>
    NormalizePlatform (strArg args ''platform'') = Some platform \<Longrightarrow>
    (if map_of args ''port'' = None then Some 22 else portArg (we_int env) args) = Some port \<Longrightarrow> ValidateAlias (strArg args ''alias'') = None \<Longrightarrow>
    accepted env args AddServer (add_callback (strArg args ''alias'') (new_server (we_now env) args tags platform port))"
| edit: "(requiresConnectionConfirmation args \<Longrightarrow> strArg args ''confirm_alias'' = strArg args ''alias'') \<Longrightarrow>
    validateConnectionMetadata args False = None \<Longrightarrow> (strArg args ''auth'' \<noteq> [] \<Longrightarrow> validAuth (strArg args ''auth'')) \<Longrightarrow>
    NormalizePlatform (strArg args ''platform'') = Some platform \<Longrightarrow> validateServerMetadata (we_order env) args = Inr tags \<Longrightarrow>
    accepted env args EditServer (edit_callback (strArg args ''alias'') (edit_server (we_int env) (we_now env) args platform tags))"
| remove: "strArg args ''confirm_alias'' = strArg args ''alias'' \<Longrightarrow>
    accepted env args DropServer (remove_callback (strArg args ''alias''))"

fun tool_name :: "write_tool \<Rightarrow> string" where
  "tool_name AddServer = ''add_server''" | "tool_name EditServer = ''edit_server''" | "tool_name DropServer = ''remove_server''"

definition tool_outcome :: "write_env \<Rightarrow> json_args \<Rightarrow> write_tool \<Rightarrow> bytes option \<Rightarrow> Entry list \<Rightarrow> bytes option \<Rightarrow> bool" where
  "tool_outcome env args t file recs file' \<longleftrightarrow>
    recs = [] \<and> file' = we_seen env \<or>
    strArg args ''alias'' \<noteq> [] \<and> strArg args ''reason'' \<noteq> [] \<and>
    recs = [write_audit (tool_name t) (strArg args ''alias'') (strArg args ''reason'') ''ok''] \<and>
    (\<exists>fn. accepted env args t fn \<and> saved env fn file file')"

lemma outcome_refused: "tool_outcome env args t file [] (we_seen env)" by (simp add: tool_outcome_def)

lemma outcome_update:
  assumes "accepted env args t fn" "Update (we_config env) (we_seen env) fn file = (err, file')"
    and "strArg args ''alias'' \<noteq> []" "strArg args ''reason'' \<noteq> []"
    and "recs = (if err = None then [write_audit (tool_name t) (strArg args ''alias'') (strArg args ''reason'') ''ok''] else [])"
  shows "tool_outcome env args t file recs file'"
  using Update_outcome[OF assms(2)] assms unfolding tool_outcome_def by auto

text \<open>Every handler refuses, or replies to the update with the callback of its accepted arguments.\<close>

fun reply :: "write_tool \<Rightarrow> write_env \<Rightarrow> string \<Rightarrow> string \<Rightarrow> update_result \<Rightarrow> write_result" where
  "reply AddServer = add_reply" | "reply EditServer = edit_reply" | "reply DropServer = remove_reply"

lemma reply_shape:
  assumes "reply t env alias reason (err, f) = (out, recs, file')"
  shows "file' = f \<and> recs = (if err = None then [write_audit (tool_name t) alias reason ''ok''] else [])"
  using assms by (cases t; cases err) (auto simp: add_reply_def edit_reply_def remove_reply_def)

definition replies :: "write_env \<Rightarrow> json_args \<Rightarrow> write_tool \<Rightarrow> bytes option \<Rightarrow> write_result \<Rightarrow> bool" where
  "replies env args t file r \<longleftrightarrow> (\<exists>fn. accepted env args t fn \<and> strArg args ''alias'' \<noteq> [] \<and> strArg args ''reason'' \<noteq> [] \<and>
     r = reply t env (strArg args ''alias'') (strArg args ''reason'') (Update (we_config env) (we_seen env) fn file))"

lemma repliesI:
  "accepted env args t fn \<Longrightarrow> strArg args ''alias'' \<noteq> [] \<Longrightarrow> strArg args ''reason'' \<noteq> [] \<Longrightarrow>
   replies env args t file (reply t env (strArg args ''alias'') (strArg args ''reason'') (Update (we_config env) (we_seen env) fn file))"
  unfolding replies_def by blast

lemmas replies_add = repliesI[OF accepted.add, unfolded reply.simps]
lemmas replies_edit = repliesI[OF accepted.edit, unfolded reply.simps]
lemmas replies_remove = repliesI[OF accepted.remove, unfolded reply.simps]

lemma refused_shape: "snd (bad_request env m) = ([], we_seen env)" by (simp add: bad_request_def)

lemma add_shape:
  "snd (handleAddServer env args file) = ([], we_seen env) \<or> replies env args AddServer file (handleAddServer env args file)"
  unfolding handleAddServer_def requireReason_def Let_def
  by (simp add: refused_shape split: option.split sum.split prod.split) (auto intro!: disjI2 replies_add)

lemma edit_shape:
  "snd (handleEditServer env args file) = ([], we_seen env) \<or> replies env args EditServer file (handleEditServer env args file)"
  unfolding handleEditServer_def requireReason_def Let_def
  by (simp add: refused_shape split: option.split sum.split prod.split) (auto intro!: disjI2 replies_edit)

lemma remove_shape:
  "snd (handleRemoveServer env args file) = ([], we_seen env) \<or> replies env args DropServer file (handleRemoveServer env args file)"
  unfolding handleRemoveServer_def requireReason_def Let_def
  by (simp add: refused_shape) (auto intro!: disjI2 replies_remove)

lemma call_tool_outcome:
  assumes "call_tool t env args file = (out, recs, file')"
  shows "tool_outcome env args t file recs file'"
proof -
  have "snd (call_tool t env args file) = ([], we_seen env) \<or> replies env args t file (call_tool t env args file)"
    using add_shape edit_shape remove_shape by (cases t) simp_all
  then consider "recs = []" "file' = we_seen env" | "replies env args t file (out, recs, file')" using assms by auto
  then show ?thesis
  proof cases
    case 2
    then obtain fn err f where f: "accepted env args t fn" "strArg args ''alias'' \<noteq> []" "strArg args ''reason'' \<noteq> []"
        "Update (we_config env) (we_seen env) fn file = (err, f)"
        "(out, recs, file') = reply t env (strArg args ''alias'') (strArg args ''reason'') (err, f)"
      unfolding replies_def by (metis prod.exhaust)
    from reply_shape[OF f(5)[symmetric]] show ?thesis by (intro outcome_update[OF f(1) _ f(2,3)]) (use f(4) in auto)
  qed (simp add: tool_outcome_def)
qed

lemma accepted_keeps_sound:
  assumes "accepted env args t fn" "field_order (we_order env)" "inventory_sound cfg" "fn cfg = Inr cfg'"
  shows "inventory_sound cfg'"
  using assms(1)
proof cases
  case (add tags present platform port)
  have "1 \<le> port \<and> port \<le> 65535" using add(8) portArg_range[of "we_int env" args port] by (auto split: if_splits)
  then have "server_sound (new_server (we_now env) args tags platform port)"
    by (intro new_server_sound) (use add assms(2) in auto)
  then show ?thesis using assms(3,4) add(2)
    by (auto simp: inventory_sound_def add_callback_def server_at_update split: if_splits)
next
  case (edit platform tags)
  have "server_sound (edit_server (we_int env) (we_now env) args platform tags s)" if "server_sound s" for s
    by (rule edit_server_sound[OF that]) (use edit assms(2) in auto)
  then show ?thesis using assms(3,4) edit(2)
    by (auto simp: inventory_sound_def edit_callback_def server_at_update split: if_splits option.splits)
next
  case remove
  then have "RemoveServer cfg (strArg args ''alias'') = Inr cfg'" using assms(4) by (auto simp: remove_callback_def map_sum_eq_Inr)
  then show ?thesis using assms(3) unfolding RemoveServer_Inr by (auto simp: inventory_sound_def server_at_delete)
qed

lemma accepted_touches_one:
  assumes "accepted env args t fn" "fn cfg = Inr cfg'" "other \<noteq> strArg args ''alias''"
  shows "gm_lookup (cf_Servers cfg') other = gm_lookup (cf_Servers cfg) other"
  using assms(1)
proof cases
  case remove
  then have "RemoveServer cfg (strArg args ''alias'') = Inr cfg'" using assms(2) by (auto simp: remove_callback_def map_sum_eq_Inr)
  then show ?thesis using assms(3) unfolding RemoveServer_Inr by (auto simp: gm.lookup_delete)
qed (use assms(2,3) in \<open>auto simp: add_callback_def edit_callback_def gm.lookup_update split: if_splits option.splits\<close>)

section \<open>Properties\<close>

text \<open>The fields a change of which decides where and how a server is reached.\<close>

definition connection :: "Server \<Rightarrow> string list \<times> int" where
  "connection s = ([sv_Host s, sv_User s, sv_Auth s, sv_KeyPath s, sv_Proxy s, sv_ProxyJump s, sv_ProxyCommand s], sv_Port s)"

lemma edit_connection:
  assumes "\<not> requiresConnectionConfirmation args"
  shows "connection (edit_server beyond now args platform tags s) = connection s"
proof -
  have "map_of args ''host'' = None" "map_of args ''port'' = None" "map_of args ''user'' = None" "map_of args ''auth'' = None"
    "map_of args ''key_path'' = None" "map_of args ''proxy'' = None" "map_of args ''proxy_jump'' = None" "map_of args ''proxy_command'' = None"
    using assms unfolding requiresConnectionConfirmation_def by (simp_all only: list.set ball_simps bex_simps de_Morgan_disj not_not)
  then have "connection (edited_fields beyond args platform tags s) = connection s"
    by (simp only: connection_def edited_fields given_def strArg_def portArg_def option.case if_False not_True_eq_False simp_thms if_True)
  then show ?thesis by (simp add: edit_server_def connection_def Let_def ClearServerActivity_def)
qed

text \<open>What the record remembers about the machine it reached.\<close>

definition observations :: "Server \<Rightarrow> _" where
  "observations s = (sv_Hardware s, [sv_LastUsed s, sv_LastSeen s, sv_LastChecked s, sv_LastSSHChecked s, sv_SSHMCheckedAt s],
     [sv_LastStatus s, sv_LastSSHError s, sv_SSHMStatus s, sv_SSHMVersion s])"

lemma edit_observations:
  assumes "s' = edit_server beyond now args platform tags s"
  shows "if (sv_Host s', sv_Port s', sv_User s') = (sv_Host s, sv_Port s, sv_User s) then observations s' = observations s
         else observations s' = (None, [0, 0, 0, 0, 0], [[], [], [], []])"
  unfolding assms edit_server_def Let_def
  by (auto simp: ClearServerActivity_def observations_def edited_fields_def)

text \<open>C7: whatever the arguments, the tools that change the inventory keep it sound. A call either leaves the file alone and
  writes no audit record, or saves one document made from the one it opened, with the reason audited: if every record of that one had a
  usable host and port, a known login method and platform, and bounded single-line metadata without credentials, then so has
  every record of the saved one, and only the record that was named differs.\<close>

theorem write_tools_keep_inventory_sound:
  assumes "call_tool t env args file = (out, recs, file')" "field_order (we_order env)"
  shows "recs = [] \<and> file' = we_seen env \<or>
    (\<exists>cfg cfg'. opened (we_config env) file cfg \<and> file' = ce_encode (we_config env) (bump_version cfg') \<and>
      strArg args ''reason'' \<noteq> [] \<and> recs = [write_audit (tool_name t) (strArg args ''alias'') (strArg args ''reason'') ''ok''] \<and>
      (inventory_sound cfg \<longrightarrow> inventory_sound cfg') \<and>
      (\<forall>other. other \<noteq> strArg args ''alias'' \<longrightarrow> gm_lookup (cf_Servers cfg') other = gm_lookup (cf_Servers cfg) other))"
  using call_tool_outcome[OF assms(1)] accepted_keeps_sound[OF _ assms(2)] accepted_touches_one
  unfolding tool_outcome_def saved_def by blast

text \<open>An edit changes how a server is reached only when the caller repeated its alias as a confirmation, a removal never
  happens without that, and what was observed of the machine is forgotten exactly when the address or the login changed.\<close>

theorem connection_change_needs_confirmation:
  assumes "call_tool t env args file = (out, recs, file')" "recs \<noteq> []" "t \<noteq> AddServer"
  shows "(t = DropServer \<longrightarrow> strArg args ''confirm_alias'' = strArg args ''alias'') \<and>
    (t = EditServer \<longrightarrow>
      (\<exists>cfg cfg' s s'. opened (we_config env) file cfg \<and> file' = ce_encode (we_config env) (bump_version cfg') \<and>
        server_at (cf_Servers cfg) (strArg args ''alias'') = Some s \<and> server_at (cf_Servers cfg') (strArg args ''alias'') = Some s' \<and>
        (connection s' \<noteq> connection s \<longrightarrow> strArg args ''confirm_alias'' = strArg args ''alias'') \<and>
        (if (sv_Host s', sv_Port s', sv_User s') = (sv_Host s, sv_Port s, sv_User s) then observations s' = observations s
         else observations s' = (None, [0, 0, 0, 0, 0], [[], [], [], []]))))"
proof -
  obtain fn cfg cfg' where f: "accepted env args t fn" "opened (we_config env) file cfg" "fn cfg = Inr cfg'"
      "file' = ce_encode (we_config env) (bump_version cfg')"
    using call_tool_outcome[OF assms(1)] assms(2) unfolding tool_outcome_def saved_def by blast
  show ?thesis
    using f(1)
  proof cases
    case (edit platform tags)
    let ?e = "edit_server (we_int env) (we_now env) args platform tags"
    from f(3) edit(2) obtain s where s: "server_at (cf_Servers cfg) (strArg args ''alias'') = Some s"
        "cfg' = cfg\<lparr>cf_Servers := gm_update (strArg args ''alias'') (Some (?e s)) (cf_Servers cfg)\<rparr>"
      by (auto simp: edit_callback_def split: option.splits)
    have "connection (?e s) \<noteq> connection s \<longrightarrow> strArg args ''confirm_alias'' = strArg args ''alias''"
      using edit_connection edit(3) by blast
    moreover have "server_at (cf_Servers cfg') (strArg args ''alias'') = Some (?e s)" by (simp add: s(2) server_at_update)
    ultimately show ?thesis using f(2,4) s(1) edit_observations[OF refl, of "we_int env" "we_now env" args platform tags s] edit(1) by blast
  qed (use assms(3) in simp_all)
qed

definition write_demo :: write_env where
  "write_demo = \<lparr>we_config = (test_env (\<lambda>_. False))\<lparr>ce_encode := \<lambda>c. Some (concat (gm_keys (cf_Servers c)))\<rparr>, we_seen = None, we_text = \<lambda>_. [],
     we_order = [''label'', ''notes'', ''group''], we_now = 7, we_int = \<lambda>_. 0\<rparr>"

definition add_args :: json_args where
  "add_args = [(''reason'', JStr ''new''), (''alias'', JStr ''w''), (''host'', JStr ''h''), (''port'', JNum 22)]"

lemma add_demo: "call_tool AddServer write_demo add_args None =
  (JObj [(''alias'', JStr ''w''), (''added'', JBool True)], [write_audit ''add_server'' ''w'' ''new'' ''ok''], Some ''w'')"
proof -
  have "ValidateAlias ''w'' = None" by code_simp
  moreover have "validateConnectionMetadata add_args True = None" by code_simp
  moreover have "validateServerMetadata [''label'', ''notes'', ''group''] add_args = Inr ([], False)" by code_simp
  moreover have "NormalizePlatform [] = Some []" by code_simp
  moreover have "portArg (\<lambda>_. 0) add_args = Some 22" by code_simp
  moreover have "strArg add_args ''reason'' = ''new''" "strArg add_args ''alias'' = ''w''" "strArg add_args ''host'' = ''h''" "strArg add_args ''platform'' = []"
    "map_of add_args ''port'' = Some (JNum 22)" "validAuth (inferred_auth add_args)" by code_simp+
  moreover have "Update (we_config write_demo) None (add_callback ''w'' x) None = (None, Some ''w'')" for x
    by (simp add: write_demo_def Update_def UpdateWithSource_def saveUnlockedIfUnchanged_def saveLocalJSON_def test_env_def ValidateProjects_def
        applyCloudBindings_def New_def add_callback_def bump_version_def gm_keys_update)
  ultimately show ?thesis
    by (simp add: handleAddServer_def requireReason_def Let_def write_demo_def add_reply_def)
qed

lemma demo_order: "field_order (we_order write_demo)" by (auto simp: field_order_def write_demo_def)

theorem write_tools_keep_inventory_sound_witness:
  "\<exists>cfg'. Some ''w'' = ce_encode (we_config write_demo) (bump_version cfg') \<and> inventory_sound cfg'"
proof -
  obtain cfg cfg' where "opened (we_config write_demo) None cfg" "Some ''w'' = ce_encode (we_config write_demo) (bump_version cfg')"
      "inventory_sound cfg \<longrightarrow> inventory_sound cfg'"
    using write_tools_keep_inventory_sound[OF add_demo demo_order] by auto
  moreover from this(1) have "inventory_sound cfg"
    by (auto simp: opened_def write_demo_def test_env_def applyCloudBindings_def inventory_sound_def New_def server_at_def)
  ultimately show ?thesis by blast
qed

definition edit_demo :: write_env where
  "edit_demo = write_demo\<lparr>we_seen := Some [], we_config := (we_config write_demo)\<lparr>ce_unmarshal := \<lambda>_ c. Some (c\<lparr>cf_Servers := gm_update ''w'' (Some zero_server) gm_empty\<rparr>)\<rparr>\<rparr>"

definition edit_args :: json_args where
  "edit_args = [(''reason'', JStr ''name it''), (''alias'', JStr ''w''), (''label'', JStr ''web'')]"

lemma edit_demo_result: "call_tool EditServer edit_demo edit_args (Some []) =
  (JObj [(''alias'', JStr ''w''), (''updated'', JBool True)], [write_audit ''edit_server'' ''w'' ''name it'' ''ok''], Some ''w'')"
proof -
  have "validateConnectionMetadata edit_args False = None" by code_simp
  moreover have "validateServerMetadata [''label'', ''notes'', ''group''] edit_args = Inr ([], False)" by code_simp
  moreover have "NormalizePlatform [] = Some []" by code_simp
  moreover have "strArg edit_args ''reason'' = ''name it''" "strArg edit_args ''alias'' = ''w''" "strArg edit_args ''auth'' = []" "strArg edit_args ''platform'' = []"
    "map_of edit_args ''port'' = None" "\<not> requiresConnectionConfirmation edit_args" by code_simp+
  moreover have "Update (we_config edit_demo) (Some []) (edit_callback ''w'' f) (Some []) = (None, Some ''w'')" for f
    by (simp add: edit_demo_def write_demo_def Update_def UpdateWithSource_def saveUnlockedIfUnchanged_def saveLocalJSON_def test_env_def ValidateProjects_def
        applyCloudBindings_def New_def edit_callback_def bump_version_def gm_keys_update decodeConfig_def CurrentVersion_def server_at_def)
  ultimately show ?thesis
    by (simp add: handleEditServer_def requireReason_def Let_def edit_demo_def write_demo_def edit_reply_def)
qed

theorem connection_change_needs_confirmation_witness:
  "\<exists>cfg cfg' s s'. opened (we_config edit_demo) (Some []) cfg \<and> Some ''w'' = ce_encode (we_config edit_demo) (bump_version cfg') \<and>
    server_at (cf_Servers cfg) ''w'' = Some s \<and> server_at (cf_Servers cfg') ''w'' = Some s' \<and> connection s' = connection s"
proof -
  have "strArg edit_args ''alias'' = ''w''" "strArg edit_args ''confirm_alias'' = []" by code_simp+
  then show ?thesis using connection_change_needs_confirmation[OF edit_demo_result] by auto
qed

end
