(* ===== verification/Mcp_Project.thy ===== *)
theory Mcp_Project
  imports Mcp_Write
begin

text \<open>
  \<open>internal/mcp/tools_project.go\<close>: project profiles and the commands run in their workspaces. The directory and the shell are chosen
  from the profile, the command is wrapped for that shell and handed to \<open>handleExec\<close> of \<open>Mcp_Exec\<close>; profiles are written through
  the locked update of \<open>Config_Store\<close>.
\<close>

section \<open>Working directories\<close>

definition backslash :: char where "backslash = CHR 0x5C"

definition isWindowsRemotePath :: "string \<Rightarrow> bool" where
  "isWindowsRemotePath p \<longleftrightarrow>
    HasPrefix p [backslash, backslash] \<or>
    3 \<le> length p \<and> p ! 1 = CHR '':'' \<and> (p ! 2 = backslash \<or> p ! 2 = CHR ''/'') \<and>
    (CHR ''A'' \<le> p ! 0 \<and> p ! 0 \<le> CHR ''Z'' \<or> CHR ''a'' \<le> p ! 0 \<and> p ! 0 \<le> CHR ''z'')"

text \<open>\<open>path.Dir\<close>: everything up to the last slash, cleaned.\<close>

definition path_Dir :: "string \<Rightarrow> string" where
  "path_Dir p = path_Clean (rev (dropWhile (\<lambda>c. c \<noteq> CHR ''/'') (rev p)))"

definition artifact_parent :: "string \<Rightarrow> string + string" where
  "artifact_parent p =
    (if isWindowsRemotePath p then
       (case LastIndexAny p [CHR ''/'', backslash] of
          None \<Rightarrow> Inl ''artifact_path has no parent directory''
        | Some n \<Rightarrow> Inr (if n = 2 \<and> p ! 1 = CHR '':'' then take (n + 1) p else take n p))
     else Inr (path_Dir p))"

definition configured_workdir :: "Project \<Rightarrow> string \<Rightarrow> string + string" where
  "configured_workdir p selector =
    (if selector = [] \<or> selector = ''workspace'' then Inr (pj_RemoteWorkspace p)
     else if selector = ''runs'' then
       (if pj_RemoteRuns p = [] then Inl ''remote_runs is not configured'' else Inr (pj_RemoteRuns p))
     else if selector = ''artifact_parent'' then
       (if pj_ArtifactPath p = [] then Inl ''artifact_path is not configured'' else artifact_parent (pj_ArtifactPath p))
     else Inl ''workdir must be workspace, runs, or artifact_parent'')"

definition projectWorkdir :: "Project option \<Rightarrow> string \<Rightarrow> string + string" where
  "projectWorkdir po selector =
    (case po of None \<Rightarrow> Inl ''project profile is missing''
     | Some p \<Rightarrow> bind_result (configured_workdir p selector)
         (\<lambda>w. if w = [] then Inl ''selected workdir is not configured'' else Inr w))"

section \<open>Shells\<close>

definition resolveProjectShell :: "string \<Rightarrow> string \<Rightarrow> string + string" where
  "resolveProjectShell configured workdir =
    (if configured = [] \<or> configured = ''auto'' then Inr (if isWindowsRemotePath workdir then ''powershell'' else ''posix'')
     else if configured = ''posix'' \<or> configured = ''powershell'' \<or> configured = ''cmd'' then Inr configured
     else Inl (''unsupported project shell '' @ quoted configured))"

definition double_quote :: char where "double_quote = CHR 0x22"

definition wrapProjectCommand :: "string \<Rightarrow> string \<Rightarrow> string \<Rightarrow> string + string" where
  "wrapProjectCommand shell workdir command =
    (if workdir = [] then Inl ''workdir is required''
     else if ContainsAny workdir NUL_CR_LF then Inl ''workdir must not contain NUL or newline characters''
     else if shell = ''posix'' then Inr (''cd '' @ shellQuoteArg workdir @ '' && '' @ command)
     else if shell = ''powershell'' then
       Inr (powershellEncodedCommand (''Set-Location -LiteralPath '' @ powershellSingleQuote workdir @
         ''; if (-not $?) { exit 1 }; '' @ command))
     else if shell = ''cmd'' then
       (if double_quote \<in> set workdir then Inl ''cmd workdir must not contain double quotes''
        else Inr (''cmd.exe /d /s /c '' @ [double_quote] @ ''cd /d '' @ [double_quote, double_quote] @ workdir @
               [double_quote, double_quote] @ '' && '' @ command @ [double_quote]))
     else Inl (''unsupported project shell '' @ quoted shell))"

section \<open>Running in a project\<close>

definition unknownProjectResult :: "string \<Rightarrow> project_map \<Rightarrow> json" where
  "unknownProjectResult name projects =
    (let available = filter (\<lambda>n. project_at projects n \<noteq> None) (gm_keys projects) in
     errResult ''not_found'' (''unknown project '' @ quoted name @
       (if available \<noteq> [] then ''; available projects: '' @ Join available '', '' else [])))"

definition carried :: "json_args \<Rightarrow> string \<Rightarrow> json_args" where
  "carried args key = (case map_of args key of Some v \<Rightarrow> [(key, v)] | None \<Rightarrow> [])"

definition exec_platform :: "json_args \<Rightarrow> string \<Rightarrow> string \<Rightarrow> json_args" where
  "exec_platform args platform shell =
    (if boolArg args ''detach'' \<and> (TrimSpace platform = [] \<or> EqualFold platform ''auto'') \<and> (shell = ''powershell'' \<or> shell = ''cmd'')
     then [(''platform'', JStr ''windows'')]
     else if platform \<noteq> [] then [(''platform'', JStr platform)] else [])"

definition project_exec_args :: "json_args \<Rightarrow> string \<Rightarrow> string \<Rightarrow> string \<Rightarrow> string \<Rightarrow> string \<Rightarrow> json_args" where
  "project_exec_args args server wrapped reason platform shell =
    [(''alias'', JStr server), (''command'', JStr wrapped), (''reason'', JStr reason)] @
    carried args ''unsafe'' @ carried args ''timeout_seconds'' @ carried args ''detach'' @ exec_platform args platform shell"

definition project_reply :: "string \<Rightarrow> string \<Rightarrow> string \<Rightarrow> string \<Rightarrow> json \<Rightarrow> json" where
  "project_reply name server workdir shell out =
    (case out of
       JObj ms \<Rightarrow> JObj (fold (\<lambda>(k, v). AList.update k (JStr v))
         [(''project'', name), (''alias'', server), (''workdir'', workdir), (''shell'', shell)] ms)
     | _ \<Rightarrow> errResult ''exec'' ''unexpected exec result'')"

definition run_in_project :: "exec_env \<Rightarrow> json_args \<Rightarrow> string \<Rightarrow> string \<Rightarrow> string \<Rightarrow> string \<Rightarrow> Project \<Rightarrow> json \<times> tool_event list" where
  "run_in_project env args reason name command platform project =
    (case projectWorkdir (Some project) (strArg args ''workdir'') of Inl e \<Rightarrow> (errResult ''bad_request'' e, []) | Inr workdir \<Rightarrow>
     case resolveProjectShell (pj_Shell project) workdir of Inl e \<Rightarrow> (errResult ''config'' e, []) | Inr shell \<Rightarrow>
     let projectReason = ''[project:'' @ name @ ''] '' @ reason in
     case (if boolArg args ''unsafe'' then None else IsDangerous command) of
       Some why \<Rightarrow> (errResult ''dangerous'' (''dangerous command blocked ('' @ why @ ''); pass unsafe=true to override''),
           [audit_entry (pj_Server project) projectReason ''blocked: dangerous command''])
     | None \<Rightarrow>
         case wrapProjectCommand shell workdir command of Inl e \<Rightarrow> (errResult ''bad_request'' e, []) | Inr wrapped \<Rightarrow>
         (case handleExec env (project_exec_args args (pj_Server project) wrapped projectReason platform shell) of
            (out, ev) \<Rightarrow> (project_reply name (pj_Server project) workdir shell out, ev)))"

definition handleExecProject :: "(project_error \<Rightarrow> string) \<Rightarrow> exec_env \<Rightarrow> json_args \<Rightarrow> json \<times> tool_event list" where
  "handleExecProject texts env args =
    (case requireReason args of None \<Rightarrow> (errResult ''bad_request'' reason_required, []) | Some reason \<Rightarrow>
     let name = strArg args ''project''; command = strArg args ''command''; platform = ToLower (TrimSpace (strArg args ''platform'')) in
     if name = [] then (errResult ''bad_request'' ''project is required'', [])
     else if command = [] then (errResult ''bad_request'' ''command is required'', [])
     else if platform \<notin> set [[], ''auto'', ''posix'', ''windows'']
     then (errResult ''bad_request'' ''platform must be auto, posix, or windows'', [])
     else case xe_config env of Inl e \<Rightarrow> (errResult ''config'' e, []) | Inr cfg \<Rightarrow>
     case ValidateProjects cfg of Some e \<Rightarrow> (errResult ''config'' (texts e), []) | None \<Rightarrow>
     case project_at (cf_Projects cfg) name of None \<Rightarrow> (unknownProjectResult name (cf_Projects cfg), []) | Some project \<Rightarrow>
     if gm_lookup (cf_Servers cfg) (pj_Server project) = None
     then (errResult ''config'' (''project '' @ quoted name @ '' references unknown server '' @ quoted (pj_Server project)), [])
     else run_in_project env args reason name command platform project)"

section \<open>Profiles\<close>

definition handleListProjects :: "(project_error \<Rightarrow> string) \<Rightarrow> string + Config \<Rightarrow> json" where
  "handleListProjects texts loaded =
    (case loaded of Inl e \<Rightarrow> errResult ''config'' e | Inr cfg \<Rightarrow>
     case ValidateProjects cfg of Some e \<Rightarrow> errResult ''config'' (texts e) | None \<Rightarrow>
     JObj [(''projects'', JArr (List.map_filter (\<lambda>name. map_option
       (\<lambda>p. JObj [(''project'', JStr name), (''server'', JStr (pj_Server p)), (''shell'', JStr (pj_Shell p)),
                  (''remote_workspace'', JStr (pj_RemoteWorkspace p))]) (project_at (cf_Projects cfg) name)) (gm_keys (cf_Projects cfg))))])"

definition handleGetProject :: "(project_error \<Rightarrow> string) \<Rightarrow> string + Config \<Rightarrow> json_args \<Rightarrow> json" where
  "handleGetProject texts loaded args =
    (let name = strArg args ''project'' in
     case loaded of Inl e \<Rightarrow> errResult ''config'' e | Inr cfg \<Rightarrow>
     case ValidateProjects cfg of Some e \<Rightarrow> errResult ''config'' (texts e) | None \<Rightarrow>
     case project_at (cf_Projects cfg) name of None \<Rightarrow> unknownProjectResult name (cf_Projects cfg) | Some p \<Rightarrow>
     JObj [(''project'', JStr name), (''server'', JStr (pj_Server p)), (''local_root'', JStr (pj_LocalRoot p)),
       (''remote_workspace'', JStr (pj_RemoteWorkspace p)), (''remote_runs'', JStr (pj_RemoteRuns p)),
       (''artifact_path'', JStr (pj_ArtifactPath p)), (''local_artifact_dir'', JStr (pj_LocalArtifactDir p)),
       (''shell'', JStr (pj_Shell p)), (''build_command'', JStr (pj_BuildCommand p)), (''verify_command'', JStr (pj_VerifyCommand p))])"

text \<open>The members of the arguments that are checked, and how a profile takes them.\<close>

definition upsert_fields :: "string list" where
  "upsert_fields = [''server'', ''shell'', ''local_root'', ''remote_workspace'', ''remote_runs'', ''artifact_path'',
     ''local_artifact_dir'', ''build_command'', ''verify_command'']"

definition upsert_argument_error :: "json_args \<Rightarrow> string option" where
  "upsert_argument_error args =
    (let name = strArg args ''project'' in
     if \<not> MatchString projectNamePattern name then Some ''project must match ^[a-z0-9][a-z0-9._-]*$''
     else if ContainsCredentialMaterial name then Some ''project name must not contain credential material''
     else if ContainsAny (strArg args ''server'') NUL_CR_LF
     then Some (''project field '' @ quoted ''server'' @ '' contains invalid control characters'')
     else if \<not> validProjectShell (strArg args ''shell'') then
       (if ContainsCredentialMaterial (strArg args ''shell'')
        then Some (''project field '' @ quoted ''shell'' @ '' must not contain credential material'')
        else Some ''shell must be auto, posix, powershell, or cmd'')
     else first_error (\<lambda>field. case map_of args field of
            Some (JStr v) \<Rightarrow> if ContainsCredentialMaterial v
              then Some (''project field '' @ quoted field @ '' must not contain credential material'') else None
          | _ \<Rightarrow> None) upsert_fields)"

definition assigned_project :: "json_args \<Rightarrow> Project \<Rightarrow> Project" where
  "assigned_project args p = p\<lparr>
     pj_Server := assignString args ''server'' (pj_Server p), pj_LocalRoot := assignString args ''local_root'' (pj_LocalRoot p),
     pj_RemoteWorkspace := assignString args ''remote_workspace'' (pj_RemoteWorkspace p),
     pj_RemoteRuns := assignString args ''remote_runs'' (pj_RemoteRuns p), pj_ArtifactPath := assignString args ''artifact_path'' (pj_ArtifactPath p),
     pj_LocalArtifactDir := assignString args ''local_artifact_dir'' (pj_LocalArtifactDir p), pj_Shell := assignString args ''shell'' (pj_Shell p),
     pj_BuildCommand := assignString args ''build_command'' (pj_BuildCommand p), pj_VerifyCommand := assignString args ''verify_command'' (pj_VerifyCommand p)\<rparr>"

definition upserted :: "json_args \<Rightarrow> Config \<Rightarrow> Project" where
  "upserted args cfg =
    assigned_project args (case project_at (cf_Projects cfg) (strArg args ''project'') of Some p \<Rightarrow> p | None \<Rightarrow> zero_project)"

definition upsert_callback :: "json_args \<Rightarrow> Config \<Rightarrow> write_error + Config" where
  "upsert_callback args cfg =
    (let p = upserted args cfg in
     if pj_Server p = [] then Inl (Rejected ''bad_request'' ''server is required'')
     else if pj_RemoteWorkspace p = [] then Inl (Rejected ''bad_request'' ''remote_workspace is required'')
     else if pj_ArtifactPath p = [] then Inl (Rejected ''bad_request'' ''artifact_path is required'')
     else if gm_lookup (cf_Servers cfg) (pj_Server p) = None
     then Inl (Rejected ''bad_request'' (''unknown server '' @ quoted (pj_Server p)))
     else Inr (cfg\<lparr>cf_Projects := gm_update (strArg args ''project'') (Some p) (cf_Projects cfg)\<rparr>))"

text \<open>The document the callback works on, which the reply speaks of.\<close>

definition visited_config :: "config_env \<Rightarrow> bytes option \<Rightarrow> Config" where
  "visited_config env file = (case (config_load env file :: write_error store_error + Config) of Inr cfg \<Rightarrow> cfg | Inl _ \<Rightarrow> New)"

definition upsert_reply :: "write_env \<Rightarrow> json_args \<Rightarrow> string \<Rightarrow> Config \<Rightarrow> update_result \<Rightarrow> write_result" where
  "upsert_reply env args reason cfg r =
    (let name = strArg args ''project''; server = pj_Server (upserted args cfg);
         created = (project_at (cf_Projects cfg) name = None) in
     case r of
       (Some (Callback (Rejected kind msg)), file') \<Rightarrow> (errResult kind msg, [], file')
     | (Some e, file') \<Rightarrow> (errResult ''config'' (we_text env e), [], file')
     | (None, file') \<Rightarrow>
         (JObj [(''project'', JStr name), (''server'', JStr server), (''created'', JBool created), (''updated'', JBool (\<not> created))],
          [write_audit ''upsert_project'' server reason (''project='' @ name)], file'))"

definition handleUpsertProject :: "write_env \<Rightarrow> json_args \<Rightarrow> bytes option \<Rightarrow> write_result" where
  "handleUpsertProject env args file =
    (case requireReason args of None \<Rightarrow> bad_request env reason_required | Some reason \<Rightarrow>
     case upsert_argument_error args of Some e \<Rightarrow> bad_request env e | None \<Rightarrow>
     upsert_reply env args reason (visited_config (we_config env) file)
       (Update (we_config env) (we_seen env) (upsert_callback args) file))"

section \<open>What runs in a project\<close>

lemma carried_lookup: "map_of (carried args k) k' = (if k' = k then map_of args k else None)"
  by (auto simp: carried_def split: option.split)

lemma exec_args_lookup:
  assumes "xs = project_exec_args args server wrapped reason platform shell"
  shows "strArg xs ''alias'' = server" "strArg xs ''command'' = wrapped" "strArg xs ''reason'' = reason"
    "boolArg xs ''unsafe'' = boolArg args ''unsafe''" "boolArg xs ''detach'' = boolArg args ''detach''"
proof -
  have e: "map_of (exec_platform args platform shell) k = None" if "k \<noteq> ''platform''" for k
    using that by (simp add: exec_platform_def)
  show "strArg xs ''alias'' = server" "strArg xs ''command'' = wrapped" "strArg xs ''reason'' = reason"
    by (simp_all add: assms project_exec_args_def strArg_def)
  show "boolArg xs ''unsafe'' = boolArg args ''unsafe''" "boolArg xs ''detach'' = boolArg args ''detach''"
    by (auto simp: assms project_exec_args_def boolArg_def carried_lookup e map_add_def split: option.split)
qed

lemma run_in_project_vetted:
  assumes "run_in_project env args reason name command platform p = (out, ev)" "Ran c raw \<in> set ev"
  shows "\<exists>workdir shell wrapped. projectWorkdir (Some p) (strArg args ''workdir'') = Inr workdir \<and>
    resolveProjectShell (pj_Shell p) workdir = Inr shell \<and> wrapProjectCommand shell workdir command = Inr wrapped \<and>
    (boolArg args ''unsafe'' \<or> IsDangerous command = None) \<and> c \<in> runs_of env (boolArg args ''detach'') wrapped"
proof -
  have "Ran c raw \<notin> set [audit_entry a r x]" for a r x by (simp add: audit_entry_def)
  then obtain workdir shell wrapped out' where w: "projectWorkdir (Some p) (strArg args ''workdir'') = Inr workdir"
      "resolveProjectShell (pj_Shell p) workdir = Inr shell" "wrapProjectCommand shell workdir command = Inr wrapped"
      "boolArg args ''unsafe'' \<or> IsDangerous command = None"
      "handleExec env (project_exec_args args (pj_Server p) wrapped (''[project:'' @ name @ ''] '' @ reason) platform shell) = (out', ev)"
    using assms unfolding run_in_project_def Let_def
    by (auto split: sum.splits option.splits if_splits prod.splits)
  have "c \<in> runs_of env (boolArg args ''detach'') wrapped"
    using handleExec_vetted[OF w(5)] assms(2) unfolding vetted_def exec_args_lookup[OF refl] by blast
  then show ?thesis using w by blast
qed

section \<open>Saving a profile\<close>

lemma upsert_callback_ok:
  "upsert_callback args cfg = Inr cfg' \<longleftrightarrow>
    pj_Server (upserted args cfg) \<noteq> [] \<and> pj_RemoteWorkspace (upserted args cfg) \<noteq> [] \<and> pj_ArtifactPath (upserted args cfg) \<noteq> [] \<and>
    gm_lookup (cf_Servers cfg) (pj_Server (upserted args cfg)) \<noteq> None \<and>
    cfg' = cfg\<lparr>cf_Projects := gm_update (strArg args ''project'') (Some (upserted args cfg)) (cf_Projects cfg)\<rparr>"
  by (auto simp: upsert_callback_def Let_def)

lemma upsert_refs_closed:
  assumes "refs_closed cfg" "upsert_callback args cfg = Inr cfg'"
  shows "refs_closed cfg'"
  using assms unfolding refs_closed_def upsert_callback_ok
  by (auto simp: project_at_def gm.lookup_update jump_target_missing_def split: if_splits)

lemma Update_saved:
  fixes fn :: "Config \<Rightarrow> write_error + Config"
  assumes "Update env seen fn file = (None, file')"
  shows "seen = file \<and> opened env file (visited_config env file) \<and>
    (\<exists>cfg'. fn (visited_config env file) = Inr cfg' \<and> ValidateProjects cfg' = None \<and> file' = ce_encode env (bump_version cfg'))"
proof -
  from Update_result[OF assms] have seen: "seen = file" by simp
  with assms obtain d d' where d: "config_load env file = (Inr d :: write_error store_error + Config)" "fn d = Inr d'"
      "config_store env d' file = (Inr file' :: write_error store_error + bytes option)"
    using cfg.ok_iff by blast
  have "visited_config env file = d" by (simp add: visited_config_def d(1))
  moreover have "saveUnlockedIfUnchanged env d' (Some file) file = ((None :: write_error store_error option), file')"
    using d(3) by (auto simp: config_store_def split: option.splits prod.splits)
  from save_ok[OF this] have "ValidateProjects d' = None \<and> file' = ce_encode env (bump_version d')" by simp
  moreover have "opened env file d"
    using d(1) unfolding config_load_def opened_def by (auto simp: bind_result_eq_Inr split: if_splits option.splits)
  ultimately show ?thesis using seen d(2) by blast
qed

section \<open>Properties\<close>


text \<open>Saving a profile keeps the document closed under references. A call is refused and leaves the file and the audit log alone, or
  changes exactly the named profile: it names a server the document has, a workspace and an artifact, members that are not given keep
  their values, every profile of the saved document is valid, and no reference dangles that did not before.\<close>

theorem upsert_keeps_references:
  assumes "handleUpsertProject env args file = (out, recs, file')"
  shows "recs = [] \<and> file' = we_seen env \<or>
    (\<exists>cfg cfg' p. opened (we_config env) file cfg \<and> file' = ce_encode (we_config env) (bump_version cfg') \<and> strArg args ''reason'' \<noteq> [] \<and>
      recs = [write_audit ''upsert_project'' (pj_Server p) (strArg args ''reason'') (''project='' @ strArg args ''project'')] \<and>
      p = upserted args cfg \<and> project_at (cf_Projects cfg') (strArg args ''project'') = Some p \<and> cf_Servers cfg' = cf_Servers cfg \<and>
      (\<forall>other. other \<noteq> strArg args ''project'' \<longrightarrow> gm_lookup (cf_Projects cfg') other = gm_lookup (cf_Projects cfg) other) \<and>
      gm_lookup (cf_Servers cfg') (pj_Server p) \<noteq> None \<and> pj_RemoteWorkspace p \<noteq> [] \<and> pj_ArtifactPath p \<noteq> [] \<and>
      ValidateProjects cfg' = None \<and> (refs_closed cfg \<longrightarrow> refs_closed cfg'))"
proof (cases "recs = [] \<and> file' = we_seen env")
  case False
  let ?v = "visited_config (we_config env) file"
  obtain err f where u: "Update (we_config env) (we_seen env) (upsert_callback args) file = (err, f)" by (rule prod.exhaust)
  have "upsert_reply env args (strArg args ''reason'') ?v (err, f) = (out, recs, file') \<and> strArg args ''reason'' \<noteq> []"
    using assms False u unfolding handleUpsertProject_def requireReason_def Let_def bad_request_def
    by (auto split: option.splits if_splits)
  note f = u conjunct1[OF this] conjunct2[OF this]
  have ok: "err = None" "file' = f"
    "recs = [write_audit ''upsert_project'' (pj_Server (upserted args ?v)) (strArg args ''reason'') (''project='' @ strArg args ''project'')]"
    using f(2) Update_result[OF f(1)] False unfolding upsert_reply_def Let_def
    by (auto split: option.splits store_error.splits write_error.splits)
  obtain cfg' where c: "upsert_callback args ?v = Inr cfg'" "ValidateProjects cfg' = None" "f = ce_encode (we_config env) (bump_version cfg')"
      "opened (we_config env) file ?v"
    using Update_saved[OF f(1)[unfolded ok(1)]] by blast
  from c(1) have "project_at (cf_Projects cfg') (strArg args ''project'') = Some (upserted args ?v)" "cf_Servers cfg' = cf_Servers ?v"
      "\<forall>other. other \<noteq> strArg args ''project'' \<longrightarrow> gm_lookup (cf_Projects cfg') other = gm_lookup (cf_Projects ?v) other"
      "gm_lookup (cf_Servers cfg') (pj_Server (upserted args ?v)) \<noteq> None"
      "pj_RemoteWorkspace (upserted args ?v) \<noteq> []" "pj_ArtifactPath (upserted args ?v) \<noteq> []"
    by (auto simp: upsert_callback_ok project_at_def gm.lookup_update)
  then show ?thesis using c ok f(3) upsert_refs_closed[OF _ c(1)] by blast
qed simp

definition demo_project :: Project where
  "demo_project = zero_project\<lparr>pj_Server := ''web'', pj_RemoteWorkspace := ''/srv'', pj_ArtifactPath := ''/srv/a''\<rparr>"

definition project_env :: exec_env where
  "project_env = exec_demo\<lparr>xe_config := Inr (New\<lparr>cf_Servers := gm_update ''web'' (Some example_target) gm_empty,
     cf_Projects := gm_update ''app'' (Some demo_project) gm_empty\<rparr>)\<rparr>"

definition project_args :: json_args where
  "project_args = [(''reason'', JStr ''check''), (''project'', JStr ''app''), (''command'', JStr ''uptime'')]"

definition project_command :: string where "project_command = ''cd '' @ shellQuoteArg ''/srv'' @ '' && uptime''"

lemma demo_valid: "validate_project ''app'' (Some demo_project) = None"
  by code_simp

lemma project_runs: "Ran project_command False \<in> set (snd (handleExecProject (\<lambda>_. []) project_env project_args))"
proof -
  have "IsDangerous project_command = None" "IsDangerous ''uptime'' = None" by code_simp+
  moreover have "Dial example_env (Some example_target) (zero_opts\<lparr>bo_Alias := ''web''\<rparr>) = (Inr (DirectConn ''10.0.0.5:22'', kindDirect),
      [Contact (SocksConn ''10.0.0.9:1080'' ''10.0.0.5:22''), Contact (DirectConn ''10.0.0.5:22''), Authenticate ''10.0.0.5:22'' [] False, UsedAlias ''web''])"
    by code_simp
  moreover have "zero_opts\<lparr>bo_ConfigPath := [], bo_Alias := ''web''\<rparr> = zero_opts\<lparr>bo_Alias := ''web''\<rparr>" by (simp add: zero_opts_def)
  moreover have "wrapProjectCommand ''posix'' ''/srv'' ''uptime'' = Inr project_command" by code_simp
  moreover have "isWindowsRemotePath ''/srv'' = False" "project_command \<noteq> []" "ToLower (TrimSpace []) = []"
    "pj_Server demo_project = ''web''" "pj_RemoteWorkspace demo_project = ''/srv''" "pj_Shell demo_project = []" by code_simp+
  ultimately show ?thesis
    by (simp add: handleExecProject_def project_args_def project_env_def exec_demo_def requireReason_def strArg_def boolArg_def ValidateProjects_def
        gm_keys_update project_at_def demo_valid run_in_project_def projectWorkdir_def configured_workdir_def resolveProjectShell_def
        handleExec_def project_exec_args_def carried_def exec_platform_def sshOptions_def run_foreground_def bypassed_def Let_def gm.lookup_update)
qed


definition upsert_demo :: write_env where
  "upsert_demo = write_demo\<lparr>we_seen := Some [], we_config := (we_config write_demo)\<lparr>ce_encode := \<lambda>c. Some (concat (gm_keys (cf_Projects c))),
     ce_unmarshal := \<lambda>_ c. Some (c\<lparr>cf_Servers := gm_update ''web'' (Some zero_server) gm_empty\<rparr>)\<rparr>\<rparr>"

definition upsert_args :: json_args where
  "upsert_args = [(''reason'', JStr ''set up''), (''project'', JStr ''app''), (''server'', JStr ''web''),
     (''remote_workspace'', JStr ''/srv''), (''artifact_path'', JStr ''/srv/a'')]"

lemma upsert_demo_result: "handleUpsertProject upsert_demo upsert_args (Some []) =
  (JObj [(''project'', JStr ''app''), (''server'', JStr ''web''), (''created'', JBool True), (''updated'', JBool False)],
   [write_audit ''upsert_project'' ''web'' ''set up'' ''project=app''], Some ''app'')"
proof -
  let ?c = "New\<lparr>cf_Servers := gm_update ''web'' (Some zero_server) gm_empty\<rparr>"
  have "upsert_argument_error upsert_args = None" by code_simp
  moreover have v: "visited_config (we_config upsert_demo) (Some []) = ?c"
    by (simp add: visited_config_def config_load_def upsert_demo_def write_demo_def test_env_def decodeConfig_def New_def CurrentVersion_def applyCloudBindings_def)
  moreover have p: "upserted upsert_args ?c = demo_project" by code_simp
  moreover have a: "strArg upsert_args ''project'' = ''app''" "strArg upsert_args ''reason'' = ''set up''" by code_simp+
  moreover have s: "pj_Server demo_project = ''web''" "pj_RemoteWorkspace demo_project = ''/srv''" "pj_ArtifactPath demo_project = ''/srv/a''" by code_simp+
  moreover have "Update (we_config upsert_demo) (Some []) (upsert_callback upsert_args) (Some []) = (None, Some ''app'')"
  proof -
    have "upsert_callback upsert_args ?c = Inr (?c\<lparr>cf_Projects := gm_update ''app'' (Some demo_project) (cf_Projects ?c)\<rparr>)"
      by (simp add: upsert_callback_ok p a s)
    then show ?thesis
      by (simp add: upsert_demo_def write_demo_def Update_def UpdateWithSource_def saveUnlockedIfUnchanged_def saveLocalJSON_def test_env_def ValidateProjects_def
          applyCloudBindings_def New_def bump_version_def gm_keys_update decodeConfig_def CurrentVersion_def project_at_def demo_valid)
  qed
  ultimately show ?thesis
    by (simp add: handleUpsertProject_def requireReason_def Let_def upsert_demo_def write_demo_def upsert_reply_def New_def project_at_def)
qed

theorem upsert_keeps_references_witness:
  "\<exists>cfg cfg' p. opened (we_config upsert_demo) (Some []) cfg \<and> Some ''app'' = ce_encode (we_config upsert_demo) (bump_version cfg') \<and>
    project_at (cf_Projects cfg') ''app'' = Some p \<and> gm_lookup (cf_Servers cfg') (pj_Server p) \<noteq> None \<and> ValidateProjects cfg' = None"
proof -
  have "strArg upsert_args ''project'' = ''app''" by code_simp
  then show ?thesis using upsert_keeps_references[OF upsert_demo_result] by auto
qed

end
