(* ===== verification/Mcp_Transfer.thy ===== *)
theory Mcp_Transfer
  imports Mcp_Exec
begin

text \<open>
  \<open>internal/mcp/transfer_core.go\<close> and \<open>tools_transfer.go\<close>: copying files between the device and a server, with partial files,
  resumption and checksums, and the manager of background transfers. Files are a map from paths to bytes; what each step of
  the operating system or of the SFTP session answers, and what each read and write does, is a parameter.
\<close>

section \<open>Copying\<close>

datatype copy_step = CopyMkdir | CopyStatPart | CopySeek | CopyOpenPart | CopyClose | CopyHash | CopyRename | CopyRename2 | CopyRemove
  | CopyStat | CopyOpen

datatype read_end = ReadMore | ReadEOF | ReadFailed string

type_synonym files = "string \<Rightarrow> bytes option"

text \<open>\<open>cp_read o n\<close> is the \<open>n\<close>-th read after a seek to \<open>o\<close>; \<open>cp_write n b\<close> says how many bytes of \<open>b\<close> the write after it accepts.\<close>

record copy_env =
  cp_fails :: "copy_step \<Rightarrow> string option"
  cp_cancelled :: "nat \<Rightarrow> string option"
  cp_read :: "nat \<Rightarrow> nat \<Rightarrow> bytes \<times> read_end"
  cp_write :: "nat \<Rightarrow> bytes \<Rightarrow> nat \<times> string option"
  cp_digest :: "bytes \<Rightarrow> string"

record transferFileOptions =
  tf_Resume :: bool
  tf_ExpectedSHA256 :: string

record transferResult =
  tr_BytesCopied :: int
  tr_BytesTotal :: int
  tr_ResumedFrom :: int
  tr_SHA256 :: string

text \<open>The state of the loop: the bytes of the partial file, how many were copied, and the progress reported.\<close>

type_synonym copy_state = "bytes \<times> nat \<times> nat list"

definition after_write :: "copy_env \<Rightarrow> nat \<Rightarrow> nat \<Rightarrow> bytes \<Rightarrow> copy_state \<Rightarrow> string option \<times> copy_state" where
  "after_write env offset n chunk st =
    (if chunk = [] then (None, st) else
     case st of (part, copied, progress) \<Rightarrow>
     case cp_write env n chunk of (nw, ew) \<Rightarrow>
     let st' = (part @ take nw chunk, copied + nw, if 0 < nw then progress @ [offset + copied + nw] else progress) in
     (case ew of Some e \<Rightarrow> Some e | None \<Rightarrow> if nw \<noteq> length chunk then Some ''short write'' else None, st'))"

partial_function (option) copy_loop :: "copy_env \<Rightarrow> nat \<Rightarrow> nat \<Rightarrow> copy_state \<Rightarrow> (string option \<times> copy_state) option" where
  "copy_loop env offset n st =
    (case cp_cancelled env n of
       Some e \<Rightarrow> Some (Some e, st)
     | None \<Rightarrow>
         (case after_write env offset n (fst (cp_read env offset n)) st of
            (Some e, st') \<Rightarrow> Some (Some e, st')
          | (None, st') \<Rightarrow>
              (case snd (cp_read env offset n) of
                 ReadEOF \<Rightarrow> Some (None, st')
               | ReadFailed e \<Rightarrow> Some (Some e, st')
               | ReadMore \<Rightarrow> copy_loop env offset (Suc n) st')))"

definition part_suffix :: string where "part_suffix = ''.part''"

text \<open>Where a resumed transfer goes on.\<close>

definition resume_offset :: "copy_env \<Rightarrow> bool \<Rightarrow> bytes option \<Rightarrow> int \<Rightarrow> nat" where
  "resume_offset env resume part sz =
    (if \<not> resume \<or> cp_fails env CopyStatPart \<noteq> None then 0
     else case part of None \<Rightarrow> 0 | Some b \<Rightarrow> if sz < int (length b) then 0 else length b)"

definition normalized_sum :: "string \<Rightarrow> string" where
  "normalized_sum v = TrimSpace (ToLower v)"

definition mismatch_text :: "string \<Rightarrow> string \<Rightarrow> string" where
  "mismatch_text got want = ''sha256 mismatch: got '' @ got @ '' want '' @ want"

definition left_partial :: "string \<Rightarrow> string" where
  "left_partial p = '' (left partial at '' @ p @ '')''"

definition the_part :: "nat \<Rightarrow> bytes option \<Rightarrow> bytes" where
  "the_part offset part = (if 0 < offset then (case part of Some b \<Rightarrow> b | None \<Rightarrow> []) else [])"

type_synonym copy_result = "(string + transferResult) \<times> files \<times> nat list"

definition finish_copy :: "copy_env \<Rightarrow> int \<Rightarrow> string \<Rightarrow> transferFileOptions \<Rightarrow> nat \<Rightarrow> string option \<times> copy_state \<Rightarrow> files \<Rightarrow> copy_result" where
  "finish_copy env sz dst opts offset r fs =
    (case r of (err, part, copied, progress) \<Rightarrow>
     let p = dst @ part_suffix; fs1 = fs(p := Some part); fail = (\<lambda>e. (Inl e, fs1, progress)); sum = cp_digest env part; want = normalized_sum (tf_ExpectedSHA256 opts) in
     case err of Some e \<Rightarrow> fail e | None \<Rightarrow>
     case cp_fails env CopyClose of Some e \<Rightarrow> fail e | None \<Rightarrow>
     case cp_fails env CopyHash of Some e \<Rightarrow> fail e | None \<Rightarrow>
     if want \<noteq> [] \<and> sum \<noteq> want
     then fail (mismatch_text sum want @ left_partial p)
     else case cp_fails env CopyRename of Some e \<Rightarrow> fail e | None \<Rightarrow>
     (Inr \<lparr>tr_BytesCopied = int copied, tr_BytesTotal = sz, tr_ResumedFrom = int offset, tr_SHA256 = sum\<rparr>, fs1(p := None, dst := Some part), progress))"

definition copySeekableToAtomicFile :: "copy_env \<Rightarrow> int \<Rightarrow> string \<Rightarrow> transferFileOptions \<Rightarrow> files \<Rightarrow> copy_result option" where
  "copySeekableToAtomicFile env sz dst opts fs =
    (let offset = resume_offset env (tf_Resume opts) (fs (dst @ part_suffix)) sz; fail = (\<lambda>e. Some (Inl e, fs, [])) in
     case cp_fails env CopyMkdir of Some e \<Rightarrow> fail e | None \<Rightarrow>
     case cp_fails env CopySeek of Some e \<Rightarrow> fail e | None \<Rightarrow>
     case cp_fails env CopyOpenPart of Some e \<Rightarrow> fail e | None \<Rightarrow>
     map_option (\<lambda>r. finish_copy env sz dst opts offset r fs)
       (copy_loop env offset 0 (the_part offset (fs (dst @ part_suffix)), 0, [])))"

text \<open>The remote file has the size that the server reports, whatever the reads give.\<close>

definition downloadRemoteFile :: "copy_env \<Rightarrow> int \<Rightarrow> string \<Rightarrow> string \<Rightarrow> transferFileOptions \<Rightarrow> files \<Rightarrow> copy_result option" where
  "downloadRemoteFile env sz remotePath localPath opts fs =
    (case cp_fails env CopyStat of Some e \<Rightarrow> Some (Inl (''stat remote file '' @ remotePath @ '': '' @ e), fs, []) | None \<Rightarrow>
     case cp_fails env CopyOpen of Some e \<Rightarrow> Some (Inl (''open remote file '' @ remotePath @ '': '' @ e), fs, []) | None \<Rightarrow>
     copySeekableToAtomicFile env sz localPath opts fs)"

text \<open>The replacement of the remote file: when the rename is refused, the old file is removed and the rename tried once more.\<close>

definition replace_remote :: "copy_env \<Rightarrow> string \<Rightarrow> bytes \<Rightarrow> files \<Rightarrow> string option \<times> files" where
  "replace_remote env remotePath part fs =
    (let p = remotePath @ part_suffix in
     case cp_fails env CopyRename of None \<Rightarrow> (None, fs(p := None, remotePath := Some part)) | Some e \<Rightarrow>
     let fs1 = (if cp_fails env CopyRemove = None then fs(remotePath := None) else fs) in
     (case cp_fails env CopyRename2 of None \<Rightarrow> (None, fs1(p := None, remotePath := Some part)) | Some _ \<Rightarrow> (Some e, fs1)))"

definition finish_upload :: "copy_env \<Rightarrow> bytes \<Rightarrow> string \<Rightarrow> nat \<Rightarrow> string option \<times> copy_state \<Rightarrow> files \<Rightarrow> copy_result" where
  "finish_upload env content remotePath offset r fs =
    (case r of (err, part, copied, progress) \<Rightarrow>
     let fs1 = fs(remotePath @ part_suffix := Some part) in
     case err of Some e \<Rightarrow> (Inl e, fs1, progress) | None \<Rightarrow>
     case cp_fails env CopyClose of Some e \<Rightarrow> (Inl e, fs1, progress) | None \<Rightarrow>
     (case replace_remote env remotePath part fs1 of
        (Some e, fs2) \<Rightarrow> (Inl e, fs2, progress)
      | (None, fs2) \<Rightarrow>
          (Inr \<lparr>tr_BytesCopied = int copied, tr_BytesTotal = int (length content), tr_ResumedFrom = int offset, tr_SHA256 = cp_digest env content\<rparr>,
           fs2, progress)))"

text \<open>The local file is hashed on its own, before its bytes are read again for the copy.\<close>

definition uploadLocalFile :: "copy_env \<Rightarrow> bytes \<Rightarrow> string \<Rightarrow> string \<Rightarrow> transferFileOptions \<Rightarrow> files \<Rightarrow> copy_result option" where
  "uploadLocalFile env content localPath remotePath opts fs =
    (let sum = cp_digest env content; want = normalized_sum (tf_ExpectedSHA256 opts); fail = (\<lambda>e. Some (Inl e, fs, []));
         offset = resume_offset env (tf_Resume opts) (fs (remotePath @ part_suffix)) (int (length content)) in
     case cp_fails env CopyOpen of Some e \<Rightarrow> fail (''open local file '' @ localPath @ '': '' @ e) | None \<Rightarrow>
     case cp_fails env CopyStat of Some e \<Rightarrow> fail e | None \<Rightarrow>
     case cp_fails env CopyHash of Some e \<Rightarrow> fail e | None \<Rightarrow>
     if want \<noteq> [] \<and> sum \<noteq> want then fail (mismatch_text sum want)
     else case cp_fails env CopySeek of Some e \<Rightarrow> fail e | None \<Rightarrow>
     case cp_fails env CopyOpenPart of Some e \<Rightarrow> fail e | None \<Rightarrow>
     map_option (\<lambda>r. finish_upload env content remotePath offset r fs)
       (copy_loop env offset 0 (the_part offset (fs (remotePath @ part_suffix)), 0, [])))"

section \<open>The loop\<close>

text \<open>A source that gives the bytes after the offset in some number of reads and then ends, and a target that takes what it is given.\<close>

definition reads_content :: "copy_env \<Rightarrow> bytes \<Rightarrow> bool" where
  "reads_content env content \<longleftrightarrow>
    (\<forall>offset \<le> length content. \<exists>chunks. chunks \<noteq> [] \<and> concat chunks = drop offset content \<and>
      (\<forall>n < length chunks. cp_read env offset n = (chunks ! n, if Suc n = length chunks then ReadEOF else ReadMore)))"

definition smooth :: "copy_env \<Rightarrow> bool" where
  "smooth env \<longleftrightarrow> cp_fails env = (\<lambda>_. None) \<and> cp_cancelled env = (\<lambda>_. None) \<and> (\<forall>n b. cp_write env n b = (length b, None))"

lemma after_write_smooth:
  assumes "smooth env"
  shows "after_write env offset n chunk (part, copied, progress) =
    (None, part @ chunk, copied + length chunk, if chunk = [] then progress else progress @ [offset + copied + length chunk])"
  using assms by (simp add: after_write_def smooth_def)

lemma copy_loop_chunks:
  assumes "smooth env" "n < length chunks"
    and "\<And>k. k < length chunks \<Longrightarrow> cp_read env offset k = (chunks ! k, if Suc k = length chunks then ReadEOF else ReadMore)"
    and "\<forall>x \<in> set progress. x \<le> offset + copied"
  shows "\<exists>progress'. copy_loop env offset n (part, copied, progress) =
      Some (None, part @ concat (drop n chunks), copied + length (concat (drop n chunks)), progress') \<and>
    (\<forall>x \<in> set progress'. x \<le> offset + copied + length (concat (drop n chunks)))"
  using assms(2,4)
proof (induction "length chunks - n" arbitrary: n part copied progress)
  case (Suc d)
  have c: "cp_cancelled env n = None" using assms(1) by (simp add: smooth_def)
  have dr: "drop n chunks = chunks ! n # drop (Suc n) chunks" using Suc(3) by (simp add: Cons_nth_drop_Suc)
  let ?pr = "if chunks ! n = [] then progress else progress @ [offset + copied + length (chunks ! n)]"
  have step: "copy_loop env offset n (part, copied, progress) =
    (if Suc n = length chunks then Some (None, part @ chunks ! n, copied + length (chunks ! n), ?pr)
     else copy_loop env offset (Suc n) (part @ chunks ! n, copied + length (chunks ! n), ?pr))"
    by (subst copy_loop.simps) (simp add: c assms(3)[OF Suc(3)] after_write_smooth[OF assms(1)])
  have pr: "\<forall>x \<in> set ?pr. x \<le> offset + (copied + length (chunks ! n))" using Suc(4) by auto
  show ?case
  proof (cases "Suc n = length chunks")
    case True
    then show ?thesis using pr by (auto simp: step dr add.assoc)
  next
    case False
    then show ?thesis using Suc(1)[of "Suc n" ?pr "copied + length (chunks ! n)" "part @ chunks ! n"] Suc(2,3) pr
      by (auto simp: step dr add.assoc)
  qed
qed simp

lemma copy_loop_copies:
  assumes "smooth env" "reads_content env content" "offset \<le> length content"
  shows "\<exists>progress. copy_loop env offset 0 (part, 0, []) =
      Some (None, part @ drop offset content, length content - offset, progress) \<and> (\<forall>x \<in> set progress. x \<le> length content)"
proof -
  obtain chunks where c: "chunks \<noteq> []" "concat chunks = drop offset content"
      "\<And>n. n < length chunks \<Longrightarrow> cp_read env offset n = (chunks ! n, if Suc n = length chunks then ReadEOF else ReadMore)"
    using assms(2,3) unfolding reads_content_def by blast
  have "0 < length chunks" using c(1) by simp
  from copy_loop_chunks[OF assms(1) this c(3), of "[]" 0 part] show ?thesis using assms(3) by (auto simp: c(2))
qed

text \<open>The loop returns as soon as some read ends the file or the context ends, whatever the reads and writes do before.\<close>

lemma copy_loop_returns:
  assumes "cp_cancelled env m \<noteq> None \<or> snd (cp_read env offset m) \<noteq> ReadMore" "n \<le> m"
  shows "copy_loop env offset n st \<noteq> None"
  using assms(2)
proof (induction "m - n" arbitrary: n st)
  case 0
  then show ?case using assms(1) by (subst copy_loop.simps) (auto split: option.splits prod.splits read_end.splits simp del: not_None_eq)
next
  case (Suc d)
  then show ?case
    by (subst copy_loop.simps) (auto split: option.splits prod.splits read_end.splits simp del: not_None_eq)
qed

section \<open>What a copy leaves\<close>

lemma part_differs [simp]: "part_suffix \<noteq> []" by (simp_all add: part_suffix_def)

lemma finish_copy_result:
  assumes "finish_copy env sz dst opts offset r fs = (out, fs', progress)"
  shows "(\<forall>other. other \<noteq> dst \<and> other \<noteq> dst @ part_suffix \<longrightarrow> fs' other = fs other) \<and>
    (case out of Inl e \<Rightarrow> fs' dst = fs dst
     | Inr res \<Rightarrow> (\<exists>b. fs' dst = Some b \<and> fs' (dst @ part_suffix) = None \<and> tr_SHA256 res = cp_digest env b \<and>
         (normalized_sum (tf_ExpectedSHA256 opts) \<noteq> [] \<longrightarrow> cp_digest env b = normalized_sum (tf_ExpectedSHA256 opts))))"
proof -
  obtain err part copied pr where r: "r = (err, part, copied, pr)" by (metis prod.exhaust)
  show ?thesis using assms unfolding finish_copy_def r Let_def
    by (auto split: option.splits if_splits)
qed

lemma copy_result:
  assumes "copySeekableToAtomicFile env sz dst opts fs = Some (out, fs', progress)"
  shows "(\<forall>other. other \<noteq> dst \<and> other \<noteq> dst @ part_suffix \<longrightarrow> fs' other = fs other) \<and>
    (case out of Inl e \<Rightarrow> fs' dst = fs dst
     | Inr res \<Rightarrow> (\<exists>b. fs' dst = Some b \<and> fs' (dst @ part_suffix) = None \<and> tr_SHA256 res = cp_digest env b \<and>
         (normalized_sum (tf_ExpectedSHA256 opts) \<noteq> [] \<longrightarrow> cp_digest env b = normalized_sum (tf_ExpectedSHA256 opts))))"
proof -
  let ?o = "resume_offset env (tf_Resume opts) (fs (dst @ part_suffix)) sz"
  consider e where "out = Inl e" "fs' = fs"
    | r where "finish_copy env sz dst opts ?o r fs = (out, fs', progress)"
    using assms unfolding copySeekableToAtomicFile_def Let_def by (auto split: option.splits)
  then show ?thesis by cases (use finish_copy_result in auto)
qed

lemma finish_copy_ok:
  assumes "smooth env"
  shows "finish_copy env sz dst opts offset (None, part, copied, progress) fs =
    (if normalized_sum (tf_ExpectedSHA256 opts) \<noteq> [] \<and> cp_digest env part \<noteq> normalized_sum (tf_ExpectedSHA256 opts)
     then (Inl (mismatch_text (cp_digest env part) (normalized_sum (tf_ExpectedSHA256 opts)) @ left_partial (dst @ part_suffix)),
           fs(dst @ part_suffix := Some part), progress)
     else (Inr \<lparr>tr_BytesCopied = int copied, tr_BytesTotal = sz, tr_ResumedFrom = int offset, tr_SHA256 = cp_digest env part\<rparr>,
           fs(dst @ part_suffix := None, dst := Some part), progress))"
  using assms by (simp add: finish_copy_def smooth_def Let_def)

text \<open>The bytes that a transfer of a file over the found partial file puts together.\<close>

definition joined :: "bool \<Rightarrow> bytes option \<Rightarrow> bytes \<Rightarrow> bytes" where
  "joined resume part content =
    (case part of Some q \<Rightarrow> if resume \<and> length q \<le> length content then q @ drop (length q) content else content | None \<Rightarrow> content)"

lemma joined_offset:
  assumes "smooth env" and o': "o' = resume_offset env resume part (int (length content))"
  shows "o' \<le> length content" "the_part o' part @ drop o' content = joined resume part content"
  using assms(1) unfolding o' by (auto simp: smooth_def resume_offset_def the_part_def joined_def split: option.splits)

lemma copy_smooth:
  assumes "smooth env" "reads_content env content"
  shows "\<exists>progress. (\<forall>x \<in> set progress. x \<le> length content) \<and>
    copySeekableToAtomicFile env (int (length content)) dst opts fs =
      (let o' = resume_offset env (tf_Resume opts) (fs (dst @ part_suffix)) (int (length content)) in
       Some (finish_copy env (int (length content)) dst opts o'
         (None, joined (tf_Resume opts) (fs (dst @ part_suffix)) content, length content - o', progress) fs))"
proof -
  let ?o = "resume_offset env (tf_Resume opts) (fs (dst @ part_suffix)) (int (length content))"
  note o = joined_offset[OF assms(1) refl, of "tf_Resume opts" "fs (dst @ part_suffix)" content]
  from copy_loop_copies[OF assms o(1), of "the_part ?o (fs (dst @ part_suffix))"] obtain progress where
    "copy_loop env ?o 0 (the_part ?o (fs (dst @ part_suffix)), 0, []) =
      Some (None, joined (tf_Resume opts) (fs (dst @ part_suffix)) content, length content - ?o, progress)" "\<forall>x \<in> set progress. x \<le> length content"
    unfolding o(2) by blast
  then show ?thesis using assms(1) by (auto simp: copySeekableToAtomicFile_def Let_def smooth_def)
qed

section \<open>The tools\<close>

record transfer_env =
  te_exec :: exec_env
  te_home :: "string + string" \<comment> \<open>\<open>os.UserHomeDir\<close>\<close>
  te_stat :: "string \<Rightarrow> string option" \<comment> \<open>the error of \<open>os.Stat\<close>\<close>
  te_sftp :: "string option" \<comment> \<open>the error of opening the SFTP session\<close>
  te_copy :: copy_env
  te_size :: int \<comment> \<open>the size that the server reports of the remote file\<close>

text \<open>A leading tilde is the home directory, also that of another user.\<close>

definition expandLocalHome :: "string + string \<Rightarrow> string \<Rightarrow> string + string" where
  "expandLocalHome home p =
    (if \<not> HasPrefix p ''~'' then Inr p
     else case home of Inl e \<Rightarrow> Inl (''expand path '' @ quoted p @ '': '' @ e) | Inr h \<Rightarrow> Inr (path_Join h (tl p)))"

definition transfer_audit :: "string \<Rightarrow> string \<Rightarrow> string \<Rightarrow> string \<Rightarrow> tool_event" where
  "transfer_audit tool alias reason result = Audited \<lparr>en_Time = [], en_Tool = tool, en_Alias = alias, en_Reason = reason, en_Result = result\<rparr>"

definition transfer_options :: "json_args \<Rightarrow> transferFileOptions" where
  "transfer_options args = \<lparr>tf_Resume = boolArg args ''resume'', tf_ExpectedSHA256 = strArg args ''sha256''\<rparr>"

text \<open>The reply and the audit record of one transfer.\<close>

definition transfer_reply :: "string \<Rightarrow> string \<Rightarrow> string \<Rightarrow> string \<Rightarrow> string + transferResult \<Rightarrow> json \<times> tool_event list" where
  "transfer_reply tool alias reason path r =
    (let upload = (tool = ''upload'') in
     case r of Inl e \<Rightarrow> (errResult ''sftp'' (MaskSecrets e), [])
     | Inr res \<Rightarrow>
       (JObj [(''alias'', JStr alias), (if upload then ''uploaded'' else ''downloaded'', JBool True),
              (if upload then ''remote_path'' else ''local_path'', JStr path), (''bytes'', json_int (tr_BytesCopied res)),
              (''bytes_total'', json_int (tr_BytesTotal res)), (''resumed_from'', json_int (tr_ResumedFrom res)), (''sha256'', JStr (tr_SHA256 res))],
        [transfer_audit tool alias reason ((if upload then ''uploaded '' else ''downloaded '') @ Itoa (tr_BytesCopied res) @ '' bytes to '' @ path)]))"

text \<open>From the configuration to an open SFTP session.\<close>

definition open_session :: "transfer_env \<Rightarrow> string \<Rightarrow> json option \<times> tool_event list" where
  "open_session env alias =
    (let x = te_exec env in
     case xe_config x of Inl e \<Rightarrow> (Some (errResult ''config'' e), []) | Inr cfg \<Rightarrow>
     case gm_lookup (cf_Servers cfg) alias of None \<Rightarrow> (Some (errResult ''not_found'' (''unknown server '' @ quoted alias)), []) | Some s \<Rightarrow>
     (case Dial (xe_ssh x) s (sshOptions x (zero_opts\<lparr>bo_ConfigPath := xe_path x, bo_Alias := alias\<rparr>)) of
        (Inl e, ev) \<Rightarrow> (Some (errResult ''ssh'' (MaskSecrets (xe_dial_text x e))), map Net ev)
      | (Inr _, ev) \<Rightarrow>
          ((case te_sftp env of Some e \<Rightarrow> Some (errResult ''sftp'' (MaskSecrets e)) | None \<Rightarrow> None), map Net ev)))"

text \<open>The reply, what was done, the files of the device and of the server afterwards, and the reported progress.\<close>

type_synonym transfer_outcome = "json \<times> tool_event list \<times> files \<times> files \<times> nat list"

definition missing_argument :: "json_args \<Rightarrow> string list \<Rightarrow> json option" where
  "missing_argument args keys =
    (case requireReason args of
       None \<Rightarrow> Some (errResult ''bad_request'' (''a non-empty '' @ quoted ''reason'' @ '' argument is required for write operations''))
     | Some _ \<Rightarrow>
         (case filter (\<lambda>k. strArg args k = []) keys of [] \<Rightarrow> None | k # _ \<Rightarrow> Some (errResult ''bad_request'' (k @ '' is required''))))"

definition handleUploadCtx :: "transfer_env \<Rightarrow> json_args \<Rightarrow> files \<Rightarrow> files \<Rightarrow> transfer_outcome option" where
  "handleUploadCtx env args lfs rfs =
    (let stop = (\<lambda>j ev. Some (j, ev, lfs, rfs, [])); alias = strArg args ''alias''; remotePath = strArg args ''remote_path'' in
     case missing_argument args [''alias'', ''local_path'', ''remote_path''] of Some j \<Rightarrow> stop j [] | None \<Rightarrow>
     case expandLocalHome (te_home env) (strArg args ''local_path'') of Inl e \<Rightarrow> stop (errResult ''path'' e) [] | Inr expanded \<Rightarrow>
     case te_stat env expanded of
       Some e \<Rightarrow> stop (errResult ''bad_request'' (''open local file '' @ expanded @ '': '' @ e)) []
     | None \<Rightarrow>
     case open_session env alias of (Some j, ev) \<Rightarrow> stop j ev | (None, ev) \<Rightarrow>
     map_option (\<lambda>(r, rfs', progress).
         case transfer_reply ''upload'' alias (strArg args ''reason'') remotePath r of (j, ev') \<Rightarrow> (j, ev @ ev', lfs, rfs', progress))
       (uploadLocalFile (te_copy env) (case lfs expanded of Some b \<Rightarrow> b | None \<Rightarrow> []) expanded remotePath (transfer_options args) rfs))"

definition handleDownloadCtx :: "transfer_env \<Rightarrow> json_args \<Rightarrow> files \<Rightarrow> files \<Rightarrow> transfer_outcome option" where
  "handleDownloadCtx env args lfs rfs =
    (let stop = (\<lambda>j ev. Some (j, ev, lfs, rfs, [])); alias = strArg args ''alias'' in
     case missing_argument args [''alias'', ''remote_path'', ''local_path''] of Some j \<Rightarrow> stop j [] | None \<Rightarrow>
     case expandLocalHome (te_home env) (strArg args ''local_path'') of Inl e \<Rightarrow> stop (errResult ''path'' e) [] | Inr expanded \<Rightarrow>
     case open_session env alias of (Some j, ev) \<Rightarrow> stop j ev | (None, ev) \<Rightarrow>
     map_option (\<lambda>(r, lfs', progress).
         case transfer_reply ''download'' alias (strArg args ''reason'') expanded r of (j, ev') \<Rightarrow> (j, ev @ ev', lfs', rfs, progress))
       (downloadRemoteFile (te_copy env) (te_size env) (strArg args ''remote_path'') expanded (transfer_options args) lfs))"

section \<open>Background transfers\<close>

record transferJob =
  tj_ID :: string
  tj_Kind :: string
  tj_Alias :: string
  tj_RemotePath :: string
  tj_LocalPath :: string
  tj_Status :: string
  tj_Error :: string
  tj_BytesDone :: int
  tj_BytesTotal :: int
  tj_ResumedFrom :: int
  tj_SHA256 :: string
  tj_StartedAt :: string
  tj_FinishedAt :: string

record transferManager =
  tm_next :: nat
  tm_jobs :: "(string, transferJob) gomap"

definition newTransferManager :: transferManager where
  "newTransferManager = \<lparr>tm_next = 0, tm_jobs = gm_empty\<rparr>"

definition transfer_id :: "int \<Rightarrow> nat \<Rightarrow> string" where
  "transfer_id nanos n = ''tx-'' @ Itoa nanos @ ''-'' @ Itoa (int n)"

text \<open>The clock is read twice: its nanoseconds, and as text.\<close>

definition start_transfer :: "int \<Rightarrow> string \<Rightarrow> string \<Rightarrow> string \<Rightarrow> string \<Rightarrow> string \<Rightarrow> transferManager \<Rightarrow> string \<times> transferManager" where
  "start_transfer nanos stamp kind alias remotePath localPath m =
    (let n = Suc (tm_next m); i = transfer_id nanos n in
     (i, m\<lparr>tm_next := n, tm_jobs := gm_update i
        \<lparr>tj_ID = i, tj_Kind = kind, tj_Alias = alias, tj_RemotePath = remotePath, tj_LocalPath = localPath, tj_Status = ''running'',
         tj_Error = [], tj_BytesDone = 0, tj_BytesTotal = 0, tj_ResumedFrom = 0, tj_SHA256 = [], tj_StartedAt = stamp, tj_FinishedAt = []\<rparr> (tm_jobs m)\<rparr>))"

definition update_transfer :: "string \<Rightarrow> (transferJob \<Rightarrow> transferJob) \<Rightarrow> transferManager \<Rightarrow> transferManager" where
  "update_transfer i f m = (case gm_lookup (tm_jobs m) i of None \<Rightarrow> m | Some job \<Rightarrow> m\<lparr>tm_jobs := gm_update i (f job) (tm_jobs m)\<rparr>)"

definition report_progress :: "int \<Rightarrow> int \<Rightarrow> transferJob \<Rightarrow> transferJob" where
  "report_progress copied whole job = job\<lparr>tj_BytesDone := copied, tj_BytesTotal := whole\<rparr>"

definition settle_job :: "string \<Rightarrow> string + transferResult \<Rightarrow> transferJob \<Rightarrow> transferJob" where
  "settle_job stamp r job =
    (case r of
       Inl e \<Rightarrow> job\<lparr>tj_FinishedAt := stamp, tj_Status := ''failed'', tj_Error := e\<rparr>
     | Inr res \<Rightarrow> job\<lparr>tj_FinishedAt := stamp, tj_Status := ''completed'', tj_BytesDone := tr_BytesTotal res, tj_BytesTotal := tr_BytesTotal res,
         tj_ResumedFrom := tr_ResumedFrom res, tj_SHA256 := tr_SHA256 res\<rparr>)"

definition finish_transfer :: "string \<Rightarrow> string \<Rightarrow> string + transferResult \<Rightarrow> transferManager \<Rightarrow> transferManager" where
  "finish_transfer stamp i r m = update_transfer i (settle_job stamp r) m"

definition snapshot_transfer :: "string \<Rightarrow> transferManager \<Rightarrow> transferJob option" where
  "snapshot_transfer i m = gm_lookup (tm_jobs m) i"

text \<open>\<open>fmt\<close> of the map with the kind and the message of an error.\<close>

definition error_map_text :: "json \<Rightarrow> string" where
  "error_map_text e =
    (case e of JObj ms \<Rightarrow> ''map[kind:'' @ strArg ms ''kind'' @ '' message:'' @ strArg ms ''message'' @ '']'' | _ \<Rightarrow> [])"

definition int_member :: "json_args \<Rightarrow> string \<Rightarrow> int" where
  "int_member ms key = (case map_of ms key of Some (JNum r) \<Rightarrow> floor r | _ \<Rightarrow> 0)"

text \<open>What the goroutine of a transfer reports, from the reply of the tool it ran.\<close>

definition background_result :: "json \<Rightarrow> string + transferResult" where
  "background_result out =
    (let none = \<lparr>tr_BytesCopied = 0, tr_BytesTotal = 0, tr_ResumedFrom = 0, tr_SHA256 = []\<rparr> in
     case out of
       JObj ms \<Rightarrow>
         (case map_of ms ''error'' of
            Some e \<Rightarrow> Inl (error_map_text e)
          | None \<Rightarrow> Inr \<lparr>tr_BytesCopied = int_member ms ''bytes'', tr_BytesTotal = int_member ms ''bytes_total'',
                          tr_ResumedFrom = int_member ms ''resumed_from'', tr_SHA256 = strArg ms ''sha256''\<rparr>)
     | _ \<Rightarrow> Inr none)"

definition unless_empty :: "string \<Rightarrow> string \<Rightarrow> json_args" where
  "unless_empty key v = (if v = [] then [] else [(key, JStr v)])"

definition job_json :: "transferJob \<Rightarrow> json" where
  "job_json j = JObj ([(''id'', JStr (tj_ID j)), (''kind'', JStr (tj_Kind j)), (''alias'', JStr (tj_Alias j))] @
     unless_empty ''remote_path'' (tj_RemotePath j) @ unless_empty ''local_path'' (tj_LocalPath j) @ [(''status'', JStr (tj_Status j))] @
     unless_empty ''error'' (tj_Error j) @ [(''bytes_done'', json_int (tj_BytesDone j)), (''bytes_total'', json_int (tj_BytesTotal j))] @
     (if tj_ResumedFrom j = 0 then [] else [(''resumed_from'', json_int (tj_ResumedFrom j))]) @
     unless_empty ''sha256'' (tj_SHA256 j) @ [(''started_at'', JStr (tj_StartedAt j))] @ unless_empty ''finished_at'' (tj_FinishedAt j))"

definition transfer_kind :: "json_args \<Rightarrow> string" where
  "transfer_kind args =
    (let k = ToLower (TrimSpace (strArg args ''direction'')) in if k = [] then ToLower (TrimSpace (strArg args ''kind'')) else k)"

text \<open>The reply is a snapshot taken after the goroutine was started; \<open>later\<close> is what it and others did by then.\<close>

definition handleTransferStart ::
  "int \<Rightarrow> string \<Rightarrow> (transferManager \<Rightarrow> transferManager) \<Rightarrow> json_args \<Rightarrow> transferManager \<Rightarrow> json \<times> tool_event list \<times> string option \<times> transferManager" where
  "handleTransferStart nanos stamp later args m =
    (let kind = transfer_kind args; alias = strArg args ''alias''; remotePath = strArg args ''remote_path''; localPath = strArg args ''local_path'' in
     case missing_argument args [] of Some j \<Rightarrow> (j, [], None, m) | None \<Rightarrow>
     if kind \<noteq> ''download'' \<and> kind \<noteq> ''upload'' then (errResult ''bad_request'' ''direction must be download or upload'', [], None, m)
     else if alias = [] \<or> remotePath = [] \<or> localPath = []
     then (errResult ''bad_request'' ''alias, remote_path, and local_path are required'', [], None, m)
     else (case start_transfer nanos stamp kind alias remotePath localPath m of
       (i, m1) \<Rightarrow>
         ((case snapshot_transfer i (later m1) of Some j \<Rightarrow> job_json j | None \<Rightarrow> JNull),
          [transfer_audit ''transfer_start'' alias (strArg args ''reason'') (''started '' @ kind @ '' transfer '' @ i)], Some i, later m1)))"

definition handleTransferStatus :: "json_args \<Rightarrow> transferManager \<Rightarrow> json" where
  "handleTransferStatus args m =
    (let i = (if strArg args ''transfer_id'' \<noteq> [] then strArg args ''transfer_id'' else strArg args ''id'') in
     if i = [] then errResult ''bad_request'' ''transfer_id is required''
     else case snapshot_transfer i m of None \<Rightarrow> errResult ''not_found'' (''unknown transfer '' @ quoted i) | Some j \<Rightarrow> job_json j)"

text \<open>The transfers of a process: a goroutine reports its progress any number of times and then settles its job, once.\<close>

record transfers =
  tx_manager :: transferManager
  tx_active :: "string list"

inductive transfer_step :: "transfers \<Rightarrow> transfers \<Rightarrow> bool" where
  start: "start_transfer nanos stamp kind alias remotePath localPath (tx_manager st) = (i, m) \<Longrightarrow>
    transfer_step st \<lparr>tx_manager = m, tx_active = i # tx_active st\<rparr>"
| progress: "i \<in> set (tx_active st) \<Longrightarrow>
    transfer_step st (st\<lparr>tx_manager := update_transfer i (report_progress copied whole) (tx_manager st)\<rparr>)"
| settle: "i \<in> set (tx_active st) \<Longrightarrow>
    transfer_step st \<lparr>tx_manager = finish_transfer stamp i r (tx_manager st), tx_active = remove1 i (tx_active st)\<rparr>"

inductive_cases transfer_stepE: "transfer_step st st'"

definition no_transfers :: transfers where
  "no_transfers = \<lparr>tx_manager = newTransferManager, tx_active = []\<rparr>"

section \<open>Transfers settle once\<close>

text \<open>A job that runs has neither an end nor an error; a settled one has failed, or was completed with all its bytes.\<close>

definition job_running :: "transferJob \<Rightarrow> bool" where
  "job_running j \<longleftrightarrow> tj_Status j = ''running'' \<and> tj_Error j = [] \<and> tj_FinishedAt j = [] \<and> tj_SHA256 j = []"

definition job_settled :: "transferJob \<Rightarrow> bool" where
  "job_settled j \<longleftrightarrow> tj_Status j = ''failed'' \<or> tj_Status j = ''completed'' \<and> tj_Error j = [] \<and> tj_BytesDone j = tj_BytesTotal j"

definition transfers_inv :: "transfers \<Rightarrow> bool" where
  "transfers_inv st \<longleftrightarrow> distinct (tx_active st) \<and>
    (\<forall>i \<in> set (tx_active st). gm_lookup (tm_jobs (tx_manager st)) i \<noteq> None) \<and>
    (\<forall>i j. gm_lookup (tm_jobs (tx_manager st)) i = Some j \<longrightarrow> tj_ID j = i \<and>
       (\<exists>nanos n. i = transfer_id nanos n \<and> n \<le> tm_next (tx_manager st)) \<and>
       (if i \<in> set (tx_active st) then job_running j else job_settled j))"

lemma transfer_id_inject: "transfer_id a m = transfer_id b n \<Longrightarrow> m = n"
proof -
  have minus: "\<not> is_digit (CHR ''-'')" by code_simp
  have d: "\<forall>c \<in> set (Itoa (int k)). c \<noteq> CHR ''-''" for k using Itoa_digits[of "int k" "CHR ''-''"] minus by auto
  have tail: "takeWhile (\<lambda>c. c \<noteq> CHR ''-'') (rev (transfer_id x k)) = rev (Itoa (int k))" for x k
    using d[of k] by (simp add: transfer_id_def takeWhile_append)
  assume "transfer_id a m = transfer_id b n"
  then have "rev (Itoa (int m)) = rev (Itoa (int n))" using tail by metis
  then have "digits_of m = digits_of n" by (simp add: Itoa_def)
  then show "m = n" by (metis decimal_digits_of)
qed

lemma lookup_update_transfer:
  "gm_lookup (tm_jobs (update_transfer i f m)) k = (if k = i then map_option f (gm_lookup (tm_jobs m) i) else gm_lookup (tm_jobs m) k)"
  by (auto simp: update_transfer_def gm.lookup_update split: option.split)

lemma update_transfer_frame [frames]: "tm_next (update_transfer i f m) = tm_next m"
  by (simp add: update_transfer_def split: option.split)

lemma transfer_fresh:
  assumes "transfers_inv st"
  shows "gm_lookup (tm_jobs (tx_manager st)) (transfer_id nanos (Suc (tm_next (tx_manager st)))) = None"
proof (rule ccontr)
  assume "gm_lookup (tm_jobs (tx_manager st)) (transfer_id nanos (Suc (tm_next (tx_manager st)))) \<noteq> None"
  then obtain a n where "transfer_id nanos (Suc (tm_next (tx_manager st))) = transfer_id a n" "n \<le> tm_next (tx_manager st)"
    using assms unfolding transfers_inv_def by blast
  then show False using transfer_id_inject by fastforce
qed

lemma transfers_inv_step:
  assumes inv: "transfers_inv st" and "transfer_step st st'"
  shows "transfers_inv st'"
  using assms(2)
proof cases
  case (start nanos stamp kind al remotePath localPath i m)
  let ?i = "transfer_id nanos (Suc (tm_next (tx_manager st)))"
  note fresh = transfer_fresh[OF inv, of nanos]
  have new: "?i \<notin> set (tx_active st)" using inv fresh unfolding transfers_inv_def by blast
  have old: "tj_ID j = k \<and> (\<exists>a n. k = transfer_id a n \<and> n \<le> tm_next (tx_manager st)) \<and> (if k \<in> set (tx_active st) then job_running j else job_settled j)"
    if "gm_lookup (tm_jobs (tx_manager st)) k = Some j" for k j using inv that unfolding transfers_inv_def by blast
  have m: "i = ?i" "tm_next m = Suc (tm_next (tx_manager st))"
    "\<And>k. gm_lookup (tm_jobs m) k = (if k = ?i then Some \<lparr>tj_ID = i, tj_Kind = kind, tj_Alias = al, tj_RemotePath = remotePath, tj_LocalPath = localPath,
       tj_Status = ''running'', tj_Error = [], tj_BytesDone = 0, tj_BytesTotal = 0, tj_ResumedFrom = 0, tj_SHA256 = [], tj_StartedAt = stamp, tj_FinishedAt = []\<rparr>
       else gm_lookup (tm_jobs (tx_manager st)) k)"
    using start(2) by (auto simp: start_transfer_def Let_def gm.lookup_update)
  show ?thesis
    unfolding transfers_inv_def start(1)
  proof (intro conjI allI impI ballI, goal_cases)
    case 1 then show ?case using inv new m(1) by (simp add: transfers_inv_def)
  next
    case (2 k) then show ?case using inv m(1) by (auto simp: transfers_inv_def m(3))
  next
    case (3 k j) then show ?case using old[of k j] m(1) by (auto simp: m(3) split: if_splits)
  next
    case (4 k j) then show ?case using old[of k j] m(1,2) by (fastforce simp: m(3) intro: le_SucI split: if_splits)
  next
    case (5 k j) then show ?case using old[of k j] new fresh m(1) by (auto simp: m(3) job_running_def split: if_splits)
  qed
next
  case (progress i copied whole)
  then show ?thesis using inv
    by (auto simp: transfers_inv_def lookup_update_transfer frames report_progress_def job_running_def split: if_splits)
next
  case (settle i stamp r)
  have d: "distinct (tx_active st)" using inv by (simp add: transfers_inv_def)
  have old: "tj_ID j = k \<and> (\<exists>a n. k = transfer_id a n \<and> n \<le> tm_next (tx_manager st)) \<and> (if k \<in> set (tx_active st) then job_running j else job_settled j)"
    if "gm_lookup (tm_jobs (tx_manager st)) k = Some j" for k j using inv that unfolding transfers_inv_def by blast
  have settles: "job_settled (settle_job stamp r j) \<and> tj_ID (settle_job stamp r j) = tj_ID j" if "job_running j" for j
    using that by (simp add: job_running_def job_settled_def settle_job_def split: sum.split)
  have jobs: "gm_lookup (tm_jobs (tx_manager st')) k = (if k = i then map_option (settle_job stamp r) (gm_lookup (tm_jobs (tx_manager st)) i)
      else gm_lookup (tm_jobs (tx_manager st)) k)" "tm_next (tx_manager st') = tm_next (tx_manager st)" for k
    by (simp_all add: settle(1) finish_transfer_def lookup_update_transfer frames)
  have act: "set (tx_active st') = set (tx_active st) - {i}" "distinct (tx_active st')" using d by (simp_all add: settle(1))
  show ?thesis
    unfolding transfers_inv_def jobs act(1)
  proof (intro conjI allI impI ballI, goal_cases)
    case 1 show ?case by (rule act(2))
  next
    case (2 k) then show ?case using inv by (auto simp: transfers_inv_def)
  next
    case (3 k j) then show ?case using old settles settle(2) by (auto split: if_splits)
  next
    case (4 k j) then show ?case using old by (auto split: if_splits)
  next
    case (5 k j) then show ?case using old settles settle(2) by (auto split: if_splits)
  qed
qed

lemma no_transfers_inv: "transfers_inv no_transfers"
  by (simp add: transfers_inv_def no_transfers_def newTransferManager_def)

interpretation tx: step_system "\<lambda>st. st = no_transfers" transfer_step transfers_inv
  by unfold_locales (simp_all add: no_transfers_inv transfers_inv_step)

lemma settled_stays:
  assumes inv: "transfers_inv st" and job: "gm_lookup (tm_jobs (tx_manager st)) i = Some j" "i \<notin> set (tx_active st)" and "transfer_step st st'"
  shows "gm_lookup (tm_jobs (tx_manager st')) i = Some j \<and> i \<notin> set (tx_active st')"
  using assms(4)
proof cases
  case (start nanos stamp kind al remotePath localPath k m)
  then show ?thesis using transfer_fresh[OF inv, of nanos] job
    by (auto simp: start_transfer_def Let_def gm.lookup_update)
next
  case (progress k copied whole)
  then show ?thesis using job by (auto simp: lookup_update_transfer)
next
  case (settle k stamp r)
  then show ?thesis using job by (auto simp: finish_transfer_def lookup_update_transfer dest: notin_set_remove1)
qed

section \<open>Smooth transfers\<close>

definition accepted_sum :: "copy_env \<Rightarrow> transferFileOptions \<Rightarrow> bytes \<Rightarrow> bool" where
  "accepted_sum env opts b \<longleftrightarrow> normalized_sum (tf_ExpectedSHA256 opts) = [] \<or> cp_digest env b = normalized_sum (tf_ExpectedSHA256 opts)"

text \<open>The bytes copied and the offset add up to the content.\<close>

lemma upload_smooth:
  assumes "smooth env" "reads_content env content" "accepted_sum env opts content"
  shows "\<exists>res progress. uploadLocalFile env content localPath remotePath opts fs = Some (Inr res,
      fs(remotePath @ part_suffix := None, remotePath := Some (joined (tf_Resume opts) (fs (remotePath @ part_suffix)) content)), progress) \<and>
    tr_SHA256 res = cp_digest env content \<and> tr_ResumedFrom res + tr_BytesCopied res = int (length content) \<and>
    (\<forall>x \<in> set progress. x \<le> length content)"
proof -
  let ?o = "resume_offset env (tf_Resume opts) (fs (remotePath @ part_suffix)) (int (length content))"
  note o = joined_offset[OF assms(1) refl, of "tf_Resume opts" "fs (remotePath @ part_suffix)" content]
  from copy_loop_copies[OF assms(1,2) o(1), of "the_part ?o (fs (remotePath @ part_suffix))"] obtain progress where
    l: "copy_loop env ?o 0 (the_part ?o (fs (remotePath @ part_suffix)), 0, []) =
      Some (None, joined (tf_Resume opts) (fs (remotePath @ part_suffix)) content, length content - ?o, progress)" "\<forall>x \<in> set progress. x \<le> length content"
    unfolding o(2) by blast
  then show ?thesis using assms(1,3) o(1)
    by (auto simp: uploadLocalFile_def Let_def smooth_def accepted_sum_def finish_upload_def replace_remote_def)
qed

lemma download_smooth:
  assumes "smooth env" "reads_content env content"
    and b_def: "b = joined (tf_Resume opts) (fs (localPath @ part_suffix)) content"
  shows "\<exists>progress. (\<forall>x \<in> set progress. x \<le> length content) \<and>
    (if accepted_sum env opts b
     then \<exists>res. downloadRemoteFile env (int (length content)) remotePath localPath opts fs =
         Some (Inr res, fs(localPath @ part_suffix := None, localPath := Some b), progress) \<and>
       tr_SHA256 res = cp_digest env b \<and> tr_ResumedFrom res + tr_BytesCopied res = int (length content)
     else \<exists>e. downloadRemoteFile env (int (length content)) remotePath localPath opts fs = Some (Inl e, fs(localPath @ part_suffix := Some b), progress))"
proof -
  have o: "resume_offset env (tf_Resume opts) (fs (localPath @ part_suffix)) (int (length content)) \<le> length content"
    by (rule joined_offset(1)[OF assms(1) refl])
  from copy_smooth[OF assms(1,2), of localPath opts fs] obtain progress where p: "\<forall>x \<in> set progress. x \<le> length content"
    "copySeekableToAtomicFile env (int (length content)) localPath opts fs =
      (let o' = resume_offset env (tf_Resume opts) (fs (localPath @ part_suffix)) (int (length content)) in
       Some (finish_copy env (int (length content)) localPath opts o' (None, b, length content - o', progress) fs))"
    unfolding b_def by blast
  have "downloadRemoteFile env (int (length content)) remotePath localPath opts fs = copySeekableToAtomicFile env (int (length content)) localPath opts fs"
    using assms(1) by (simp add: downloadRemoteFile_def smooth_def)
  then show ?thesis using p o unfolding Let_def finish_copy_ok[OF assms(1)] accepted_sum_def by (intro exI[of _ progress]) auto
qed

section \<open>Properties\<close>

text \<open>C6: a download replaces the local file as a whole or not at all, whatever the server and the disk do. No other file is touched
  but the partial one; a failed download leaves the file as it was and is not audited; a successful one leaves
  exactly the bytes whose checksum it reports, equal to the expected checksum where one was given, with the partial file gone and one audit record.\<close>

theorem download_replaces_atomically:
  assumes "handleDownloadCtx env args lfs rfs = Some (out, ev, lfs', rfs', progress)"
  shows "rfs' = rfs \<and>
    (lfs' = lfs \<and> audits ev = [] \<or>
     (\<exists>dst. expandLocalHome (te_home env) (strArg args ''local_path'') = Inr dst \<and>
        (\<forall>other. other \<noteq> dst \<and> other \<noteq> dst @ part_suffix \<longrightarrow> lfs' other = lfs other) \<and>
        (lfs' dst = lfs dst \<and> audits ev = [] \<or>
         (\<exists>b x. lfs' dst = Some b \<and> lfs' (dst @ part_suffix) = None \<and> accepted_sum (te_copy env) (transfer_options args) b \<and>
            audits ev = [transfer_audit ''download'' (strArg args ''alias'') (strArg args ''reason'') x] \<and>
            (\<exists>ms. out = JObj ms \<and> strArg ms ''sha256'' = cp_digest (te_copy env) b)))))"
proof -
  have quiet: "audits (snd (open_session env al)) = []" for al
    unfolding open_session_def Let_def by (simp split: sum.splits option.splits prod.splits)
  let ?reply = "transfer_reply ''download'' (strArg args ''alias'') (strArg args ''reason'')"
  let ?ev = "snd (open_session env (strArg args ''alias''))"
  have "lfs' = lfs \<and> rfs' = rfs \<and> audits ev = [] \<or>
    (\<exists>dst r pr. expandLocalHome (te_home env) (strArg args ''local_path'') = Inr dst \<and> rfs' = rfs \<and>
      downloadRemoteFile (te_copy env) (te_size env) (strArg args ''remote_path'') dst (transfer_options args) lfs = Some (r, lfs', pr) \<and>
      out = fst (?reply dst r) \<and> ev = ?ev @ snd (?reply dst r))"
    using assms unfolding handleDownloadCtx_def Let_def
    by (auto simp: case_prod_beta quiet split: option.splits sum.splits)
  then consider "lfs' = lfs" "rfs' = rfs" "audits ev = []"
    | dst ev' r pr where "expandLocalHome (te_home env) (strArg args ''local_path'') = Inr dst" "audits ev' = []" "rfs' = rfs"
      "downloadRemoteFile (te_copy env) (te_size env) (strArg args ''remote_path'') dst (transfer_options args) lfs = Some (r, lfs', pr)"
      "out = fst (?reply dst r)" "ev = ev' @ snd (?reply dst r)"
    using quiet by blast
  then show ?thesis
  proof cases
    case 2
    consider "lfs' = lfs" "\<exists>e. r = Inl e" | "copySeekableToAtomicFile (te_copy env) (te_size env) dst (transfer_options args) lfs = Some (r, lfs', pr)"
      using 2(4) unfolding downloadRemoteFile_def by (auto split: option.splits)
    then show ?thesis
    proof cases
      case 1
      then have "audits ev = []" using 2(2,6) by (auto simp: transfer_reply_def)
      then show ?thesis using 1 2(3) by blast
    next
      case copied: 2
      note c = copy_result[OF copied]
      show ?thesis
      proof (cases r)
        case (Inl e)
        then have "audits ev = []" using 2(2,6) by (simp add: transfer_reply_def)
        then show ?thesis using Inl c 2(1,3) by auto
      next
        case (Inr res)
        then obtain b where b: "lfs' dst = Some b" "lfs' (dst @ part_suffix) = None" "tr_SHA256 res = cp_digest (te_copy env) b"
            "accepted_sum (te_copy env) (transfer_options args) b" using c by (auto simp: accepted_sum_def)
        have "\<exists>x. audits ev = [transfer_audit ''download'' (strArg args ''alias'') (strArg args ''reason'') x]"
          using Inr 2(2,6) by (auto simp: transfer_reply_def Let_def transfer_audit_def)
        moreover have "\<exists>ms. out = JObj ms \<and> strArg ms ''sha256'' = cp_digest (te_copy env) b"
          using Inr 2(5) b(3) by (simp add: transfer_reply_def Let_def strArg_def)
        ultimately show ?thesis using c b 2(1,3) by blast
      qed
    qed
  qed simp
qed

text \<open>When nothing fails and no partial file of another version is resumed, a transfer in either direction returns and
  leaves exactly the content of its source: the reported checksum is that of the content, the bytes copied and the resumed offset add up to
  its length, and the progress never exceeds it.\<close>

theorem smooth_transfers_copy:
  assumes "smooth env" "reads_content env content" "accepted_sum env opts content"
    and "tf_Resume opts \<longrightarrow> fs (dst @ part_suffix) = None \<or> (\<exists>k. fs (dst @ part_suffix) = Some (take k content))"
  shows "\<exists>up down p p'. uploadLocalFile env content path dst opts fs = Some (Inr up, fs(dst @ part_suffix := None, dst := Some content), p) \<and>
    downloadRemoteFile env (int (length content)) path dst opts fs = Some (Inr down, fs(dst @ part_suffix := None, dst := Some content), p') \<and>
    tr_SHA256 up = cp_digest env content \<and> tr_SHA256 down = cp_digest env content \<and>
    tr_ResumedFrom up + tr_BytesCopied up = int (length content) \<and> tr_ResumedFrom down + tr_BytesCopied down = int (length content) \<and>
    (\<forall>x \<in> set p \<union> set p'. x \<le> length content)"
proof -
  have j: "joined (tf_Resume opts) (fs (dst @ part_suffix)) content = content"
    using assms(4) by (auto simp: joined_def min_def split: option.split)
  show ?thesis
    using upload_smooth[OF assms(1-3), of path dst fs] download_smooth[OF assms(1,2) refl, of opts fs dst path] assms(3)
    unfolding j by auto
qed

text \<open>A resumed upload never looks at the bytes that are already there. With a partial file of another version on the server it
  reports success and the checksum of the local file, and passes the check of the expected one, while the remote
  file is what was there followed by the rest of the local file: the two agree only when the partial file was a prefix.\<close>

theorem resumed_upload_is_unverified:
  assumes "smooth env" "reads_content env content" "accepted_sum env opts content" "tf_Resume opts"
    and "fs (dst @ part_suffix) = Some q" "length q \<le> length content"
  shows "\<exists>res fs' p. uploadLocalFile env content path dst opts fs = Some (Inr res, fs', p) \<and> tr_SHA256 res = cp_digest env content \<and>
    fs' dst = Some (q @ drop (length q) content) \<and> (fs' dst = Some content \<longleftrightarrow> q = take (length q) content)"
proof -
  have j: "joined (tf_Resume opts) (fs (dst @ part_suffix)) content = q @ drop (length q) content" using assms(4-6) by (simp add: joined_def)
  have "q @ drop (length q) content = content \<longleftrightarrow> q = take (length q) content"
    by (metis append_same_eq append_take_drop_id)
  then show ?thesis using upload_smooth[OF assms(1-3), of path dst fs] unfolding j by auto
qed

text \<open>Once the partial file of a download does not match the expected checksum, no resumed download succeeds any more: it
  keeps the partial file, which has the full size, reads nothing further and fails with the same checksum again.\<close>

theorem resumed_download_never_recovers:
  assumes "smooth env" "reads_content env content" "tf_Resume opts" "fs (dst @ part_suffix) = Some q" "length q \<le> length content"
    and "\<not> accepted_sum env opts (q @ drop (length q) content)"
  shows "\<exists>e fs' p. downloadRemoteFile env (int (length content)) path dst opts fs = Some (Inl e, fs', p) \<and> fs' dst = fs dst \<and>
    (\<exists>e' p'. downloadRemoteFile env (int (length content)) path dst opts fs' = Some (Inl e', fs', p'))"
proof -
  let ?b = "q @ drop (length q) content"
  let ?fs = "fs(dst @ part_suffix := Some ?b)"
  have j: "joined (tf_Resume opts) (fs (dst @ part_suffix)) content = ?b" using assms(3-5) by (simp add: joined_def)
  have j': "joined (tf_Resume opts) (?fs (dst @ part_suffix)) content = ?b" using assms(3,5) by (simp add: joined_def)
  obtain e p where 1: "downloadRemoteFile env (int (length content)) path dst opts fs = Some (Inl e, ?fs, p)"
    using download_smooth[OF assms(1,2) refl, of opts fs dst path] assms(6) unfolding j by auto
  obtain e' p' where 2: "downloadRemoteFile env (int (length content)) path dst opts ?fs = Some (Inl e', ?fs, p')"
    using download_smooth[OF assms(1,2) refl, of opts ?fs dst path] assms(6) unfolding j' by auto
  show ?thesis using 1 2 by (intro exI[of _ e] exI[of _ ?fs] exI[of _ p]) simp
qed

text \<open>C36: whatever transfers are started and however their goroutines interleave, a transfer settles once. Its
  identifier is never given to another, a job that no longer runs has failed or was completed with all its bytes, and it stays exactly as it is.\<close>

theorem transfers_settle_once:
  assumes "transfer_step\<^sup>*\<^sup>* no_transfers st" "transfer_step\<^sup>*\<^sup>* st st'"
    and "gm_lookup (tm_jobs (tx_manager st)) i = Some j" "tj_Status j \<noteq> ''running''"
  shows "gm_lookup (tm_jobs (tx_manager st')) i = Some j \<and> tj_ID j = i \<and> job_settled j"
proof -
  have inv: "transfers_inv st" by (rule tx.reachable_inv[OF refl assms(1)])
  then have j: "tj_ID j = i" "if i \<in> set (tx_active st) then job_running j else job_settled j"
    using assms(3) unfolding transfers_inv_def by blast+
  then have "i \<notin> set (tx_active st)" using assms(4) by (auto simp: job_running_def)
  moreover have "gm_lookup (tm_jobs (tx_manager st')) i = Some j \<and> i \<notin> set (tx_active st')"
    using tx.stable_later[where P = "\<lambda>st. gm_lookup (tm_jobs (tx_manager st)) i = Some j \<and> i \<notin> set (tx_active st)", OF _ refl assms(1) _ assms(2)]
      settled_stays assms(3) calculation by blast
  ultimately show ?thesis using j by simp
qed

section \<open>Examples\<close>

definition demo_copy :: copy_env where
  "demo_copy = \<lparr>cp_fails = \<lambda>_. None, cp_cancelled = \<lambda>_. None, cp_read = \<lambda>o' n. (drop o' ''abcd'', ReadEOF), cp_write = \<lambda>n b. (length b, None),
     cp_digest = \<lambda>b. b\<rparr>"

lemma demo_copy_smooth: "smooth demo_copy" by (simp add: smooth_def demo_copy_def)

lemma demo_copy_reads: "reads_content demo_copy ''abcd''"
  unfolding reads_content_def
proof (intro allI impI)
  fix k :: nat
  show "\<exists>chunks. chunks \<noteq> [] \<and> concat chunks = drop k ''abcd'' \<and>
      (\<forall>n < length chunks. cp_read demo_copy k n = (chunks ! n, if Suc n = length chunks then ReadEOF else ReadMore))"
    by (rule exI[of _ "[drop k ''abcd'']"]) (simp add: demo_copy_def)
qed

definition resume_opts :: transferFileOptions where "resume_opts = \<lparr>tf_Resume = True, tf_ExpectedSHA256 = ''abcd''\<rparr>"

lemma demo_sum: "normalized_sum ''abcd'' = ''abcd''" by code_simp

lemma demo_accepted: "accepted_sum demo_copy resume_opts ''abcd''" "\<not> accepted_sum demo_copy resume_opts ''xbcd''"
  by (simp_all add: accepted_sum_def resume_opts_def demo_copy_def demo_sum)

theorem smooth_transfers_copy_witness:
  "\<exists>up p. uploadLocalFile demo_copy ''abcd'' ''l'' ''r'' resume_opts (\<lambda>x. if x = ''r.part'' then Some ''ab'' else None) =
     Some (Inr up, (\<lambda>x. if x = ''r.part'' then Some ''ab'' else None)(''r.part'' := None, ''r'' := Some ''abcd''), p)"
proof -
  let ?fs = "\<lambda>x. if x = ''r.part'' then Some ''ab'' else None :: bytes option"
  have "\<exists>k. ''ab'' = take k ''abcd''" by (rule exI[of _ 2]) simp
  then have "tf_Resume resume_opts \<longrightarrow> ?fs (''r'' @ part_suffix) = None \<or> (\<exists>k. ?fs (''r'' @ part_suffix) = Some (take k ''abcd''))"
    by (auto simp: part_suffix_def)
  then show ?thesis using smooth_transfers_copy[OF demo_copy_smooth demo_copy_reads demo_accepted(1), of ?fs "''r''" "''l''"]
    by (auto simp: part_suffix_def)
qed

theorem resumed_upload_is_unverified_witness:
  "\<exists>res fs' p. uploadLocalFile demo_copy ''abcd'' ''l'' ''r'' resume_opts (\<lambda>x. if x = ''r.part'' then Some ''x'' else None) = Some (Inr res, fs', p) \<and>
     tr_SHA256 res = ''abcd'' \<and> fs' ''r'' = Some ''xbcd''"
  using resumed_upload_is_unverified[OF demo_copy_smooth demo_copy_reads demo_accepted(1), of "\<lambda>x. if x = ''r.part'' then Some ''x'' else None" "''r''" "''x''" "''l''"]
  by (auto simp: part_suffix_def resume_opts_def demo_copy_def)

theorem resumed_download_never_recovers_witness:
  "\<exists>e fs' p e' p'. downloadRemoteFile demo_copy 4 ''r'' ''l'' resume_opts (\<lambda>x. if x = ''l.part'' then Some ''x'' else None) = Some (Inl e, fs', p) \<and>
     downloadRemoteFile demo_copy 4 ''r'' ''l'' resume_opts fs' = Some (Inl e', fs', p')"
  using resumed_download_never_recovers[OF demo_copy_smooth demo_copy_reads, of resume_opts "\<lambda>x. if x = ''l.part'' then Some ''x'' else None" "''l''" "''x''" "''r''"] demo_accepted(2)
  by (auto simp: part_suffix_def resume_opts_def)

definition demo_transfers :: "transferManager \<Rightarrow> transfers" where
  "demo_transfers m = \<lparr>tx_manager = finish_transfer ''later'' (transfer_id 5 1) (Inl ''lost'') m, tx_active = []\<rparr>"

theorem transfers_settle_once_witness:
  "map_option (\<lambda>j. (tj_ID j, tj_Status j)) (gm_lookup (tm_jobs (tx_manager (demo_transfers
     (snd (start_transfer 5 ''now'' ''upload'' ''web'' ''r'' ''l'' newTransferManager))))) (transfer_id 5 1)) = Some (transfer_id 5 1, ''failed'')"
proof -
  let ?m = "snd (start_transfer 5 ''now'' ''upload'' ''web'' ''r'' ''l'' newTransferManager)"
  let ?i = "transfer_id 5 1"
  have s: "start_transfer 5 ''now'' ''upload'' ''web'' ''r'' ''l'' (tx_manager no_transfers) = (?i, ?m)"
    by (simp add: start_transfer_def no_transfers_def newTransferManager_def Let_def)
  have "transfer_step no_transfers \<lparr>tx_manager = ?m, tx_active = [?i]\<rparr>"
    using transfer_step.start[OF s] by (simp add: no_transfers_def)
  moreover have "transfer_step \<lparr>tx_manager = ?m, tx_active = [?i]\<rparr> (demo_transfers ?m)"
    using transfer_step.settle[of ?i "\<lparr>tx_manager = ?m, tx_active = [?i]\<rparr>" "''later''" "Inl ''lost''"] by (simp add: demo_transfers_def)
  ultimately have r: "transfer_step\<^sup>*\<^sup>* no_transfers (demo_transfers ?m)" by (meson converse_rtranclp_into_rtranclp rtranclp.rtrancl_refl)
  obtain j where j: "gm_lookup (tm_jobs (tx_manager (demo_transfers ?m))) ?i = Some j" "tj_Status j = ''failed''"
    by (simp add: demo_transfers_def finish_transfer_def lookup_update_transfer start_transfer_def newTransferManager_def Let_def gm.lookup_update settle_job_def)
  then show ?thesis using transfers_settle_once[OF r rtranclp.rtrancl_refl j(1)] by simp
qed

definition demo_transfer_env :: transfer_env where
  "demo_transfer_env = \<lparr>te_exec = exec_demo, te_home = Inr ''/home/u'', te_stat = \<lambda>_. None, te_sftp = None, te_copy = demo_copy, te_size = 4\<rparr>"

definition download_args :: json_args where
  "download_args = [(''reason'', JStr ''fetch''), (''alias'', JStr ''web''), (''remote_path'', JStr ''r''), (''local_path'', JStr ''l'')]"

lemma demo_session: "open_session demo_transfer_env ''web'' = (None, map Net
  [Contact (SocksConn ''10.0.0.9:1080'' ''10.0.0.5:22''), Contact (DirectConn ''10.0.0.5:22''), Authenticate ''10.0.0.5:22'' [] False, UsedAlias ''web''])"
proof -
  have "Dial example_env (Some example_target) (zero_opts\<lparr>bo_Alias := ''web''\<rparr>) = (Inr (DirectConn ''10.0.0.5:22'', kindDirect),
      [Contact (SocksConn ''10.0.0.9:1080'' ''10.0.0.5:22''), Contact (DirectConn ''10.0.0.5:22''), Authenticate ''10.0.0.5:22'' [] False, UsedAlias ''web''])"
    by code_simp
  moreover have "zero_opts\<lparr>bo_ConfigPath := [], bo_Alias := ''web''\<rparr> = zero_opts\<lparr>bo_Alias := ''web''\<rparr>" by (simp add: zero_opts_def)
  ultimately show ?thesis
    by (simp add: open_session_def demo_transfer_env_def exec_demo_def gm_lookup_of_list sshOptions_def Let_def)
qed

theorem download_replaces_atomically_witness:
  "\<exists>out ev lfs' p. handleDownloadCtx demo_transfer_env download_args (\<lambda>_. None) (\<lambda>_. None) = Some (out, ev, lfs', (\<lambda>_. None), p) \<and> lfs' ''l'' = Some ''abcd'' \<and>
     audits ev \<noteq> []"
proof -
  have a: "missing_argument download_args [''alias'', ''remote_path'', ''local_path''] = None" "strArg download_args ''alias'' = ''web''"
    "expandLocalHome (Inr ''/home/u'') (strArg download_args ''local_path'') = Inr ''l''" "strArg download_args ''remote_path'' = ''r''" by code_simp+
  have "normalized_sum [] = []" by code_simp
  then have "accepted_sum demo_copy (transfer_options download_args) b" for b
    by (simp add: accepted_sum_def transfer_options_def download_args_def strArg_def)
  then obtain res p where d: "downloadRemoteFile demo_copy 4 ''r'' ''l'' (transfer_options download_args) (\<lambda>_. None) =
      Some (Inr res, (\<lambda>_. None)(''l'' @ part_suffix := None, ''l'' := Some ''abcd''), p)"
    using download_smooth[OF demo_copy_smooth demo_copy_reads refl, of "transfer_options download_args" "\<lambda>_. None" "''l''" "''r''"]
    by (auto simp: joined_def)
  have e: "te_home demo_transfer_env = Inr ''/home/u''" "te_copy demo_transfer_env = demo_copy" "te_size demo_transfer_env = 4"
    by (simp_all add: demo_transfer_env_def)
  obtain out ev where h: "handleDownloadCtx demo_transfer_env download_args (\<lambda>_. None) (\<lambda>_. None) =
      Some (out, ev, (\<lambda>_. None)(''l'' @ part_suffix := None, ''l'' := Some ''abcd''), (\<lambda>_. None), p)"
    using a(3) by (simp add: handleDownloadCtx_def a(1,2,4) demo_session d e Let_def case_prod_beta)
  let ?l = "(\<lambda>_. None)(''l'' @ part_suffix := None, ''l'' := Some ''abcd'') :: files"
  have l: "?l ''l'' = Some ''abcd''" by simp
  have "audits ev \<noteq> []"
  proof
    assume none: "audits ev = []"
    from download_replaces_atomically[OF h] none obtain dst where "expandLocalHome (te_home demo_transfer_env) (strArg download_args ''local_path'') = Inr dst"
        "?l dst = None" using l by (metis list.distinct(1) option.distinct(1))
    then show False using a(3) l e(1) by simp
  qed
  then show ?thesis using h l by blast
qed

end
