(* ===== verification/Cloud_Link.thy ===== *)
theory Cloud_Link
  imports Cloud_Sync
begin

text \<open>
  \<open>internal/cloudsync/link.go\<close>: linking a new device to an account. The device shows a code made from a fresh public key, polls the
  service until the request is approved, and then checks the approval against the root key it was given out of band before
  it opens the vault with the master key sealed to it. Key agreement and key derivation are parameters; the polls are an unbounded loop.
\<close>

section \<open>Requests\<close>

record LinkRequest =
  lq_ID :: string
  lq_PublicKey :: string
  lq_Secret :: string
  lq_DeviceID :: string
  lq_Label :: string
  lq_Platform :: string
  lq_AllowShell :: bool
  lq_Expires :: int
  lq_private :: "bytes option"
  lq_root :: string

record LinkGrant =
  lg_Version :: int
  lg_PublicKey :: string
  lg_Nonce :: string
  lg_Ciphertext :: string

record link_reply =
  ly_Login :: LoginResult
  ly_Status :: string
  ly_Grant :: string
  ly_Signature :: string
  ly_RequestExpires :: int

datatype link_error = LinkCloud cloud_error | RootRequired | LinkKeyFailed | IdentityDiffers | ApprovalInvalid | LinkUnlock
  | LinkVault unlock_error | LinkCancelled | LinkPanic

text \<open>\<open>li_salvaged\<close> is what the decoder leaves of a text it refuses; the code ignores its error in two places.\<close>

record link_env =
  li_sync :: "nat \<Rightarrow> sync_env" \<comment> \<open>one for each poll\<close>
  li_cancelled :: "nat \<Rightarrow> bool" \<comment> \<open>the context ends in the pause after a poll\<close>
  li_generate :: "(bytes \<times> bytes) option" \<comment> \<open>a private key and its public point\<close>
  li_ids :: "bytes \<times> bytes" \<comment> \<open>18 random bytes for the device, and for the request\<close>
  li_secret :: bytes
  li_platform :: string
  li_point :: "bytes \<Rightarrow> bool" \<comment> \<open>\<open>NewPublicKey\<close> accepts\<close>
  li_ecdh :: "bytes \<Rightarrow> bytes \<Rightarrow> bytes option"
  li_hkdf :: "bytes \<Rightarrow> string \<Rightarrow> bytes"
  li_salvaged :: "string \<Rightarrow> bytes"
  li_start_body :: "LinkRequest \<Rightarrow> bytes option"
  li_start_reply :: "bytes \<Rightarrow> int option"
  li_poll_body :: "string \<Rightarrow> string \<Rightarrow> bytes option"
  li_poll_reply :: "bytes \<Rightarrow> link_reply option"
  li_grant :: "string \<Rightarrow> LinkGrant option"

definition decoded :: "link_env \<Rightarrow> string \<Rightarrow> bytes" where
  "decoded env s = (case DecodeString s of Some b \<Rightarrow> b | None \<Rightarrow> li_salvaged env s)"

definition upper_byte :: "char \<Rightarrow> char" where
  "upper_byte c = (if is_lower c then char_of (of_char c - (32 :: nat)) else c)"

definition ToUpper :: "string \<Rightarrow> string" where
  "ToUpper s = map upper_byte s"

text \<open>The code that both sides show.\<close>

definition LinkCode :: "link_env \<Rightarrow> (bytes \<Rightarrow> bytes) \<Rightarrow> string \<Rightarrow> string" where
  "LinkCode env sha public =
    (let s = ToUpper (hex_encode (take 6 (sha (decoded env public)))) in
     take 4 s @ ''-'' @ take 4 (drop 4 s) @ ''-'' @ drop 8 s)"

definition linkKey :: "link_env \<Rightarrow> bytes \<Rightarrow> string \<Rightarrow> string \<Rightarrow> bytes" where
  "linkKey env secret user i = li_hkdf env secret (''sshm-link-v1/'' @ user @ ''/'' @ i)"

definition linkAAD :: "string \<Rightarrow> string \<Rightarrow> string \<Rightarrow> string" where
  "linkAAD user i public = ''sshm-link-v1'' @ [newline] @ user @ [newline] @ i @ [newline] @ public"

definition LinkMessage :: "string \<Rightarrow> LinkRequest \<Rightarrow> string \<Rightarrow> string" where
  "LinkMessage user r grant =
    ''sshm-link-v1'' @ [newline] @ user @ [newline] @ lq_ID r @ [newline] @ lq_PublicKey r @ [newline] @ Itoa (lq_Expires r) @ [newline] @ grant"

definition NewLinkRequest :: "link_env \<Rightarrow> string \<Rightarrow> string \<Rightarrow> string \<Rightarrow> bool \<Rightarrow> link_error + LinkRequest" where
  "NewLinkRequest env device label root allowShell =
    (case DecodeString root of None \<Rightarrow> Inl RootRequired | Some p \<Rightarrow>
     if length p \<noteq> 32 then Inl RootRequired
     else case li_generate env of None \<Rightarrow> Inl LinkKeyFailed | Some (priv, pub) \<Rightarrow>
     Inr \<lparr>lq_ID = EncodeToString (snd (li_ids env)), lq_PublicKey = EncodeToString pub, lq_Secret = EncodeToString (li_secret env),
          lq_DeviceID = (if device = [] then EncodeToString (fst (li_ids env)) else device), lq_Label = label, lq_Platform = li_platform env,
          lq_AllowShell = allowShell, lq_Expires = 0, lq_private = Some priv, lq_root = root\<rparr>)"

definition BeginLink :: "link_env \<Rightarrow> sync_env \<Rightarrow> LinkRequest \<Rightarrow> State \<Rightarrow> link_error + LinkRequest" where
  "BeginLink env se r s =
    (case Request se 0 s ''POST'' ''/v1/link/start'' (Some (li_start_body env r)) (li_start_reply env) of
       Inl e \<Rightarrow> Inl (LinkCloud e) | Inr expires \<Rightarrow> Inr (r\<lparr>lq_Expires := expires\<rparr>))"

section \<open>Approval\<close>

definition approval_master :: "link_env \<Rightarrow> sync_env \<Rightarrow> LinkRequest \<Rightarrow> string \<Rightarrow> string \<Rightarrow> link_error + bytes" where
  "approval_master env se r user grant_text =
    (case li_grant env grant_text of None \<Rightarrow> Inl LinkUnlock | Some grant \<Rightarrow>
     if lg_Version grant \<noteq> 1 then Inl LinkUnlock
     else case DecodeString (lg_PublicKey grant) of None \<Rightarrow> Inl LinkUnlock | Some remote \<Rightarrow>
     if \<not> li_point env remote then Inl LinkUnlock
     else case lq_private r of None \<Rightarrow> Inl LinkPanic | Some priv \<Rightarrow>
     case li_ecdh env priv remote of None \<Rightarrow> Inl LinkUnlock | Some shared \<Rightarrow>
     case unseal (se_cy se) (linkKey env shared user (lq_ID r)) (lg_Nonce grant) (lg_Ciphertext grant)
            (linkAAD user (lq_ID r) (lq_PublicKey r)) of None \<Rightarrow> Inl LinkUnlock | Some master \<Rightarrow> Inr master)"

definition linked_state :: "LoginResult \<Rightarrow> State \<Rightarrow> State" where
  "linked_state y s = s\<lparr>cs_DeviceID := lr_DeviceID y, cs_Token := lr_Token y, cs_Expires := lr_Expires y, cs_Base := lr_Snapshot y,
     cs_Draft := lr_Snapshot y, cs_Dirty := False, cs_Pending := None\<rparr>"

definition approve_link :: "link_env \<Rightarrow> sync_env \<Rightarrow> LinkRequest \<Rightarrow> link_reply \<Rightarrow> State \<Rightarrow> (link_error + Vault) \<times> State" where
  "approve_link env se r y s =
    (let snap = lr_Snapshot (ly_Login y) in
     if lr_DeviceID (ly_Login y) \<noteq> lq_DeviceID r \<or> ly_RequestExpires y \<noteq> lq_Expires r \<or> sp_RootPublic snap \<noteq> lq_root r
     then (Inl IdentityDiffers, s)
     else if \<not> cy_verify (se_cy se) (decoded env (lq_root r)) (LinkMessage (cs_Username s) r (ly_Grant y)) (decoded env (ly_Signature y))
     then (Inl ApprovalInvalid, s)
     else case approval_master env se r (cs_Username s) (ly_Grant y) of Inl e \<Rightarrow> (Inl e, s) | Inr master \<Rightarrow>
     (case UnlockMaster (se_cy se) (se_now se) (cs_Username s) snap master of
        Inl e \<Rightarrow> (Inl (LinkVault e), s)
      | Inr v \<Rightarrow> (Inr v, linked_state (ly_Login y) s)))"

definition poll_link :: "link_env \<Rightarrow> sync_env \<Rightarrow> LinkRequest \<Rightarrow> State \<Rightarrow> cloud_error + link_reply" where
  "poll_link env se r s =
    Request se 0 s ''POST'' ''/v1/link/poll'' (Some (li_poll_body env (lq_ID r) (lq_Secret r))) (li_poll_reply env)"

text \<open>What a poll decides, if it decides; the loop goes on otherwise.\<close>

definition link_outcome :: "link_env \<Rightarrow> nat \<Rightarrow> LinkRequest \<Rightarrow> State \<Rightarrow> ((link_error + Vault) \<times> State) option" where
  "link_outcome env k r s =
    (case poll_link env (li_sync env k) r s of
       Inl e \<Rightarrow> Some (Inl (LinkCloud e), s)
     | Inr y \<Rightarrow> if ly_Status y = ''approved'' then Some (approve_link env (li_sync env k) r y s)
               else if li_cancelled env k then Some (Inl LinkCancelled, s) else None)"

partial_function (option) wait_from :: "link_env \<Rightarrow> nat \<Rightarrow> LinkRequest \<Rightarrow> State \<Rightarrow> ((link_error + Vault) \<times> State) option" where
  "wait_from env k r s = (case link_outcome env k r s of Some x \<Rightarrow> Some x | None \<Rightarrow> wait_from env (Suc k) r s)"

text \<open>On return the private key and the secret are gone from the request.\<close>

definition WaitLink :: "link_env \<Rightarrow> LinkRequest \<Rightarrow> State \<Rightarrow> ((link_error + Vault) \<times> State \<times> LinkRequest) option" where
  "WaitLink env r s = map_option (\<lambda>(v, s'). (v, s', r\<lparr>lq_private := None, lq_Secret := []\<rparr>)) (wait_from env 0 r s)"

section \<open>The loop\<close>

definition first_outcome :: "link_env \<Rightarrow> nat \<Rightarrow> LinkRequest \<Rightarrow> State \<Rightarrow> nat \<Rightarrow> (link_error + Vault) \<times> State \<Rightarrow> bool" where
  "first_outcome env n r s k x \<longleftrightarrow> n \<le> k \<and> link_outcome env k r s = Some x \<and> (\<forall>j. n \<le> j \<and> j < k \<longrightarrow> link_outcome env j r s = None)"

lemma wait_from_result: "wait_from env n r s = Some x \<Longrightarrow> \<exists>k. first_outcome env n r s k x"
proof (induction rule: wait_from.raw_induct[rotated, consumes 1, case_names again])
  case (again w env n r s x)
  show ?case
  proof (cases "link_outcome env n r s")
    case (Some y)
    then show ?thesis using again(2) by (intro exI[of _ n]) (auto simp: first_outcome_def)
  next
    case None
    then have "w env (Suc n) r s = Some x" using again(2) by simp
    from again(1)[OF this] obtain k where "first_outcome env (Suc n) r s k x" by blast
    then show ?thesis using None unfolding first_outcome_def by (metis Suc_le_eq le_eq_less_or_eq less_imp_le_nat)
  qed
qed

lemma wait_from_returns:
  "(\<forall>j. n \<le> j \<and> j < n + d \<longrightarrow> link_outcome env j r s = None) \<Longrightarrow> link_outcome env (n + d) r s = Some x \<Longrightarrow> wait_from env n r s = Some x"
proof (induction d arbitrary: n)
  case 0
  then show ?case by (subst wait_from.simps) simp
next
  case (Suc d)
  have "link_outcome env n r s = None" using Suc.prems(1) by auto
  moreover have "wait_from env (Suc n) r s = Some x" using Suc.prems by (intro Suc.IH) auto
  ultimately show ?case by (subst wait_from.simps) simp
qed

lemma WaitLink_iff:
  "WaitLink env r s = Some (v, s', r') \<longleftrightarrow> r' = r\<lparr>lq_private := None, lq_Secret := []\<rparr> \<and> (\<exists>k. first_outcome env 0 r s k (v, s'))"
proof -
  have "wait_from env 0 r s = Some x \<longleftrightarrow> (\<exists>k. first_outcome env 0 r s k x)" for x
    using wait_from_result[of env 0 r s x] wait_from_returns[of 0 _ env r s x] unfolding first_outcome_def by fastforce
  then show ?thesis by (auto simp: WaitLink_def)
qed

section \<open>Approved links\<close>

text \<open>What was approved is read back from the message that was signed.\<close>

lemma LinkMessage_inj:
  assumes "LinkMessage user r grant = LinkMessage user q grant'"
    and "newline \<notin> set (lq_ID r)" "newline \<notin> set (lq_ID q)" "newline \<notin> set (lq_PublicKey r)" "newline \<notin> set (lq_PublicKey q)"
  shows "lq_ID r = lq_ID q \<and> lq_PublicKey r = lq_PublicKey q \<and> Itoa (lq_Expires r) = Itoa (lq_Expires q) \<and> grant = grant'"
proof -
  have "lq_ID r @ newline # lq_PublicKey r @ newline # Itoa (lq_Expires r) @ newline # grant =
    lq_ID q @ newline # lq_PublicKey q @ newline # Itoa (lq_Expires q) @ newline # grant'" using assms(1) by (simp add: LinkMessage_def)
  from line_prefix[OF this assms(2,3)] have i: "lq_ID r = lq_ID q"
    "lq_PublicKey r @ newline # Itoa (lq_Expires r) @ newline # grant = lq_PublicKey q @ newline # Itoa (lq_Expires q) @ newline # grant'" by auto
  from line_prefix[OF i(2) assms(4,5)] have p: "lq_PublicKey r = lq_PublicKey q"
    "Itoa (lq_Expires r) @ newline # grant = Itoa (lq_Expires q) @ newline # grant'" by auto
  from line_prefix[OF p(2) Itoa_no_newline Itoa_no_newline] show ?thesis using i(1) p(1) by auto
qed

lemma link_sync_differ: "LinkMessage user r grant \<noteq> syncMessage account b op blob"
  by (simp add: LinkMessage_def syncMessage_def)

lemma approve_link_Inr:
  assumes "approve_link env se r y s = (Inr v, s')"
  shows "lr_DeviceID (ly_Login y) = lq_DeviceID r" "ly_RequestExpires y = lq_Expires r" "sp_RootPublic (lr_Snapshot (ly_Login y)) = lq_root r"
    "cy_verify (se_cy se) (decoded env (lq_root r)) (LinkMessage (cs_Username s) r (ly_Grant y)) (decoded env (ly_Signature y))"
    "\<exists>master. approval_master env se r (cs_Username s) (ly_Grant y) = Inr master \<and>
       UnlockMaster (se_cy se) (se_now se) (cs_Username s) (lr_Snapshot (ly_Login y)) master = Inr v"
    "s' = linked_state (ly_Login y) s"
  using assms unfolding approve_link_def Let_def by (auto split: if_splits option.splits sum.splits)

lemma approve_link_Inl: "approve_link env se r y s = (Inl e, s') \<Longrightarrow> s' = s"
  unfolding approve_link_def Let_def by (auto split: if_splits option.splits sum.splits)

lemma approval_master_no_panic: "lq_private r \<noteq> None \<Longrightarrow> approval_master env se r user g \<noteq> Inl LinkPanic"
  by (auto simp: approval_master_def split: option.splits)

lemma approve_link_no_panic: "lq_private r \<noteq> None \<Longrightarrow> fst (approve_link env se r y s) \<noteq> Inl LinkPanic"
  using approval_master_no_panic[of r env se "cs_Username s" "ly_Grant y"]
  by (auto simp: approve_link_def Let_def split: sum.splits)

lemma link_outcome_Inl:
  "link_outcome env k r s = Some (Inl e, s') \<Longrightarrow> lq_private r \<noteq> None \<Longrightarrow> s' = s \<and> e \<noteq> LinkPanic"
  using approve_link_no_panic[of r env "li_sync env k"]
  unfolding link_outcome_def
  by (cases "poll_link env (li_sync env k) r s") (auto dest: approve_link_Inl split: if_splits, metis fst_conv)

lemma link_outcome_Inr:
  "link_outcome env k r s = Some (Inr v, s') \<Longrightarrow> \<exists>y. approve_link env (li_sync env k) r y s = (Inr v, s')"
  by (auto simp: link_outcome_def split: sum.splits if_splits)

lemma requested:
  assumes "NewLinkRequest env device label root allowShell = Inr r0" "BeginLink env se r0 s = Inr r"
  shows "newline \<notin> set (lq_ID r)" "newline \<notin> set (lq_PublicKey r)" "lq_private r \<noteq> None" "lq_root r = root"
  using assms by (auto simp: NewLinkRequest_def BeginLink_def b64_no_newline newline_def split: option.splits if_splits sum.splits)

text \<open>The approvals that the holder of the vault has signed: the only link messages whose signatures verify under its root key.\<close>

definition approvals_known :: "link_env \<Rightarrow> primitives \<Rightarrow> string \<Rightarrow> string \<Rightarrow> (LinkRequest \<times> string) set \<Rightarrow> bool" where
  "approvals_known env cy root user approvals \<longleftrightarrow>
    (\<forall>k. se_cy (li_sync env k) = cy) \<and>
    (\<forall>q g sig. cy_verify cy (decoded env root) (LinkMessage user q g) sig \<longrightarrow>
       (\<exists>(q', g') \<in> approvals. LinkMessage user q g = LinkMessage user q' g')) \<and>
    (\<forall>(q, g) \<in> approvals. newline \<notin> set (lq_ID q) \<and> newline \<notin> set (lq_PublicKey q))"

definition approval_of :: "LinkRequest \<Rightarrow> LinkRequest \<Rightarrow> bool" where
  "approval_of r q \<longleftrightarrow> lq_ID q = lq_ID r \<and> lq_PublicKey q = lq_PublicKey r \<and> Itoa (lq_Expires q) = Itoa (lq_Expires r)"

lemma approved_link:
  assumes "approvals_known env cy (lq_root r) (cs_Username s) approvals" "newline \<notin> set (lq_ID r)" "newline \<notin> set (lq_PublicKey r)"
    "approve_link env (li_sync env k) r y s = (Inr v, s')"
  shows "\<exists>(q, g) \<in> approvals. approval_of r q \<and> approval_master env (li_sync env k) r (cs_Username s) g = Inr (va_Master v)"
    "Public cy (va_Master v) = lq_root r" "en_Account (va_Envelope v) = cs_Username s"
    "cs_DeviceID s' = lq_DeviceID r" "sp_RootPublic (cs_Base s') = lq_root r" "state_ok s'"
proof -
  note a = approve_link_Inr[OF assms(4)]
  have cy: "se_cy (li_sync env k) = cy" using assms(1) by (simp add: approvals_known_def)
  from a(5) obtain master where m: "approval_master env (li_sync env k) r (cs_Username s) (ly_Grant y) = Inr master"
    "UnlockMaster cy (se_now (li_sync env k)) (cs_Username s) (lr_Snapshot (ly_Login y)) master = Inr v" using cy by auto
  from m(2) have v: "va_Master v = master" "Public cy (va_Master v) = lq_root r" "en_Account (va_Envelope v) = cs_Username s"
    using a(3) by (auto simp: UnlockMaster_Inr parseEnvelope_Some)
  have "\<exists>(q, g) \<in> approvals. LinkMessage (cs_Username s) r (ly_Grant y) = LinkMessage (cs_Username s) q g"
    using assms(1) a(4)[unfolded cy] unfolding approvals_known_def by blast
  then obtain q g where q: "(q, g) \<in> approvals" "LinkMessage (cs_Username s) r (ly_Grant y) = LinkMessage (cs_Username s) q g" by blast
  moreover have "newline \<notin> set (lq_ID q)" "newline \<notin> set (lq_PublicKey q)" using q(1) assms(1) by (auto simp: approvals_known_def)
  ultimately have "approval_of r q" "ly_Grant y = g" using LinkMessage_inj[OF q(2) assms(2) _ assms(3)] unfolding approval_of_def by simp_all
  then show "\<exists>(q, g) \<in> approvals. approval_of r q \<and> approval_master env (li_sync env k) r (cs_Username s) g = Inr (va_Master v)"
    using q(1) m(1) unfolding v(1) by blast
  show "Public cy (va_Master v) = lq_root r" "en_Account (va_Envelope v) = cs_Username s" using v by auto
  show "cs_DeviceID s' = lq_DeviceID r" "sp_RootPublic (cs_Base s') = lq_root r" "state_ok s'"
    using a(1,3,6) by (auto simp: linked_state_def state_ok_def)
qed

section \<open>Properties\<close>


definition link_decides :: "link_env \<Rightarrow> LinkRequest \<Rightarrow> State \<Rightarrow> nat \<Rightarrow> bool" where
  "link_decides env r s k \<longleftrightarrow>
    (case poll_link env (li_sync env k) r s of Inl _ \<Rightarrow> True | Inr y \<Rightarrow> ly_Status y = ''approved'' \<or> li_cancelled env k)"

lemma link_decides: "link_decides env r s k \<longleftrightarrow> link_outcome env k r s \<noteq> None"
  by (auto simp: link_decides_def link_outcome_def split: sum.splits)

text \<open>C37: waiting for approval ends exactly when some poll fails, brings the approval, or is followed by the end of the context; it
  then has the outcome of the first such poll. Without one it never returns.\<close>

theorem link_wait_ends_iff_decided:
  "WaitLink env r s =
    (if \<exists>k. link_decides env r s k
     then map_option (\<lambda>x. (fst x, snd x, r\<lparr>lq_private := None, lq_Secret := []\<rparr>)) (link_outcome env (LEAST k. link_decides env r s k) r s)
     else None)"
proof (cases "\<exists>k. link_decides env r s k")
  case True
  let ?k = "LEAST j. link_decides env r s j"
  have "link_decides env r s ?k" using True by (metis LeastI)
  then obtain x where x: "link_outcome env ?k r s = Some x" unfolding link_decides by blast
  have "link_outcome env j r s = None" if "j < ?k" for j using not_less_Least[OF that] unfolding link_decides by blast
  then have "wait_from env 0 r s = Some x" using wait_from_returns[of 0 ?k env r s x] x by simp
  then show ?thesis using True x by (simp add: WaitLink_def split_beta)
next
  case False
  then have "link_outcome env k r s = None" for k using link_decides by blast
  then have "wait_from env 0 r s = None"
    using wait_from_result[of env 0 r s] unfolding first_outcome_def by (cases "wait_from env 0 r s") auto
  then show ?thesis using False by (simp add: WaitLink_def)
qed

section \<open>Witness\<close>

text \<open>A new device of \<open>alice\<close>: the first poll is still pending, the second brings the vault of \<open>Cloud_Vault\<close>.\<close>

definition demo_request :: LinkRequest where
  "demo_request = \<lparr>lq_ID = EncodeToString ''q'', lq_PublicKey = EncodeToString ''K'', lq_Secret = EncodeToString ''x'', lq_DeviceID = ''d2'',
     lq_Label = ''laptop'', lq_Platform = ''linux'', lq_AllowShell = False, lq_Expires = 9, lq_private = Some ''k'',
     lq_root = EncodeToString (replicate 32 (CHR ''h''))\<rparr>"

definition link_primitives :: primitives where
  "link_primitives = demo_primitives\<lparr>cy_verify := \<lambda>p m sig. m = sig \<and>
     (m = syncMessage ''alice'' 0 ''op'' ''E'' \<or> m = LinkMessage ''alice'' demo_request ''G'')\<rparr>"

definition demo_poll :: "nat \<Rightarrow> sync_env" where
  "demo_poll k = demo_sync_env\<lparr>se_cy := link_primitives, se_http := \<lambda>_ _. Reply 200 (if k = 0 then ''wait'' else ''done'') True\<rparr>"

definition demo_reply :: link_reply where
  "demo_reply = \<lparr>ly_Login = \<lparr>lr_Token = ''T'', lr_DeviceID = ''d2'', lr_Expires = 99, lr_Snapshot = demo_snapshot\<rparr>, ly_Status = ''approved'',
     ly_Grant = ''G'', ly_Signature = EncodeToString (LinkMessage ''alice'' demo_request ''G''), ly_RequestExpires = 9\<rparr>"

definition demo_link :: link_env where
  "demo_link = \<lparr>li_sync = demo_poll, li_cancelled = \<lambda>_. False, li_generate = Some (''k'', ''K''), li_ids = ([], ''q''), li_secret = ''x'',
     li_platform = ''linux'', li_point = \<lambda>_. True, li_ecdh = \<lambda>_ _. Some ''s'', li_hkdf = \<lambda>_ _. replicate 32 (CHR ''l''), li_salvaged = \<lambda>_. [],
     li_start_body = \<lambda>_. Some ''b'', li_start_reply = \<lambda>_. Some 9, li_poll_body = \<lambda>_ _. Some ''b'',
     li_poll_reply = \<lambda>b. Some (if b = ''wait'' then demo_reply\<lparr>ly_Status := ''pending''\<rparr> else demo_reply),
     li_grant = \<lambda>_. Some \<lparr>lg_Version = 1, lg_PublicKey = EncodeToString ''W'', lg_Nonce = EncodeToString (replicate 12 (CHR ''n'')),
       lg_Ciphertext = EncodeToString (replicate 16 (CHR ''t'') @ vr_master demo_random)\<rparr>\<rparr>"

definition linked_vault :: Vault where
  "linked_vault = demo_vault\<lparr>va_Envelope := Cloud_Vault.demo_envelope\<rparr>"

lemma link_request: "Request (demo_poll k) 0 fresh_account meth path (Some (Some ''b'')) output =
    (case output (if k = 0 then ''wait'' else ''done'') of None \<Rightarrow> Inl InvalidResponse | Some a \<Rightarrow> Inr a)"
  by (simp add: Request_def ValidateURL_def demo_poll_def demo_sync_env_def MaxBlob_def)

lemma demo_new_link: "NewLinkRequest demo_link ''d2'' ''laptop'' (EncodeToString (replicate 32 (CHR ''h''))) False = Inr (demo_request\<lparr>lq_Expires := 0\<rparr>)"
  by (simp add: NewLinkRequest_def demo_link_def demo_request_def)

lemma demo_begin: "BeginLink demo_link (demo_poll 0) (demo_request\<lparr>lq_Expires := 0\<rparr>) fresh_account = Inr demo_request"
  by (simp add: BeginLink_def demo_link_def link_request) (simp add: demo_request_def)

lemma demo_unlocks: "UnlockMaster link_primitives 0 ''alice'' demo_snapshot (vr_master demo_random) = Inr linked_vault"
proof -
  have "parseEnvelope link_primitives ''alice'' demo_snapshot = Some Cloud_Vault.demo_envelope"
    by (simp add: parseEnvelope_def demo_snapshot_def MaxBlob_def link_primitives_def demo_primitives_def)
      (simp add: Cloud_Vault.demo_envelope_def demo_random_def validID_random)
  moreover have "unseal link_primitives (replicate 32 (CHR ''h'')) (en_Nonce Cloud_Vault.demo_envelope) (en_Ciphertext Cloud_Vault.demo_envelope)
      (aad Cloud_Vault.demo_envelope ''data'') = Some ''D''"
    by (simp add: unseal_def Cloud_Vault.demo_envelope_def aes_key_def link_primitives_def demo_primitives_def)
  moreover have "cy_unmarshal_data link_primitives ''D'' = Some NewData" "cy_hkdf link_primitives k i = replicate 32 (CHR ''h'')" for k i
    by (simp_all add: link_primitives_def demo_primitives_def)
  ultimately show ?thesis
    unfolding UnlockMaster_Inr
    by (simp add: demo_snapshot_def demo_data_valid demo_random_def Public_def vault_private_def derive_def demo_vault_def linked_vault_def)
      (simp add: link_primitives_def demo_primitives_def)
qed

lemma demo_master: "approval_master demo_link (demo_poll k) demo_request ''alice'' ''G'' = Inr (vr_master demo_random)"
  by (simp add: approval_master_def demo_link_def demo_poll_def unseal_def linkKey_def aes_key_def demo_request_def link_primitives_def demo_primitives_def)

lemma demo_outcomes:
  "link_outcome demo_link 0 demo_request fresh_account = None"
  "link_outcome demo_link 1 demo_request fresh_account = Some (Inr linked_vault, linked_state (ly_Login demo_reply) fresh_account)"
proof -
  have p: "poll_link demo_link (demo_poll k) demo_request fresh_account = Inr (if k = 0 then demo_reply\<lparr>ly_Status := ''pending''\<rparr> else demo_reply)" for k
    by (simp add: poll_link_def demo_link_def link_request)
  have e: "li_sync demo_link = demo_poll" "li_cancelled demo_link k = False" for k by (simp_all add: demo_link_def)
  have u: "cs_Username fresh_account = ''alice''" by (simp add: fresh_account_def new_state_def)
  have "se_cy (demo_poll k) = link_primitives" "se_now (demo_poll k) = 0" for k by (simp_all add: demo_poll_def demo_sync_env_def)
  moreover have "cy_verify link_primitives x (LinkMessage ''alice'' demo_request ''G'') (LinkMessage ''alice'' demo_request ''G'')" for x
    by (simp add: link_primitives_def)
  ultimately have "approve_link demo_link (demo_poll k) demo_request demo_reply fresh_account = (Inr linked_vault, linked_state (ly_Login demo_reply) fresh_account)" for k
    using demo_master[of k] demo_unlocks u
    by (simp add: approve_link_def demo_reply_def demo_snapshot_def) (simp add: demo_request_def decoded_def)
  then show "link_outcome demo_link 1 demo_request fresh_account = Some (Inr linked_vault, linked_state (ly_Login demo_reply) fresh_account)"
    by (simp add: link_outcome_def e p) (simp add: demo_reply_def)
  show "link_outcome demo_link 0 demo_request fresh_account = None"
    by (simp add: link_outcome_def e p)
qed

lemma demo_waits: "WaitLink demo_link demo_request fresh_account =
    Some (Inr linked_vault, linked_state (ly_Login demo_reply) fresh_account, demo_request\<lparr>lq_private := None, lq_Secret := []\<rparr>)"
  using demo_outcomes unfolding WaitLink_iff first_outcome_def by (auto intro!: exI[of _ 1])

lemma demo_known: "approvals_known demo_link link_primitives (EncodeToString (replicate 32 (CHR ''h''))) ''alice'' {(demo_request, ''G'')}"
  using link_sync_differ[of "''alice''"]
  by (auto simp: approvals_known_def demo_link_def demo_poll_def demo_request_def b64_no_newline newline_def)
    (simp add: link_primitives_def demo_request_def)


end
