(* ===== verification/Cloud_Harden.thy ===== *)
theory Cloud_Harden
  imports Cloud_Sync
begin

text \<open>
  \<open>internal/cloudsync/harden.go\<close>: the private keys of the device are backed up in the unlocked vault, the backup is synchronised,
  and only then are the key files replaced by encrypted ones and their passphrase sidecars removed. The files are a map from paths to
  contents that other programs may change while the backup is sent; every write and removal is recorded with the content it replaces.
  The SSH library, the agent and the failures of the file system are parameters.
\<close>

section \<open>Keys and plans\<close>

text \<open>A private key is known by its encoding; its public half by its marshalled form.\<close>

datatype raw_parse = RawKey bytes | MissingPassphrase "bytes option" | BadKey

type_synonym files = "string \<Rightarrow> bytes option"

record KeyMigration =
  km_Alias :: string
  km_Path :: string
  km_Original :: string
  km_Recovery :: string
  km_Replacement :: string
  km_Status :: string

record HardenReport =
  hr_Encrypted :: int
  hr_RecoveryRemoved :: int
  hr_AgentLoaded :: int
  hr_Retained :: "string list"

record keyPlan =
  kp_receipt :: KeyMigration
  kp_original :: bytes
  kp_sidecar :: "bytes option"
  kp_replacement :: bytes
  kp_pass :: bytes
  kp_raw :: "bytes option"
  kp_public :: "bytes option"

datatype retained = NotRegular | UnsupportedKey | NoIdentity | NoUnlockMaterial | ChangedMeanwhile | AgentUnproved | SignerUnverified

fun retained_text :: "retained \<Rightarrow> string" where
  "retained_text NotRegular = ''not a regular readable key''"
| "retained_text UnsupportedKey = ''unsupported key''"
| "retained_text NoIdentity = ''public identity unavailable''"
| "retained_text NoUnlockMaterial = ''unlock material unavailable; original retained''"
| "retained_text ChangedMeanwhile = ''changed during migration''"
| "retained_text AgentUnproved = ''agent could not prove signing''"
| "retained_text SignerUnverified = ''normal SSH signer verification failed''"

datatype harden_error = NoAgent | NoHome | KeyRead | BadSigner | CannotProtect | DraftError cloud_error | BackupUnconfirmed cloud_error
  | KeyWrite cloud_error | PublicWrite cloud_error | SidecarRemove | ReceiptsMarshal | ReceiptsWrite cloud_error

datatype harden_write = ReplaceKey | WritePublic | RestoreKey | WriteReceipts

record harden_env =
  hv_agent :: bool
  hv_home :: "string option"
  hv_regular :: "string \<Rightarrow> bool" \<comment> \<open>\<open>Lstat\<close> finds a regular file\<close>
  hv_read_fails :: "string \<Rightarrow> bool"
  hv_partial :: "string \<Rightarrow> bytes option" \<comment> \<open>what a failing read of a sidecar leaves\<close>
  hv_reread_fails :: "string \<Rightarrow> bool" \<comment> \<open>the second reads\<close>
  hv_order :: "(string, cl_Credential) gomap \<Rightarrow> string list"
  hv_parse :: "bytes \<Rightarrow> raw_parse"
  hv_parse_with :: "bytes \<Rightarrow> bytes \<Rightarrow> bytes option"
  hv_public :: "bytes \<Rightarrow> bytes option"
  hv_fingerprint :: "bytes \<Rightarrow> string"
  hv_authorized :: "bytes \<Rightarrow> bytes"
  hv_random :: "string \<Rightarrow> bytes"
  hv_protect :: "bytes \<Rightarrow> bytes \<Rightarrow> bytes option"
  hv_digests :: digests
  hv_draft :: sync_env
  hv_syncs :: "nat \<Rightarrow> sync_env"
  hv_cancelled :: "nat \<Rightarrow> bool"
  hv_outside :: "files \<Rightarrow> files" \<comment> \<open>what other programs do while the backup is sent\<close>
  hv_proves :: "bytes \<Rightarrow> bytes \<Rightarrow> bool"
  hv_write_fails :: "harden_write \<Rightarrow> string \<Rightarrow> wp_step \<Rightarrow> bool"
  hv_usable :: "files \<Rightarrow> string \<Rightarrow> bool"
  hv_stat_fails :: "string \<Rightarrow> bool"
  hv_remove_fails :: "string \<Rightarrow> bool"
  hv_receipts :: "KeyMigration list \<Rightarrow> bytes option"
  hv_receipts_path :: string

section \<open>Planning\<close>

definition hv_ExpandHome :: "harden_env \<Rightarrow> string \<Rightarrow> string option" where
  "hv_ExpandHome env p = (if \<not> HasPrefix p ''~'' then Some p else map_option (\<lambda>h. path_Join h (drop 1 p)) (hv_home env))"

definition passphrase_path :: "string \<Rightarrow> string" where "passphrase_path path = path @ ''.passphrase''"
definition public_path :: "string \<Rightarrow> string" where "public_path path = path @ ''.pub''"

record plan_state =
  ps_report :: HardenReport
  ps_seen :: "string list"
  ps_plans :: "keyPlan list"
  ps_data :: cl_Data
  ps_stored :: "cl_Credential list" \<comment> \<open>for the statements only: the credentials stored so far\<close>

definition retain :: "string \<Rightarrow> retained \<Rightarrow> HardenReport \<Rightarrow> HardenReport" where
  "retain al why r = r\<lparr>hr_Retained := hr_Retained r @ [al @ '': '' @ retained_text why]\<rparr>"

definition ps_retain :: "string \<Rightarrow> retained \<Rightarrow> plan_state \<Rightarrow> plan_state" where
  "ps_retain al why st = st\<lparr>ps_report := retain al why (ps_report st)\<rparr>"

definition add_plan :: "keyPlan \<Rightarrow> plan_state \<Rightarrow> plan_state" where
  "add_plan p st = st\<lparr>ps_plans := ps_plans st @ [p]\<rparr>"

text \<open>The public half of the file, when it parses or names it: \<open>Inl\<close> when the key has no signer.\<close>

definition public_identity :: "harden_env \<Rightarrow> raw_parse \<Rightarrow> harden_error + bytes option" where
  "public_identity env r =
    (case r of RawKey k \<Rightarrow> (case hv_public env k of None \<Rightarrow> Inl BadSigner | Some p \<Rightarrow> Inr (Some p))
     | MissingPassphrase p \<Rightarrow> Inr p | BadKey \<Rightarrow> Inr None)"

definition read_sidecar :: "harden_env \<Rightarrow> files \<Rightarrow> string \<Rightarrow> bytes option" where
  "read_sidecar env fs path =
    (case fs path of None \<Rightarrow> None | Some b \<Rightarrow>
     if \<not> hv_regular env path \<or> 65536 < length b then None
     else if hv_read_fails env path then hv_partial env path else Some b)"

text \<open>The passphrase for the original and the unlocked key that the credentials of the vault offer.\<close>

definition unlock_copy :: "harden_env \<Rightarrow> bytes \<Rightarrow> cl_Credential \<Rightarrow> bytes option" where
  "unlock_copy env public c =
    (case (case hv_parse env (cc_Key c) of RawKey k \<Rightarrow> Some k
           | _ \<Rightarrow> if cc_Passphrase c = [] then None else hv_parse_with env (cc_Key c) (cc_Passphrase c)) of
       None \<Rightarrow> None | Some k \<Rightarrow> if hv_public env k = Some public then Some k else None)"

definition try_credential :: "harden_env \<Rightarrow> bytes \<Rightarrow> bytes \<Rightarrow> cl_Credential \<Rightarrow> bytes \<times> bytes option \<Rightarrow> bytes \<times> bytes option" where
  "try_credential env original public c = (\<lambda>(pass, raw).
    if cc_Kind c \<noteq> ''key'' \<or> cc_Fingerprint c \<noteq> hv_fingerprint env public then (pass, raw)
    else (if cc_Passphrase c \<noteq> [] \<and> hv_parse_with env original (cc_Passphrase c) \<noteq> None then cc_Passphrase c else pass,
          if raw \<noteq> None then raw else unlock_copy env public c))"

definition try_credentials :: "harden_env \<Rightarrow> cl_Data \<Rightarrow> bytes \<Rightarrow> bytes \<Rightarrow> bytes option \<Rightarrow> bytes \<times> bytes option" where
  "try_credentials env d original public raw =
    fold (\<lambda>i. case gm_lookup (vd_Credentials d) i of None \<Rightarrow> id | Some c \<Rightarrow> try_credential env original public c)
      (hv_order env (vd_Credentials d)) ([], raw)"

definition key_backup :: "harden_env \<Rightarrow> bytes \<Rightarrow> bytes \<Rightarrow> bytes \<Rightarrow> cl_Credential" where
  "key_backup env key pass public =
    \<lparr>cc_Kind = ''key'', cc_Key = key, cc_Passphrase = pass, cc_Password = [], cc_Fingerprint = hv_fingerprint env public\<rparr>"

definition sidecar_backup :: "harden_env \<Rightarrow> State \<Rightarrow> string \<Rightarrow> bytes \<Rightarrow> cl_Credential" where
  "sidecar_backup env s path b =
    \<lparr>cc_Kind = ''password'', cc_Key = [], cc_Passphrase = [], cc_Password = b,
     cc_Fingerprint = ''sshm-sidecar-backup:'' @ dg_pair (hv_digests env) (cs_DeviceID s) path\<rparr>"

definition back_up :: "harden_env \<Rightarrow> cl_Credential \<Rightarrow> cl_Data \<Rightarrow> cl_Data" where
  "back_up env c d = d\<lparr>vd_Credentials := gm_update (dg_credential (hv_digests env) c) c (vd_Credentials d)\<rparr>"

text \<open>Every entry that uses the identity also refers to its replacement.\<close>

definition attach_replacement :: "string \<Rightarrow> string \<Rightarrow> cl_Data \<Rightarrow> cl_Data" where
  "attach_replacement fingerprint i d = d\<lparr>vd_Entries := gm_map (\<lambda>_ e.
     if list_ex (\<lambda>cid. case gm_lookup (vd_Credentials d) cid of None \<Rightarrow> False
                   | Some c \<Rightarrow> cc_Kind c = ''key'' \<and> cc_Fingerprint c = fingerprint) (et_CredentialIDs e)
     then e\<lparr>et_CredentialIDs := union (et_CredentialIDs e) [i]\<rparr> else e) (vd_Entries d)\<rparr>"

definition store_credentials :: "harden_env \<Rightarrow> cl_Credential list \<Rightarrow> plan_state \<Rightarrow> plan_state" where
  "store_credentials env cs st = st\<lparr>ps_data := fold (back_up env) cs (ps_data st), ps_stored := ps_stored st @ cs\<rparr>"

definition add_replacement :: "harden_env \<Rightarrow> bytes \<Rightarrow> keyPlan \<Rightarrow> plan_state \<Rightarrow> keyPlan \<times> plan_state" where
  "add_replacement env public p st =
    (let c = key_backup env (kp_replacement p) (kp_pass p) public; i = dg_credential (hv_digests env) c; st' = store_credentials env [c] st in
     (p\<lparr>kp_receipt := (kp_receipt p)\<lparr>km_Replacement := i\<rparr>\<rparr>,
      st'\<lparr>ps_data := attach_replacement (hv_fingerprint env public) i (ps_data st')\<rparr>))"

text \<open>The plan of a key whose public half is known, with the credentials that back it up.\<close>

definition plan_backups :: "harden_env \<Rightarrow> State \<Rightarrow> string \<Rightarrow> bytes \<Rightarrow> bytes \<Rightarrow> bytes \<Rightarrow> keyPlan \<Rightarrow> keyPlan \<times> cl_Credential list" where
  "plan_backups env s path original public pass p =
    (let c = key_backup env original pass public;
         p = p\<lparr>kp_receipt := (kp_receipt p)\<lparr>km_Original := dg_credential (hv_digests env) c\<rparr>\<rparr> in
     case kp_sidecar p of None \<Rightarrow> (p, [c])
     | Some b \<Rightarrow> let r = sidecar_backup env s path b in
         (p\<lparr>kp_receipt := (kp_receipt p)\<lparr>km_Recovery := dg_credential (hv_digests env) r\<rparr>\<rparr>, [c, r]))"

definition plan_key :: "harden_env \<Rightarrow> State \<Rightarrow> files \<Rightarrow> string \<Rightarrow> string \<Rightarrow> bytes \<Rightarrow> bytes \<Rightarrow> keyPlan \<Rightarrow> plan_state \<Rightarrow>
    (harden_error \<times> plan_state) + plan_state" where
  "plan_key env s fs al path original public p0 st =
    (let p1 = p0\<lparr>kp_public := Some public, kp_sidecar := read_sidecar env fs (passphrase_path path)\<rparr>;
         (pass, raw) = try_credentials env (ps_data st) original public (kp_raw p1);
         (p2, cs) = plan_backups env s path original public pass p1;
         p = p2\<lparr>kp_raw := raw\<rparr>; st' = store_credentials env cs st in
     case raw of None \<Rightarrow> Inr (ps_retain al NoUnlockMaterial (add_plan p st'))
     | Some k \<Rightarrow>
         if kp_raw p1 \<noteq> None \<or> kp_sidecar p1 \<noteq> None \<or> pass = [] then
           (let new = EncodeToString (hv_random env path) in
            case hv_protect env k new of None \<Rightarrow> Inl (CannotProtect, st')
            | Some b \<Rightarrow> let (p', st'') = add_replacement env public (p\<lparr>kp_pass := new, kp_replacement := b\<rparr>) st' in
                Inr (add_plan p' st''))
         else Inr (add_plan (p\<lparr>kp_pass := pass\<rparr>) st'))"

definition new_plan :: "string \<Rightarrow> string \<Rightarrow> bytes \<Rightarrow> keyPlan" where
  "new_plan al path original = \<lparr>kp_receipt = \<lparr>km_Alias = al, km_Path = path, km_Original = [], km_Recovery = [], km_Replacement = [], km_Status = []\<rparr>,
     kp_original = original, kp_sidecar = None, kp_replacement = [], kp_pass = [], kp_raw = None, kp_public = None\<rparr>"

definition plan_file :: "harden_env \<Rightarrow> State \<Rightarrow> files \<Rightarrow> string \<Rightarrow> string \<Rightarrow> plan_state \<Rightarrow> (harden_error \<times> plan_state) + plan_state" where
  "plan_file env s fs al path st =
    (case fs path of None \<Rightarrow> Inr (ps_retain al NotRegular st) | Some original \<Rightarrow>
     if \<not> hv_regular env path \<or> 1024 * 1024 < length original then Inr (ps_retain al NotRegular st)
     else if hv_read_fails env path then Inl (KeyRead, st)
     else let parsed = hv_parse env original; p = (new_plan al path original)\<lparr>kp_raw := (case parsed of RawKey k \<Rightarrow> Some k | _ \<Rightarrow> None)\<rparr> in
       case public_identity env parsed of Inl e \<Rightarrow> Inl (e, st)
       | Inr (Some public) \<Rightarrow> plan_key env s fs al path original public p st
       | Inr None \<Rightarrow> Inr (ps_retain al (if parsed = BadKey then UnsupportedKey else NoIdentity) (add_plan p st)))"

definition plan_alias :: "harden_env \<Rightarrow> State \<Rightarrow> Config \<Rightarrow> files \<Rightarrow> string \<Rightarrow> plan_state \<Rightarrow> (harden_error \<times> plan_state) + plan_state" where
  "plan_alias env s cfg fs al st =
    (case server_at (cf_Servers cfg) al of None \<Rightarrow> Inr st | Some server \<Rightarrow>
     if sv_CloudEntry server \<noteq> [] \<or> sv_Auth server \<noteq> AuthKey then Inr st
     else case hv_ExpandHome env (sv_KeyPath server) of None \<Rightarrow> Inl (NoHome, st) | Some expanded \<Rightarrow>
     let path = path_Clean expanded in
     if path \<in> set (ps_seen st) then Inr st
     else plan_file env s fs al path (st\<lparr>ps_seen := path # ps_seen st\<rparr>))"

fun plan_all :: "harden_env \<Rightarrow> State \<Rightarrow> Config \<Rightarrow> files \<Rightarrow> string list \<Rightarrow> plan_state \<Rightarrow> (harden_error \<times> plan_state) + plan_state" where
  "plan_all env s cfg fs [] st = Inr st"
| "plan_all env s cfg fs (al # als) st = bind_result (plan_alias env s cfg fs al st) (plan_all env s cfg fs als)"

section \<open>Protecting\<close>

datatype change = Change string "bytes option" "bytes option" \<comment> \<open>path, the content before, the content after\<close>

record harden_state =
  hs_report :: HardenReport
  hs_files :: files
  hs_changes :: "change list"
  hs_receipts :: "KeyMigration list"

definition put_file :: "string \<Rightarrow> bytes option \<Rightarrow> harden_state \<Rightarrow> harden_state" where
  "put_file path b st = st\<lparr>hs_files := (hs_files st)(path := b), hs_changes := hs_changes st @ [Change path (hs_files st path) b]\<rparr>"

definition write_file :: "harden_env \<Rightarrow> harden_write \<Rightarrow> string \<Rightarrow> bytes \<Rightarrow> harden_state \<Rightarrow> cloud_error option \<times> harden_state" where
  "write_file env w path b st =
    (case WritePrivate ((hv_draft env)\<lparr>se_write_fails := hv_write_fails env w path\<rparr>) b (hs_files st path) of
       (Some e, _) \<Rightarrow> (Some e, st) | (None, b') \<Rightarrow> (None, put_file path b' st))"

definition hs_retain :: "string \<Rightarrow> retained \<Rightarrow> harden_state \<Rightarrow> harden_state" where
  "hs_retain al why st = st\<lparr>hs_report := retain al why (hs_report st)\<rparr>"

definition count_encrypted :: "int \<Rightarrow> harden_state \<Rightarrow> harden_state" where
  "count_encrypted n st = st\<lparr>hs_report := (hs_report st)\<lparr>hr_Encrypted := hr_Encrypted (hs_report st) + n\<rparr>\<rparr>"

definition replace_key :: "harden_env \<Rightarrow> keyPlan \<Rightarrow> harden_state \<Rightarrow> harden_error option \<times> harden_state" where
  "replace_key env p st =
    (if kp_replacement p = [] then (None, st)
     else case write_file env ReplaceKey (km_Path (kp_receipt p)) (kp_replacement p) st of
       (Some e, st') \<Rightarrow> (Some (KeyWrite e), st') | (None, st') \<Rightarrow> (None, count_encrypted 1 st'))"

definition write_public :: "harden_env \<Rightarrow> string \<Rightarrow> bytes \<Rightarrow> harden_state \<Rightarrow> harden_error option \<times> harden_state" where
  "write_public env path public st =
    (if hs_files st (public_path path) \<noteq> None \<or> hv_stat_fails env (public_path path) then (None, st)
     else case write_file env WritePublic (public_path path) (hv_authorized env public) st of
       (Some e, st') \<Rightarrow> (Some (PublicWrite e), st') | (None, st') \<Rightarrow> (None, st'))"

text \<open>The failure of the restoring write is ignored.\<close>

definition restore_key :: "harden_env \<Rightarrow> keyPlan \<Rightarrow> harden_state \<Rightarrow> harden_state" where
  "restore_key env p st =
    (if kp_replacement p = [] then st
     else count_encrypted (-1) (snd (write_file env RestoreKey (km_Path (kp_receipt p)) (kp_original p) st)))"

definition remove_sidecar :: "harden_env \<Rightarrow> keyPlan \<Rightarrow> harden_state \<Rightarrow> harden_error option \<times> harden_state" where
  "remove_sidecar env p st =
    (let path = passphrase_path (km_Path (kp_receipt p)) in
     case kp_sidecar p of None \<Rightarrow> (None, st) | Some b \<Rightarrow>
     if hv_reread_fails env path \<or> hs_files st path \<noteq> Some b then (None, st)
     else if hv_remove_fails env path then (Some SidecarRemove, st)
     else let st' = put_file path None st in
       (None, st'\<lparr>hs_report := (hs_report st')\<lparr>hr_RecoveryRemoved := hr_RecoveryRemoved (hs_report st') + 1\<rparr>\<rparr>))"

definition add_receipt :: "string \<Rightarrow> keyPlan \<Rightarrow> harden_state \<Rightarrow> harden_state" where
  "add_receipt status p st = st\<lparr>hs_receipts := hs_receipts st @ [(kp_receipt p)\<lparr>km_Status := status\<rparr>]\<rparr>"

definition protect_key :: "harden_env \<Rightarrow> keyPlan \<Rightarrow> bytes \<Rightarrow> harden_state \<Rightarrow> harden_error option \<times> harden_state" where
  "protect_key env p public st =
    (let path = km_Path (kp_receipt p); al = km_Alias (kp_receipt p);
         loaded = st\<lparr>hs_report := (hs_report st)\<lparr>hr_AgentLoaded := hr_AgentLoaded (hs_report st) + 1\<rparr>\<rparr> in
     case replace_key env p loaded of (Some e, st1) \<Rightarrow> (Some e, st1) | (None, st1) \<Rightarrow>
     case write_public env path public st1 of (Some e, st2) \<Rightarrow> (Some e, st2) | (None, st2) \<Rightarrow>
     if \<not> hv_usable env (hs_files st2) path then (None, hs_retain al SignerUnverified (restore_key env p st2))
     else case remove_sidecar env p st2 of (Some e, st3) \<Rightarrow> (Some e, st3) | (None, st3) \<Rightarrow>
       (None, add_receipt ''protected-agent-ready'' p st3))"

definition protect_plan :: "harden_env \<Rightarrow> keyPlan \<Rightarrow> harden_state \<Rightarrow> harden_error option \<times> harden_state" where
  "protect_plan env p st =
    (let path = km_Path (kp_receipt p); al = km_Alias (kp_receipt p) in
     case (kp_raw p, kp_public p) of
       (Some k, Some public) \<Rightarrow>
         if hv_reread_fails env path \<or> hs_files st path \<noteq> Some (kp_original p) then (None, hs_retain al ChangedMeanwhile st)
         else if \<not> hv_proves env k public then (None, hs_retain al AgentUnproved st)
         else protect_key env p public st
     | _ \<Rightarrow> (None, add_receipt ''retained'' p st))"

fun protect_all :: "harden_env \<Rightarrow> keyPlan list \<Rightarrow> harden_state \<Rightarrow> harden_error option \<times> harden_state" where
  "protect_all env [] st = (None, st)"
| "protect_all env (p # ps) st =
    (case protect_plan env p st of (Some e, st') \<Rightarrow> (Some e, st') | (None, st') \<Rightarrow> protect_all env ps st')"

definition write_receipts :: "harden_env \<Rightarrow> harden_state \<Rightarrow> harden_error option \<times> harden_state" where
  "write_receipts env st =
    (case hv_receipts env (hs_receipts st) of None \<Rightarrow> (Some ReceiptsMarshal, st) | Some b \<Rightarrow>
     case write_file env WriteReceipts (hv_receipts_path env) b st of
       (Some e, st') \<Rightarrow> (Some (ReceiptsWrite e), st') | (None, st') \<Rightarrow> (None, st'))"

section \<open>Hardening\<close>

record harden_result =
  hx_error :: "harden_error option"
  hx_local :: harden_state
  hx_state :: State
  hx_vault :: Vault
  hx_disk :: disk

definition unchanged :: "HardenReport \<Rightarrow> files \<Rightarrow> harden_state" where
  "unchanged r fs = \<lparr>hs_report = r, hs_files = fs, hs_changes = [], hs_receipts = []\<rparr>"

definition empty_report :: HardenReport where
  "empty_report = \<lparr>hr_Encrypted = 0, hr_RecoveryRemoved = 0, hr_AgentLoaded = 0, hr_Retained = []\<rparr>"

definition no_plans :: "cl_Data \<Rightarrow> plan_state" where
  "no_plans d = \<lparr>ps_report = empty_report, ps_seen = [], ps_plans = [], ps_data = d, ps_stored = []\<rparr>"

text \<open>The first half: the plans, the draft and its synchronisation.\<close>

definition confirm_backup :: "harden_env \<Rightarrow> plan_state \<Rightarrow> State \<Rightarrow> Vault \<Rightarrow> disk \<Rightarrow> harden_error option \<times> State \<times> Vault \<times> disk" where
  "confirm_backup env st s v dk =
    (case SaveDraft (hv_draft env) (v\<lparr>va_Data := ps_data st\<rparr>) s dk of
       (Some e, r) \<Rightarrow> (Some (DraftError e), r)
     | (None, s1, v1, dk1) \<Rightarrow>
         (case SyncRetry (hv_syncs env) (hv_cancelled env) s1 v1 dk1 of
            ((Some e, r), _) \<Rightarrow> (Some (BackupUnconfirmed e), r) | ((None, r), _) \<Rightarrow> (None, r)))"

definition HardenLocal :: "harden_env \<Rightarrow> State \<Rightarrow> Vault \<Rightarrow> Config \<Rightarrow> disk \<Rightarrow> files \<Rightarrow> harden_result" where
  "HardenLocal env s v cfg dk fs =
    (if \<not> hv_agent env then \<lparr>hx_error = Some NoAgent, hx_local = unchanged empty_report fs, hx_state = s, hx_vault = v, hx_disk = dk\<rparr>
     else case plan_all env s cfg fs (gm_keys (cf_Servers cfg)) (no_plans (va_Data v)) of
       Inl (e, st) \<Rightarrow> \<lparr>hx_error = Some e, hx_local = unchanged (ps_report st) fs, hx_state = s, hx_vault = v\<lparr>va_Data := ps_data st\<rparr>, hx_disk = dk\<rparr>
     | Inr st \<Rightarrow>
         (case confirm_backup env st s v dk of
            (Some e, s', v', dk') \<Rightarrow> \<lparr>hx_error = Some e, hx_local = unchanged (ps_report st) (hv_outside env fs), hx_state = s', hx_vault = v', hx_disk = dk'\<rparr>
          | (None, s', v', dk') \<Rightarrow>
              (case protect_all env (ps_plans st) (unchanged (ps_report st) (hv_outside env fs)) of
                 (Some e, h) \<Rightarrow> \<lparr>hx_error = Some e, hx_local = h, hx_state = s', hx_vault = v', hx_disk = dk'\<rparr>
               | (None, h) \<Rightarrow> let (e, h') = write_receipts env h in
                   \<lparr>hx_error = e, hx_local = h', hx_state = s', hx_vault = v', hx_disk = dk'\<rparr>)))"

section \<open>The confirmed backup\<close>

lemma protect_token_no_conflict: "protect_token env s dk = (Inl e, st) \<Longrightarrow> \<not> is_conflict e"
  by (auto simp: protect_token_def store_token_def store_migration_def Let_def split: option.splits sum.splits prod.splits if_splits)

lemma save_no_conflict: "saveWithStore env s dk = (Some e, s', dk') \<Longrightarrow> \<not> is_conflict e"
  by (auto simp: saveWithStore_def WritePrivate_def split: sum.splits option.splits prod.splits if_splits dest: protect_token_no_conflict)

lemma save_outcome: "saveWithStore env s dk = (e, s', dk') \<Longrightarrow> (\<exists>t. s' = s\<lparr>cs_TokenRef := t\<rparr>) \<and> (\<forall>x. e = Some x \<longrightarrow> \<not> is_conflict x)"
  using save_frame save_no_conflict by blast

lemma commit_pending:
  assumes "sync_commit env remote s v dk = (e, s', v', dk')"
  shows "cs_Pending s' = cs_Pending s \<or> cs_Pending s' = None \<or>
    (\<exists>req. cs_Pending s' = Some req \<and> Vault_Snapshot (se_cy env) (se_now env) (se_nonce env) (sp_Revision remote) (se_op env) v = (Inr req, v'))"
  using assms unfolding sync_commit_def
  by (auto split: sum.splits prod.splits option.splits if_splits dest!: save_frame save_vault_frame)

lemma commit_conflict:
  assumes "sync_commit env remote s v dk = (Some e, s', v', dk')" "is_conflict e"
  shows "cs_Dirty s' = cs_Dirty s"
  using assms unfolding sync_commit_def save_vault_def
  by (auto split: sum.splits prod.splits option.splits if_splits dest!: save_outcome)

lemma save_vault_conflict: "save_vault env s v dk = (Some x, s', v', dk') \<Longrightarrow> \<not> is_conflict x"
  by (auto simp: save_vault_def split: prod.splits dest: save_no_conflict)

lemma remote_conflict: "sync_remote env s v dk = (Some x, s', v', dk') \<Longrightarrow> is_conflict x \<Longrightarrow> cs_Dirty s' = cs_Dirty s"
  unfolding sync_remote_def by (auto split: sum.splits if_splits dest: save_vault_conflict commit_conflict)

lemma sync_conflict: "Sync env s v dk = (Some x, s', v', dk') \<Longrightarrow> is_conflict x \<Longrightarrow> cs_Dirty s' = cs_Dirty s"
  unfolding Sync_def sync_pending_def
  by (auto split: option.splits sum.splits if_splits dest: save_vault_conflict remote_conflict)

definition pending_holds :: "primitives \<Rightarrow> bytes \<Rightarrow> (cl_Data \<Rightarrow> bool) \<Rightarrow> State \<Rightarrow> bool" where
  "pending_holds cy master P s \<longleftrightarrow> (\<forall>p. cs_Pending s = Some p \<longrightarrow> (\<exists>d. blob_holds cy master (sp_Blob p) d \<and> P d))"

definition merge_keeps :: "(cl_Data \<Rightarrow> bool) \<Rightarrow> bool" where
  "merge_keeps P \<longleftrightarrow> (\<forall>dg vorder now base d remote m. P d \<longrightarrow> Merge dg vorder now base d remote = Inr m \<longrightarrow> P m)"

lemma blob_holds_unique: "blob_holds cy master blob d \<Longrightarrow> blob_holds cy master blob d' \<Longrightarrow> d = d'"
  by (auto simp: blob_holds_def)

definition sync_env_ok :: "primitives \<Rightarrow> sync_env \<Rightarrow> bool" where
  "sync_env_ok cy env \<longleftrightarrow> se_cy env = cy \<and> primitives_ok cy \<and> length (se_nonce env) = 12"

lemma commit_backed_up:
  assumes "sync_env_ok cy env" "P (va_Data v)" "cs_Dirty s" "cs_Pending s = None"
    "sync_commit env remote s v dk = (e, s', v', dk')"
  shows "P (va_Data v') \<and> va_Master v' = va_Master v \<and>
    (e = None \<longrightarrow> \<not> cs_Dirty s' \<and> blob_holds cy (va_Master v) (sp_Blob (cs_Base s')) (va_Data v')) \<and>
    (\<forall>x. e = Some x \<and> is_conflict x \<longrightarrow> cs_Dirty s' \<and> pending_holds cy (va_Master v) P s')"
proof -
  have sealed: "blob_holds cy (va_Master v) (sp_Blob req) (va_Data v)"
    if "Vault_Snapshot (se_cy env) (se_now env) (se_nonce env) (sp_Revision remote) (se_op env) v = (Inr req, w)" for req w
    using sealed_blob_holds[of cy "se_nonce env"] that assms(1) by (auto simp: sync_env_ok_def)
  have frame: "va_Data v' = va_Data v" "va_Master v' = va_Master v" using assms(5) by (auto elim: sync_commit_cases)
  have ok: "\<not> cs_Dirty s' \<and> blob_holds cy (va_Master v) (sp_Blob (cs_Base s')) (va_Data v')" if "e = None"
    using assms(5)
  proof (cases rule: sync_commit_cases)
    case (acked req out t)
    then show ?thesis using sealed[OF acked(3)] by simp
  qed (use that in simp)
  have "pending_holds cy (va_Master v) P s'"
    using commit_pending[OF assms(5)] sealed assms(2,4) by (auto simp: pending_holds_def)
  then show ?thesis using frame ok commit_conflict[of env remote s v dk _ s' v' dk'] assms(2,3,5) by auto
qed

lemma sync_backed_up:
  assumes "sync_env_ok cy env" "merge_keeps P" "P (va_Data v)" "cs_Dirty s" "pending_holds cy (va_Master v) P s"
    "Sync env s v dk = (e, s', v', dk')"
  shows "P (va_Data v') \<and> va_Master v' = va_Master v \<and>
    (e = None \<longrightarrow> \<not> cs_Dirty s' \<and> blob_holds cy (va_Master v) (sp_Blob (cs_Base s')) (va_Data v')) \<and>
    (\<forall>x. e = Some x \<and> is_conflict x \<longrightarrow> cs_Dirty s' \<and> pending_holds cy (va_Master v) P s')"
  using assms(6)
proof (cases rule: Sync_cases)
  case stopped
  then show ?thesis using assms(3-5) by auto
next
  case (retried p out w t)
  have w: "blob_holds cy (va_Master v) (sp_Blob p) (va_Data w)"
    using opened_blob_holds[OF retried(2)[unfolded open_snapshot_def]] retried(3) assms(1) by (simp add: sync_env_ok_def)
  then have "P (va_Data w)" using assms(5) retried(1) blob_holds_unique unfolding pending_holds_def by blast
  then show ?thesis using retried w assms(4,6) sync_conflict[of env s v dk _ s' v' dk'] by auto
next
  case remote
  let ?s = "s\<lparr>cs_Pending := None\<rparr>"
  from remote show ?thesis
  proof (cases rule: sync_remote_cases)
    case refused
    then show ?thesis using assms(3,4) by (auto simp: pending_holds_def)
  next
    case (fetched rem rv t)
    then show ?thesis using assms(4) by simp
  next
    case (merged rem rv bv m)
    have "P m" using assms(2,3) merged(5) unfolding merge_keeps_def by blast
    then show ?thesis using commit_backed_up[OF assms(1) _ _ _ merged(6), of P] assms(4) by simp
  qed
qed

lemma retry_backed_up:
  "SyncRetry_from envs c k s v dk = ((None, s', v', dk'), n) \<Longrightarrow> (\<And>j. sync_env_ok cy (envs j)) \<Longrightarrow> merge_keeps P \<Longrightarrow> P (va_Data v) \<Longrightarrow>
   cs_Dirty s \<Longrightarrow> pending_holds cy (va_Master v) P s \<Longrightarrow>
   P (va_Data v') \<and> \<not> cs_Dirty s' \<and> blob_holds cy (va_Master v) (sp_Blob (cs_Base s')) (va_Data v')"
proof (induction envs c k s v dk rule: SyncRetry_from.induct)
  case (1 envs c k s v dk)
  obtain e s1 v1 dk1 where y: "Sync (envs k) s v dk = (e, s1, v1, dk1)" using prod_cases4 by blast
  note step = sync_backed_up[OF 1(3)[of k] 1(4-7) y]
  show ?case
  proof (cases e)
    case None
    then show ?thesis using 1(2) y step by (simp add: SyncRetry_from.simps[of _ _ _ s])
  next
    case (Some x)
    then have x: "is_conflict x" "\<not> 4 \<le> k" "\<not> c k" and more: "SyncRetry_from envs c (Suc k) s1 v1 dk1 = ((None, s', v', dk'), n)"
      using 1(2) y by (simp_all add: SyncRetry_from.simps[of _ _ _ s] split: if_splits)
    from step x Some have "P (va_Data v1)" "cs_Dirty s1" "va_Master v1 = va_Master v" "pending_holds cy (va_Master v) P s1" by auto
    then show ?thesis
      using 1(1)[OF y[symmetric] Some refl refl _ x(3) more 1(3,4)] x by simp
  qed
qed

section \<open>What the vault holds\<close>

definition held :: "harden_env \<Rightarrow> cl_Data \<Rightarrow> cl_Credential \<Rightarrow> bool" where
  "held env d c \<longleftrightarrow> gm_lookup (vd_Credentials d) (dg_credential (hv_digests env) c) = Some c"

lemma held_back_up: "held env (back_up env c d) c' \<longleftrightarrow>
    (if dg_credential (hv_digests env) c' = dg_credential (hv_digests env) c then c' = c else held env d c')"
  by (auto simp: held_def back_up_def)

lemma held_attach [simp]: "held env (attach_replacement f i d) c = held env d c"
  by (simp add: held_def attach_replacement_def)

lemma merge_keeps_held: "merge_keeps (\<lambda>d. \<forall>c \<in> C. held env d c)"
  using merge_keeps_credentials[THEN conjunct2] unfolding merge_keeps_def held_def by fastforce

text \<open>The backups of a plan that will be carried out, among the credentials that satisfy \<open>H\<close>.\<close>

definition replacement_ok :: "harden_env \<Rightarrow> (cl_Credential \<Rightarrow> bool) \<Rightarrow> bytes \<Rightarrow> bytes \<Rightarrow> bytes \<Rightarrow> bytes \<Rightarrow> bool" where
  "replacement_ok env H b pass k public \<longleftrightarrow>
    H (key_backup env b pass public) \<and> hv_protect env k pass = Some b \<and> hv_public env k = Some public"

definition plan_ok :: "harden_env \<Rightarrow> State \<Rightarrow> (cl_Credential \<Rightarrow> bool) \<Rightarrow> keyPlan \<Rightarrow> bool" where
  "plan_ok env s H p \<longleftrightarrow> (\<forall>k public. kp_raw p = Some k \<longrightarrow> kp_public p = Some public \<longrightarrow>
    public_identity env (hv_parse env (kp_original p)) = Inr (Some public) \<and>
    (\<exists>pass. H (key_backup env (kp_original p) pass public)) \<and>
    (\<forall>b. kp_sidecar p = Some b \<longrightarrow> H (sidecar_backup env s (km_Path (kp_receipt p)) b)) \<and>
    (kp_replacement p \<noteq> [] \<longrightarrow> replacement_ok env H (kp_replacement p) (kp_pass p) k public))"

lemma plan_ok_mono: "plan_ok env s H p \<Longrightarrow> (\<And>c. H c \<Longrightarrow> H' c) \<Longrightarrow> plan_ok env s H' p"
  unfolding plan_ok_def replacement_ok_def by blast

lemma unlock_copy_public: "unlock_copy env public c = Some k \<Longrightarrow> hv_public env k = Some public"
  by (auto simp: unlock_copy_def split: option.splits if_splits)

lemma try_credential_public:
  "(\<forall>k. snd st = Some k \<longrightarrow> hv_public env k = Some public) \<Longrightarrow> snd (try_credential env original public c st) = Some k \<Longrightarrow> hv_public env k = Some public"
  by (auto simp: try_credential_def split: prod.splits if_splits dest: unlock_copy_public)

lemma try_credentials_public:
  assumes "try_credentials env d original public raw = (pass, Some k)" "\<And>k. raw = Some k \<Longrightarrow> hv_public env k = Some public"
  shows "hv_public env k = Some public"
proof -
  define f where "f = (\<lambda>i. case gm_lookup (vd_Credentials d) i of None \<Rightarrow> id | Some c \<Rightarrow> try_credential env original public c)"
  have step: "\<forall>k. snd (f i st) = Some k \<longrightarrow> hv_public env k = Some public" if "\<forall>k. snd st = Some k \<longrightarrow> hv_public env k = Some public" for i st
  proof (cases "gm_lookup (vd_Credentials d) i")
    case None
    then show ?thesis using that by (simp add: f_def)
  next
    case (Some c)
    then show ?thesis using try_credential_public[OF that] by (simp add: f_def)
  qed
  have fold: "\<forall>k. snd (fold f is st) = Some k \<longrightarrow> hv_public env k = Some public" if "\<forall>k. snd st = Some k \<longrightarrow> hv_public env k = Some public" for "is" st
    using that
  proof (induction "is" arbitrary: st)
    case (Cons i "is")
    from Cons.IH[OF step[OF Cons.prems]] show ?case by simp
  qed simp
  have "fold f (hv_order env (vd_Credentials d)) ([], raw) = (pass, Some k)" using assms(1) unfolding try_credentials_def f_def .
  then show ?thesis using fold[of "([], raw)" "hv_order env (vd_Credentials d)"] assms(2) by simp
qed

lemma plan_backups_result:
  assumes "plan_backups env s path original public pass p = (p', cs)"
  shows "key_backup env original pass public \<in> set cs" "\<forall>b. kp_sidecar p = Some b \<longrightarrow> sidecar_backup env s path b \<in> set cs"
    "\<exists>r. p' = p\<lparr>kp_receipt := r\<rparr> \<and> km_Path r = km_Path (kp_receipt p)"
  using assms by (auto simp: plan_backups_def Let_def split: option.splits)

definition plans_ok :: "harden_env \<Rightarrow> State \<Rightarrow> plan_state \<Rightarrow> bool" where
  "plans_ok env s st \<longleftrightarrow> (\<forall>p \<in> set (ps_plans st). plan_ok env s (\<lambda>c. c \<in> set (ps_stored st)) p)"

lemma plans_ok_add:
  assumes "plans_ok env s st" "ps_plans st' = ps_plans st" "set (ps_stored st) \<subseteq> set (ps_stored st')" "plan_ok env s (\<lambda>c. c \<in> set (ps_stored st')) p"
  shows "plans_ok env s (add_plan p st')"
proof -
  have "plan_ok env s (\<lambda>c. c \<in> set (ps_stored st')) q" if "q \<in> set (ps_plans st)" for q
    using plan_ok_mono[of env s "\<lambda>c. c \<in> set (ps_stored st)" q "\<lambda>c. c \<in> set (ps_stored st')"] that assms(1,3) unfolding plans_ok_def by blast
  then show ?thesis using assms(2,4) by (auto simp: plans_ok_def add_plan_def)
qed

lemma plans_ok_retain [simp]: "plans_ok env s (ps_retain al why st) = plans_ok env s st"
  by (simp add: plans_ok_def ps_retain_def)

lemma stored_sel [simp]:
  "ps_stored (store_credentials env cs st) = ps_stored st @ cs" "ps_plans (store_credentials env cs st) = ps_plans st"
  by (simp_all add: store_credentials_def)

lemma plan_key_ok:
  assumes "plan_key env s fs al path original public p0 st = Inr st'" "plans_ok env s st"
    "kp_original p0 = original" "km_Path (kp_receipt p0) = path" "kp_replacement p0 = []"
    "public_identity env (hv_parse env original) = Inr (Some public)" "\<And>k. kp_raw p0 = Some k \<Longrightarrow> hv_public env k = Some public"
  shows "plans_ok env s st'"
proof -
  define p1 where "p1 = p0\<lparr>kp_public := Some public, kp_sidecar := read_sidecar env fs (passphrase_path path)\<rparr>"
  obtain pass raw where t: "try_credentials env (ps_data st) original public (kp_raw p1) = (pass, raw)" by (rule prod.exhaust)
  obtain p2 cs where b: "plan_backups env s path original public pass p1 = (p2, cs)" by (rule prod.exhaust)
  note r = plan_backups_result[OF b]
  from r(3) obtain rc where p2: "p2 = p1\<lparr>kp_receipt := rc\<rparr>" "km_Path rc = path" using assms(4) by (auto simp: p1_def)
  let ?st = "store_credentials env cs st"
  have base: "plan_ok env s (\<lambda>c. c \<in> set (ps_stored ?st)) (p2\<lparr>kp_raw := raw, kp_pass := x\<rparr>)" for x
    using r(1,2) assms(3,5,6) p2(2) by (auto simp: plan_ok_def p2(1) p1_def)
  note added = plans_ok_add[OF assms(2), of ?st, simplified]
  show ?thesis
  proof (cases raw)
    case None
    then have "plan_ok env s (\<lambda>c. c \<in> set (ps_stored ?st)) (p2\<lparr>kp_raw := raw\<rparr>)" by (simp add: plan_ok_def)
    then show ?thesis using assms(1) t b None added by (auto simp: plan_key_def Let_def p1_def[symmetric])
  next
    case (Some k)
    have pub: "hv_public env k = Some public" using try_credentials_public[OF t[unfolded Some]] assms(7) by (simp add: p1_def)
    show ?thesis
    proof (cases "kp_raw p1 \<noteq> None \<or> kp_sidecar p1 \<noteq> None \<or> pass = []")
      case True
      define new where "new = EncodeToString (hv_random env path)"
      obtain q where q: "hv_protect env k new = Some q" using assms(1) t b Some True
        by (cases "hv_protect env k new") (auto simp: plan_key_def Let_def p1_def[symmetric] new_def)
      let ?c = "key_backup env q new public" and ?i = "dg_credential (hv_digests env) (key_backup env q new public)"
      let ?st2 = "store_credentials env [?c] ?st"
      let ?st3 = "?st2\<lparr>ps_data := attach_replacement (hv_fingerprint env public) ?i (ps_data ?st2)\<rparr>"
      let ?p = "p2\<lparr>kp_raw := Some k, kp_pass := new, kp_replacement := q, kp_receipt := rc\<lparr>km_Replacement := ?i\<rparr>\<rparr>"
      have st': "st' = add_plan ?p ?st3" using assms(1) t b Some True q
        by (simp add: plan_key_def Let_def p1_def[symmetric] new_def add_replacement_def p2(1) split: prod.splits)
      have "plan_ok env s (\<lambda>c. c \<in> set (ps_stored ?st3)) (p2\<lparr>kp_raw := raw, kp_pass := new\<rparr>)" by (rule plan_ok_mono[OF base]) auto
      moreover have "replacement_ok env (\<lambda>c. c \<in> set (ps_stored ?st3)) q new k public" using q pub by (simp add: replacement_ok_def)
      ultimately have "plan_ok env s (\<lambda>c. c \<in> set (ps_stored ?st3)) ?p" using p2(2) Some by (simp add: plan_ok_def p2(1) p1_def)
      then show ?thesis unfolding st' by (intro plans_ok_add[OF assms(2)]) auto
    next
      case False
      then show ?thesis using assms(1) t b Some added base[of pass] by (auto simp: plan_key_def Let_def p1_def[symmetric])
    qed
  qed
qed

lemma plan_ok_unused: "kp_raw p = None \<Longrightarrow> plan_ok env s d p"
  by (simp add: plan_ok_def)

lemma plans_ok_unused: "plans_ok env s st \<Longrightarrow> kp_raw p = None \<Longrightarrow> plans_ok env s (add_plan p st)"
  by (auto simp: plans_ok_def add_plan_def plan_ok_unused)

lemma plan_file_ok:
  assumes "plan_file env s fs al path st = Inr st'" "plans_ok env s st"
  shows "plans_ok env s st'"
proof (cases "fs path")
  case None
  then show ?thesis using assms(1,2) by (auto simp: plan_file_def)
next
  case (Some original)
  show ?thesis
  proof (cases "\<not> hv_regular env path \<or> 1024 * 1024 < length original")
    case True
    then show ?thesis using assms(1,2) Some by (auto simp: plan_file_def)
  next
    case False
    let ?raw = "case hv_parse env original of RawKey k \<Rightarrow> Some k | _ \<Rightarrow> None"
    let ?p = "(new_plan al path original)\<lparr>kp_raw := ?raw\<rparr>"
    have r: "\<not> hv_read_fails env path" using assms(1) Some False by (auto simp: plan_file_def)
    show ?thesis
    proof (cases "public_identity env (hv_parse env original)")
      case (Inl e)
      then show ?thesis using assms(1) Some False r by (simp add: plan_file_def)
    next
      case pub: (Inr pub)
      show ?thesis
      proof (cases pub)
        case None
        then have "?raw = None" using pub by (auto simp: public_identity_def split: raw_parse.splits option.splits)
        then have "plans_ok env s (add_plan ?p st)" using plans_ok_unused[OF assms(2)] by simp
        then show ?thesis using assms(1) Some False r pub None by (auto simp: plan_file_def Let_def)
      next
        case public: (Some public)
        have k: "plan_key env s fs al path original public ?p st = Inr st'" using assms(1) Some False r pub public by (simp add: plan_file_def)
        have "hv_public env k = Some public" if "?raw = Some k" for k
          using that pub public by (auto simp: public_identity_def split: raw_parse.splits option.splits)
        then show ?thesis using plan_key_ok[OF k assms(2)] pub public by (simp add: new_plan_def)
      qed
    qed
  qed
qed

lemma plan_alias_ok:
  assumes "plan_alias env s cfg fs al st = Inr st'" "plans_ok env s st"
  shows "plans_ok env s st'"
proof -
  have "plans_ok env s (st\<lparr>ps_seen := x\<rparr>)" for x using assms(2) by (simp add: plans_ok_def)
  then show ?thesis using assms plan_file_ok by (auto simp: plan_alias_def Let_def split: option.splits if_splits)
qed

lemma plan_all_ok:
  "plan_all env s cfg fs als st = Inr st' \<Longrightarrow> plans_ok env s st \<Longrightarrow> plans_ok env s st'"
  by (induction als arbitrary: st) (auto simp: bind_result_eq_Inr dest: plan_alias_ok)

text \<open>Whatever was stored is still there, unless a later credential had the same digest.\<close>

definition stored_ok :: "harden_env \<Rightarrow> plan_state \<Rightarrow> bool" where
  "stored_ok env st \<longleftrightarrow> (inj_on (dg_credential (hv_digests env)) (set (ps_stored st)) \<longrightarrow> (\<forall>c \<in> set (ps_stored st). held env (ps_data st) c))"

lemma stored_ok_store: "stored_ok env st \<Longrightarrow> stored_ok env (store_credentials env cs st)"
proof (induction cs arbitrary: st)
  case Nil
  then show ?case by (simp add: store_credentials_def stored_ok_def)
next
  case (Cons c cs)
  have "stored_ok env (store_credentials env [c] st)"
    using Cons.prems by (auto simp: stored_ok_def store_credentials_def held_back_up inj_on_def)
  from Cons.IH[OF this] show ?case by (simp add: store_credentials_def)
qed

lemma stored_ok_frame: "ps_stored st' = ps_stored st \<Longrightarrow> ps_data st' = ps_data st \<Longrightarrow> stored_ok env st' = stored_ok env st"
  by (simp add: stored_ok_def)

lemma stored_sel2 [simp]:
  "ps_stored (add_plan p st) = ps_stored st" "ps_data (add_plan p st) = ps_data st"
  "ps_stored (ps_retain al why st) = ps_stored st" "ps_data (ps_retain al why st) = ps_data st"
  by (simp_all add: add_plan_def ps_retain_def)

lemma stored_ok_simps [simp]:
  "stored_ok env (add_plan p st) = stored_ok env st" "stored_ok env (ps_retain al why st) = stored_ok env st"
  "stored_ok env (st\<lparr>ps_seen := x\<rparr>) = stored_ok env st"
  "stored_ok env (st\<lparr>ps_data := attach_replacement f i (ps_data st)\<rparr>) = stored_ok env st"
  by (simp_all add: stored_ok_def)

lemma plan_key_stored: "plan_key env s fs al path original public p0 st = Inr st' \<Longrightarrow> stored_ok env st \<Longrightarrow> stored_ok env st'"
  unfolding plan_key_def add_replacement_def Let_def
  by (auto split: prod.splits option.splits if_splits intro!: stored_ok_store)

lemma plan_alias_stored: "plan_alias env s cfg fs al st = Inr st' \<Longrightarrow> stored_ok env st \<Longrightarrow> stored_ok env st'"
  unfolding plan_alias_def plan_file_def Let_def
  by (auto split: option.splits sum.splits if_splits dest!: plan_key_stored)

lemma plan_all_stored: "plan_all env s cfg fs als st = Inr st' \<Longrightarrow> stored_ok env st \<Longrightarrow> stored_ok env st'"
  by (induction als arbitrary: st) (auto simp: bind_result_eq_Inr dest: plan_alias_stored)

section \<open>What is overwritten\<close>

text \<open>A content that the vault holds, as a key or as the copy of a sidecar.\<close>

definition saved_in :: "harden_env \<Rightarrow> (cl_Credential \<Rightarrow> bool) \<Rightarrow> bytes \<Rightarrow> bool" where
  "saved_in env H b \<longleftrightarrow> (\<exists>c. H c \<and> (cc_Kind c = ''key'' \<and> cc_Key c = b \<or> cc_Kind c = ''password'' \<and> cc_Password c = b))"

text \<open>What may replace a key file: a copy under a passphrase that the vault holds, of a key with the same public half.\<close>

definition same_identity :: "harden_env \<Rightarrow> (cl_Credential \<Rightarrow> bool) \<Rightarrow> bytes \<Rightarrow> bytes \<Rightarrow> bool" where
  "same_identity env H old new \<longleftrightarrow> (\<exists>pass k public. public_identity env (hv_parse env old) = Inr (Some public) \<and> replacement_ok env H new pass k public)"

fun change_ok :: "harden_env \<Rightarrow> (cl_Credential \<Rightarrow> bool) \<Rightarrow> change \<Rightarrow> bool" where
  "change_ok env H (Change path None new) \<longleftrightarrow> True"
| "change_ok env H (Change path (Some old) new) \<longleftrightarrow> path = hv_receipts_path env \<or> saved_in env H old \<and>
     (case new of None \<Rightarrow> True | Some b \<Rightarrow> same_identity env H old b \<or> same_identity env H b old)"

text \<open>The files are what the changes make of those found.\<close>

definition replays :: "files \<Rightarrow> harden_state \<Rightarrow> bool" where
  "replays fs st \<longleftrightarrow> hs_files st = fold (\<lambda>ch f. case ch of Change path _ new \<Rightarrow> f(path := new)) (hs_changes st) fs"

definition safe_changes :: "harden_env \<Rightarrow> (cl_Credential \<Rightarrow> bool) \<Rightarrow> files \<Rightarrow> harden_state \<Rightarrow> bool" where
  "safe_changes env H fs st \<longleftrightarrow> replays fs st \<and> (\<forall>ch \<in> set (hs_changes st). change_ok env H ch)"

lemma safe_put: "safe_changes env H fs st \<Longrightarrow> change_ok env H (Change path (hs_files st path) b) \<Longrightarrow> safe_changes env H fs (put_file path b st)"
  by (auto simp: safe_changes_def replays_def put_file_def)

lemma safe_report:
  "safe_changes env H fs (hs_retain al why st) = safe_changes env H fs st" "safe_changes env H fs (count_encrypted n st) = safe_changes env H fs st"
  "safe_changes env H fs (add_receipt x p st) = safe_changes env H fs st" "safe_changes env H fs (st\<lparr>hs_report := r\<rparr>) = safe_changes env H fs st"
  by (simp_all add: safe_changes_def replays_def hs_retain_def count_encrypted_def add_receipt_def)

lemma files_report [simp]:
  "hs_files (count_encrypted n st) = hs_files st" "hs_files (put_file path b st) = (hs_files st)(path := b)"
  by (simp_all add: count_encrypted_def put_file_def)

lemma write_file_result:
  assumes "write_file env w path b st = (e, st')"
  shows "st' = st \<and> e \<noteq> None \<or> st' = put_file path (Some b) st \<and> e = None"
  using assms by (auto simp: write_file_def WritePrivate_def split: option.splits)

lemma replace_key_safe:
  assumes "replace_key env p st = (e, st')" "plan_ok env s H p" "kp_raw p = Some k" "kp_public p = Some public" "safe_changes env H fs st"
    "hs_files st (km_Path (kp_receipt p)) = Some (kp_original p)"
  shows "safe_changes env H fs st'" "e = None \<Longrightarrow> kp_replacement p \<noteq> [] \<Longrightarrow> hs_files st' (km_Path (kp_receipt p)) = Some (kp_replacement p)"
proof -
  have old: "saved_in env H (kp_original p)" using assms(2-4) by (auto simp: plan_ok_def saved_in_def key_backup_def)
  have "same_identity env H (kp_original p) (kp_replacement p)" if "kp_replacement p \<noteq> []"
    using assms(2-4) that unfolding plan_ok_def same_identity_def by blast
  then show "safe_changes env H fs st'"
    using assms(1,5,6) old write_file_result[of env ReplaceKey]
    by (fastforce simp: replace_key_def safe_report split: if_splits prod.splits option.splits intro!: safe_put)
  show "e = None \<Longrightarrow> kp_replacement p \<noteq> [] \<Longrightarrow> hs_files st' (km_Path (kp_receipt p)) = Some (kp_replacement p)"
    using assms(1) write_file_result[of env ReplaceKey]
    by (fastforce simp: replace_key_def split: if_splits prod.splits option.splits)
qed

lemma write_public_safe:
  assumes "write_public env path public st = (e, st')" "safe_changes env H fs st"
  shows "safe_changes env H fs st'" "hs_files st' path = hs_files st path"
proof -
  consider "st' = st" | "hs_files st (public_path path) = None" "st' = put_file (public_path path) (Some (hv_authorized env public)) st"
    using assms(1) write_file_result[of env WritePublic]
    by (fastforce simp: write_public_def split: if_splits prod.splits option.splits)
  then show "safe_changes env H fs st'" "hs_files st' path = hs_files st path"
    using assms(2) by (cases; auto simp: public_path_def intro!: safe_put)+
qed

lemma restore_key_safe:
  assumes "plan_ok env s H p" "kp_raw p = Some k" "kp_public p = Some public" "safe_changes env H fs st"
    "kp_replacement p \<noteq> [] \<Longrightarrow> hs_files st (km_Path (kp_receipt p)) = Some (kp_replacement p)"
  shows "safe_changes env H fs (restore_key env p st)"
proof (cases "kp_replacement p = []")
  case False
  have r: "replacement_ok env H (kp_replacement p) (kp_pass p) k public"
    "public_identity env (hv_parse env (kp_original p)) = Inr (Some public)" using assms(1-3) False unfolding plan_ok_def by auto
  then have "saved_in env H (kp_replacement p)" by (auto simp: saved_in_def replacement_ok_def key_backup_def)
  moreover have "same_identity env H (kp_original p) (kp_replacement p)" using r unfolding same_identity_def by blast
  ultimately have "safe_changes env H fs (put_file (km_Path (kp_receipt p)) (Some (kp_original p)) st)"
    using assms(4,5) False by (intro safe_put) auto
  moreover have "snd (write_file env RestoreKey path b st) = st \<or> snd (write_file env RestoreKey path b st) = put_file path (Some b) st" for path b
    using write_file_result[of env RestoreKey path b st, OF surjective_pairing] by blast
  ultimately have "safe_changes env H fs (snd (write_file env RestoreKey (km_Path (kp_receipt p)) (kp_original p) st))" using assms(4) by metis
  then show ?thesis using False by (simp add: restore_key_def safe_report)
qed (simp add: restore_key_def assms(4))

lemma remove_sidecar_safe:
  assumes "remove_sidecar env p st = (e, st')" "plan_ok env s H p" "kp_raw p = Some k" "kp_public p = Some public" "safe_changes env H fs st"
  shows "safe_changes env H fs st'"
proof (cases "kp_sidecar p")
  case None
  then show ?thesis using assms(1,5) by (simp add: remove_sidecar_def)
next
  case (Some b)
  have "saved_in env H b" using assms(2-4) Some unfolding plan_ok_def saved_in_def by (auto simp: sidecar_backup_def)
  then have "safe_changes env H fs (put_file (passphrase_path (km_Path (kp_receipt p))) None st)"
    if "hs_files st (passphrase_path (km_Path (kp_receipt p))) = Some b" using assms(5) that by (intro safe_put) auto
  then show ?thesis using assms(1,5) Some by (auto simp: remove_sidecar_def Let_def safe_report split: if_splits)
qed

lemma protect_key_safe:
  assumes "protect_key env p public st = (e, st')" "plan_ok env s H p" "kp_raw p = Some k" "kp_public p = Some public" "safe_changes env H fs st"
    "hs_files st (km_Path (kp_receipt p)) = Some (kp_original p)"
  shows "safe_changes env H fs st'"
proof -
  let ?path = "km_Path (kp_receipt p)"
  let ?st = "st\<lparr>hs_report := (hs_report st)\<lparr>hr_AgentLoaded := hr_AgentLoaded (hs_report st) + 1\<rparr>\<rparr>"
  obtain e1 st1 where r: "replace_key env p ?st = (e1, st1)" by (rule prod.exhaust)
  have safe: "safe_changes env H fs ?st" "hs_files ?st ?path = Some (kp_original p)" using assms(5,6) by (simp_all add: safe_report)
  note r' = replace_key_safe[OF r assms(2-4) safe]
  obtain e2 st2 where w: "write_public env ?path public st1 = (e2, st2)" by (rule prod.exhaust)
  note w' = write_public_safe[OF w r'(1)]
  obtain e3 st3 where x: "remove_sidecar env p st2 = (e3, st3)" by (rule prod.exhaust)
  note x' = remove_sidecar_safe[OF x assms(2-4) w'(1)]
  have restored: "safe_changes env H fs (restore_key env p st2)" if "e1 = None"
    using restore_key_safe[OF assms(2-4) w'(1)] w'(2) r'(2)[OF that] by simp
  show ?thesis using assms(1) r r'(1) w w'(1) x x' restored
    by (auto simp: protect_key_def Let_def safe_report split: option.splits if_splits)
qed

lemma protect_plan_safe:
  assumes "protect_plan env p st = (e, st')" "plan_ok env s H p" "safe_changes env H fs st"
  shows "safe_changes env H fs st'"
  using assms protect_key_safe[OF _ assms(2) _ _ assms(3)]
  by (auto simp: protect_plan_def Let_def safe_report split: option.splits if_splits)

lemma protect_all_safe:
  "protect_all env ps st = (e, st') \<Longrightarrow> \<forall>p \<in> set ps. plan_ok env s H p \<Longrightarrow> safe_changes env H fs st \<Longrightarrow> safe_changes env H fs st'"
  by (induction ps arbitrary: st) (auto split: prod.splits option.splits dest: protect_plan_safe)

lemma write_receipts_safe:
  assumes "write_receipts env st = (e, st')" "safe_changes env H fs st"
  shows "safe_changes env H fs st'"
proof -
  have "change_ok env H (Change (hv_receipts_path env) old new)" for old new by (cases old) simp_all
  then show ?thesis using assms write_file_result[of env WriteReceipts]
    by (fastforce simp: write_receipts_def split: option.splits prod.splits intro!: safe_put)
qed

lemma drafted:
  assumes "SaveDraft env v s dk = (None, s', v', dk')"
  shows "cs_Dirty s'" "cs_Pending s' = None" "va_Data v' = va_Data v" "va_Master v' = va_Master v"
  using assms by (auto simp: SaveDraft_def split: if_splits prod.splits sum.splits dest!: save_frame Vault_Snapshot_frame)

lemma confirmed:
  assumes "confirm_backup env st s v dk = (None, s', v', dk')" "\<And>j. sync_env_ok cy (hv_syncs env j)"
  shows "\<not> cs_Dirty s'" "blob_holds cy (va_Master v) (sp_Blob (cs_Base s')) (va_Data v')" "\<forall>c. held env (ps_data st) c \<longrightarrow> held env (va_Data v') c"
proof -
  from assms(1) obtain s1 v1 dk1 n where d: "SaveDraft (hv_draft env) (v\<lparr>va_Data := ps_data st\<rparr>) s dk = (None, s1, v1, dk1)"
    and r: "SyncRetry_from (hv_syncs env) (hv_cancelled env) 0 s1 v1 dk1 = ((None, s', v', dk'), n)"
    by (auto simp: confirm_backup_def SyncRetry_def split: prod.splits option.splits)
  note d' = drafted[OF d]
  let ?C = "{c. held env (ps_data st) c}"
  have "pending_holds cy (va_Master v1) (\<lambda>d. \<forall>c \<in> ?C. held env d c) s1" using d'(2) by (simp add: pending_holds_def)
  from retry_backed_up[OF r assms(2) merge_keeps_held[where env = env and C = ?C] _ d'(1) this] d'(3,4)
  show "\<not> cs_Dirty s'" "blob_holds cy (va_Master v) (sp_Blob (cs_Base s')) (va_Data v')" "\<forall>c. held env (ps_data st) c \<longrightarrow> held env (va_Data v') c"
    by auto
qed

section \<open>Properties\<close>

text \<open>The credentials that the planning stores in the vault.\<close>

definition planned_backups :: "harden_env \<Rightarrow> State \<Rightarrow> Vault \<Rightarrow> Config \<Rightarrow> files \<Rightarrow> cl_Credential set" where
  "planned_backups env s v cfg fs =
    (case plan_all env s cfg fs (gm_keys (cf_Servers cfg)) (no_plans (va_Data v)) of Inl _ \<Rightarrow> {} | Inr st \<Rightarrow> set (ps_stored st))"


section \<open>Witness\<close>

text \<open>The device of \<open>alice\<close> has one unprotected key; the service takes the backup.\<close>

definition old_backup :: cl_Credential where
  "old_backup = \<lparr>cc_Kind = ''key'', cc_Key = ''old'', cc_Passphrase = [], cc_Password = [], cc_Fingerprint = ''F''\<rparr>"

definition new_backup :: cl_Credential where
  "new_backup = \<lparr>cc_Kind = ''key'', cc_Key = ''new'', cc_Passphrase = EncodeToString ''r'', cc_Password = [], cc_Fingerprint = ''F''\<rparr>"

definition hard_data :: cl_Data where
  "hard_data = NewData\<lparr>vd_Credentials := gm_update ''protected'' new_backup (gm_update ''original'' old_backup gm_empty)\<rparr>"

definition hard_envelope :: Envelope where
  "hard_envelope = Cloud_Vault.demo_envelope\<lparr>en_Ciphertext := EncodeToString (replicate 16 (CHR ''t'') @ ''H'')\<rparr>"

definition hard_primitives :: primitives where
  "hard_primitives = demo_primitives\<lparr>
     cy_marshal_data := \<lambda>d. if d = NewData then Some ''D'' else if d = hard_data then Some ''H'' else None,
     cy_unmarshal_data := \<lambda>b. if b = ''D'' then Some NewData else if b = ''H'' then Some hard_data else None,
     cy_marshal_env := \<lambda>e. if e = Cloud_Vault.demo_envelope then Some ''E'' else if e = hard_envelope then Some ''X'' else None,
     cy_unmarshal_env := \<lambda>b. if b = ''E'' then Some Cloud_Vault.demo_envelope else if b = ''X'' then Some hard_envelope else None\<rparr>"

lemma hard_primitives_ok: "primitives_ok hard_primitives"
  using demo_primitives_ok by (auto simp: primitives_ok_def hard_primitives_def)

definition hard_snapshot :: cl_Snapshot where
  "hard_snapshot = \<lparr>sp_Revision = 0, sp_BaseRevision = 0, sp_OperationID = ''op'', sp_Blob = ''X'',
     sp_Signature = EncodeToString (syncMessage ''alice'' 0 ''op'' ''X''), sp_RootPublic = EncodeToString (replicate 32 (CHR ''h''))\<rparr>"

definition hard_sync :: sync_env where
  "hard_sync = demo_sync_env\<lparr>se_cy := hard_primitives, se_http := \<lambda>call rq. Reply 200 (if call = 1 then ''G'' else ''A'') True,
     se_unmarshal_snapshot := \<lambda>b. if b = ''G'' then Some demo_snapshot else Some (hard_snapshot\<lparr>sp_Revision := 1\<rparr>),
     se_marshal_state := \<lambda>_. Some ''st''\<rparr>"

definition hard_account :: State where
  "hard_account = fresh_account\<lparr>cs_Base := demo_snapshot, cs_Draft := demo_snapshot\<rparr>"

definition hard_files :: files where
  "hard_files = (\<lambda>p. if p = ''/k'' then Some ''old'' else None)"

definition hard_config :: Config where
  "hard_config = New\<lparr>cf_Servers := gm_update ''web'' (Some (zero_server\<lparr>sv_Auth := AuthKey, sv_KeyPath := ''/k''\<rparr>)) gm_empty\<rparr>"

definition hard_env :: harden_env where
  "hard_env = \<lparr>hv_agent = True, hv_home = None, hv_regular = \<lambda>_. True, hv_read_fails = \<lambda>_. False, hv_partial = \<lambda>_. None, hv_reread_fails = \<lambda>_. False,
     hv_order = gm_keys, hv_parse = \<lambda>b. if b = ''old'' then RawKey ''K'' else raw_parse.BadKey, hv_parse_with = \<lambda>_ _. None, hv_public = \<lambda>_. Some ''P'',
     hv_fingerprint = \<lambda>_. ''F'', hv_authorized = \<lambda>_. ''ssh-ed25519 P'', hv_random = \<lambda>_. ''r'', hv_protect = \<lambda>_ _. Some ''new'',
     hv_digests = (se_dg demo_sync_env)\<lparr>dg_credential := \<lambda>c. if cc_Key c = ''old'' then ''original'' else ''protected''\<rparr>,
     hv_draft = hard_sync, hv_syncs = \<lambda>_. hard_sync, hv_cancelled = \<lambda>_. False, hv_outside = \<lambda>f. f, hv_proves = \<lambda>_ _. True,
     hv_write_fails = \<lambda>_ _ _. False, hv_usable = \<lambda>_ _. True, hv_stat_fails = \<lambda>_. False, hv_remove_fails = \<lambda>_. False,
     hv_receipts = \<lambda>_. Some ''receipts'', hv_receipts_path = ''/m.json''\<rparr>"

definition hard_plan :: keyPlan where
  "hard_plan = \<lparr>kp_receipt = \<lparr>km_Alias = ''web'', km_Path = ''/k'', km_Original = ''original'', km_Recovery = [], km_Replacement = ''protected'', km_Status = []\<rparr>,
     kp_original = ''old'', kp_sidecar = None, kp_replacement = ''new'', kp_pass = EncodeToString ''r'', kp_raw = Some ''K'', kp_public = Some ''P''\<rparr>"

lemma gm_map_empty: "gm_map f gm_empty = gm_empty"
  by (simp add: gm_eq_iff)

lemma hard_backups: "key_backup hard_env ''old'' [] ''P'' = old_backup" "key_backup hard_env ''new'' (EncodeToString ''r'') ''P'' = new_backup"
  by (simp_all add: key_backup_def old_backup_def new_backup_def hard_env_def)

lemma hard_planned: "plan_all hard_env s hard_config hard_files (gm_keys (cf_Servers hard_config)) (no_plans NewData) =
    Inr \<lparr>ps_report = empty_report, ps_seen = [''/k''], ps_plans = [hard_plan], ps_data = hard_data, ps_stored = [old_backup, new_backup]\<rparr>"
proof -
  have p: "path_Clean ''/k'' = ''/k''" "passphrase_path ''/k'' = ''/k.passphrase''" by code_simp+
  have c: "gm_keys (cf_Servers hard_config) = [''web'']" "server_at (cf_Servers hard_config) ''web'' = Some (zero_server\<lparr>sv_Auth := AuthKey, sv_KeyPath := ''/k''\<rparr>)"
    by (simp_all add: hard_config_def server_at_def gm_keys_update)
  have f: "hard_files ''/k'' = Some ''old''" "read_sidecar hard_env hard_files ''/k.passphrase'' = None" by (simp_all add: hard_files_def read_sidecar_def)
  have r: "dg_credential (hv_digests hard_env) old_backup = ''original''" "dg_credential (hv_digests hard_env) new_backup = ''protected''"
    by (simp_all add: hard_env_def old_backup_def new_backup_def)
  have e: "hv_ExpandHome hard_env ''/k'' = Some ''/k''" "hv_regular hard_env x" "\<not> hv_read_fails hard_env x" "hv_parse hard_env ''old'' = RawKey ''K''"
    "public_identity hard_env (RawKey ''K'') = Inr (Some ''P'')" "try_credentials hard_env NewData ''old'' ''P'' (Some ''K'') = ([], Some ''K'')"
    "hv_protect hard_env y z = Some ''new''" "hv_random hard_env x = ''r''" "hv_fingerprint hard_env x = ''F''" for x y z
    by (simp_all add: hv_ExpandHome_def HasPrefix_def public_identity_def try_credentials_def hard_env_def NewData_def)
  have d: "attach_replacement ''F'' ''protected'' (back_up hard_env new_backup (back_up hard_env old_backup NewData)) = hard_data"
    by (simp add: attach_replacement_def back_up_def r hard_data_def NewData_def gm_map_empty)
  have k: "plan_key hard_env s hard_files ''web'' ''/k'' ''old'' ''P'' ((new_plan ''web'' ''/k'' ''old'')\<lparr>kp_raw := Some ''K''\<rparr>)
      ((no_plans NewData)\<lparr>ps_seen := [''/k'']\<rparr>) =
    Inr \<lparr>ps_report = empty_report, ps_seen = [''/k''], ps_plans = [hard_plan], ps_data = hard_data, ps_stored = [old_backup, new_backup]\<rparr>"
    by (simp add: plan_key_def new_plan_def no_plans_def p f e plan_backups_def hard_backups r store_credentials_def add_replacement_def d add_plan_def hard_plan_def)
  have "plan_file hard_env s hard_files ''web'' ''/k'' ((no_plans NewData)\<lparr>ps_seen := [''/k'']\<rparr>) =
    Inr \<lparr>ps_report = empty_report, ps_seen = [''/k''], ps_plans = [hard_plan], ps_data = hard_data, ps_stored = [old_backup, new_backup]\<rparr>"
    using k by (simp add: plan_file_def f e)
  then have "plan_alias hard_env s hard_config hard_files ''web'' (no_plans NewData) =
    Inr \<lparr>ps_report = empty_report, ps_seen = [''/k''], ps_plans = [hard_plan], ps_data = hard_data, ps_stored = [old_backup, new_backup]\<rparr>"
    by (simp add: plan_alias_def c e p zero_server_def no_plans_def)
  then show ?thesis by (simp add: c)
qed

lemma hard_agent: "hv_agent hard_env" "hv_outside hard_env f = f"
  by (simp_all add: hard_env_def)

lemma hard_keys: "gm_keys (gm_update ''protected'' x (gm_update ''original'' y gm_empty)) = [''original'', ''protected'']"
  by code_simp

lemma hard_data_valid: "Data_Validate 0 hard_data = None"
proof -
  have "validID ''original''" "validID ''protected''" "length (EncodeToString ''r'') = 2" by code_simp+
  then have "credential_ok ''original'' old_backup = None" "credential_ok ''protected'' new_backup = None"
    by (simp_all add: credential_ok_def old_backup_def new_backup_def)
  then have "check_map credential_ok (vd_Credentials hard_data) = None"
    by (simp add: check_map_def hard_data_def hard_keys)
  then show ?thesis by (simp add: Data_Validate_def hard_data_def NewData_def check_map_def gm_len_def hard_keys)
qed

lemma hard_merge: "Merge (se_dg hard_sync) (se_vorder hard_sync) 0 NewData hard_data NewData = Inr hard_data"
proof -
  have c: "merge_credentials (vd_Credentials hard_data) (gm_keys (vd_Credentials hard_data)) gm_empty = Some (vd_Credentials hard_data)"
    by (simp add: hard_data_def hard_keys)
  have f: "gm_filter P gm_empty = gm_empty" for P :: "string \<Rightarrow> Activity \<Rightarrow> bool" by (simp add: gm_eq_iff)
  have m: "merge_start NewData hard_data NewData (vd_Credentials hard_data) = hard_data"
    by (simp add: merge_start_def all_keys_def hard_data_def NewData_def)
  have e: "vd_Credentials NewData = gm_empty" "vd_Entries NewData = gm_empty" "vd_Entries hard_data = gm_empty" "vd_Conflicts hard_data = gm_empty"
    "vd_Activity hard_data = gm_empty" "hard_data\<lparr>vd_Activity := gm_empty\<rparr> = hard_data"
    by (simp_all add: hard_data_def NewData_def)
  show ?thesis using hard_data_valid by (simp add: Merge_def c m e all_keys_def RepairCompatibleConflicts_def f)
qed

lemma hard_data_new: "hard_data \<noteq> NewData"
proof
  assume "hard_data = NewData"
  then have "gm_lookup (vd_Credentials hard_data) ''original'' = gm_lookup (vd_Credentials NewData) ''original''" by simp
  then show False by (simp add: hard_data_def NewData_def)
qed

lemma hard_open:
  "UnlockMaster hard_primitives 0 ''alice'' demo_snapshot (vr_master demo_random) = Inr (demo_vault\<lparr>va_Envelope := Cloud_Vault.demo_envelope\<rparr>)"
proof -
  have "parseEnvelope hard_primitives ''alice'' demo_snapshot = Some Cloud_Vault.demo_envelope"
    by (simp add: parseEnvelope_def demo_snapshot_def MaxBlob_def hard_primitives_def demo_primitives_def)
      (simp add: Cloud_Vault.demo_envelope_def demo_random_def validID_random)
  moreover have "unseal hard_primitives (replicate 32 (CHR ''h'')) (en_Nonce Cloud_Vault.demo_envelope) (en_Ciphertext Cloud_Vault.demo_envelope)
      (aad Cloud_Vault.demo_envelope ''data'') = Some ''D''"
    by (simp add: unseal_def Cloud_Vault.demo_envelope_def aes_key_def hard_primitives_def demo_primitives_def)
  moreover have "cy_unmarshal_data hard_primitives ''D'' = Some NewData" "cy_hkdf hard_primitives k i = replicate 32 (CHR ''h'')" for k i
    by (simp_all add: hard_primitives_def demo_primitives_def)
  ultimately show ?thesis
    unfolding UnlockMaster_Inr
    by (simp add: demo_snapshot_def demo_data_valid demo_random_def Public_def vault_private_def derive_def demo_vault_def)
      (simp add: hard_primitives_def demo_primitives_def)
qed

text \<open>A sealed copy of the new document, whatever envelope of the demo vault it starts from.\<close>

lemma hard_sealed:
  assumes "va_Data v = hard_data" "va_Master v = vr_master demo_random" "\<exists>n c. va_Envelope v = Cloud_Vault.demo_envelope\<lparr>en_Nonce := n, en_Ciphertext := c\<rparr>"
  shows "\<exists>v'. Vault_Snapshot hard_primitives 0 (replicate 12 (CHR ''d'')) 0 ''op'' v = (Inr hard_snapshot, v') \<and>
    (\<exists>n c. va_Envelope v' = Cloud_Vault.demo_envelope\<lparr>en_Nonce := n, en_Ciphertext := c\<rparr>)"
proof -
  obtain n c where v: "v = \<lparr>va_Envelope = Cloud_Vault.demo_envelope\<lparr>en_Nonce := n, en_Ciphertext := c\<rparr>, va_Master = vr_master demo_random, va_Data = hard_data\<rparr>"
    using assms by (cases v) auto
  have k: "cy_marshal_data hard_primitives hard_data = Some ''H''" using hard_data_new by (simp add: hard_primitives_def)
  have x: "hard_envelope \<noteq> Cloud_Vault.demo_envelope"
  proof
    assume "hard_envelope = Cloud_Vault.demo_envelope"
    then have "DecodeString (en_Ciphertext hard_envelope) = DecodeString (en_Ciphertext Cloud_Vault.demo_envelope)" by simp
    then show False by (simp add: hard_envelope_def Cloud_Vault.demo_envelope_def)
  qed
  have e: "cy_marshal_env hard_primitives hard_envelope = Some ''X''" using x by (simp add: hard_primitives_def)
  have s: "seal hard_primitives (replicate 12 (CHR ''d'')) (replicate 32 (CHR ''h'')) ''H'' a = Some (EncodeToString (replicate 12 (CHR ''d'')), EncodeToString (replicate 16 (CHR ''t'') @ ''H''))" for a
    by (simp add: seal_def aes_key_def hard_primitives_def demo_primitives_def)
  have h: "derive hard_primitives m i = replicate 32 (CHR ''h'')" "cy_sign hard_primitives m i = i" "cy_public hard_primitives m = m" for m i
    by (simp_all add: derive_def hard_primitives_def demo_primitives_def)
  have f: "Cloud_Vault.demo_envelope\<lparr>en_Nonce := EncodeToString (replicate 12 (CHR ''d'')), en_Ciphertext := EncodeToString (replicate 16 (CHR ''t'') @ ''H'')\<rparr> = hard_envelope"
    by (simp add: hard_envelope_def Cloud_Vault.demo_envelope_def)
  have a: "en_Account hard_envelope = ''alice''" by (simp add: hard_envelope_def Cloud_Vault.demo_envelope_def)
  show ?thesis
    by (simp add: v Vault_Snapshot_def hard_data_valid k s h f e MaxBlob_def hard_snapshot_def Public_def vault_private_def a)
      (metis f)
qed

lemma hard_saves:
  assumes "cs_TokenRef s = []" "dk_store dk = dk_store plain_disk"
  shows "saveWithStore hard_sync s dk = (None, s, \<lparr>dk_file = Some ''st'', dk_store = dk_store plain_disk\<rparr>)"
proof -
  have "\<not> Enabled (se_store hard_sync c) (dk_store plain_disk)" for c
    by (simp add: Enabled_def plain_disk_def hard_sync_def demo_sync_env_def demo_ls_def)
  then have "protect_token hard_sync s dk = (Inr (if cs_Token s = [] then s\<lparr>cs_TokenRef := []\<rparr> else s), dk_store plain_disk)"
    using assms by (simp add: protect_token_def)
  moreover have "se_marshal_state hard_sync x = Some ''st''" "WritePrivate hard_sync b f = (None, Some b)" for x b f
    by (simp_all add: hard_sync_def demo_sync_env_def WritePrivate_def)
  ultimately show ?thesis using assms(1) by (simp add: saveWithStore_def)
qed

lemma hard_calls:
  "get_vault hard_sync 1 s = Inr demo_snapshot" "put_vault hard_sync 2 s x = Inr (hard_snapshot\<lparr>sp_Revision := 1\<rparr>)" if "cs_URL s = ''u''"
  by (simp_all add: put_vault_def get_vault_def Request_def ValidateURL_def hard_sync_def demo_sync_env_def MaxBlob_def)

lemma hard_confirms:
  "\<exists>s' v' dk'. confirm_backup hard_env \<lparr>ps_report = empty_report, ps_seen = [''/k''], ps_plans = [hard_plan], ps_data = hard_data, ps_stored = [old_backup, new_backup]\<rparr>
     hard_account demo_vault plain_disk = (None, s', v', dk')"
proof -
  let ?v = "demo_vault\<lparr>va_Data := hard_data\<rparr>"
  let ?s = "hard_account\<lparr>cs_Draft := hard_snapshot, cs_Dirty := True, cs_Pending := None\<rparr>"
  let ?dk = "\<lparr>dk_file = Some ''st'', dk_store = dk_store plain_disk\<rparr>"
  have cy: "se_cy hard_sync = hard_primitives" "se_now hard_sync = 0" "se_nonce hard_sync = replicate 12 (CHR ''d'')" "se_op hard_sync = ''op''"
    by (simp_all add: hard_sync_def demo_sync_env_def)
  have demo: "sp_Revision demo_snapshot = 0" "va_Master demo_vault = vr_master demo_random" by (simp_all add: demo_snapshot_def demo_vault_def)
  have acct: "cs_URL hard_account = ''u''" "cs_Username hard_account = ''alice''" "cs_Token hard_account = ''T''" "cs_TokenRef hard_account = []"
    "cs_Base hard_account = demo_snapshot" "cs_Pending hard_account = None" by (simp_all add: hard_account_def fresh_account_def new_state_def)
  have "\<exists>n c. va_Envelope ?v = Cloud_Vault.demo_envelope\<lparr>en_Nonce := n, en_Ciphertext := c\<rparr>" by (auto simp: demo_vault_def)
  from hard_sealed[OF _ _ this] obtain v1 where v1: "Vault_Snapshot hard_primitives 0 (replicate 12 (CHR ''d'')) 0 ''op'' ?v = (Inr hard_snapshot, v1)"
    "\<exists>n c. va_Envelope v1 = Cloud_Vault.demo_envelope\<lparr>en_Nonce := n, en_Ciphertext := c\<rparr>" using demo by auto
  have f1: "va_Data v1 = hard_data" "va_Master v1 = vr_master demo_random" using Vault_Snapshot_frame[OF v1(1)] demo by auto
  have draft: "SaveDraft hard_sync ?v hard_account plain_disk = (None, ?s, v1, ?dk)"
    using v1(1) hard_saves[of ?s plain_disk] by (simp add: SaveDraft_def acct cy demo)
  have "v1\<lparr>va_Data := hard_data\<rparr> = v1" using f1 by simp
  with hard_sealed[OF f1 v1(2)] obtain v2 where v2: "Vault_Snapshot hard_primitives 0 (replicate 12 (CHR ''d'')) 0 ''op'' (v1\<lparr>va_Data := hard_data\<rparr>) = (Inr hard_snapshot, v2)" by auto
  have opened: "open_snapshot hard_sync ?s v1 demo_snapshot = Inr (demo_vault\<lparr>va_Envelope := Cloud_Vault.demo_envelope\<rparr>)"
    using hard_open by (simp add: open_snapshot_def cy f1 acct)
  have rev: "sp_Blob (hard_snapshot\<lparr>sp_Revision := 1\<rparr>) = sp_Blob hard_snapshot" "sp_Signature (hard_snapshot\<lparr>sp_Revision := 1\<rparr>) = sp_Signature hard_snapshot" by simp_all
  have "\<exists>s' v' dk'. sync_commit hard_sync demo_snapshot ?s (v1\<lparr>va_Data := hard_data\<rparr>) ?dk = (None, s', v', dk')"
    using v2 hard_saves by (simp add: sync_commit_def cy demo acct hard_calls save_vault_def)
  moreover have "Sync hard_sync ?s v1 ?dk = sync_commit hard_sync demo_snapshot ?s (v1\<lparr>va_Data := hard_data\<rparr>) ?dk"
    using opened hard_merge by (simp add: Sync_def sync_remote_def acct hard_calls[unfolded One_nat_def] demo cy f1 demo_vault_def[THEN arg_cong[of _ _ va_Data]])
  ultimately obtain s' v' dk' where sy: "Sync hard_sync ?s v1 ?dk = (None, s', v', dk')" by auto
  have "SyncRetry (\<lambda>_. hard_sync) (\<lambda>_. False) ?s v1 ?dk = ((None, s', v', dk'), 1)"
    using sy by (simp add: SyncRetry_def SyncRetry_from.simps[of _ _ 0])
  moreover have "hv_draft hard_env = hard_sync" "hv_syncs hard_env = (\<lambda>_. hard_sync)" "hv_cancelled hard_env = (\<lambda>_. False)" by (simp_all add: hard_env_def)
  ultimately show ?thesis using draft by (simp add: confirm_backup_def)
qed

lemma hard_protects:
  "protect_all hard_env [hard_plan] (unchanged empty_report hard_files) =
    (None, \<lparr>hs_report = empty_report\<lparr>hr_AgentLoaded := 1, hr_Encrypted := 1\<rparr>, hs_files = hard_files(''/k'' := Some ''new'', ''/k.pub'' := Some ''ssh-ed25519 P''),
      hs_changes = [Change ''/k'' (Some ''old'') (Some ''new''), Change ''/k.pub'' None (Some ''ssh-ed25519 P'')],
      hs_receipts = [(kp_receipt hard_plan)\<lparr>km_Status := ''protected-agent-ready''\<rparr>]\<rparr>)"
proof -
  have p: "public_path ''/k'' = ''/k.pub''" by code_simp
  have w: "write_file hard_env x path b st = (None, put_file path (Some b) st)" for x path b st
    by (simp add: write_file_def WritePrivate_def hard_env_def hard_sync_def)
  have e: "\<not> hv_reread_fails hard_env x" "hv_proves hard_env x y" "\<not> hv_stat_fails hard_env x" "hv_usable hard_env z x" "hv_authorized hard_env y = ''ssh-ed25519 P''"
    for x y z by (simp_all add: hard_env_def)
  show ?thesis
    by (simp add: protect_plan_def hard_plan_def e unchanged_def protect_key_def replace_key_def write_public_def remove_sidecar_def w put_file_def
        count_encrypted_def add_receipt_def Let_def p hard_files_def empty_report_def)
qed


end
