(* ===== verification/Key_Files.thy ===== *)
theory Key_Files
  imports Go_Strings
begin

text \<open>
  \<open>internal/keys\<close>: the generation of a key pair (\<open>generate.go\<close>), the passphrase file a user prepares (\<open>passphrase_file.go\<close>) and the
  recovery copy beside a key (\<open>recovery.go\<close>), over a map from paths to nodes. The SSH library, the bits of a file and the failures of
  the system calls are parameters.
\<close>

section \<open>Files\<close>

datatype node = Plain bytes | Special \<comment> \<open>a directory, a link, a device\<close>

type_synonym key_files = "string \<Rightarrow> node option"

datatype key_step = KLstat | KOpen | KFstat | KRead | KCreate | KWrite | KClose | KProtect | KRemove

datatype key_error = KeyExists string | KeyStat | KeyGenerate | KeyMarshal | KeyNotProtected | KeyWritten string | KeyPrivate | PublicMarshal
  | ProtectionRequired | PassWindows | PassStat | PassNotRegular | PassOpen | PassChanged | PassPublic | PassRead | PassTooLong | PassNotOneLine
  | RecoveryExists | RecoveryStat | RecoveryWrite | RecoveryProtect

record key_env =
  ke_windows :: bool
  ke_fails :: "key_step \<Rightarrow> string \<Rightarrow> bool"
  ke_same :: "string \<Rightarrow> bool" \<comment> \<open>the file opened is the regular file that was inspected\<close>
  ke_private :: "string \<Rightarrow> bool" \<comment> \<open>no permission for group or others\<close>
  ke_partial :: "bytes \<Rightarrow> bytes" \<comment> \<open>what a failing write leaves\<close>
  ke_pair :: "(bytes \<times> bytes) option" \<comment> \<open>public and private key\<close>
  ke_marshal :: "bytes \<Rightarrow> string \<Rightarrow> string \<Rightarrow> bytes option" \<comment> \<open>private key, comment, passphrase\<close>
  ke_authorized :: "bytes \<Rightarrow> string option" \<comment> \<open>the line of the public key, without its end\<close>

definition remove_file :: "key_env \<Rightarrow> string \<Rightarrow> key_files \<Rightarrow> key_files" where
  "remove_file env path fs = (if ke_fails env KRemove path then fs else fs(path := None))"

definition pub_path :: "string \<Rightarrow> string" where "pub_path path = path @ ''.pub''"
definition recovery_path :: "string \<Rightarrow> string" where "recovery_path path = path @ ''.passphrase''"

section \<open>Key pairs\<close>

definition writeNewKeyFile :: "key_env \<Rightarrow> string \<Rightarrow> bytes \<Rightarrow> key_files \<Rightarrow> bool \<times> key_files" where
  "writeNewKeyFile env path data fs =
    (if fs path \<noteq> None \<or> ke_fails env KCreate path then (False, fs)
     else if ke_fails env KWrite path \<or> ke_fails env KClose path then
       (False, remove_file env path (fs(path \<mapsto> Plain (if ke_fails env KWrite path then ke_partial env data else data))))
     else (True, fs(path \<mapsto> Plain data)))"

text \<open>An alias and the suffix are ASCII, so dropping the line ends byte by byte is what the code's rune mapping does.\<close>

definition key_comment :: "string \<Rightarrow> string" where
  "key_comment c = filter (\<lambda>x. x \<noteq> newline \<and> x \<noteq> CHR 0x0D) c"

fun output_free :: "key_env \<Rightarrow> key_files \<Rightarrow> string list \<Rightarrow> key_error option" where
  "output_free env fs [] = None"
| "output_free env fs (p # ps) =
    (if ke_fails env KLstat p then Some KeyStat else if fs p \<noteq> None then Some (KeyExists p) else output_free env fs ps)"

text \<open>The public line is written after the private file; whatever fails then removes the private file again.\<close>

definition write_pair :: "key_env \<Rightarrow> string \<Rightarrow> string \<Rightarrow> bytes \<Rightarrow> bytes \<Rightarrow> key_files \<Rightarrow> (key_error + string) \<times> key_files" where
  "write_pair env path comment encoded public fs =
    (case writeNewKeyFile env path encoded fs of (False, fs1) \<Rightarrow> (Inl (KeyWritten path), fs1) | (True, fs1) \<Rightarrow>
     if ke_fails env KProtect path then (Inl KeyPrivate, remove_file env path fs1)
     else case ke_authorized env public of None \<Rightarrow> (Inl PublicMarshal, remove_file env path fs1) | Some line \<Rightarrow>
     let pubLine = line @ '' '' @ comment @ [newline] in
     (case writeNewKeyFile env (pub_path path) pubLine fs1 of
        (False, fs2) \<Rightarrow> (Inl (KeyWritten (pub_path path)), remove_file env path fs2)
      | (True, fs2) \<Rightarrow> (Inr pubLine, fs2)))"

text \<open>\<open>protect\<close> is handed the encoded private key before any file is written; it may change a state of its own.\<close>

type_synonym 's key_protection = "bytes \<Rightarrow> 's \<Rightarrow> bool \<times> 's"

definition generateED25519 :: "key_env \<Rightarrow> string \<Rightarrow> string \<Rightarrow> string \<Rightarrow> 's key_protection option \<Rightarrow> key_files \<Rightarrow> 's \<Rightarrow>
    (key_error + string) \<times> key_files \<times> 's" where
  "generateED25519 env path comment0 pass protect fs s =
    (let comment = key_comment comment0 in
     case output_free env fs [path, pub_path path] of Some e \<Rightarrow> (Inl e, fs, s) | None \<Rightarrow>
     case ke_pair env of None \<Rightarrow> (Inl KeyGenerate, fs, s) | Some (public, priv) \<Rightarrow>
     case ke_marshal env priv comment pass of None \<Rightarrow> (Inl KeyMarshal, fs, s) | Some encoded \<Rightarrow>
     case (case protect of None \<Rightarrow> (True, s) | Some f \<Rightarrow> f encoded s) of
       (False, s') \<Rightarrow> (Inl KeyNotProtected, fs, s')
     | (True, s') \<Rightarrow> (case write_pair env path comment encoded public fs of (r, fs') \<Rightarrow> (r, fs', s')))"

definition GenerateED25519Encrypted :: "key_env \<Rightarrow> string \<Rightarrow> string \<Rightarrow> string \<Rightarrow> key_files \<Rightarrow> 's \<Rightarrow> (key_error + string) \<times> key_files \<times> 's" where
  "GenerateED25519Encrypted env path comment pass fs s = generateED25519 env path comment pass None fs s"

definition GenerateED25519 :: "key_env \<Rightarrow> string \<Rightarrow> string \<Rightarrow> key_files \<Rightarrow> 's \<Rightarrow> (key_error + string) \<times> key_files \<times> 's" where
  "GenerateED25519 env path comment fs s = GenerateED25519Encrypted env path comment [] fs s"

definition GenerateED25519Protected :: "key_env \<Rightarrow> string \<Rightarrow> string \<Rightarrow> string \<Rightarrow> 's key_protection option \<Rightarrow> key_files \<Rightarrow> 's \<Rightarrow>
    (key_error + string) \<times> key_files \<times> 's" where
  "GenerateED25519Protected env path comment pass protect fs s =
    (if protect = None \<or> pass = [] then (Inl ProtectionRequired, fs, s) else generateED25519 env path comment pass protect fs s)"

definition RemoveGeneratedKeyPair :: "key_env \<Rightarrow> string \<Rightarrow> key_files \<Rightarrow> key_files" where
  "RemoveGeneratedKeyPair env path fs = remove_file env (pub_path path) (remove_file env path fs)"

definition RemoveGenerated :: "key_env \<Rightarrow> string \<Rightarrow> key_files \<Rightarrow> key_files" where
  "RemoveGenerated env path fs = remove_file env (recovery_path path) (RemoveGeneratedKeyPair env path fs)"

section \<open>Passphrase files\<close>

definition readPrivatePassphraseFile :: "key_env \<Rightarrow> string \<Rightarrow> key_files \<Rightarrow> key_error + bytes" where
  "readPrivatePassphraseFile env path fs =
    (if ke_windows env then Inl PassWindows
     else if ke_fails env KLstat path then Inl PassStat
     else case fs path of None \<Rightarrow> Inl PassStat | Some Special \<Rightarrow> Inl PassNotRegular | Some (Plain b) \<Rightarrow>
     if ke_fails env KOpen path then Inl PassOpen
     else if ke_fails env KFstat path then Inl PassStat
     else if \<not> ke_same env path then Inl PassChanged
     else if \<not> ke_private env path then Inl PassPublic
     else if ke_fails env KRead path then Inl PassRead
     else if 1024 < length b then Inl PassTooLong
     else Inr b)"

definition cr_trimmed :: "bytes \<Rightarrow> bytes" where "cr_trimmed b = TrimSuffix b [CHR 0x0D]"

definition parsePassphraseLine :: "bytes \<Rightarrow> bytes option" where
  "parsePassphraseLine b =
    (let pass = cr_trimmed (TrimSuffix b [newline]) in
     if pass = [] \<or> ContainsAny pass [CHR 0x0D, newline, CHR 0x00] then None else Some pass)"

definition ReadPassphraseFile :: "key_env \<Rightarrow> string \<Rightarrow> key_files \<Rightarrow> key_error + bytes" where
  "ReadPassphraseFile env path fs =
    bind_result (readPrivatePassphraseFile env path fs)
      (\<lambda>b. case parsePassphraseLine b of None \<Rightarrow> Inl PassNotOneLine | Some p \<Rightarrow> Inr p)"

section \<open>Recovery copies\<close>

definition recovery_header :: "string" where
  "recovery_header = ''# sshm recovery '' @ [CHR 0xE2, CHR 0x80, CHR 0x94] @ '' passphrase for ''"

definition recovery_advice :: "string" where
  "recovery_advice = ''# move this into your password manager, then delete this file''"

text \<open>\<open>bytes.Cut\<close> at a line end.\<close>

definition cut_line :: "bytes \<Rightarrow> (bytes \<times> bytes) option" where
  "cut_line b = map_option (\<lambda>i. (take i b, drop (Suc i) b)) (IndexByte b newline)"

definition parse_recovery :: "bytes \<Rightarrow> bytes option" where
  "parse_recovery b =
    (case parsePassphraseLine b of Some p \<Rightarrow> Some p | None \<Rightarrow>
     case cut_line b of None \<Rightarrow> None | Some (first, rest) \<Rightarrow>
     case cut_line rest of None \<Rightarrow> None | Some (second, body) \<Rightarrow>
     if \<not> HasPrefix (cr_trimmed first) recovery_header \<or> cr_trimmed second \<noteq> recovery_advice then None
     else parsePassphraseLine body)"

definition ReadRecovery :: "key_env \<Rightarrow> string \<Rightarrow> key_files \<Rightarrow> key_error + bytes" where
  "ReadRecovery env path fs =
    bind_result (readPrivatePassphraseFile env (recovery_path path) fs)
      (\<lambda>b. case parse_recovery b of None \<Rightarrow> Inl PassNotOneLine | Some p \<Rightarrow> Inr p)"

text \<open>\<open>filepath.Base\<close> on Unix.\<close>

definition path_Base :: "string \<Rightarrow> string" where
  "path_Base p =
    (if p = [] then ''.''
     else let q = rev (dropWhile (\<lambda>c. c = CHR ''/'') (rev p)) in
       if q = [] then ''/'' else rev (takeWhile (\<lambda>c. c \<noteq> CHR ''/'') (rev q)))"

definition recovery_body :: "string \<Rightarrow> string \<Rightarrow> string" where
  "recovery_body path pass = recovery_header @ path_Base path @ [newline] @ recovery_advice @ [newline] @ pass @ [newline]"

text \<open>A failing write leaves what was written; only a file that cannot be protected is removed.\<close>

definition WriteRecovery :: "key_env \<Rightarrow> string \<Rightarrow> string \<Rightarrow> key_files \<Rightarrow> (key_error + string) \<times> key_files" where
  "WriteRecovery env path pass fs =
    (let rp = recovery_path path; body = recovery_body path pass in
     if ke_fails env KLstat rp then (Inl RecoveryStat, fs)
     else if fs rp \<noteq> None then (Inl RecoveryExists, fs)
     else if ke_fails env KCreate rp then (Inl RecoveryWrite, fs)
     else if ke_fails env KWrite rp \<or> ke_fails env KClose rp then
       (Inl RecoveryWrite, fs(rp \<mapsto> Plain (if ke_fails env KWrite rp then ke_partial env body else body)))
     else if ke_fails env KProtect rp then (Inl RecoveryProtect, remove_file env rp (fs(rp \<mapsto> Plain body)))
     else (Inr rp, fs(rp \<mapsto> Plain body)))"

section \<open>Laws\<close>

lemma remove_file_at: "remove_file env path fs p = (if p = path \<and> \<not> ke_fails env KRemove path then None else fs p)"
  by (simp add: remove_file_def)

lemma pub_path_differs [simp]: "pub_path path \<noteq> path" "path \<noteq> pub_path path"
  by (simp_all add: pub_path_def)

lemma writeNewKeyFile_ok: "writeNewKeyFile env path data fs = (True, fs') \<longleftrightarrow>
    fs path = None \<and> fs' = fs(path \<mapsto> Plain data) \<and> \<not> ke_fails env KCreate path \<and> \<not> ke_fails env KWrite path \<and> \<not> ke_fails env KClose path"
  by (auto simp: writeNewKeyFile_def)

lemma writeNewKeyFile_failed:
  "writeNewKeyFile env path data fs = (False, fs') \<Longrightarrow> fs' p = fs p \<or> p = path \<and> fs path = None \<and> ke_fails env KRemove path"
  by (auto simp: writeNewKeyFile_def remove_file_def split: if_splits)

text \<open>What failing generation may leave: new files that could not be removed.\<close>

definition leftovers :: "key_env \<Rightarrow> key_files \<Rightarrow> key_files \<Rightarrow> bool" where
  "leftovers env fs fs' \<longleftrightarrow> (\<forall>p. fs' p = fs p \<or> fs p = None \<and> ke_fails env KRemove p)"

lemma write_pair_result:
  assumes "write_pair env path comment encoded public fs = (r, fs')" "fs path = None" "fs (pub_path path) = None"
  shows "case r of Inl e \<Rightarrow> leftovers env fs fs'
    | Inr line \<Rightarrow> fs' = fs(path \<mapsto> Plain encoded, pub_path path \<mapsto> Plain line) \<and> (\<exists>l. ke_authorized env public = Some l \<and> line = l @ '' '' @ comment @ [newline])"
proof -
  obtain ok fs1 where w: "writeNewKeyFile env path encoded fs = (ok, fs1)" by (rule prod.exhaust)
  show ?thesis
  proof (cases ok)
    case False
    then have "leftovers env fs fs1" using w writeNewKeyFile_failed[of env path encoded fs fs1] unfolding leftovers_def by metis
    then show ?thesis using assms(1) w False by (auto simp: write_pair_def)
  next
    case True
    then have fs1: "fs1 = fs(path \<mapsto> Plain encoded)" using w by (simp add: writeNewKeyFile_ok)
    have gone: "leftovers env fs (remove_file env path fs1)" using assms(2) by (simp add: leftovers_def remove_file_at fs1)
    show ?thesis
    proof (cases "ke_fails env KProtect path \<or> ke_authorized env public = None")
      case True
      then show ?thesis using assms(1) w \<open>ok\<close> gone by (auto simp: write_pair_def split: if_splits)
    next
      case False
      then obtain l where l: "ke_authorized env public = Some l" "\<not> ke_fails env KProtect path" by auto
      let ?line = "l @ '' '' @ comment @ [newline]"
      obtain ok2 fs2 where w2: "writeNewKeyFile env (pub_path path) ?line fs1 = (ok2, fs2)" by (rule prod.exhaust)
      show ?thesis
      proof (cases ok2)
        case True
        then have "fs2 = fs1(pub_path path \<mapsto> Plain ?line)" using w2 by (simp add: writeNewKeyFile_ok)
        moreover have "r = Inr ?line" "fs' = fs2" using assms(1) w w2 \<open>ok\<close> l True by (auto simp: write_pair_def)
        ultimately show ?thesis using l fs1 by simp
      next
        case False
        then have "leftovers env fs (remove_file env path fs2)"
          using writeNewKeyFile_failed[of env "pub_path path" ?line fs1 fs2] w2 assms(2,3)
          unfolding leftovers_def remove_file_at fs1 by (metis (full_types) fun_upd_apply pub_path_differs(1))
        then show ?thesis using assms(1) w w2 \<open>ok\<close> l False by (auto simp: write_pair_def)
      qed
    qed
  qed
qed

lemma output_free_None: "output_free env fs ps = None \<Longrightarrow> p \<in> set ps \<Longrightarrow> fs p = None"
  by (induction ps) (auto split: if_splits)

lemma ContainsAny_snoc_newline: "ContainsAny (a @ newline # b) [CHR 0x0D, newline, CHR 0x00]"
  by (simp add: ContainsAny_iff)

definition single_line :: "bytes \<Rightarrow> bool" where
  "single_line pass \<longleftrightarrow> pass \<noteq> [] \<and> \<not> ContainsAny pass [CHR 0x0D, newline, CHR 0x00]"

lemma TrimSuffix_snoc [simp]: "TrimSuffix (b @ [c]) [c] = b"
  by (simp add: TrimSuffix_def HasSuffix_def suffix_def)

lemma cr_trimmed_cases: "cr_trimmed b = b \<or> (\<exists>a. b = a @ [CHR 0x0D] \<and> cr_trimmed b = a)"
  by (auto simp: cr_trimmed_def TrimSuffix_def HasSuffix_def suffix_def)

lemma parse_line: "parsePassphraseLine (pass @ [newline]) = Some p \<longleftrightarrow> single_line p \<and> (pass = p \<or> pass = p @ [CHR 0x0D])"
proof -
  have "parsePassphraseLine (pass @ [newline]) = Some p \<longleftrightarrow> single_line (cr_trimmed pass) \<and> p = cr_trimmed pass"
    by (auto simp: parsePassphraseLine_def single_line_def Let_def)
  moreover have "cr_trimmed (p @ [CHR 0x0D]) = p" by (simp add: cr_trimmed_def)
  moreover have "cr_trimmed p = p" if "single_line p"
  proof (rule ccontr)
    assume "cr_trimmed p \<noteq> p"
    then obtain a where "p = a @ [CHR 0x0D]" using cr_trimmed_cases[of p] by blast
    then show False using that by (simp add: single_line_def ContainsAny_iff)
  qed
  ultimately show ?thesis using cr_trimmed_cases[of pass] by metis
qed

lemma cut_line_at: "newline \<notin> set a \<Longrightarrow> cut_line (a @ newline # b) = Some (a, b)"
  by (simp add: cut_line_def IndexByte_split)

lemma cr_trimmed_newline:
  assumes "newline \<in> set s"
  shows "newline \<in> set (cr_trimmed s)"
  using cr_trimmed_cases[of s]
proof
  assume "\<exists>a. s = a @ [CHR 0x0D] \<and> cr_trimmed s = a"
  then obtain a where "s = a @ [CHR 0x0D]" "cr_trimmed s = a" by blast
  then show ?thesis using assms by (simp add: newline_def)
qed (use assms in simp)

lemma cr_trimmed_prefix:
  assumes "h \<noteq> []" "last h \<noteq> CHR 0x0D"
  shows "HasPrefix (cr_trimmed (h @ base)) h"
proof (cases "cr_trimmed (h @ base) = h @ base")
  case False
  then obtain a where a: "h @ base = a @ [CHR 0x0D]" "cr_trimmed (h @ base) = a" using cr_trimmed_cases[of "h @ base"] by auto
  show ?thesis
  proof (cases base rule: rev_cases)
    case Nil
    then show ?thesis using a(1) assms(2) by simp
  next
    case (snoc c x)
    then have "h @ c = a" using a(1) by simp
    then show ?thesis using a(2) prefixI[of a h c] by (simp add: HasPrefix_def)
  qed
qed (simp add: HasPrefix_def)

lemma parse_recovery_body:
  assumes "newline \<notin> set (path_Base path)"
  shows "parse_recovery (recovery_body path pass) = parsePassphraseLine (pass @ [newline])"
proof -
  let ?first = "recovery_header @ path_Base path" and ?line = "recovery_advice @ newline # pass"
  have h: "newline \<notin> set recovery_header" "newline \<notin> set recovery_advice" "recovery_advice \<noteq> []" "last recovery_advice \<noteq> CHR 0x0D"
    "recovery_header \<noteq> []" "last recovery_header \<noteq> CHR 0x0D"
    by (code_simp)+
  have body: "recovery_body path pass = ?first @ newline # recovery_advice @ newline # pass @ [newline]" by (simp add: recovery_body_def)
  have "TrimSuffix (recovery_body path pass) [newline] = ?first @ newline # ?line"
    using TrimSuffix_snoc[of "?first @ newline # ?line" newline] by (simp add: recovery_body_def)
  moreover have "newline \<in> set (cr_trimmed (?first @ newline # ?line))" by (rule cr_trimmed_newline) simp
  ultimately have n: "parsePassphraseLine (recovery_body path pass) = None" by (auto simp: parsePassphraseLine_def Let_def ContainsAny_iff)
  have "cr_trimmed recovery_advice = recovery_advice" using cr_trimmed_cases[of recovery_advice] h(4) by (metis last_snoc)
  then show ?thesis using n cr_trimmed_prefix[OF h(5,6)] cut_line_at[of ?first] cut_line_at[OF h(2)] h(1) assms
    unfolding parse_recovery_def body by simp
qed

lemma generation_result:
  assumes "generateED25519 env path comment pass protect fs s = (r, fs', s')"
  shows "case r of Inl e \<Rightarrow> leftovers env fs fs' \<and> (fs' \<noteq> fs \<longrightarrow> (\<exists>public priv key. ke_pair env = Some (public, priv) \<and>
      ke_marshal env priv (key_comment comment) pass = Some key \<and> (\<forall>f. protect = Some f \<longrightarrow> f key s = (True, s'))))
    | Inr line \<Rightarrow> fs path = None \<and> fs (pub_path path) = None \<and> (\<exists>public priv key l. ke_pair env = Some (public, priv) \<and>
      ke_marshal env priv (key_comment comment) pass = Some key \<and> (\<forall>f. protect = Some f \<longrightarrow> f key s = (True, s')) \<and>
      ke_authorized env public = Some l \<and> line = l @ '' '' @ key_comment comment @ [newline] \<and>
      fs' = fs(path \<mapsto> Plain key, pub_path path \<mapsto> Plain line))"
proof -
  consider e where "r = Inl e" "fs' = fs"
    | public priv key where "fs path = None" "fs (pub_path path) = None" "ke_pair env = Some (public, priv)"
      "ke_marshal env priv (key_comment comment) pass = Some key" "\<forall>f. protect = Some f \<longrightarrow> f key s = (True, s')"
      "write_pair env path (key_comment comment) key public fs = (r, fs')"
    using assms output_free_None[of env fs "[path, pub_path path]"]
    by (auto simp: generateED25519_def Let_def split: option.splits prod.splits bool.splits if_splits simp del: output_free.simps)
  then show ?thesis
  proof cases
    case 1
    then show ?thesis by (simp add: leftovers_def)
  next
    case 2
    then show ?thesis using write_pair_result[OF 2(6,1,2)] by (auto split: sum.splits)
  qed
qed

lemma leftovers_keep: "leftovers env fs fs' \<Longrightarrow> fs p \<noteq> None \<Longrightarrow> fs' p = fs p"
  unfolding leftovers_def by metis

section \<open>Properties\<close>

text \<open>Generating a key pair never changes an existing file. A failure leaves nothing behind but new files that could not be removed; a
  success adds exactly the private key, encoded under the passphrase, and its public line. With a callback, no file at all is
  written before the callback has accepted the encoded key.\<close>

theorem generation_is_exclusive:
  assumes "generateED25519 env path comment pass protect fs s = (r, fs', s')"
  shows "(\<forall>p. fs p \<noteq> None \<longrightarrow> fs' p = fs p) \<and>
    (fs' \<noteq> fs \<longrightarrow> (\<exists>public priv key. ke_pair env = Some (public, priv) \<and> ke_marshal env priv (key_comment comment) pass = Some key \<and>
       (\<forall>f. protect = Some f \<longrightarrow> f key s = (True, s')))) \<and>
    (case r of Inl e \<Rightarrow> leftovers env fs fs'
     | Inr line \<Rightarrow> \<exists>public priv key l. ke_pair env = Some (public, priv) \<and> ke_marshal env priv (key_comment comment) pass = Some key \<and>
         ke_authorized env public = Some l \<and> line = l @ '' '' @ key_comment comment @ [newline] \<and>
         fs' = fs(path \<mapsto> Plain key, pub_path path \<mapsto> Plain line))"
proof (cases r)
  case (Inl e)
  then have l: "leftovers env fs fs'" using generation_result[OF assms] by simp
  show ?thesis using generation_result[OF assms] leftovers_keep[OF l] by (simp add: Inl)
next
  case (Inr line)
  then show ?thesis using generation_result[OF assms] by auto
qed

definition readable :: "key_env \<Rightarrow> string \<Rightarrow> bool" where
  "readable env path \<longleftrightarrow> \<not> ke_windows env \<and> ke_same env path \<and> ke_private env path \<and>
    (\<forall>step \<in> {KLstat, KOpen, KFstat, KRead}. \<not> ke_fails env step path)"


section \<open>Witnesses\<close>

definition demo_keys :: key_env where
  "demo_keys = \<lparr>ke_windows = False, ke_fails = \<lambda>_ _. False, ke_same = \<lambda>_. True, ke_private = \<lambda>_. True, ke_partial = \<lambda>b. b,
     ke_pair = Some (''P'', ''S''), ke_marshal = \<lambda>priv comment pass. Some (priv @ comment @ pass), ke_authorized = \<lambda>p. Some (''ssh-ed25519 '' @ p)\<rparr>"

definition demo_generated :: "(key_error + string) \<times> key_files \<times> bytes list" where
  "demo_generated = generateED25519 demo_keys ''/k'' ''web@sshm'' ''secret'' (Some (\<lambda>b s. (True, s @ [b])))
     (\<lambda>p. if p = ''/old'' then Some (Plain ''o'') else None) []"

theorem generation_is_exclusive_witness:
  "fst (snd demo_generated) ''/old'' = Some (Plain ''o'') \<and> fst (snd demo_generated) ''/k'' = Some (Plain ''Sweb@sshmsecret'')"
proof -
  have k: "key_comment ''web@sshm'' = ''web@sshm''" "pub_path ''/k'' = ''/k.pub''" by code_simp+
  obtain r fs' s' where g: "demo_generated = (r, fs', s')" by (rule prod_cases3)
  have "\<exists>line. r = Inr line"
    using g by (auto simp: demo_generated_def generateED25519_def demo_keys_def k write_pair_def writeNewKeyFile_def Let_def)
  then obtain line where "r = Inr line" by blast
  from generation_is_exclusive[OF g[unfolded demo_generated_def], THEN conjunct2, THEN conjunct2, unfolded this]
  have "fs' = (\<lambda>p. if p = ''/old'' then Some (Plain ''o'') else None)(''/k'' \<mapsto> Plain ''Sweb@sshmsecret'', ''/k.pub'' \<mapsto> Plain line)"
    by (auto simp: demo_keys_def k)
  then show ?thesis by (simp add: g)
qed


end
