(* ===== verification/Mcp_Ops.thy ===== *)
theory Mcp_Ops
  imports Mcp_Write Key_Files Local_Store
begin

text \<open>
  \<open>internal/mcp/tools_ops.go\<close> with \<open>internal/bootstrap\<close>: the tools that prepare a server, generate its key, and read the end of a log.
  A generation changes three things: the key files, the local credential store and the configuration file. The key library, the key
  stores of the operating system and the outcome of remote commands are parameters.
\<close>

section \<open>Reading the end of a log\<close>

definition defaultTailLines :: int where "defaultTailLines = 100"
definition maxTailLines :: int where "maxTailLines = 5000"

definition clampLines :: "int \<Rightarrow> int" where
  "clampLines lines = (if lines \<le> 0 then defaultTailLines else if maxTailLines < lines then maxTailLines else lines)"

definition tailCommand :: "string \<Rightarrow> string \<Rightarrow> int \<Rightarrow> string" where
  "tailCommand platform path lines =
    (if EqualFold platform ''windows''
     then powershellEncodedCommand (''Get-Content -LiteralPath '' @ powershellSingleQuote path @ '' -Tail '' @ Itoa lines)
     else ''tail -n '' @ Itoa lines @ '' '' @ shellQuoteArg path)"

definition buildTailLogsResult :: "string \<Rightarrow> string \<Rightarrow> string \<Rightarrow> ExecResult \<Rightarrow> json" where
  "buildTailLogsResult alias path platform res =
    (if xr_ExitCode res \<noteq> 0 then
       (let stderr = TrimSpace (xr_Stderr res) in
        errResult ''exec'' (MaskSecrets (''tail command exited '' @ Itoa (xr_ExitCode res) @ (if stderr = [] then [] else '': '' @ stderr))))
     else JObj [(''alias'', JStr alias), (''path'', JStr path), (''platform'', JStr platform), (''lines'', JStr (MaskSecrets (xr_Stdout res)))])"

datatype tail_failure = TailSsh string | TailExec string

definition run_text :: "run_error \<Rightarrow> string" where
  "run_text e = (case e of DeadlineExceeded \<Rightarrow> ''context deadline exceeded'' | Canceled \<Rightarrow> ''context canceled'' | RunFailed t \<Rightarrow> t)"

definition executeTailLogsRemote :: "exec_env \<Rightarrow> string \<Rightarrow> Server option \<Rightarrow> string \<Rightarrow> string \<Rightarrow> int \<Rightarrow>
    (tail_failure + string \<times> ExecResult) \<times> tool_event list" where
  "executeTailLogsRemote env alias s platform0 path lines =
    (case Dial (xe_ssh env) s (sshOptions env (zero_opts\<lparr>bo_ConfigPath := xe_path env, bo_Alias := alias\<rparr>)) of
       (Inl e, ev) \<Rightarrow> (Inl (TailSsh (xe_dial_text env e)), map Net ev)
     | (Inr _, ev) \<Rightarrow>
         let auto = (platform0 = ''auto''); platform = (if auto then detectRemoteDetachPlatform env else platform0);
             did = map Net ev @ (if auto then [Ran ''cmd /c ver'' False] else []) @ [Ran (tailCommand platform path lines) False] in
         (case xe_run env (tailCommand platform path lines) of
            (Some e, _) \<Rightarrow> (Inl (TailExec (run_text e)), did)
          | (None, res) \<Rightarrow> (Inr (platform, res), did)))"

definition tail_audit :: "string \<Rightarrow> string \<Rightarrow> string \<Rightarrow> tool_event" where
  "tail_audit alias reason result = Audited (write_audit ''tail_logs'' alias reason result)"

text \<open>The lines asked for: a number is truncated as for a timeout, and clamped.\<close>

definition tail_lines :: "exec_env \<Rightarrow> json_args \<Rightarrow> int" where
  "tail_lines env args =
    (case map_of args ''lines'' of
       Some (JNum v) \<Rightarrow> clampLines (if - 9223372036854775808 \<le> v \<and> v < 9223372036854775808 then truncate_rat v else xe_beyond env v)
     | _ \<Rightarrow> defaultTailLines)"

definition tail_platform :: "json_args \<Rightarrow> string option" where
  "tail_platform args =
    (let p = ToLower (TrimSpace (strArg args ''platform'')) in
     if p = [] \<or> p = ''auto'' then Some ''auto'' else if p = ''posix'' \<or> p = ''windows'' then Some p else None)"

definition handleTailLogs :: "exec_env \<Rightarrow> json_args \<Rightarrow> json \<times> tool_event list" where
  "handleTailLogs env args =
    (case requireReason args of None \<Rightarrow> (errResult ''bad_request'' reason_required, []) | Some reason \<Rightarrow>
     let alias = strArg args ''alias''; path = strArg args ''path'' in
     if path = [] then (errResult ''bad_request'' ''path is required'', [])
     else case tail_platform args of None \<Rightarrow> (errResult ''bad_request'' ''platform must be auto, posix, or windows'', []) | Some platform \<Rightarrow>
     case xe_config env of Inl text \<Rightarrow> (errResult ''config'' text, []) | Inr cfg \<Rightarrow>
     case gm_lookup (cf_Servers cfg) alias of None \<Rightarrow> (errResult ''not_found'' (''unknown server '' @ quoted alias), []) | Some s \<Rightarrow>
     case executeTailLogsRemote env alias s platform path (tail_lines env args) of
       (Inl (TailSsh text), did) \<Rightarrow> (errResult ''ssh'' (MaskSecrets text), did @ [tail_audit alias reason ''tail ssh failed''])
     | (Inl (TailExec text), did) \<Rightarrow> (errResult ''exec'' (MaskSecrets text), did @ [tail_audit alias reason ''tail exec failed''])
     | (Inr (p, res), did) \<Rightarrow>
         (buildTailLogsResult alias path p res,
          did @ [tail_audit alias reason (if xr_ExitCode res \<noteq> 0 then ''exit '' @ Itoa (xr_ExitCode res) else ''ok'')]))"

section \<open>Preparing a server\<close>

record BootstrapResult =
  br_Completed :: bool
  br_SSHDState :: "string list"
  br_RawOutput :: string

definition bootstrap_marker :: string where "bootstrap_marker = ''=SSHM-BOOTSTRAP-DONE=''"

fun sshd_lines :: "bool \<Rightarrow> string list \<Rightarrow> string list" where
  "sshd_lines inState [] = []"
| "sshd_lines inState (line # lines) =
    (let t = TrimSpace line in
     if t = ''=SSHD-STATE='' then sshd_lines True lines
     else if HasPrefix t ''='' \<and> HasSuffix t ''='' then sshd_lines False lines
     else if inState \<and> t \<noteq> [] then t # sshd_lines inState lines
     else sshd_lines inState lines)"

definition ParseResult :: "string \<Rightarrow> BootstrapResult" where
  "ParseResult raw = \<lparr>br_Completed = Contains raw bootstrap_marker, br_SSHDState = sshd_lines False (Split_byte raw newline), br_RawOutput = raw\<rparr>"

text \<open>\<open>script\<close> is the embedded script.\<close>

definition bootstrap_Run :: "exec_env \<Rightarrow> string \<Rightarrow> Server option \<Rightarrow> BuildOpts \<Rightarrow> (string + BootstrapResult) \<times> tool_event list" where
  "bootstrap_Run env script s opts =
    (case Dial (xe_ssh env) s opts of
       (Inl e, ev) \<Rightarrow> (Inl (xe_dial_text env e), map Net ev)
     | (Inr _, ev) \<Rightarrow>
         let command = ''sh -c '' @ shellQuoteArg script; did = map Net ev @ [Ran command False] in
         (case xe_run env command of
            (Some e, _) \<Rightarrow> (Inl (run_text e), did)
          | (None, res) \<Rightarrow>
              let r = ParseResult (xr_Stdout res) in
              (Inr (if xr_Stderr res = [] then r
                    else r\<lparr>br_RawOutput := br_RawOutput r @ [newline] @ ''=STDERR='' @ [newline] @ xr_Stderr res\<rparr>), did)))"

definition InitBootstrapped :: string where "InitBootstrapped = ''bootstrapped''"

definition bootstrapped :: "string \<Rightarrow> Config \<Rightarrow> write_error + Config" where
  "bootstrapped alias cfg =
    (case server_at (cf_Servers cfg) alias of None \<Rightarrow> Inr cfg
     | Some s \<Rightarrow> Inr (cfg\<lparr>cf_Servers := gm_update alias (Some (s\<lparr>sv_InitState := InitBootstrapped\<rparr>)) (cf_Servers cfg)\<rparr>))"

definition handleBootstrap :: "exec_env \<Rightarrow> write_env \<Rightarrow> string \<Rightarrow> json_args \<Rightarrow> bytes option \<Rightarrow> json \<times> tool_event list \<times> bytes option" where
  "handleBootstrap env wenv script args file =
    (case requireReason args of None \<Rightarrow> (errResult ''bad_request'' reason_required, [], we_seen wenv) | Some reason \<Rightarrow>
     let alias = strArg args ''alias'' in
     case xe_config env of Inl text \<Rightarrow> (errResult ''config'' text, [], we_seen wenv) | Inr cfg \<Rightarrow>
     case gm_lookup (cf_Servers cfg) alias of None \<Rightarrow> (errResult ''not_found'' (''unknown server '' @ quoted alias), [], we_seen wenv) | Some s \<Rightarrow>
     case bootstrap_Run env script s (sshOptions env (zero_opts\<lparr>bo_ConfigPath := xe_path env, bo_Alias := alias\<rparr>)) of
       (Inl text, did) \<Rightarrow> (errResult ''ssh'' (MaskSecrets text), did, we_seen wenv)
     | (Inr res, did) \<Rightarrow>
         let reply = JObj [(''alias'', JStr alias), (''completed'', JBool (br_Completed res)), (''sshd_state'', JArr (map JStr (br_SSHDState res)))];
             record_it = Audited (write_audit ''bootstrap'' alias reason (''completed='' @ (if br_Completed res then ''true'' else ''false''))) in
         if br_Completed res then
           (case Update (we_config wenv) (we_seen wenv) (bootstrapped alias) file of
              (Some e, file') \<Rightarrow> (errResult ''config'' (we_text wenv e), did, file')
            | (None, file') \<Rightarrow> (reply, did @ [record_it], file'))
         else (reply, did @ [record_it], we_seen wenv))"

definition handleCopyID :: "json_args \<Rightarrow> json \<times> Entry list" where
  "handleCopyID args =
    (case requireReason args of None \<Rightarrow> (errResult ''bad_request'' reason_required, []) | Some reason \<Rightarrow>
     let alias = strArg args ''alias'' in
     (JObj [(''alias'', JStr alias), (''action_required'', JStr (''Run `sshm copy-id '' @ alias @ ''` in a terminal '' @ [CHR 0xE2, CHR 0x80, CHR 0x94] @
        '' copy-id needs a password, which is never sent through the AI.''))], [write_audit ''copy_id'' alias reason ''deferred to CLI'']))"

section \<open>Generating a key\<close>

datatype gen_call = EnsureCall | RememberCall

record gen_env =
  ge_write :: write_env
  ge_load :: "string + Config"
  ge_home :: "string option"
  ge_home_text :: string
  ge_keys :: key_env
  ge_key_text :: "key_error \<Rightarrow> string" \<comment> \<open>for a refused protection, the text of the store's error\<close>
  ge_store :: "gen_call \<Rightarrow> ls_env"
  ge_store_text :: "ls_error \<Rightarrow> string"
  ge_random :: "bytes option" \<comment> \<open>32 bytes\<close>
  ge_agent :: "string \<Rightarrow> string \<Rightarrow> bool \<times> string" \<comment> \<open>\<open>BestEffort(StoreAndLoad)\<close>: persisted, and a note\<close>

record gen_state =
  gs_files :: key_files
  gs_store :: ls_state
  gs_config :: "bytes option"

type_synonym gen_result = "json \<times> Entry list \<times> gen_state"

definition ge_ExpandHome :: "gen_env \<Rightarrow> string \<Rightarrow> string option" where
  "ge_ExpandHome env p = (if \<not> HasPrefix p ''~'' then Some p else map_option (\<lambda>h. path_Join h (drop 1 p)) (ge_home env))"

definition RawStdEncode :: "bytes \<Rightarrow> string" where
  "RawStdEncode b = map std_char (b64_split (map of_char b))"

text \<open>The passphrase: of the file the user prepared, or a random one once the store of the device is known to work.\<close>

definition gen_passphrase :: "gen_env \<Rightarrow> string \<Rightarrow> gen_state \<Rightarrow> (json + string) \<times> ls_state" where
  "gen_passphrase env phrasePath st =
    (if TrimSpace phrasePath = [] then
       (case Ensure (ge_store env EnsureCall) (gs_store st) of
          (Some e, store) \<Rightarrow> (Inl (errResult ''local_credential_unavailable'' (ge_store_text env e)), store)
        | (None, store) \<Rightarrow>
            (case ge_random env of None \<Rightarrow> (Inl (errResult ''keygen'' ''could not generate key protection''), store)
             | Some b \<Rightarrow> (Inr (RawStdEncode b), store)))
     else (case ge_ExpandHome env phrasePath of None \<Rightarrow> (Inl (errResult ''bad_request'' ''invalid passphrase_file path''), gs_store st)
       | Some p \<Rightarrow>
           (case ReadPassphraseFile (ge_keys env) p (gs_files st) of
              Inl _ \<Rightarrow> (Inl (errResult ''bad_request'' ''passphrase_file must be an existing protected regular file containing one nonempty line; never send its contents. Omit it to use automatic device protection''), gs_store st)
            | Inr b \<Rightarrow> (Inr b, gs_store st))))"

definition remember_key :: "gen_env \<Rightarrow> string \<Rightarrow> string \<Rightarrow> ls_state key_protection" where
  "remember_key env path pass key store =
    (case RememberKeyFile (ge_store env RememberCall) path \<lparr>cr_Key = key, cr_Passphrase = pass, cr_Password = [], cr_Fingerprint = []\<rparr> store of
       (e, store') \<Rightarrow> (e = None, store'))"

definition gen_pair :: "gen_env \<Rightarrow> string \<Rightarrow> string \<Rightarrow> string \<Rightarrow> key_files \<Rightarrow> ls_state \<Rightarrow> (key_error + string) \<times> key_files \<times> ls_state" where
  "gen_pair env path alias pass fs store =
    (if Enabled (ge_store env RememberCall) store
     then GenerateED25519Protected (ge_keys env) path (alias @ ''@sshm'') pass (Some (remember_key env path pass)) fs store
     else GenerateED25519Encrypted (ge_keys env) path (alias @ ''@sshm'') pass fs store)"

definition use_key :: "string \<Rightarrow> string \<Rightarrow> Config \<Rightarrow> write_error + Config" where
  "use_key alias path cfg =
    (case server_at (cf_Servers cfg) alias of None \<Rightarrow> Inr cfg
     | Some s \<Rightarrow> Inr (cfg\<lparr>cf_Servers := gm_update alias (Some (s\<lparr>sv_KeyPath := path, sv_Auth := AuthKey\<rparr>)) (cf_Servers cfg)\<rparr>))"

definition gen_reply :: "string \<Rightarrow> string \<Rightarrow> string \<Rightarrow> bool \<Rightarrow> string \<Rightarrow> json" where
  "gen_reply alias expanded pub persisted note =
    JObj [(''alias'', JStr alias), (''key_path'', JStr expanded), (''public_key'', JStr (TrimSpace pub)), (''encrypted'', JBool True),
      (''persisted'', JBool persisted), (''note'', JStr note)]"

text \<open>The part after the passphrase is known.\<close>

definition gen_key :: "gen_env \<Rightarrow> string \<Rightarrow> string \<Rightarrow> string \<Rightarrow> string \<Rightarrow> string \<Rightarrow> gen_state \<Rightarrow> gen_result" where
  "gen_key env reason alias path expanded pass st =
    (case gen_pair env expanded alias pass (gs_files st) (gs_store st) of
       (Inl e, fs, store) \<Rightarrow> (errResult ''keygen'' (ge_key_text env e), [], st\<lparr>gs_files := fs, gs_store := store, gs_config := we_seen (ge_write env)\<rparr>)
     | (Inr pub, fs, store) \<Rightarrow>
         let (persisted, note) = (if Enabled (ge_store env RememberCall) store then (True, []) else ge_agent env expanded pass) in
         (case Update (we_config (ge_write env)) (we_seen (ge_write env)) (use_key alias path) (gs_config st) of
            (Some e, file') \<Rightarrow>
              (errResult ''config'' (''update config after generating '' @ expanded @ '': '' @ we_text (ge_write env) e), [],
               \<lparr>gs_files = RemoveGeneratedKeyPair (ge_keys env) expanded fs, gs_store = store, gs_config = file'\<rparr>)
          | (None, file') \<Rightarrow>
              (gen_reply alias expanded pub persisted note, [write_audit ''gen_key'' alias reason ''ok''],
               \<lparr>gs_files = fs, gs_store = store, gs_config = file'\<rparr>)))"

definition gen_refused :: "gen_env \<Rightarrow> json \<Rightarrow> gen_state \<Rightarrow> gen_result" where
  "gen_refused env out st = (out, [], st\<lparr>gs_config := we_seen (ge_write env)\<rparr>)"

definition handleGenKey :: "gen_env \<Rightarrow> json_args \<Rightarrow> gen_state \<Rightarrow> gen_result" where
  "handleGenKey env args st =
    (if \<exists>f \<in> fst ` set args. f \<notin> {''alias'', ''path'', ''reason'', ''passphrase_file''}
     then gen_refused env (errResult ''bad_request'' ''gen_key accepts only alias, path, reason and passphrase_file; never supply a passphrase in tool arguments'') st
     else case requireReason args of None \<Rightarrow> gen_refused env (errResult ''bad_request'' reason_required) st | Some reason \<Rightarrow>
     let alias = strArg args ''alias''; path = strArg args ''path'' in
     case ge_load env of Inl text \<Rightarrow> gen_refused env (errResult ''config'' text) st | Inr cfg \<Rightarrow>
     if gm_lookup (cf_Servers cfg) alias = None then gen_refused env (errResult ''not_found'' (''unknown server '' @ quoted alias)) st
     else if path = [] then gen_refused env (errResult ''bad_request'' ''path is required'') st
     else case ge_ExpandHome env path of None \<Rightarrow> gen_refused env (errResult ''path'' (ge_home_text env)) st | Some expanded \<Rightarrow>
     case gen_passphrase env (strArg args ''passphrase_file'') st of
       (Inl out, store) \<Rightarrow> gen_refused env out (st\<lparr>gs_store := store\<rparr>)
     | (Inr pass, store) \<Rightarrow> gen_key env reason alias path expanded pass (st\<lparr>gs_store := store\<rparr>))"

section \<open>Laws\<close>

lemma clampLines_range: "1 \<le> clampLines n \<and> clampLines n \<le> 5000"
  by (auto simp: clampLines_def defaultTailLines_def maxTailLines_def)

lemma tail_lines_range: "1 \<le> tail_lines env args \<and> tail_lines env args \<le> 5000"
  using clampLines_range by (auto simp: tail_lines_def defaultTailLines_def split: option.splits json.splits)

lemma executeTailLogsRemote_events:
  assumes "executeTailLogsRemote env alias s platform path lines = (r, did)"
  shows "audits did = []" "Ran c raw \<in> set did \<Longrightarrow> \<not> raw \<and> (c = ''cmd /c ver'' \<or> (\<exists>p. c = tailCommand p path lines))"
  using assms by (auto simp: executeTailLogsRemote_def Let_def split: sum.splits prod.splits option.splits if_splits)

text \<open>What a successful generation made.\<close>

definition new_pair :: "gen_env \<Rightarrow> string \<Rightarrow> string \<Rightarrow> string \<Rightarrow> key_files \<Rightarrow> ls_state \<Rightarrow> string \<Rightarrow> bytes \<Rightarrow> key_files \<Rightarrow> bool" where
  "new_pair env path alias pass fs store line key fs' \<longleftrightarrow>
    fs path = None \<and> fs (pub_path path) = None \<and> fs' = fs(path \<mapsto> Plain key, pub_path path \<mapsto> Plain line) \<and>
    (\<exists>public priv. ke_pair (ge_keys env) = Some (public, priv) \<and> ke_marshal (ge_keys env) priv (key_comment (alias @ ''@sshm'')) pass = Some key) \<and>
    (Enabled (ge_store env RememberCall) store \<longrightarrow> fst (remember_key env path pass key store))"

lemma gen_pair_result:
  assumes "gen_pair env path alias pass fs store = (r, fs', store')" "pass \<noteq> []"
  shows "case r of Inl e \<Rightarrow> leftovers (ge_keys env) fs fs' | Inr line \<Rightarrow> \<exists>key. new_pair env path alias pass fs store line key fs'"
proof -
  define protect where "protect = (if Enabled (ge_store env RememberCall) store then Some (remember_key env path pass) else None)"
  have g: "generateED25519 (ge_keys env) path (alias @ ''@sshm'') pass protect fs store = (r, fs', store')"
    using assms by (simp add: gen_pair_def GenerateED25519Protected_def GenerateED25519Encrypted_def protect_def split: if_splits)
  note e = generation_result[OF g]
  show ?thesis
  proof (cases r)
    case (Inl x)
    then show ?thesis using e by simp
  next
    case (Inr line)
    with e obtain public priv key where k: "ke_pair (ge_keys env) = Some (public, priv)"
      "ke_marshal (ge_keys env) priv (key_comment (alias @ ''@sshm'')) pass = Some key"
      "fs' = fs(path \<mapsto> Plain key, pub_path path \<mapsto> Plain line)" "\<forall>f. protect = Some f \<longrightarrow> f key store = (True, store')"
      "fs path = None" "fs (pub_path path) = None" by auto
    then have "Enabled (ge_store env RememberCall) store \<Longrightarrow> fst (remember_key env path pass key store)" by (simp add: protect_def)
    then show ?thesis using Inr k unfolding new_pair_def by auto
  qed
qed

lemma new_pair_removed:
  assumes "new_pair env path alias pass fs store line key fs'"
  shows "leftovers (ge_keys env) fs (RemoveGeneratedKeyPair (ge_keys env) path fs')"
  using assms by (auto simp: new_pair_def leftovers_def RemoveGeneratedKeyPair_def remove_file_at)

lemma b64_split_Nil: "b64_split b = [] \<longleftrightarrow> b = []"
  by (cases b rule: b64_split.cases) auto

lemma RawStdEncode_Nil: "length b = 32 \<Longrightarrow> RawStdEncode b \<noteq> []"
  by (auto simp: RawStdEncode_def b64_split_Nil)

lemma gen_passphrase_result:
  assumes "gen_passphrase env phrase st = (Inr pass, store)" "\<forall>b. ge_random env = Some b \<longrightarrow> length b = 32"
  shows "pass \<noteq> []"
  using assms RawStdEncode_Nil
  by (auto simp: gen_passphrase_def ReadPassphraseFile_def bind_result_eq_Inr parsePassphraseLine_def Let_def split: if_splits option.splits sum.splits prod.splits)

text \<open>The two ways a generation ends.\<close>

definition gen_failed :: "gen_env \<Rightarrow> gen_state \<Rightarrow> gen_result \<Rightarrow> bool" where
  "gen_failed env st r \<longleftrightarrow> fst (snd r) = [] \<and> leftovers (ge_keys env) (gs_files st) (gs_files (snd (snd r))) \<and>
    gs_config (snd (snd r)) = we_seen (ge_write env)"

definition gen_done :: "gen_env \<Rightarrow> json_args \<Rightarrow> gen_state \<Rightarrow> gen_result \<Rightarrow> bool" where
  "gen_done env args st r \<longleftrightarrow>
    (let alias = strArg args ''alias''; path = strArg args ''path'' in
     \<exists>expanded pass line key store.
       fst (snd r) = [write_audit ''gen_key'' alias (strArg args ''reason'') ''ok''] \<and> strArg args ''reason'' \<noteq> [] \<and> path \<noteq> [] \<and>
       ge_ExpandHome env path = Some expanded \<and> pass \<noteq> [] \<and>
       new_pair env expanded alias pass (gs_files st) store line key (gs_files (snd (snd r))) \<and>
       saved (ge_write env) (use_key alias path) (gs_config st) (gs_config (snd (snd r))))"

lemma gen_key_result:
  assumes "pass \<noteq> []" "ge_ExpandHome env (strArg args ''path'') = Some expanded" "strArg args ''reason'' \<noteq> []" "strArg args ''path'' \<noteq> []"
  shows "gen_failed env st (gen_key env (strArg args ''reason'') (strArg args ''alias'') (strArg args ''path'') expanded pass st) \<or>
    gen_done env args st (gen_key env (strArg args ''reason'') (strArg args ''alias'') (strArg args ''path'') expanded pass st)"
proof -
  obtain r fs store where g: "gen_pair env expanded (strArg args ''alias'') pass (gs_files st) (gs_store st) = (r, fs, store)" by (rule prod_cases3)
  note e = gen_pair_result[OF g assms(1)]
  show ?thesis
  proof (cases r)
    case (Inl x)
    then show ?thesis using g e by (simp add: gen_key_def gen_failed_def)
  next
    case (Inr line)
    then obtain key where k: "new_pair env expanded (strArg args ''alias'') pass (gs_files st) (gs_store st) line key fs" using e by auto
    obtain err file' where u: "Update (we_config (ge_write env)) (we_seen (ge_write env)) (use_key (strArg args ''alias'') (strArg args ''path'')) (gs_config st) = (err, file')"
      by (rule prod.exhaust)
    show ?thesis
    proof (cases err)
      case (Some x)
      then show ?thesis using g u Inr new_pair_removed[OF k] Update_outcome[OF u] by (auto simp: gen_key_def gen_failed_def split: prod.splits)
    next
      case None
      then have "saved (ge_write env) (use_key (strArg args ''alias'') (strArg args ''path'')) (gs_config st) file'" using Update_outcome[OF u] by simp
      then show ?thesis using g u Inr k assms None by (auto simp: gen_key_def gen_done_def Let_def split: prod.splits)
    qed
  qed
qed

section \<open>Properties\<close>

text \<open>C26: a call of \<open>gen_key\<close>, whatever its arguments, never changes a file that exists. It either fails with no audit record, the
  configuration as it was and at most new key files that could not be removed; or it leaves exactly one audit record, a new pair whose
  private half is encoded under a non-empty passphrase and, when the device has a credential store, was accepted by that store before it was
  written, and a saved configuration in which the server uses the path, if the server is still in the document then.\<close>

theorem gen_key_keeps_or_completes:
  assumes "\<forall>b. ge_random env = Some b \<longrightarrow> length b = 32"
  shows "(\<forall>p. gs_files st p \<noteq> None \<longrightarrow> gs_files (snd (snd (handleGenKey env args st))) p = gs_files st p) \<and>
    (gen_failed env st (handleGenKey env args st) \<or> gen_done env args st (handleGenKey env args st))"
proof -
  let ?r = "handleGenKey env args st"
  have refused: "gen_failed env st (gen_refused env out (st\<lparr>gs_store := store\<rparr>))" "gen_failed env st (gen_refused env out st)" for out store
    by (simp_all add: gen_failed_def gen_refused_def leftovers_def)
  have "gen_failed env st ?r \<or> (\<exists>expanded pass store. pass \<noteq> [] \<and> ge_ExpandHome env (strArg args ''path'') = Some expanded \<and>
      strArg args ''reason'' \<noteq> [] \<and> strArg args ''path'' \<noteq> [] \<and>
      ?r = gen_key env (strArg args ''reason'') (strArg args ''alias'') (strArg args ''path'') expanded pass (st\<lparr>gs_store := store\<rparr>))"
  proof (cases "gen_passphrase env (strArg args ''passphrase_file'') st")
    case (Pair got store)
    have "pass \<noteq> []" if "got = Inr pass" for pass using gen_passphrase_result[OF _ assms] Pair that by simp
    then show ?thesis using refused Pair unfolding handleGenKey_def requireReason_def Let_def
      by (auto split: if_splits option.splits sum.splits prod.splits)
  qed
  moreover have "gen_failed env (st\<lparr>gs_store := store\<rparr>) r = gen_failed env st r" "gen_done env args (st\<lparr>gs_store := store\<rparr>) r = gen_done env args st r" for store r
    by (simp_all add: gen_failed_def gen_done_def)
  ultimately have e: "gen_failed env st ?r \<or> gen_done env args st ?r" using gen_key_result[where env = env and args = args] by metis
  moreover have "gs_files (snd (snd ?r)) p = gs_files st p" if "gs_files st p \<noteq> None" for p
    using e
  proof
    assume "gen_failed env st ?r"
    then show ?thesis using that leftovers_keep unfolding gen_failed_def by blast
  next
    assume "gen_done env args st ?r"
    then show ?thesis using that by (auto simp: gen_done_def new_pair_def Let_def)
  qed
  ultimately show ?thesis by blast
qed

text \<open>Reading a log runs nothing but the probe of the platform and a tail command of at most 5000 lines, for a reason and with exactly
  one audit record for every call that reached the network; on a POSIX system the shell reads the path as one word, whatever bytes it has.\<close>

theorem tail_logs_only_reads:
  assumes "handleTailLogs env args = (out, ev)"
  shows "(\<forall>c raw. Ran c raw \<in> set ev \<longrightarrow> \<not> raw \<and> (c = ''cmd /c ver'' \<or>
      (\<exists>platform n. 1 \<le> n \<and> n \<le> 5000 \<and> c = tailCommand platform (strArg args ''path'') n))) \<and>
    (ev \<noteq> [] \<longrightarrow> (\<exists>x. audits ev = [tail_audit (strArg args ''alias'') (strArg args ''reason'') x]) \<and> strArg args ''reason'' \<noteq> []) \<and>
    (\<forall>n path. \<exists>word. tailCommand ''posix'' path n = ''tail -n '' @ Itoa n @ '' '' @ word \<and> sh_read False (word @ '' '') = (path, '' ''))"
proof -
  have "\<not> EqualFold ''posix'' ''windows''" by code_simp
  then have word: "\<exists>word. tailCommand ''posix'' path n = ''tail -n '' @ Itoa n @ '' '' @ word \<and> sh_read False (word @ '' '') = (path, '' '')" for n path
    using shellQuoteArg_read[of path "[]"] by (auto simp: tailCommand_def)
  have tail_ran: "\<not> raw \<and> (c = ''cmd /c ver'' \<or> (\<exists>platform n. 1 \<le> n \<and> n \<le> 5000 \<and> c = tailCommand platform (strArg args ''path'') n))"
    if "executeTailLogsRemote env al s platform (strArg args ''path'') (tail_lines env args) = (r, did)" "Ran c raw \<in> set did"
    for al s platform r did c raw
    using executeTailLogsRemote_events(2)[OF that] tail_lines_range[of env args] by auto
  consider "ev = []" | s platform r did x where
      "executeTailLogsRemote env (strArg args ''alias'') s platform (strArg args ''path'') (tail_lines env args) = (r, did)"
      "strArg args ''reason'' \<noteq> []" "ev = did @ [tail_audit (strArg args ''alias'') (strArg args ''reason'') x]"
    using assms unfolding handleTailLogs_def requireReason_def Let_def
    by (auto split: if_splits option.splits sum.splits prod.splits tail_failure.splits)
  then show ?thesis
  proof cases
    case 1
    then show ?thesis using word by simp
  next
    case 2
    have "Ran c raw \<in> set did" if "Ran c raw \<in> set ev" for c raw using that 2(3) by (simp add: tail_audit_def)
    moreover have "audits ev = [tail_audit (strArg args ''alias'') (strArg args ''reason'') x]"
      using executeTailLogsRemote_events(1)[OF 2(1)] 2(3) by (simp add: tail_audit_def)
    ultimately show ?thesis using tail_ran[OF 2(1)] 2(2) word by blast
  qed
qed

section \<open>Witnesses\<close>

definition tail_args :: json_args where
  "tail_args = [(''reason'', JStr ''check''), (''alias'', JStr ''web''), (''path'', JStr ''/l''), (''platform'', JStr ''posix'')]"

lemma tail_demo_events: "snd (handleTailLogs exec_demo tail_args) =
  [Net (Contact (SocksConn ''10.0.0.9:1080'' ''10.0.0.5:22'')), Net (Contact (DirectConn ''10.0.0.5:22'')), Net (Authenticate ''10.0.0.5:22'' [] False),
   Net (UsedAlias ''web''), Ran (tailCommand ''posix'' ''/l'' 100) False, tail_audit ''web'' ''check'' ''ok'']"
proof -
  have "Dial example_env (Some example_target) (zero_opts\<lparr>bo_Alias := ''web''\<rparr>) = (Inr (DirectConn ''10.0.0.5:22'', kindDirect),
      [Contact (SocksConn ''10.0.0.9:1080'' ''10.0.0.5:22''), Contact (DirectConn ''10.0.0.5:22''), Authenticate ''10.0.0.5:22'' [] False, UsedAlias ''web''])"
    by code_simp
  moreover have "zero_opts\<lparr>bo_ConfigPath := [], bo_Alias := ''web''\<rparr> = zero_opts\<lparr>bo_Alias := ''web''\<rparr>" by (simp add: zero_opts_def)
  moreover have "tail_platform tail_args = Some ''posix''" "strArg tail_args ''reason'' = ''check''" "strArg tail_args ''alias'' = ''web''"
    "strArg tail_args ''path'' = ''/l''" by code_simp+
  moreover have "tail_lines exec_demo tail_args = 100" by (simp add: tail_lines_def tail_args_def defaultTailLines_def)
  ultimately show ?thesis
    by (simp add: handleTailLogs_def executeTailLogsRemote_def exec_demo_def requireReason_def gm_lookup_of_list sshOptions_def Let_def)
qed

theorem tail_logs_only_reads_witness:
  "(tailCommand ''posix'' ''/l'' 100 = ''cmd /c ver'' \<or>
     (\<exists>platform n. 1 \<le> n \<and> n \<le> 5000 \<and> tailCommand ''posix'' ''/l'' 100 = tailCommand platform ''/l'' n)) \<and>
   strArg tail_args ''reason'' \<noteq> [] \<and> (\<exists>word. tailCommand ''posix'' ''/l'' 100 = ''tail -n '' @ Itoa 100 @ '' '' @ word \<and> sh_read False (word @ '' '') = (''/l'', '' ''))"
proof -
  have ran: "Ran (tailCommand ''posix'' ''/l'' 100) False \<in> set (snd (handleTailLogs exec_demo tail_args))" unfolding tail_demo_events by simp
  then have ne: "snd (handleTailLogs exec_demo tail_args) \<noteq> []" by auto
  have path: "strArg tail_args ''path'' = ''/l''" by code_simp
  note t = tail_logs_only_reads[OF prod.collapse[symmetric], of exec_demo tail_args, unfolded path]
  from t[THEN conjunct1] ran have "tailCommand ''posix'' ''/l'' 100 = ''cmd /c ver'' \<or>
     (\<exists>platform n. 1 \<le> n \<and> n \<le> 5000 \<and> tailCommand ''posix'' ''/l'' 100 = tailCommand platform ''/l'' n)" by blast
  moreover from t[THEN conjunct2, THEN conjunct1] ne have "strArg tail_args ''reason'' \<noteq> []" by blast
  moreover from t[THEN conjunct2, THEN conjunct2]
  have "\<exists>word. tailCommand ''posix'' ''/l'' 100 = ''tail -n '' @ Itoa 100 @ '' '' @ word \<and> sh_read False (word @ '' '') = (''/l'', '' '')" by blast
  ultimately show ?thesis by blast
qed

definition demo_gen :: gen_env where
  "demo_gen = \<lparr>ge_write = edit_demo, ge_load = Inr (New\<lparr>cf_Servers := gm_update ''w'' (Some zero_server) gm_empty\<rparr>), ge_home = None, ge_home_text = [],
     ge_keys = demo_keys, ge_key_text = \<lambda>_. [], ge_store = \<lambda>_. demo_env, ge_store_text = \<lambda>_. [], ge_random = Some (replicate 32 (CHR ''r'')),
     ge_agent = \<lambda>_ _. (True, [])\<rparr>"

definition gen_args :: json_args where
  "gen_args = [(''reason'', JStr ''rotate''), (''alias'', JStr ''w''), (''path'', JStr ''/k''), (''passphrase_file'', JStr ''/p'')]"

definition gen_start :: gen_state where
  "gen_start = \<lparr>gs_files = [''/p'' \<mapsto> Plain (''secret'' @ [newline])], gs_store = \<lparr>st_file = None, st_locked = False\<rparr>, gs_config = Some []\<rparr>"

theorem gen_key_keeps_or_completes_witness:
  "gs_files (snd (snd (handleGenKey demo_gen gen_args gen_start))) ''/p'' = Some (Plain (''secret'' @ [newline])) \<and>
   gen_done demo_gen gen_args gen_start (handleGenKey demo_gen gen_args gen_start)"
proof -
  have a: "strArg gen_args ''reason'' = ''rotate''" "strArg gen_args ''alias'' = ''w''" "strArg gen_args ''path'' = ''/k''" "strArg gen_args ''passphrase_file'' = ''/p''"
    "pub_path ''/k'' = ''/k.pub''" "TrimSpace ''/p'' = ''/p''" by code_simp+
  have p: "parsePassphraseLine (''secret'' @ [newline]) = Some ''secret''" by code_simp
  have d: "ge_write demo_gen = edit_demo" "ge_load demo_gen = Inr (New\<lparr>cf_Servers := gm_update ''w'' (Some zero_server) gm_empty\<rparr>)"
    "we_seen edit_demo = Some []" "gs_config gen_start = Some []" "fst ` set gen_args = {''reason'', ''alias'', ''path'', ''passphrase_file''}"
    by (simp_all add: demo_gen_def edit_demo_def gen_start_def gen_args_def)
  have "gen_passphrase demo_gen ''/p'' gen_start = (Inr ''secret'', gs_store gen_start)"
    using p by (simp add: gen_passphrase_def a ge_ExpandHome_def HasPrefix_def ReadPassphraseFile_def readPrivatePassphraseFile_def demo_gen_def demo_keys_def gen_start_def)
  moreover obtain line fs where "gen_pair demo_gen ''/k'' ''w'' ''secret'' (gs_files gen_start) (gs_store gen_start) = (Inr line, fs, gs_store gen_start)"
    by (simp add: gen_pair_def Enabled_def demo_gen_def demo_env_def gen_start_def GenerateED25519Encrypted_def generateED25519_def demo_keys_def a
        write_pair_def writeNewKeyFile_def Let_def)
  moreover have "Update (we_config edit_demo) (Some []) (use_key ''w'' ''/k'') (Some []) = (None, Some ''w'')"
    by (simp add: edit_demo_def write_demo_def Update_def UpdateWithSource_def saveUnlockedIfUnchanged_def saveLocalJSON_def test_env_def ValidateProjects_def
        applyCloudBindings_def New_def use_key_def bump_version_def gm_keys_update decodeConfig_def CurrentVersion_def server_at_def)
  ultimately have "fst (snd (handleGenKey demo_gen gen_args gen_start)) \<noteq> []"
    using d by (simp add: handleGenKey_def a requireReason_def gen_key_def ge_ExpandHome_def HasPrefix_def Let_def split: prod.splits)
  then have "\<not> gen_failed demo_gen gen_start (handleGenKey demo_gen gen_args gen_start)" by (simp add: gen_failed_def)
  moreover have "\<forall>b. ge_random demo_gen = Some b \<longrightarrow> length b = 32" "gs_files gen_start ''/p'' = Some (Plain (''secret'' @ [newline]))"
    by (simp_all add: demo_gen_def gen_start_def)
  ultimately show ?thesis using gen_key_keeps_or_completes[of demo_gen gen_start gen_args] by simp
qed

end
