(* ===== verification/Status_Probe.thy ===== *)
theory Status_Probe
  imports Ssh_Transport
begin

text \<open>
  \<open>internal/status\<close> with \<open>internal/ssh/probe.go\<close>: whether a server can be reached over its route, the bounded pool that probes many
  servers at once as a step relation, and the snapshot of a running system. What a connection yields and when a context ends are
  parameters.
\<close>

section \<open>One probe\<close>

record probe_env =
  pe_ssh :: ssh_env
  pe_dial_text :: "dial_error \<Rightarrow> string"
  pe_late :: "Server \<Rightarrow> string option" \<comment> \<open>the error of the context, when it ends before the result\<close>
  pe_line :: "conn \<Rightarrow> nat \<Rightarrow> string + string" \<comment> \<open>each read of a line: an error or the line\<close>
  pe_elapsed :: "Server \<Rightarrow> int"
  pe_completed :: "Server option \<Rightarrow> gotime"

text \<open>The first fifty lines of a proxy command: the banner of SSH, or an error.\<close>

fun banner_error :: "(nat \<Rightarrow> string + string) \<Rightarrow> nat \<Rightarrow> string option" where
  "banner_error line 0 = Some ''proxy-command did not reach an SSH endpoint''"
| "banner_error line (Suc k) =
    (case line (50 - Suc k) of Inl e \<Rightarrow> Some e | Inr l \<Rightarrow> if HasPrefix l ''SSH-'' then None else banner_error line k)"

text \<open>The connection goes on when the context ends first, so its contacts count in either case.\<close>

definition ProbeRoute :: "probe_env \<Rightarrow> Server option \<Rightarrow> BuildOpts \<Rightarrow> (string \<times> string option) \<times> ssh_event list" where
  "ProbeRoute env target opts0 =
    (case target of None \<Rightarrow> ((''direct'', Some ''SSH target is required''), []) | Some s \<Rightarrow>
     let kind = fst (resolveRouteTransportKind (pe_ssh env) s (bo_StrictRoute opts0)); opts = opts0\<lparr>bo_ProbeOnly := True\<rparr>;
         (r, used, ev) = dialTransportKind (pe_ssh env) s opts False;
         err = (case r of Inl e \<Rightarrow> Some (pe_dial_text env e)
                | Inr c \<Rightarrow> if used = kindProxyCommand then banner_error (pe_line env c) 50 else None) in
     (case pe_late env s of Some text \<Rightarrow> ((kind_String kind, Some text), ev) | None \<Rightarrow> ((kind_String used, err), ev)))"

record ProbeResult =
  pr_Route :: string
  pr_Reachable :: bool
  pr_Latency :: int
  pr_Error :: string
  pr_ObservedAt :: gotime

definition ProbeWithOptions :: "probe_env \<Rightarrow> Server option \<Rightarrow> BuildOpts \<Rightarrow> ProbeResult \<times> ssh_event list" where
  "ProbeWithOptions env s opts =
    (case ProbeRoute env s opts of
       ((route, Some text), ev) \<Rightarrow>
         (\<lparr>pr_Route = route, pr_Reachable = False, pr_Latency = 0, pr_Error = text, pr_ObservedAt = pe_completed env s\<rparr>, ev)
     | ((route, None), ev) \<Rightarrow>
         (\<lparr>pr_Route = route, pr_Reachable = True, pr_Latency = (case s of None \<Rightarrow> 0 | Some x \<Rightarrow> pe_elapsed env x), pr_Error = [],
           pr_ObservedAt = pe_completed env s\<rparr>, ev))"

definition Probe :: "probe_env \<Rightarrow> Server option \<Rightarrow> ProbeResult \<times> ssh_event list" where
  "Probe env s = ProbeWithOptions env s zero_opts"

section \<open>Many probes\<close>

text \<open>The loop that launches goroutines, the semaphore they release, and the results collected afterwards. The servers still to be
  launched are in the order the map is ranged over.\<close>

record pool =
  pl_todo :: "string list"
  pl_running :: "string list"
  pl_done :: "(string \<times> ProbeResult) list"
  pl_launched :: "string list"
  pl_cancelled :: bool

definition maxConc :: nat where "maxConc = 16"

inductive pool_step :: "(string \<Rightarrow> ProbeResult) \<Rightarrow> pool \<Rightarrow> pool \<Rightarrow> bool" for outcome where
  pool_launch: "pl_todo p = a # rest \<Longrightarrow> \<not> pl_cancelled p \<Longrightarrow> length (pl_running p) < maxConc \<Longrightarrow>
    pool_step outcome p (p\<lparr>pl_todo := rest, pl_running := pl_running p @ [a], pl_launched := pl_launched p @ [a]\<rparr>)"
| pool_finish: "a \<in> set (pl_running p) \<Longrightarrow>
    pool_step outcome p (p\<lparr>pl_running := remove1 a (pl_running p), pl_done := pl_done p @ [(a, outcome a)]\<rparr>)"
| pool_cancel: "\<not> pl_cancelled p \<Longrightarrow> pool_step outcome p (p\<lparr>pl_cancelled := True\<rparr>)"
| pool_break: "pl_todo p \<noteq> [] \<Longrightarrow> pl_cancelled p \<Longrightarrow> pool_step outcome p (p\<lparr>pl_todo := []\<rparr>)"

inductive_cases pool_stepE: "pool_step outcome p p'"

definition pool_start :: "string list \<Rightarrow> pool" where
  "pool_start order = \<lparr>pl_todo = order, pl_running = [], pl_done = [], pl_launched = [], pl_cancelled = False\<rparr>"

definition pool_finished :: "pool \<Rightarrow> bool" where
  "pool_finished p \<longleftrightarrow> pl_todo p = [] \<and> pl_running p = []"

definition pool_results :: "pool \<Rightarrow> (string, ProbeResult) gomap" where
  "pool_results p = gm_of_list (pl_done p)"

text \<open>What a call of \<open>ProbeManyWithOptions\<close> may return, for some order of the map and some interleaving.\<close>

definition probe_outcome :: "probe_env \<Rightarrow> server_map \<Rightarrow> BuildOpts \<Rightarrow> string \<Rightarrow> ProbeResult" where
  "probe_outcome env servers opts a = fst (ProbeWithOptions env (server_at servers a) opts)"

definition ProbeManyWithOptions :: "probe_env \<Rightarrow> server_map \<Rightarrow> BuildOpts \<Rightarrow> string list \<Rightarrow> (string, ProbeResult) gomap \<Rightarrow> bool" where
  "ProbeManyWithOptions env servers opts order results \<longleftrightarrow>
    (\<exists>p. (pool_step (probe_outcome env servers opts))\<^sup>*\<^sup>* (pool_start order) p \<and> pool_finished p \<and> results = pool_results p)"

definition ProbeMany :: "probe_env \<Rightarrow> server_map \<Rightarrow> string list \<Rightarrow> (string, ProbeResult) gomap \<Rightarrow> bool" where
  "ProbeMany env servers order results \<longleftrightarrow> ProbeManyWithOptions env servers zero_opts order results"

section \<open>Snapshots\<close>

record StatusSnapshot =
  ss_Uptime :: string
  ss_Load :: string
  ss_Memory :: string
  ss_Disk :: string
  ss_OpenPorts :: "string list"
  ss_FailedLogins :: int

definition zero_status :: StatusSnapshot where
  "zero_status = \<lparr>ss_Uptime = [], ss_Load = [], ss_Memory = [], ss_Disk = [], ss_OpenPorts = [], ss_FailedLogins = 0\<rparr>"

definition snapshotScript :: string where
  "snapshotScript =
    ''echo \"=UPTIME=\" && { uptime -p 2>/dev/null || uptime 2>/dev/null; }'' @ [newline] @
    ''echo \"=LOAD=\" && cat /proc/loadavg 2>/dev/null | awk '' @ [CHR 0x27] @ ''{print $1, $2, $3}'' @ [CHR 0x27, newline] @
    ''echo \"=MEM=\" && free -h 2>/dev/null | awk '' @ [CHR 0x27] @ ''/^Mem:/{print \"Mem:\", $2, $3, $4}'' @ [CHR 0x27, newline] @
    ''echo \"=DISK=\" && df -h / 2>/dev/null | awk '' @ [CHR 0x27] @ ''NR==2{print $1, $2, $3, $5}'' @ [CHR 0x27, newline] @
    ''echo \"=PORTS=\" && (ss -tlnH 2>/dev/null || netstat -tln 2>/dev/null) | grep -oE '' @ [CHR 0x27] @ '':[0-9]+'' @ [CHR 0x27] @ '' | tr -d '' @
      [CHR 0x27] @ '': '' @ [CHR 0x27] @ '' | sort -un | tr '' @ [CHR 0x27, CHR 0x5C, CHR ''n'', CHR 0x27] @ '' '' @ [CHR 0x27] @ '' '' @ [CHR 0x27, newline] @
    ''echo \"=FAILED=\" && (grep -c \"Failed password\" /var/log/auth.log /var/log/secure 2>/dev/null | awk -F: '' @
      [CHR 0x27] @ ''{s+=$2} END{print s+0}'' @ [CHR 0x27] @ '')''"

definition snapshot_line :: "string \<Rightarrow> string \<Rightarrow> StatusSnapshot \<Rightarrow> StatusSnapshot" where
  "snapshot_line part t s =
    (if part = ''UPTIME'' then s\<lparr>ss_Uptime := t\<rparr>
     else if part = ''LOAD'' then s\<lparr>ss_Load := t\<rparr>
     else if part = ''MEM'' then s\<lparr>ss_Memory := t\<rparr>
     else if part = ''DISK'' then s\<lparr>ss_Disk := t\<rparr>
     else if part = ''PORTS'' then s\<lparr>ss_OpenPorts := Fields t\<rparr>
     else if part = ''FAILED'' then (case Atoi t of (n, ok) \<Rightarrow> if ok then s\<lparr>ss_FailedLogins := n\<rparr> else s)
     else s)"

fun parse_snapshot :: "string \<Rightarrow> StatusSnapshot \<Rightarrow> string list \<Rightarrow> StatusSnapshot" where
  "parse_snapshot part s [] = s"
| "parse_snapshot part s (line # lines) =
    (let t = TrimSpace line in
     if HasPrefix t ''='' \<and> HasSuffix t ''='' then parse_snapshot (Trim t ''='') s lines
     else if t = [] then parse_snapshot part s lines
     else parse_snapshot part (snapshot_line part t s) lines)"

definition ParseSnapshot :: "string \<Rightarrow> StatusSnapshot" where
  "ParseSnapshot raw = parse_snapshot [] zero_status (Split_byte raw newline)"

section \<open>Laws\<close>

definition pool_inv :: "(string \<Rightarrow> ProbeResult) \<Rightarrow> string list \<Rightarrow> pool \<Rightarrow> bool" where
  "pool_inv outcome order p \<longleftrightarrow> length (pl_running p) \<le> maxConc \<and>
    (\<exists>rest. order = pl_launched p @ rest \<and> (pl_todo p = rest \<or> pl_cancelled p \<and> pl_todo p = [])) \<and>
    mset (pl_launched p) = mset (pl_running p) + mset (map fst (pl_done p)) \<and> (\<forall>(a, r) \<in> set (pl_done p). r = outcome a)"

lemma pool_inv_step: "pool_inv outcome order p \<Longrightarrow> pool_step outcome p p' \<Longrightarrow> pool_inv outcome order p'"
  by (erule pool_stepE) (auto simp: pool_inv_def length_remove1)

interpretation pool: step_system "\<lambda>p. p = pool_start order" "pool_step outcome" "pool_inv outcome order" for outcome order
  by unfold_locales (simp add: pool_inv_def pool_start_def, rule pool_inv_step)

text \<open>Every step makes progress, and a pool that is not finished can step: a call returns.\<close>

definition pool_work :: "pool \<Rightarrow> nat" where
  "pool_work p = 2 * length (pl_todo p) + length (pl_running p) + (if pl_cancelled p then 0 else 1)"

lemma pool_step_work: "pool_step outcome p p' \<Longrightarrow> pool_work p' < pool_work p"
  by (erule pool_stepE) (auto simp: pool_work_def length_remove1 dest: length_pos_if_in_set)

lemma pool_progress: "pool_finished p \<or> (\<exists>p'. pool_step outcome p p')"
proof (cases "pl_running p")
  case Nil
  show ?thesis
  proof (cases "pl_todo p")
    case (Cons a rest)
    then show ?thesis using Nil pool_launch[of p a rest outcome] pool_break[of p outcome] by (auto simp: maxConc_def)
  qed (simp add: pool_finished_def Nil)
next
  case (Cons a running)
  then show ?thesis using pool_finish[of a p outcome] by auto
qed

lemma pool_returns: "\<exists>p'. (pool_step outcome)\<^sup>*\<^sup>* p p' \<and> pool_finished p'"
proof (induction p rule: measure_induct_rule[of pool_work])
  case (less p)
  show ?case
  proof (cases "pool_finished p")
    case False
    then obtain p1 where "pool_step outcome p p1" using pool_progress by blast
    moreover from this less pool_step_work obtain p' where "(pool_step outcome)\<^sup>*\<^sup>* p1 p'" "pool_finished p'" by blast
    ultimately show ?thesis by (meson converse_rtranclp_into_rtranclp)
  qed blast
qed

lemma pool_finished_results:
  assumes "pool_inv outcome order p" "pool_finished p"
  shows "gm_lookup (pool_results p) a = (if a \<in> set (pl_launched p) then Some (outcome a) else None)"
proof -
  have "mset (pl_launched p) = mset (map fst (pl_done p))" using assms by (simp add: pool_inv_def pool_finished_def)
  then have "set (pl_launched p) = fst ` set (pl_done p)" by (metis set_mset_mset set_map mset_map)
  moreover have "map_of d a = (if a \<in> fst ` set d then Some (outcome a) else None)" if "\<forall>(a, r) \<in> set d. r = outcome a" for d
    using that by (induction d) auto
  moreover have "\<forall>(a, r) \<in> set (pl_done p). r = outcome a" using assms(1) by (simp add: pool_inv_def)
  ultimately show ?thesis by (simp add: pool_results_def gm_lookup_of_list)
qed

text \<open>A probe authenticates to nothing but a jump host and records no use.\<close>

definition is_contact :: "ssh_event \<Rightarrow> bool" where "is_contact e \<longleftrightarrow> (\<exists>c. e = Contact c)"
definition is_authentication :: "ssh_event \<Rightarrow> bool" where "is_authentication e \<longleftrightarrow> (\<exists>a p i. e = Authenticate a p i)"

lemma transport_contacts:
  assumes "fst (resolveRouteTransportKind env s (bo_StrictRoute opts)) \<noteq> kindProxyJump"
  shows "list_all is_contact (snd (snd (dialTransportKind env s opts False)))"
proof -
  obtain k p a where r: "resolveRouteTransportKind env s (bo_StrictRoute opts) = (k, p, a)" by (rule prod_cases3)
  then show ?thesis using assms dial_no_jump[OF r] by (simp add: is_contact_def)
qed

lemma jump_probe_events:
  assumes "bo_ProbeOnly opts"
  shows "list_all (\<lambda>e. is_contact e \<or> is_authentication e) (snd (dialViaJump env s spec opts))"
proof (cases "jump_target env s spec opts")
  case (Inr t)
  obtain jump al jopts where t: "t = (jump, al, jopts)" by (rule prod_cases3)
  obtain r k ev where d: "dialTransportKind env (jump\<lparr>sv_ProxyJump := []\<rparr>) jopts False = (r, k, ev)" by (rule prod_cases3)
  have "list_all is_contact ev" using transport_contacts[OF no_second_jump, of env jump jopts] d by simp
  then have "list_all (\<lambda>e. is_contact e \<or> is_authentication e) ev" by (simp add: list_all_iff)
  then show ?thesis using Inr t d assms
    by (auto simp: dialViaJump.simps Let_def is_contact_def[of "Contact _"] is_authentication_def[of "Authenticate _ _ _"] split: sum.splits)
qed (simp add: dialViaJump.simps)

lemma probe_transport_events:
  assumes "bo_ProbeOnly opts"
  shows "list_all (\<lambda>e. is_contact e \<or> is_authentication e \<and> fst (resolveRouteTransportKind env s (bo_StrictRoute opts)) = kindProxyJump)
    (snd (snd (dialTransportKind env s opts False)))"
proof (cases "fst (resolveRouteTransportKind env s (bo_StrictRoute opts)) = kindProxyJump")
  case True
  then obtain spec a where "resolveRouteTransportKind env s (bo_StrictRoute opts) = (kindProxyJump, spec, a)" by (metis prod.collapse)
  then show ?thesis using jump_probe_events[OF assms, of env s spec] by (cases "dialViaJump env s spec opts") (simp add: dialTransportKind.simps)
next
  case False
  then show ?thesis using transport_contacts[of env s opts] by (simp add: list_all_iff)
qed

lemma probe_events:
  "list_all (\<lambda>e. is_contact e \<or> is_authentication e \<and> fst (resolveRouteTransportKind (pe_ssh env) s (bo_StrictRoute opts)) = kindProxyJump)
    (snd (ProbeWithOptions env (Some s) opts))"
  using probe_transport_events[of "opts\<lparr>bo_ProbeOnly := True\<rparr>" "pe_ssh env" s]
  by (auto simp: ProbeWithOptions_def ProbeRoute_def Let_def split: prod.splits option.splits)

section \<open>Properties\<close>

text \<open>C39: probing many servers never runs more than sixteen probes at once, always returns, and whatever the interleaving returns exactly
  the results of the probes that were launched: those of every server unless the context was cancelled, and then those of the first
  servers in the order of the range. Every step leaves strictly less to do.\<close>

theorem probes_bounded_and_complete:
  assumes "(pool_step (probe_outcome env servers opts))\<^sup>*\<^sup>* (pool_start order) p"
  shows "(\<exists>results. ProbeManyWithOptions env servers opts order results) \<and> length (pl_running p) \<le> 16 \<and>
    (\<forall>p'. pool_step (probe_outcome env servers opts) p p' \<longrightarrow> pool_work p' < pool_work p) \<and>
    (pool_finished p \<or> (\<exists>p'. pool_step (probe_outcome env servers opts) p p')) \<and>
    (pool_finished p \<longrightarrow> prefix (pl_launched p) order \<and> (\<not> pl_cancelled p \<longrightarrow> pl_launched p = order) \<and>
       (\<forall>a. gm_lookup (pool_results p) a =
         (if a \<in> set (pl_launched p) then Some (fst (ProbeWithOptions env (server_at servers a) opts)) else None)))"
proof -
  let ?o = "probe_outcome env servers opts"
  have i: "pool_inv ?o order p" by (rule pool.reachable_inv[OF refl assms])
  then have "prefix (pl_launched p) order" "pool_finished p \<Longrightarrow> \<not> pl_cancelled p \<Longrightarrow> pl_launched p = order"
    by (auto simp: pool_inv_def pool_finished_def prefix_def)
  moreover obtain p' where "(pool_step ?o)\<^sup>*\<^sup>* (pool_start order) p'" "pool_finished p'" using pool_returns by blast
  then have "ProbeManyWithOptions env servers opts order (pool_results p')" by (auto simp: ProbeManyWithOptions_def)
  ultimately show ?thesis
    using i pool_progress[of p ?o] pool_step_work[of ?o p] pool_finished_results[OF i] unfolding probe_outcome_def
    by (auto simp: pool_inv_def maxConc_def)
qed

section \<open>Witnesses\<close>

definition demo_probe :: probe_env where
  "demo_probe = \<lparr>pe_ssh = example_env, pe_dial_text = \<lambda>_. [], pe_late = \<lambda>_. None, pe_line = \<lambda>_ _. Inl [], pe_elapsed = \<lambda>_. 0, pe_completed = \<lambda>_. 0\<rparr>"

definition demo_pool :: pool where
  "demo_pool = \<lparr>pl_todo = [], pl_running = [], pl_done = [(''a'', probe_outcome demo_probe gm_empty zero_opts ''a'')], pl_launched = [''a''], pl_cancelled = False\<rparr>"

lemma demo_pool_reached: "(pool_step (probe_outcome demo_probe gm_empty zero_opts))\<^sup>*\<^sup>* (pool_start [''a'']) demo_pool"
proof -
  let ?o = "probe_outcome demo_probe gm_empty zero_opts"
  let ?p = "\<lparr>pl_todo = [], pl_running = [''a''], pl_done = [], pl_launched = [''a''], pl_cancelled = False\<rparr>"
  have "pool_step ?o (pool_start [''a'']) ?p" using pool_launch[of "pool_start [''a'']" "''a''" "[]" ?o] by (simp add: pool_start_def maxConc_def)
  moreover have "pool_step ?o ?p demo_pool" using pool_finish[of "''a''" ?p ?o] by (simp add: demo_pool_def)
  ultimately show ?thesis by (meson converse_rtranclp_into_rtranclp rtranclp.rtrancl_refl)
qed

theorem probes_bounded_and_complete_witness:
  "gm_lookup (pool_results demo_pool) ''a'' = Some (fst (ProbeWithOptions demo_probe None zero_opts))"
proof -
  have "pool_finished demo_pool" by (simp add: pool_finished_def demo_pool_def)
  then have "gm_lookup (pool_results demo_pool) ''a'' = Some (fst (ProbeWithOptions demo_probe (server_at gm_empty ''a'') zero_opts))"
    using probes_bounded_and_complete[OF demo_pool_reached] by (simp add: demo_pool_def)
  then show ?thesis by (simp add: server_at_def)
qed

end
