(* ===== verification/Mcp_Read.thy ===== *)
theory Mcp_Read
  imports Mcp_Ops Status_Probe Agent_Target
begin

text \<open>
  \<open>internal/mcp/tools_read.go\<close> with \<open>status.Collect\<close>: the tools that list, find and describe servers and check how far a connection gets.
  Only connection checks change anything, the observation of the server in the configuration. JSON renderings of times and empty lists
  and the outcome of remote commands are parameters.
\<close>

section \<open>Descriptions\<close>

record read_env =
  rd_exec :: exec_env
  rd_probe :: probe_env
  rd_write :: write_env
  rd_version :: string
  rd_order :: "string list" \<comment> \<open>the order in which the map of servers is ranged over\<close>
  rd_no_tags :: json \<comment> \<open>an empty list of tags may be nil\<close>
  rd_time :: "gotime \<Rightarrow> string" \<comment> \<open>a time in UTC\<close>
  rd_now :: "string \<Rightarrow> gotime"
  rd_late :: "run_error option" \<comment> \<open>the context of a dial, when it ends before the dial\<close>
  rd_view :: "dial_error \<Rightarrow> error_view"

definition omit_string :: "string \<Rightarrow> string \<Rightarrow> (string \<times> json) list" where
  "omit_string name v = (if v = [] then [] else [(name, JStr v)])"

definition omit_tags :: "string list \<Rightarrow> (string \<times> json) list" where
  "omit_tags tags = (if tags = [] then [] else [(''tags'', JArr (map JStr tags))])"

definition tags_json :: "read_env \<Rightarrow> string list \<Rightarrow> json" where
  "tags_json env tags = (if tags = [] then rd_no_tags env else JArr (map JStr tags))"

definition omit_time :: "read_env \<Rightarrow> string \<Rightarrow> gotime \<Rightarrow> (string \<times> json) list" where
  "omit_time env name t = (if t = 0 then [] else [(name, JStr (rd_time env t))])"

definition optionalTimestamp :: "gotime \<Rightarrow> gotime option" where
  "optionalTimestamp t = (if t = 0 then None else Some t)"

definition list_entry :: "read_env \<Rightarrow> string \<Rightarrow> Server \<Rightarrow> json" where
  "list_entry env alias s = JObj
    ([(''alias'', JStr alias), (''host'', JStr (MaskSecrets (sv_Host s))), (''user'', JStr (sv_User s))] @
     omit_string ''description'' (sv_Description s) @ (if TrimSpace (sv_Description s) = [] then [(''description_missing'', JBool True)] else []) @
     omit_string ''group'' (sv_Group s) @ omit_tags (sv_Tags s) @ omit_string ''platform'' (sv_Platform s) @
     omit_string ''last_status'' (sv_LastStatus s) @ (case optionalTimestamp (sv_LastUsed s) of None \<Rightarrow> [] | Some t \<Rightarrow> [(''last_used'', JStr (rd_time env t))]))"

text \<open>The list is nil, hence null in JSON, when there is no server.\<close>

definition listed :: "read_env \<Rightarrow> server_map \<Rightarrow> (string \<times> json) list" where
  "listed env servers =
    sort_key fst (List.map_filter (\<lambda>alias. map_option (\<lambda>s. (alias, list_entry env alias s)) (server_at servers alias)) (rd_order env))"

definition handleListServers :: "read_env \<Rightarrow> json" where
  "handleListServers env =
    (case xe_config (rd_exec env) of Inl text \<Rightarrow> errResult ''config'' text | Inr cfg \<Rightarrow>
     let list = map snd (listed env (cf_Servers cfg)) in
     JObj [(''servers'', if list = [] then JNull else JArr list), (''metadata_untrusted'', JBool True)])"

definition server_reply :: "read_env \<Rightarrow> string \<Rightarrow> Server \<Rightarrow> json" where
  "server_reply env alias s = JObj
    ([(''runtime_version'', JStr (rd_version env)), (''inventory_source'', JStr ''local''), (''alias'', JStr alias),
      (''host'', JStr (MaskSecrets (sv_Host s))), (''port'', JNum (of_int (sv_Port s))), (''user'', JStr (sv_User s)), (''auth'', JStr (sv_Auth s)),
      (''label'', JStr (sv_Label s)), (''description'', JStr (sv_Description s)), (''description_missing'', JBool (TrimSpace (sv_Description s) = [])),
      (''notes_present'', JBool (TrimSpace (sv_Notes s) \<noteq> [])), (''tags'', tags_json env (sv_Tags s)), (''group'', JStr (sv_Group s)),
      (''platform'', JStr (sv_Platform s)), (''init_state'', JStr (sv_InitState s)), (''last_status'', JStr (sv_LastStatus s)),
      (''cleanup_protected'', JBool (sv_CleanupProtected s)), (''metadata_untrusted'', JBool True)] @
     omit_time env ''created_at'' (sv_CreatedAt s) @ omit_time env ''last_used'' (sv_LastUsed s) @
     omit_time env ''identity_changed_at'' (sv_IdentityChangedAt s) @ omit_time env ''last_checked'' (sv_LastChecked s) @
     omit_time env ''last_seen'' (sv_LastSeen s))"

definition known_server :: "read_env \<Rightarrow> json_args \<Rightarrow> json + Server" where
  "known_server env args =
    (case xe_config (rd_exec env) of Inl text \<Rightarrow> Inl (errResult ''config'' text) | Inr cfg \<Rightarrow>
     case server_at (cf_Servers cfg) (strArg args ''alias'') of
       None \<Rightarrow> Inl (errResult ''not_found'' (''unknown server '' @ quoted (strArg args ''alias''))) | Some s \<Rightarrow> Inr s)"

definition handleGetServer :: "read_env \<Rightarrow> json_args \<Rightarrow> json" where
  "handleGetServer env args =
    (case known_server env args of Inl e \<Rightarrow> e | Inr s \<Rightarrow> server_reply env (strArg args ''alias'') s)"

section \<open>Search\<close>

definition search_limit :: "json_args \<Rightarrow> nat option" where
  "search_limit args =
    (case map_of args ''limit'' of
       None \<Rightarrow> Some 5
     | Some (JNum v) \<Rightarrow> if v < 1 \<or> 20 < v \<or> v \<noteq> of_int \<lfloor>v\<rfloor> then None else Some (nat \<lfloor>v\<rfloor>)
     | Some _ \<Rightarrow> None)"

definition found_entry :: "read_env \<Rightarrow> ServerMatch \<Rightarrow> json" where
  "found_entry env m =
    (let s = mt_Server m in JObj
      ([(''alias'', JStr (mt_Alias m))] @ omit_string ''description'' (sv_Description s) @ omit_string ''group'' (sv_Group s) @
       omit_tags (sv_Tags s) @ [(''user'', JStr (sv_User s)), (''host'', JStr (MaskSecrets (sv_Host s)))] @
       omit_string ''last_status'' (sv_LastStatus s) @ omit_string ''platform'' (sv_Platform s) @
       (case optionalTimestamp (sv_LastUsed s) of None \<Rightarrow> [] | Some t \<Rightarrow> [(''last_used'', JStr (rd_time env t))]) @
       [(''score'', JNum (of_int (mt_Score m))), (''matched_on'', JArr (map JStr (mt_MatchedOn m)))]))"

definition handleFindServers :: "read_env \<Rightarrow> json_args \<Rightarrow> json" where
  "handleFindServers env args =
    (let query = TrimSpace (strArg args ''query'') in
     if query = [] then errResult ''bad_request'' ''query is required''
     else case search_limit args of None \<Rightarrow> errResult ''bad_request'' ''limit must be an integer in 1..20'' | Some limit \<Rightarrow>
     case xe_config (rd_exec env) of Inl text \<Rightarrow> errResult ''config'' text | Inr cfg \<Rightarrow>
     JObj [(''query'', JStr query), (''matches'', JArr (map (found_entry env) (take limit (SearchServers (rd_order env) (cf_Servers cfg) query)))),
       (''metadata_untrusted'', JBool True)])"

section \<open>Connection checks\<close>

definition activityWarningText :: "string option \<Rightarrow> string" where
  "activityWarningText err =
    (case err of None \<Rightarrow> [] | Some text \<Rightarrow> MaskSecrets (''connectivity result returned, but activity history could not be saved: '' @ text))"

definition probe_of :: "read_env \<Rightarrow> Server \<Rightarrow> ProbeResult \<times> ssh_event list" where
  "probe_of env s =
    (let xe = rd_exec env in
     ProbeWithOptions ((rd_probe env)\<lparr>pe_ssh := xe_ssh xe\<rparr>) (Some s) (sshOptions xe (zero_opts\<lparr>bo_ConfigPath := xe_path xe, bo_ProbeOnly := True\<rparr>)))"

definition dial_of :: "read_env \<Rightarrow> string \<Rightarrow> Server \<Rightarrow> (dial_error + (conn \<times> transportKind)) \<times> ssh_event list" where
  "dial_of env alias s =
    (let xe = rd_exec env in Dial (xe_ssh xe) (Some s) (sshOptions xe (zero_opts\<lparr>bo_ConfigPath := xe_path xe, bo_Alias := alias\<rparr>)))"

text \<open>The probe of a server by its alias, and its observation in the configuration.\<close>

definition observed_probe :: "read_env \<Rightarrow> string \<Rightarrow> Server \<Rightarrow> bytes option \<Rightarrow> ProbeResult \<times> (string \<times> json) list \<times> ssh_event list \<times> bytes option" where
  "observed_probe env alias s file =
    (let we = rd_write env; (r, ev) = probe_of env s;
         (err, file') = RecordProbes (we_config we) (rd_now env) [alias] (we_seen we)
           (gm_of_list [(alias, NewProbeObservation (Some s) (pr_Reachable r) (pr_ObservedAt r))]) file;
         warning = activityWarningText (map_option (we_text we) err)
     in (r, omit_string ''activity_warning'' warning, ev, file'))"

definition milliseconds :: "int \<Rightarrow> json" where "milliseconds d = JNum (of_int (d div 1000000))"

definition handleTestConnection :: "read_env \<Rightarrow> json_args \<Rightarrow> bytes option \<Rightarrow> json \<times> tool_event list \<times> bytes option" where
  "handleTestConnection env args file =
    (case known_server env args of Inl e \<Rightarrow> (e, [], we_seen (rd_write env)) | Inr s \<Rightarrow>
     let alias = strArg args ''alias''; (r, warning, ev, file') = observed_probe env alias s file in
     (JObj ([(''alias'', JStr alias), (''reachable'', JBool (pr_Reachable r)), (''route'', JStr (pr_Route r)),
        (''latency_ms'', milliseconds (pr_Latency r)), (''error'', JStr (MaskSecrets (pr_Error r)))] @ warning), map Net ev, file'))"

datatype sshCheckLevel = sshCheckTCP | sshCheckHandshake | sshCheckAuth | sshCheckExec

fun level_string :: "sshCheckLevel \<Rightarrow> string" where
  "level_string sshCheckTCP = ''tcp''"
| "level_string sshCheckHandshake = ''handshake''"
| "level_string sshCheckAuth = ''auth''"
| "level_string sshCheckExec = ''exec''"

definition sshCheckMode :: "json_args \<Rightarrow> sshCheckLevel" where
  "sshCheckMode args =
    (let m = ToLower (TrimSpace (strArg args ''mode'')) in
     if m = ''tcp'' then sshCheckTCP else if m = ''handshake'' then sshCheckHandshake else if m = ''auth'' then sshCheckAuth else sshCheckExec)"

definition late_view :: "run_error \<Rightarrow> error_view" where
  "late_view e = \<lparr>ev_local = None, ev_canceled = (e = Canceled), ev_deadline = (e = DeadlineExceeded), ev_text = run_text e\<rparr>"

definition ssh_failed :: "string \<Rightarrow> error_view \<Rightarrow> string \<Rightarrow> (string \<times> json) list" where
  "ssh_failed text view route =
    [(''ssh'', JObj [(''ok'', JBool False), (''error'', JStr text), (''code'', JStr (FailureCategory (Some view))), (''configured_route'', JStr route)]),
     (''ok'', JBool False)]"

definition check_exec :: "read_env \<Rightarrow> (string \<times> json) list" where
  "check_exec env =
    (case xe_run (rd_exec env) ''hostname'' of
       (Some e, _) \<Rightarrow> [(''exec'', JObj [(''ok'', JBool False), (''error'', JStr (MaskSecrets (run_text e)))]), (''ok'', JBool False)]
     | (None, res) \<Rightarrow>
         [(''exec'', JObj [(''ok'', JBool (xr_ExitCode res = 0)), (''exit'', JNum (of_int (xr_ExitCode res))),
            (''stdout'', JStr (TrimSpace (MaskSecrets (xr_Stdout res)))), (''stderr'', JStr (TrimSpace (MaskSecrets (xr_Stderr res))))]),
          (''ok'', JBool (xr_ExitCode res = 0))])"

text \<open>The part after the probe. A dial that ends too late has made its contacts all the same.\<close>

definition check_dial :: "read_env \<Rightarrow> sshCheckLevel \<Rightarrow> string \<Rightarrow> Server \<Rightarrow> string \<Rightarrow> (string \<times> json) list \<times> tool_event list" where
  "check_dial env mode alias s route =
    (let (r, ev) = dial_of env alias s in
     case rd_late env of Some e \<Rightarrow> (ssh_failed (run_text e) (late_view e) route, map Net ev) | None \<Rightarrow>
     case r of Inl e \<Rightarrow> (ssh_failed (MaskSecrets (xe_dial_text (rd_exec env) e)) (rd_view env e) route, map Net ev) | Inr (_, kind) \<Rightarrow>
     let connected = [(''ssh'', JObj [(''ok'', JBool True), (''route'', JStr (kind_String kind))])] in
     if mode = sshCheckHandshake \<or> mode = sshCheckAuth then (connected @ [(''ok'', JBool True)], map Net ev)
     else (connected @ check_exec env, map Net ev @ [Ran ''hostname'' False]))"

definition handleCheckSSH :: "read_env \<Rightarrow> json_args \<Rightarrow> bytes option \<Rightarrow> json \<times> tool_event list \<times> bytes option" where
  "handleCheckSSH env args file =
    (case known_server env args of Inl e \<Rightarrow> (e, [], we_seen (rd_write env)) | Inr s \<Rightarrow>
     let alias = strArg args ''alias''; mode = sshCheckMode args; (r, warning, ev, file') = observed_probe env alias s file;
         out = [(''alias'', JStr alias), (''mode'', JStr (level_string mode)), (''runtime_version'', JStr (rd_version env)), (''inventory_source'', JStr ''local''),
           (''tcp'', JObj [(''ok'', JBool (pr_Reachable r)), (''route'', JStr (pr_Route r)), (''latency_ms'', milliseconds (pr_Latency r)),
              (''error'', JStr (MaskSecrets (pr_Error r)))])] @ warning
     in if mode = sshCheckTCP then (JObj (out @ [(''ok'', JBool (pr_Reachable r))]), map Net ev, file')
        else (case check_dial env mode alias s (pr_Route r) of (tail, did) \<Rightarrow> (JObj (out @ tail), map Net ev @ did, file')))"

section \<open>Snapshots of a system\<close>

definition Collect :: "exec_env \<Rightarrow> Server option \<Rightarrow> BuildOpts \<Rightarrow> (string + StatusSnapshot) \<times> tool_event list" where
  "Collect env s opts =
    (case Dial (xe_ssh env) s opts of
       (Inl e, ev) \<Rightarrow> (Inl (xe_dial_text env e), map Net ev)
     | (Inr _, ev) \<Rightarrow>
         (case xe_run env snapshotScript of
            (Some e, _) \<Rightarrow> (Inl (run_text e), map Net ev @ [Ran snapshotScript False])
          | (None, res) \<Rightarrow> (Inr (ParseSnapshot (xr_Stdout res)), map Net ev @ [Ran snapshotScript False])))"

definition status_json :: "StatusSnapshot \<Rightarrow> json" where
  "status_json s = JObj
    (omit_string ''uptime'' (ss_Uptime s) @ omit_string ''load'' (ss_Load s) @ omit_string ''memory'' (ss_Memory s) @ omit_string ''disk'' (ss_Disk s) @
     (if ss_OpenPorts s = [] then [] else [(''open_ports'', JArr (map JStr (ss_OpenPorts s)))]) @ [(''failed_logins'', JNum (of_int (ss_FailedLogins s)))])"

definition handleGetStatus :: "read_env \<Rightarrow> json_args \<Rightarrow> json \<times> tool_event list" where
  "handleGetStatus env args =
    (case known_server env args of Inl e \<Rightarrow> (e, []) | Inr s \<Rightarrow>
     let xe = rd_exec env; alias = strArg args ''alias'' in
     case Collect xe (Some s) (sshOptions xe (zero_opts\<lparr>bo_ConfigPath := xe_path xe, bo_Alias := alias\<rparr>)) of
       (Inl text, ev) \<Rightarrow> (errResult ''ssh'' (MaskSecrets text), ev)
     | (Inr snap, ev) \<Rightarrow> (JObj [(''alias'', JStr alias), (''status'', status_json snap)], ev))"

section \<open>Laws\<close>

text \<open>What the tools may show of a server: the masked address, whether there are notes, and no path, proxy or cloud reference.\<close>

definition public_part :: "Server \<Rightarrow> Server" where
  "public_part s = s\<lparr>sv_Host := MaskSecrets (sv_Host s), sv_Notes := (if TrimSpace (sv_Notes s) = [] then [] else ''present''),
     sv_CloudEntry := [], sv_CloudVault := [], sv_Hardware := None, sv_KeyPath := [], sv_SSHMStatus := [], sv_SSHMVersion := [],
     sv_SSHMCheckedAt := 0, sv_LastSSHChecked := 0, sv_LastSSHError := [], sv_ProxyJump := [], sv_ProxyCommand := [], sv_Proxy := [],
     sv_Forwards := []\<rparr>"

lemma public_part_shown:
  assumes "public_part s = public_part t"
  shows "list_entry env a s = list_entry env a t" "server_reply env a s = server_reply env a t"
    "sv_Host s = sv_Host t \<Longrightarrow> search_fields a s = search_fields a t"
    "found_entry env \<lparr>mt_Alias = a, mt_Server = s, mt_Score = n, mt_MatchedOn = m\<rparr> =
     found_entry env \<lparr>mt_Alias = a, mt_Server = t, mt_Score = n, mt_MatchedOn = m\<rparr>"
  using assms
  by (cases s; cases t; simp add: public_part_def list_entry_def server_reply_def search_fields_def found_entry_def split: if_splits)+

text \<open>Two documents that the tools must not tell apart.\<close>

definition same_public :: "Config \<Rightarrow> Config \<Rightarrow> bool" where
  "same_public cfg cfg' \<longleftrightarrow> (\<forall>a. map_option public_part (server_at (cf_Servers cfg) a) = map_option public_part (server_at (cf_Servers cfg') a))"

definition same_hosts :: "Config \<Rightarrow> Config \<Rightarrow> bool" where
  "same_hosts cfg cfg' \<longleftrightarrow> (\<forall>a. map_option sv_Host (server_at (cf_Servers cfg) a) = map_option sv_Host (server_at (cf_Servers cfg') a))"

lemma same_public_cases:
  assumes "same_public cfg cfg'"
  obtains "server_at (cf_Servers cfg) a = None" "server_at (cf_Servers cfg') a = None"
    | s t where "server_at (cf_Servers cfg) a = Some s" "server_at (cf_Servers cfg') a = Some t" "public_part s = public_part t"
  using assms[unfolded same_public_def, rule_format, of a]
  by (cases "server_at (cf_Servers cfg) a"; cases "server_at (cf_Servers cfg') a") auto

lemma listed_public: "same_public cfg cfg' \<Longrightarrow> listed env (cf_Servers cfg) = listed env (cf_Servers cfg')"
proof -
  assume same: "same_public cfg cfg'"
  have "map_option (\<lambda>s. (a, list_entry env a s)) (server_at (cf_Servers cfg) a) =
      map_option (\<lambda>s. (a, list_entry env a s)) (server_at (cf_Servers cfg') a)" for a
  proof (rule same_public_cases[OF same, of a])
    fix s t
    assume "server_at (cf_Servers cfg) a = Some s" "server_at (cf_Servers cfg') a = Some t" "public_part s = public_part t"
    then show ?thesis using public_part_shown(1)[of s t env a] by simp
  qed simp
  then show ?thesis unfolding listed_def by presburger
qed

text \<open>A match without its server, and the entry shown for it.\<close>

definition match_view :: "read_env \<Rightarrow> ServerMatch \<Rightarrow> string \<times> int \<times> string list \<times> json" where
  "match_view env m = (mt_Alias m, mt_Score m, mt_MatchedOn m, found_entry env m)"

lemma match_server_view:
  assumes "search_fields a s = search_fields a t" "public_part s = public_part t"
  shows "map_option (match_view env) (match_server q a s) = map_option (match_view env) (match_server q a t)"
  using assms(1) public_part_shown(4)[OF assms(2)] by (auto simp: match_server_def match_view_def Let_def split: option.splits prod.splits)

lemma sort_key_view:
  assumes "map f xs = map f ys" "\<And>x y. f x = f y \<Longrightarrow> k x = k y"
  shows "map f (sort_key k xs) = map f (sort_key k ys)"
proof -
  have ins: "map f (insort_key k x zs) = map f (insort_key k y ws)" if "f x = f y" "map f zs = map f ws" for x y zs ws
    using that
  proof (induction zs arbitrary: ws)
    case (Cons z zs)
    then obtain w ws' where w: "ws = w # ws'" "f z = f w" "map f zs = map f ws'" by (cases ws) auto
    have "map f (insort_key k x zs) = map f (insort_key k y ws')" by (rule Cons.IH[OF Cons.prems(1) w(3)])
    moreover have "k z = k w" "k x = k y" using assms(2) w(2) Cons.prems(1) by blast+
    ultimately show ?case using w Cons.prems(1) by simp
  qed simp
  show ?thesis using assms(1)
  proof (induction xs arbitrary: ys)
    case (Cons x xs)
    then obtain y ys' where "ys = y # ys'" "f x = f y" "map f xs = map f ys'" by (cases ys) auto
    then show ?case using ins[of x y "sort_key k xs" "sort_key k ys'"] Cons.IH[of ys'] by simp
  qed simp
qed

lemma search_view:
  assumes "same_public cfg cfg'" "same_hosts cfg cfg'"
  shows "map (match_view env) (SearchServers ord (cf_Servers cfg) q) = map (match_view env) (SearchServers ord (cf_Servers cfg') q)"
proof -
  have one: "map_option (match_view env) (search_one (cf_Servers cfg) q a) = map_option (match_view env) (search_one (cf_Servers cfg') q a)" for a
  proof (rule same_public_cases[OF assms(1), of a])
    fix s t
    assume st: "server_at (cf_Servers cfg) a = Some s" "server_at (cf_Servers cfg') a = Some t" "public_part s = public_part t"
    then have "sv_Host s = sv_Host t" using assms(2)[unfolded same_hosts_def, rule_format, of a] by simp
    then have "search_fields a s = search_fields a t" by (rule public_part_shown(3)[OF st(3)])
    from match_server_view[OF this st(3), of env q] show ?thesis using st(1,2) by (simp add: search_one_def)
  qed (simp add: search_one_def)
  have "map (match_view env) (List.map_filter (search_one (cf_Servers cfg) q) ord) = map (match_view env) (List.map_filter (search_one (cf_Servers cfg') q) ord)"
  proof (induction ord)
    case (Cons a ord)
    from one[of a] Cons show ?case
      by (cases "search_one (cf_Servers cfg) q a"; cases "search_one (cf_Servers cfg') q a") (simp_all add: List.map_filter_simps)
  qed (simp add: List.map_filter_simps)
  then have "map (match_view env) (sort_key match_key (List.map_filter (search_one (cf_Servers cfg) q) ord)) =
      map (match_view env) (sort_key match_key (List.map_filter (search_one (cf_Servers cfg') q) ord))"
    by (rule sort_key_view) (simp add: match_view_def match_key_def)
  then show ?thesis by (simp add: SearchServers_def)
qed

lemma found_view: "map (match_view env) ms = map (match_view env) ns \<Longrightarrow> map (found_entry env) (take n ms) = map (found_entry env) (take n ns)"
proof -
  assume "map (match_view env) ms = map (match_view env) ns"
  then have "map (snd \<circ> snd \<circ> snd) (map (match_view env) ms) = map (snd \<circ> snd \<circ> snd) (map (match_view env) ns)" by (rule arg_cong)
  then have "map (found_entry env) ms = map (found_entry env) ns" by (simp add: match_view_def comp_def)
  then show ?thesis by (metis take_map)
qed

section \<open>Properties\<close>

text \<open>C23: listing and describing servers shows nothing but their public parts: two documents that agree on these, for every alias, give the
  same replies. A search shows no more, but it also depends on the full address.\<close>

theorem read_tools_show_public_parts:
  assumes "xe_config (rd_exec env) = Inr cfg" "same_public cfg cfg'"
    "env' = env\<lparr>rd_exec := (rd_exec env)\<lparr>xe_config := Inr cfg'\<rparr>\<rparr>"
  shows "handleListServers env = handleListServers env' \<and> handleGetServer env args = handleGetServer env' args \<and>
    (same_hosts cfg cfg' \<longrightarrow> handleFindServers env args = handleFindServers env' args)"
proof -
  have same: "list_entry env' = list_entry env" "server_reply env' = server_reply env" "found_entry env' = found_entry env" "rd_order env' = rd_order env"
    by (auto simp: fun_eq_iff assms(3) list_entry_def server_reply_def found_entry_def omit_time_def tags_json_def Let_def split: option.split)
  have new: "xe_config (rd_exec env') = Inr cfg'" by (simp add: assms(3))
  have "listed env' = listed env" by (simp add: fun_eq_iff listed_def same)
  then have "handleListServers env = handleListServers env'"
    using listed_public[OF assms(2), of env] by (simp add: handleListServers_def assms(1) new)
  moreover have "handleGetServer env args = handleGetServer env' args"
  proof (rule same_public_cases[OF assms(2), of "strArg args ''alias''"])
    fix s t
    assume st: "server_at (cf_Servers cfg) (strArg args ''alias'') = Some s" "server_at (cf_Servers cfg') (strArg args ''alias'') = Some t"
      "public_part s = public_part t"
    then show ?thesis using public_part_shown(2)[OF st(3), of env] by (simp add: handleGetServer_def known_server_def assms(1) new same(2))
  qed (simp add: handleGetServer_def known_server_def assms(1) new)
  moreover have "handleFindServers env args = handleFindServers env' args" if "same_hosts cfg cfg'"
  proof -
    have found: "map (found_entry env) (take n (SearchServers ord (cf_Servers cfg) q)) = map (found_entry env) (take n (SearchServers ord (cf_Servers cfg') q))" for n ord q
      by (rule found_view[OF search_view[OF assms(2) that]])
    show ?thesis unfolding handleFindServers_def same assms(1) new by (simp only: sum.case found)
  qed
  ultimately show ?thesis by blast
qed

text \<open>How far a check must get to succeed.\<close>

definition connects :: "read_env \<Rightarrow> string \<Rightarrow> Server \<Rightarrow> bool" where
  "connects env alias s \<longleftrightarrow> rd_late env = None \<and> \<not> isl (fst (dial_of env alias s))"

definition reached :: "read_env \<Rightarrow> sshCheckLevel \<Rightarrow> string \<Rightarrow> Server \<Rightarrow> bool" where
  "reached env mode alias s \<longleftrightarrow>
    (case mode of sshCheckTCP \<Rightarrow> pr_Reachable (fst (probe_of env s))
     | sshCheckExec \<Rightarrow> connects env alias s \<and> fst (xe_run (rd_exec env) ''hostname'') = None \<and> xr_ExitCode (snd (xe_run (rd_exec env) ''hostname'')) = 0
     | _ \<Rightarrow> connects env alias s)"

lemma check_dial_result:
  assumes "check_dial env mode al s route = (tail, did)" "mode \<noteq> sshCheckTCP"
  shows "map_of tail ''ok'' = Some (JBool (reached env mode al s))" "map_of tail ''tcp'' = None"
    "Ran c raw \<in> set did \<Longrightarrow> mode = sshCheckExec \<and> c = ''hostname'' \<and> \<not> raw"
  using assms
  by (cases mode; auto simp: check_dial_def reached_def connects_def ssh_failed_def check_exec_def Let_def split: option.splits sum.splits prod.splits if_splits)+

lemma sshOptions_strict: "\<not> bo_StrictRoute opts \<Longrightarrow> bo_StrictRoute (sshOptions xe opts) = xe_cloud xe"
  by (simp add: sshOptions_def)

lemma zero_opts_route [simp]: "\<not> bo_StrictRoute zero_opts"
  by (simp add: zero_opts_def)

lemma observed_probe_result:
  assumes "observed_probe env al s file = (r, warning, ev, file')"
  shows "probe_of env s = (r, ev)" "map_of warning ''ok'' = None"
    "file' = we_seen (rd_write env) \<or> saved (rd_write env)
       (\<lambda>cfg. Inr (record_probe (rd_now env) (gm_of_list [(al, NewProbeObservation (Some s) (pr_Reachable r) (pr_ObservedAt r))]) al cfg)) file file'"
proof -
  obtain r' ev' where p: "probe_of env s = (r', ev')" by (rule prod.exhaust)
  let ?results = "gm_of_list [(al, NewProbeObservation (Some s) (pr_Reachable r') (pr_ObservedAt r'))]"
  obtain err :: "write_error store_error option" and f where u: "RecordProbes (we_config (rd_write env)) (rd_now env) [al] (we_seen (rd_write env)) ?results file = (err, f)" by (rule prod.exhaust)
  have e: "r = r'" "ev = ev'" "file' = f" "warning = omit_string ''activity_warning'' (activityWarningText (map_option (we_text (rd_write env)) err))"
    using assms p u by (simp_all add: observed_probe_def)
  have "f = we_seen (rd_write env) \<or> Update (we_config (rd_write env)) (we_seen (rd_write env)) (\<lambda>cfg. Inr (record_probe (rd_now env) ?results al cfg)) file = (err, f)"
    using u by (auto simp: RecordProbes_def split: if_splits)
  then show "file' = we_seen (rd_write env) \<or> saved (rd_write env)
       (\<lambda>cfg. Inr (record_probe (rd_now env) (gm_of_list [(al, NewProbeObservation (Some s) (pr_Reachable r) (pr_ObservedAt r))]) al cfg)) file file'"
    using Update_outcome[where env = "rd_write env" and fn = "\<lambda>cfg. Inr (record_probe (rd_now env) ?results al cfg)" and err = err] e by auto
  show "probe_of env s = (r, ev)" "map_of warning ''ok'' = None" using p e by (simp_all add: omit_string_def)
qed

text \<open>A connection check goes no further than its level. Its probe authenticates to nothing but a jump host and records no use; with
  the level \<open>tcp\<close> that is all, and no other level but \<open>exec\<close> runs a command, which is then \<open>hostname\<close>. The reply says ok exactly when
  every step up to the level succeeded, and the configuration changes at most in the observation of that server.\<close>

theorem check_ssh_stops_at_its_level:
  assumes "handleCheckSSH env args file = (JObj out, ev, file')" "known_server env args = Inr s"
  shows "(\<forall>c raw. Ran c raw \<in> set ev \<longrightarrow> sshCheckMode args = sshCheckExec \<and> c = ''hostname'' \<and> \<not> raw) \<and>
    (sshCheckMode args = sshCheckTCP \<longrightarrow> (\<forall>e \<in> set ev. \<exists>n. e = Net n \<and> (is_contact n \<or> is_authentication n \<and>
       fst (resolveRouteTransportKind (xe_ssh (rd_exec env)) s (xe_cloud (rd_exec env))) = kindProxyJump))) \<and>
    map_of out ''ok'' = Some (JBool (reached env (sshCheckMode args) (strArg args ''alias'') s)) \<and>
    (file' = we_seen (rd_write env) \<or> saved (rd_write env)
       (\<lambda>cfg. Inr (record_probe (rd_now env) (gm_of_list [(strArg args ''alias'', NewProbeObservation (Some s)
          (pr_Reachable (fst (probe_of env s))) (pr_ObservedAt (fst (probe_of env s))))]) (strArg args ''alias'') cfg)) file file')"
proof -
  obtain r warning pev f where o: "observed_probe env (strArg args ''alias'') s file = (r, warning, pev, f)" by (rule prod_cases4)
  note p = observed_probe_result[OF o]
  obtain tail did where d: "check_dial env (sshCheckMode args) (strArg args ''alias'') s (pr_Route r) = (tail, did)" by (rule prod.exhaust)
  have quiet: "list_all (\<lambda>e. is_contact e \<or> is_authentication e \<and> fst (resolveRouteTransportKind (xe_ssh (rd_exec env)) s (xe_cloud (rd_exec env))) = kindProxyJump) pev"
    using probe_events[of "(rd_probe env)\<lparr>pe_ssh := xe_ssh (rd_exec env)\<rparr>" s
        "sshOptions (rd_exec env) (zero_opts\<lparr>bo_ConfigPath := xe_path (rd_exec env), bo_ProbeOnly := True\<rparr>)"] p(1)
    by (simp add: probe_of_def Let_def sshOptions_strict)
  show ?thesis
  proof (cases "sshCheckMode args = sshCheckTCP")
    case True
    then show ?thesis using assms o p quiet by (auto simp: handleCheckSSH_def Let_def reached_def list_all_iff map_add_def)
  next
    case False
    have "\<forall>c raw. Ran c raw \<in> set did \<longrightarrow> sshCheckMode args = sshCheckExec \<and> c = ''hostname'' \<and> \<not> raw"
      using check_dial_result(3)[OF d False] by blast
    moreover have out: "out = [(''alias'', JStr (strArg args ''alias'')), (''mode'', JStr (level_string (sshCheckMode args))),
        (''runtime_version'', JStr (rd_version env)), (''inventory_source'', JStr ''local''),
        (''tcp'', JObj [(''ok'', JBool (pr_Reachable r)), (''route'', JStr (pr_Route r)), (''latency_ms'', milliseconds (pr_Latency r)),
          (''error'', JStr (MaskSecrets (pr_Error r)))])] @ warning @ tail" and ev: "ev = map Net pev @ did" and f: "file' = f"
      using False assms o d by (simp_all add: handleCheckSSH_def Let_def)
    moreover have "map_of out ''ok'' = Some (JBool (reached env (sshCheckMode args) (strArg args ''alias'') s))"
      using p(2) check_dial_result(1)[OF d False] by (simp add: out map_add_def)
    moreover have "Ran c raw \<in> set did" if "Ran c raw \<in> set ev" for c raw using that by (auto simp: ev)
    ultimately show ?thesis using False p(1,3) by auto
  qed
qed

definition one_server :: "string \<Rightarrow> Config" where
  "one_server host = New\<lparr>cf_Servers := gm_of_list [(''web'', Some (zero_server\<lparr>sv_Host := host\<rparr>))]\<rparr>"


section \<open>Witnesses\<close>

definition demo_read :: read_env where
  "demo_read = \<lparr>rd_exec = exec_demo, rd_probe = demo_probe, rd_write = write_demo, rd_version = ''1'', rd_order = [''web''], rd_no_tags = JNull,
     rd_time = \<lambda>_. [], rd_now = \<lambda>_. 1, rd_late = None, rd_view = \<lambda>_. late_view Canceled\<rparr>"

definition read_demo_args :: json_args where
  "read_demo_args = [(''alias'', JStr ''web''), (''mode'', JStr ''tcp'')]"

definition demo_inventory :: "string \<Rightarrow> Config" where
  "demo_inventory path = New\<lparr>cf_Servers := gm_of_list [(''web'', Some (example_target\<lparr>sv_KeyPath := path\<rparr>))]\<rparr>"

theorem read_tools_show_public_parts_witness:
  "handleListServers (demo_read\<lparr>rd_exec := exec_demo\<lparr>xe_config := Inr (demo_inventory ''/a'')\<rparr>\<rparr>) =
   handleListServers (demo_read\<lparr>rd_exec := exec_demo\<lparr>xe_config := Inr (demo_inventory ''/b'')\<rparr>\<rparr>)"
proof -
  let ?env = "\<lambda>path. demo_read\<lparr>rd_exec := exec_demo\<lparr>xe_config := Inr (demo_inventory path)\<rparr>\<rparr>"
  have "xe_config (rd_exec (?env ''/a'')) = Inr (demo_inventory ''/a'')" by simp
  moreover have "same_public (demo_inventory ''/a'') (demo_inventory ''/b'')"
    by (simp add: same_public_def demo_inventory_def server_at_def gm_lookup_of_list public_part_def)
  moreover have "?env ''/b'' = (?env ''/a'')\<lparr>rd_exec := (rd_exec (?env ''/a''))\<lparr>xe_config := Inr (demo_inventory ''/b'')\<rparr>\<rparr>" by simp
  ultimately show ?thesis by (rule read_tools_show_public_parts[THEN conjunct1])
qed

theorem check_ssh_stops_at_its_level_witness:
  "\<exists>out ev file'. handleCheckSSH demo_read read_demo_args None = (JObj out, ev, file') \<and>
     map_of out ''ok'' = Some (JBool (pr_Reachable (fst (probe_of demo_read example_target))))"
proof -
  have a: "strArg read_demo_args ''alias'' = ''web''" "sshCheckMode read_demo_args = sshCheckTCP" by code_simp+
  have known: "known_server demo_read read_demo_args = Inr example_target"
    by (simp add: known_server_def a demo_read_def exec_demo_def server_at_def gm_lookup_of_list)
  obtain r warning pev f where "observed_probe demo_read ''web'' example_target None = (r, warning, pev, f)" by (rule prod_cases4)
  then obtain out ev file' where "handleCheckSSH demo_read read_demo_args None = (JObj out, ev, file')"
    by (simp add: handleCheckSSH_def known Let_def a)
  then show ?thesis using check_ssh_stops_at_its_level[OF _ known] by (fastforce simp: a reached_def)
qed


end
