(* ===== verification/Spec2Isabelle.thy ===== *)
theory Spec2Isabelle
  imports Safety_Filter Safety_Mask Cleanup Local_Store Cloud_Data Pair Updater Host_Key Ssh_Transport
    Cloud_Sync Cloud_Jobs Shell_Cipher Agent_Relay Cloud_Inventory Mcp_Project Mcp_Transfer Cloud_Link Cloud_Harden Mcp_Read
begin

text \<open>
  A verification development of sshm, a Go program that keeps an inventory of SSH servers, connects to them for people and for AI
  assistants, and synchronises the inventory end-to-end encrypted through a service it does not trust. File names below are under
  \<open>src/internal\<close>.

  \<^bold>\<open>The parts and how they interact.\<close> The configuration file (\<open>config\<close>) holds servers and projects. Everything that
  changes it goes through the locked update of \<open>config/update.go\<close>: the tools an assistant may call (\<open>mcp\<close>), the cleanup review, the
  activity records of connections, and the publication of a vault. Secrets live in a store sealed by the operating system
  (\<open>localstore\<close>). The vault (\<open>cloudsync\<close>) is a document of entries and credentials, merged in three ways, sealed and
  signed under a master key and exchanged as numbered snapshots; a new device gets the master key by linking, and signed jobs and
  signed terminal requests travel the same way and are served by the agent (\<open>cloudagent\<close>). Connections follow a route, check host
  keys and offer credentials (\<open>ssh\<close>). Commands of an assistant pass the filter and everything shown or logged passes the redactor
  (\<open>safety\<close>). \<open>pair\<close> enrolls a machine over the local network, \<open>updater\<close> replaces the binary by a signed release.

  \<^bold>\<open>Theories.\<close>
  \<^item> \<open>Sshm_Prelude\<close>, \<open>Go_Strings\<close>, \<open>Go_Map\<close>, \<open>Go_Encoding\<close>, \<open>Go_Netip\<close>, \<open>Go_Regexp\<close>: the collections of facts, results, loops in any
    order, and what the code uses of Go's library. Strings are byte lists, maps are finite maps whose iteration order is an argument,
    regular expressions are a datatype with a leftmost-first matcher proved sound against an inductive matching relation.
  \<^item> \<open>Safety_Filter\<close> (\<open>safety/filter.go\<close>): the patterns of dangerous commands and \<open>IsDangerous\<close>. The verdict is characterised by
    the patterns, recursive forced removal is always caught when it is the first \<open>rm\<close>.
  \<^item> \<open>Safety_Credential\<close>, \<open>Safety_Mask\<close> (\<open>safety/credential.go\<close>, \<open>mask.go\<close>, \<open>audit.go\<close>): the scanners for plaintext credentials, with
    their cursor bounds, the rewriting of the spans they find, and one line per audit record.
  \<^item> \<open>Inventory\<close> (\<open>inventory\<close>): parsing and merging hardware snapshots, and what of them is public.
  \<^item> \<open>Config_Model\<close>, \<open>Config_Store\<close> (\<open>config\<close>): documents with validity and references, removal, search; the file with its atomic
    replacement, the locked update as a serial transaction, and the indexes beside it.
  \<^item> \<open>Cleanup\<close> (\<open>cleanup\<close>, \<open>commands/cleanup.go\<close>): the review of unused servers.
  \<^item> \<open>Ssh_Key\<close>, \<open>Local_Store\<close> (\<open>localstore\<close>): the sealed store, its transactions, and how credentials are selected for a server.
  \<^item> \<open>Cloud_Data\<close> (\<open>cloudsync/data.go\<close>, \<open>merge_additions.go\<close>, \<open>activity.go\<close>, \<open>device_entry.go\<close>): the document of the vault, import,
    conflicts, and the three-way merge, which keeps what both sides edited and respects tombstones.
  \<^item> \<open>Cloud_Vault\<close> (\<open>cloudsync/crypto.go\<close>): key derivation, sealing, signed snapshots, unlocking.
  \<^item> \<open>Cloud_Sync\<close> (\<open>cloudsync/client.go\<close>, part of \<open>local_credentials.go\<close>): the account state and its file, requests, drafts, and
    synchronisation with retries.
  \<^item> \<open>Cloud_Link\<close> (\<open>cloudsync/link.go\<close>), \<open>Cloud_Jobs\<close> (\<open>jobs.go\<close>), \<open>Shell_Cipher\<close> (\<open>shell.go\<close>), \<open>Cloud_Inventory\<close> (\<open>local_inventory.go\<close>,
    \<open>inventory_summary.go\<close>), \<open>Cloud_Harden\<close> (\<open>harden.go\<close>): linking a device, jobs that execute at most once, the encrypted frames of a
    terminal, the publication of a vault as local records, and the replacement of unencrypted key files after their backup.
  \<^item> \<open>Key_Files\<close> (\<open>keys/generate.go\<close>, \<open>passphrase_file.go\<close>, \<open>recovery.go\<close>): new key pairs, the passphrase file a user prepares, and the
    recovery copy beside a key.
  \<^item> \<open>Agent_Target\<close>, \<open>Agent_Relay\<close> (\<open>cloudagent\<close>): which server a terminal may reach and with what, and the agent's connection to the
    relay as a step relation over its sessions.
  \<^item> \<open>Host_Key\<close>, \<open>Ssh_Transport\<close> (\<open>ssh/hostkey*.go\<close>, \<open>proxy.go\<close>, \<open>dial.go\<close>, part of \<open>client.go\<close>): trust on first use with concurrent
    dials, the selection of the route, and the credentials each hop is given.
  \<^item> \<open>Pair\<close> (\<open>pair/pair.go\<close>), \<open>Updater\<close> (\<open>updater/update.go\<close>, part of \<open>commands/update.go\<close>): the one-time callback; versions,
    manifests and the replacement of the binary.
  \<^item> \<open>Status_Probe\<close> (\<open>status\<close>, \<open>ssh/probe.go\<close>): the reachability of servers, probed by a bounded pool, and snapshots of a system.
  \<^item> \<open>Mcp_Exec\<close>, \<open>Mcp_Write\<close>, \<open>Mcp_Project\<close>, \<open>Mcp_Transfer\<close>, \<open>Mcp_Ops\<close> (\<open>mcp/tools_exec.go\<close>, \<open>tools_write.go\<close>, \<open>tools_project.go\<close>,
    \<open>transfer_core.go\<close>, \<open>tools_transfer.go\<close>, \<open>tools_ops.go\<close> with \<open>bootstrap/bootstrap.go\<close>), \<open>Mcp_Read\<close> (\<open>tools_read.go\<close>): the tools of an assistant, from their JSON arguments to what reaches a server, the file and the audit log.

  \<^bold>\<open>Conventions.\<close> A Go struct is a record with the fields of the code under a two-letter prefix, an error value is a constructor
  of an error datatype, \<open>(T, error)\<close> is a sum, and a pointer that may be nil is an option. A method that changes its receiver returns
  it updated. Definitions carry the Go names (\<open>Data_Validate\<close> for a method of \<open>Data\<close>); names in lower case stand for a block of a
  function. Numbers are integers where the code cannot leave their width, and the wrap-around is written out where it can (timeouts,
  revisions, counters of frames). Concurrency is explicit: a step relation whose steps are the critical sections.

  \<^bold>\<open>Interfaces.\<close> \<open>dictionary\<close> (laws of a map, interpreted by \<open>gm\<close> on the maps of \<open>Go_Map\<close>), \<open>transaction\<close> (load, apply, store or leave
  alone; interpreted by \<open>cfg\<close> on \<open>config.Update\<close> and by \<open>ls\<close> on \<open>Store.Update\<close>), \<open>span_rewriter\<close> (replacement of disjoint spans;
  interpreted on the three rewriting passes of the redactor) and \<open>step_system\<close> (an invariant of reachable states; interpreted by \<open>tx\<close>
  on the transfer manager and by \<open>pool\<close> on the probes).

  \<^bold>\<open>Parameters.\<close> What is not under \<open>src\<close> is an argument: JSON and YAML codecs, the primitives of the vault (\<open>primitives\<close>,
  with \<open>primitives_ok\<close> for their documented behaviour), the SSH library (\<open>known_hosts_lib\<close>, \<open>key_parse\<close> results, dials), the key store
  (\<open>ls_env\<close>, with \<open>codecs_ok\<close>), the HTTP service, clocks, random values, the iteration order of maps, and for each step of the
  operating system whether it fails. Theorems about forgery name what was signed (the \<open>sgd\<close> of \<open>Cloud_Vault\<close>, \<open>approvals_known\<close>,
  \<open>separating\<close>) and nothing else about signatures.

  \<^bold>\<open>Termination and bounds.\<close> Loops over data are structural or have a measure. Three loops need not end and are partial functions with
  a theorem saying when they return: the agent's reconnection (\<open>serve_from\<close>), the copy of a file (\<open>copy_loop\<close>) and the polls of a
  link (\<open>wait_from\<close>). The retries of a synchronisation end after at most five attempts. No fuel is used: the matcher of \<open>Go_Regexp\<close> descends in the
  expression and the rest of the text.

  \<^bold>\<open>Not modelled.\<close> The command line, the terminal user interface and the interactive forms (third-party frameworks around modelled
  operations); the texts of scripts run elsewhere; key stores, service managers, sockets, pseudo terminals and file locks of the
  operating systems; SSH agents, interactive sessions and environment probes; the registration of the tools. The manifest lists each with its files.
  Wiping of secrets from memory has no counterpart in the model, and times are compared as integers.
\<close>

end
